(* ===== verification/Prelude.thy ===== *)
theory Prelude
  imports Complex_Main "HOL-Library.Word" "HOL-Library.AList"
begin

section \<open>Shared vocabulary of the fldx development\<close>

text \<open>
  What every component theory builds on: the JavaScript built-ins the dashboard and the
  client packages use (numbers with NaN and infinities, rounding, \<open>toFixed\<close>, decimal
  strings, insertion-ordered maps, \<open>slice\<close>), results that carry an error, and two
  interfaces stated as locales: an insertion-ordered map (\<open>js_map\<close>) and a transition
  system with an invariant (\<open>inv_system\<close>).

  JavaScript numbers are modelled exactly: integer-valued quantities (timestamps, token
  counts, pixel sizes of a keyboard event) are \<open>int\<close>, fractional quantities are
  \<open>rat\<close>, or \<open>real\<close> where the code calls \<open>Math.exp\<close> or \<open>Math.pow\<close>. The rounding of
  IEEE doubles is not modelled; NaN and the infinities are, as the values of
  \<open>jsnum\<close>, wherever user input or a parsed string can produce them.
\<close>

named_theorems js_simps \<open>evaluation rules of the JavaScript built-ins\<close>
named_theorems inv_intros \<open>one preservation rule per operation, for the invariant proofs\<close>

type_synonym byte = "8 word"

subsection \<open>Results\<close>

text \<open>A call that may throw or revert: \<open>Inl\<close> carries the error, \<open>Inr\<close> the value.\<close>

fun rbind :: "'e + 'a \<Rightarrow> ('a \<Rightarrow> 'e + 'b) \<Rightarrow> 'e + 'b" where
  "rbind (Inl e) f = Inl e"
| "rbind (Inr a) f = f a"

lemma rbind_Inr_iff [simp]: "rbind r f = Inr b \<longleftrightarrow> (\<exists>a. r = Inr a \<and> f a = Inr b)"
  by (cases r) auto

lemma rbind_cong [fundef_cong]:
  "r = r' \<Longrightarrow> (\<And>a. r' = Inr a \<Longrightarrow> f a = g a) \<Longrightarrow> rbind r f = rbind r' g"
  by (cases r') auto

lemma rbind_assoc: "rbind (rbind r f) g = rbind r (\<lambda>a. rbind (f a) g)"
  by (cases r) auto

text \<open>\<open>Array.prototype.map\<close> with a callback that may throw.\<close>

fun rmap :: "('a \<Rightarrow> 'e + 'b) \<Rightarrow> 'a list \<Rightarrow> 'e + 'b list" where
  "rmap f [] = Inr []"
| "rmap f (x # xs) = rbind (f x) (\<lambda>y. rbind (rmap f xs) (\<lambda>ys. Inr (y # ys)))"

lemma rmap_length: "rmap f xs = Inr ys \<Longrightarrow> length ys = length xs"
  by (induction xs arbitrary: ys) auto

subsection \<open>Numbers\<close>

text \<open>A JavaScript number, exact but for NaN and the two infinities.\<close>

datatype jsnum = NaN | NegInf | PosInf | Fin rat

fun is_finite :: "jsnum \<Rightarrow> bool" where
  "is_finite (Fin _) = True"
| "is_finite _ = False"

fun jadd :: "jsnum \<Rightarrow> jsnum \<Rightarrow> jsnum" where
  "jadd (Fin a) (Fin b) = Fin (a + b)"
| "jadd NaN _ = NaN"
| "jadd _ NaN = NaN"
| "jadd PosInf NegInf = NaN"
| "jadd NegInf PosInf = NaN"
| "jadd PosInf _ = PosInf"
| "jadd _ PosInf = PosInf"
| "jadd NegInf _ = NegInf"
| "jadd _ NegInf = NegInf"

fun jneg :: "jsnum \<Rightarrow> jsnum" where
  "jneg NaN = NaN"
| "jneg NegInf = PosInf"
| "jneg PosInf = NegInf"
| "jneg (Fin a) = Fin (- a)"

text \<open>An infinity times a finite number: NaN at zero, else the sign decides.\<close>

definition inf_scale :: "rat \<Rightarrow> jsnum \<Rightarrow> jsnum" where
  "inf_scale a i = (if a = 0 then NaN else if 0 < a then i else jneg i)"

fun jmul :: "jsnum \<Rightarrow> jsnum \<Rightarrow> jsnum" where
  "jmul (Fin a) (Fin b) = Fin (a * b)"
| "jmul NaN _ = NaN"
| "jmul _ NaN = NaN"
| "jmul (Fin a) i = inf_scale a i"
| "jmul i (Fin b) = inf_scale b i"
| "jmul PosInf i = i"
| "jmul NegInf i = jneg i"

text \<open>Comparisons with NaN are false.\<close>

fun jle :: "jsnum \<Rightarrow> jsnum \<Rightarrow> bool" where
  "jle NaN _ = False"
| "jle _ NaN = False"
| "jle (Fin a) (Fin b) = (a \<le> b)"
| "jle NegInf _ = True"
| "jle _ PosInf = True"
| "jle _ _ = False"

fun jlt :: "jsnum \<Rightarrow> jsnum \<Rightarrow> bool" where
  "jlt NaN _ = False"
| "jlt _ NaN = False"
| "jlt (Fin a) (Fin b) = (a < b)"
| "jlt NegInf NegInf = False"
| "jlt NegInf _ = True"
| "jlt PosInf _ = False"
| "jlt _ PosInf = True"
| "jlt _ _ = False"

text \<open>Division by a positive constant, the only division the money code performs.\<close>

definition jdivc :: "jsnum \<Rightarrow> rat \<Rightarrow> jsnum" where
  "jdivc a c = jmul a (Fin (1 / c))"

lemma jdivc_Fin [simp]: "jdivc (Fin a) c = Fin (a / c)"
  by (simp add: jdivc_def)

lemma jadd_zero [simp]: "jadd (Fin 0) a = a"
  by (cases a) auto

lemma jadd_assoc_Fin: "jadd (jadd (Fin a) (Fin b)) c = jadd (Fin a) (jadd (Fin b) c)"
  by (cases c) (auto simp: add.assoc)

text \<open>\<open>Math.round\<close>: ties go up.\<close>

definition js_round :: "'a::floor_ceiling \<Rightarrow> int" where
  "js_round x = \<lfloor>x + 1 / 2\<rfloor>"

lemma js_round_int [simp]: "js_round (of_int n) = n"
  by (simp add: js_round_def floor_eq_iff)

lemma js_round_error: "\<bar>of_int (js_round x) - x\<bar> \<le> 1 / 2"
  unfolding js_round_def by linarith

lemma js_round_mono: "x \<le> y \<Longrightarrow> js_round x \<le> js_round y"
  unfolding js_round_def by (rule floor_mono) simp

text \<open>\<open>Math.floor(x / n)\<close> and \<open>x % n\<close> for a non-negative \<open>x\<close>.\<close>

definition rat_rem :: "rat \<Rightarrow> rat \<Rightarrow> rat" where
  "rat_rem x n = x - n * of_int \<lfloor>x / n\<rfloor>"

lemma rat_rem_bounds:
  assumes "0 < n"
  shows "0 \<le> rat_rem x n \<and> rat_rem x n < n"
proof -
  have "of_int \<lfloor>x / n\<rfloor> * n \<le> x" "x < (of_int \<lfloor>x / n\<rfloor> + 1) * n"
    using floor_divide_lower [OF assms] floor_divide_upper [OF assms] by blast+
  then show ?thesis by (simp add: rat_rem_def algebra_simps)
qed

subsection \<open>Decimal strings\<close>

definition digit_char :: "nat \<Rightarrow> char" where
  "digit_char d = char_of (48 + d)"

fun nat_str :: "nat \<Rightarrow> string" where
  "nat_str n = (if n < 10 then [digit_char n] else nat_str (n div 10) @ [digit_char (n mod 10)])"

declare nat_str.simps [simp del]

definition int_str :: "int \<Rightarrow> string" where
  "int_str i = (if i < 0 then ''-'' @ nat_str (nat (- i)) else nat_str (nat i))"

definition char_digit :: "char \<Rightarrow> nat option" where
  "char_digit c = (let k = of_char c :: nat in if 48 \<le> k \<and> k \<le> 57 then Some (k - 48) else None)"

fun digits_val :: "nat \<Rightarrow> string \<Rightarrow> nat option" where
  "digits_val acc [] = Some acc"
| "digits_val acc (c # cs) =
     (case char_digit c of None \<Rightarrow> None | Some d \<Rightarrow> digits_val (10 * acc + d) cs)"

lemma char_digit_digit_char [simp]: "d < 10 \<Longrightarrow> char_digit (digit_char d) = Some d"
  by (simp add: char_digit_def digit_char_def)

lemma digits_val_append:
  "digits_val acc (xs @ ys) = Option.bind (digits_val acc xs) (\<lambda>a. digits_val a ys)"
  by (induction xs arbitrary: acc) (auto split: option.splits)

lemma digits_val_nat_str: "digits_val 0 (nat_str n) = Some n"
proof (induction n rule: nat_str.induct)
  case (1 n)
  show ?case
  proof (cases "n < 10")
    case True
    then show ?thesis by (subst nat_str.simps) simp
  next
    case False
    with 1 show ?thesis by (subst nat_str.simps) (simp add: digits_val_append)
  qed
qed

lemma nat_str_nonempty [simp]: "nat_str n \<noteq> []"
  by (subst nat_str.simps) simp

lemma nat_str_digits: "c \<in> set (nat_str n) \<Longrightarrow> \<exists>d<10. c = digit_char d"
proof (induction n rule: nat_str.induct)
  case (1 n)
  show ?case
  proof (cases "n < 10")
    case True
    with "1.prems" show ?thesis by (subst (asm) nat_str.simps) auto
  next
    case False
    with "1.prems" have "c \<in> set (nat_str (n div 10)) \<or> c = digit_char (n mod 10)"
      by (subst (asm) nat_str.simps) auto
    with 1 False show ?thesis by (auto intro: exI [of _ "n mod 10"])
  qed
qed

lemma nat_str_inject: "nat_str m = nat_str n \<Longrightarrow> m = n"
  by (metis digits_val_nat_str option.inject)

text \<open>\<open>padStart(w, c)\<close>.\<close>

definition pad_start :: "nat \<Rightarrow> char \<Rightarrow> string \<Rightarrow> string" where
  "pad_start w c s = replicate (w - length s) c @ s"

text \<open>\<open>toFixed(f)\<close> below \<open>10^21\<close>: the nearest multiple of \<open>10^-f\<close>, ties away from zero.\<close>

definition fixed_units :: "nat \<Rightarrow> 'a::floor_ceiling \<Rightarrow> nat" where
  "fixed_units f x = nat \<lfloor>x * 10 ^ f + 1 / 2\<rfloor>"

definition to_fixed_abs :: "nat \<Rightarrow> 'a::floor_ceiling \<Rightarrow> string" where
  "to_fixed_abs f x =
     (let m = pad_start (f + 1) (CHR ''0'') (nat_str (fixed_units f x)) in
      if f = 0 then m
      else take (length m - f) m @ ''.'' @ drop (length m - f) m)"

definition to_fixed :: "nat \<Rightarrow> 'a::floor_ceiling \<Rightarrow> string" where
  "to_fixed f x = (if x < 0 then ''-'' @ to_fixed_abs f (- x) else to_fixed_abs f x)"

fun jto_fixed :: "nat \<Rightarrow> jsnum \<Rightarrow> string" where
  "jto_fixed f NaN = ''NaN''"
| "jto_fixed f PosInf = ''Infinity''"
| "jto_fixed f NegInf = ''-Infinity''"
| "jto_fixed f (Fin x) = to_fixed f x"

text \<open>
  \<open>Number(s)\<close> on the strings the code hands it, decimal literals with an optional sign and
  fraction: the empty string is 0, and any other text is NaN. (Exponents, radix prefixes and
  surrounding white space, which JavaScript also accepts, are not modelled.)
\<close>

definition js_decimal :: "string \<Rightarrow> rat option" where
  "js_decimal s =
     (let a = takeWhile (\<lambda>c. c \<noteq> CHR ''.'') s; b = drop (length a) s in
      case b of
        [] \<Rightarrow> if a = [] then None else map_option of_nat (digits_val 0 a)
      | _ # f \<Rightarrow>
          if a = [] \<and> f = [] then None
          else Option.bind (digits_val 0 a) (\<lambda>x. Option.bind (digits_val 0 f) (\<lambda>y.
                 Some (of_nat x + of_nat y / 10 ^ length f))))"

definition js_number :: "string \<Rightarrow> jsnum" where
  "js_number s =
     (if s = [] then Fin 0
      else case js_decimal (if hd s \<in> {CHR ''-'', CHR ''+''} then tl s else s) of
             None \<Rightarrow> NaN
           | Some r \<Rightarrow> if hd s = CHR ''-'' then Fin (- r) else Fin r)"

lemma char_digit_signs [simp]:
  "char_digit (CHR ''-'') = None" "char_digit (CHR ''+'') = None" "char_digit (CHR ''.'') = None"
  by (simp_all add: char_digit_def)

lemma nat_str_digit: "c \<in> set (nat_str n) \<Longrightarrow> char_digit c \<noteq> None"
  using nat_str_digits by fastforce

lemma js_number_nat_str [simp]: "js_number (nat_str n) = Fin (of_nat n)"
proof -
  have "c \<noteq> CHR ''.''" if "c \<in> set (nat_str n)" for c
  proof
    assume "c = CHR ''.''"
    with nat_str_digit [OF that] show False by simp
  qed
  then have tw: "takeWhile (\<lambda>c. c \<noteq> CHR ''.'') (nat_str n) = nat_str n"
    by (intro takeWhile_eq_all_conv [THEN iffD2] ballI)
  have dec: "js_decimal (nat_str n) = Some (of_nat n)"
    unfolding js_decimal_def tw Let_def by (simp add: digits_val_nat_str)
  have hd: "char_digit (hd (nat_str n)) \<noteq> None"
    by (rule nat_str_digit [of _ n]) (simp add: hd_in_set)
  have "hd (nat_str n) \<noteq> CHR ''-''"
  proof
    assume "hd (nat_str n) = CHR ''-''"
    with hd show False by simp
  qed
  moreover have "hd (nat_str n) \<noteq> CHR ''+''"
  proof
    assume "hd (nat_str n) = CHR ''+''"
    with hd show False by simp
  qed
  ultimately show ?thesis by (simp add: js_number_def dec)
qed

subsection \<open>Strings\<close>

text \<open>\<open>s.slice(a, b)\<close> for \<open>0 \<le> a \<le> b\<close>, \<open>s.slice(a)\<close>, and \<open>s.slice(-k)\<close>.\<close>

definition str_slice :: "nat \<Rightarrow> nat \<Rightarrow> string \<Rightarrow> string" where
  "str_slice a b s = take (b - a) (drop a s)"

definition str_last :: "nat \<Rightarrow> string \<Rightarrow> string" where
  "str_last k s = drop (length s - k) s"

text \<open>The ellipsis, dash and dot of the user interface, as their UTF-8 bytes.\<close>

definition ellipsis :: string where
  "ellipsis = [char_of (226::nat), char_of (128::nat), char_of (166::nat)]"

definition em_dash :: string where
  "em_dash = [char_of (226::nat), char_of (128::nat), char_of (148::nat)]"

definition middle_dot :: string where
  "middle_dot = [char_of (194::nat), char_of (183::nat)]"

definition to_lower_char :: "char \<Rightarrow> char" where
  "to_lower_char c = (let k = of_char c :: nat in if 65 \<le> k \<and> k \<le> 90 then char_of (k + 32) else c)"

definition to_lower :: "string \<Rightarrow> string" where
  "to_lower s = map to_lower_char s"

lemma to_lower_char_idem [simp]: "to_lower_char (to_lower_char c) = to_lower_char c"
  by (simp add: to_lower_char_def Let_def)

lemma to_lower_idem [simp]: "to_lower (to_lower s) = to_lower s"
  by (simp add: to_lower_def)

definition str_join :: "string \<Rightarrow> string list \<Rightarrow> string" where
  "str_join sep xs = concat (case xs of [] \<Rightarrow> [] | y # ys \<Rightarrow> y # concat (map (\<lambda>z. [sep, z]) ys))"

text \<open>\<open>Array.from(new Set(xs))\<close>: each element once, at its first occurrence.\<close>

definition js_dedup :: "'a list \<Rightarrow> 'a list" where
  "js_dedup xs = rev (remdups (rev xs))"

lemma js_dedup_simps [simp]:
  "js_dedup [] = []" "set (js_dedup xs) = set xs" "distinct (js_dedup xs)"
  "js_dedup xs = [] \<longleftrightarrow> xs = []"
  by (simp_all add: js_dedup_def)

subsection \<open>Insertion-ordered maps\<close>

text \<open>
  A JavaScript \<open>Map\<close> (and a plain object with string keys) as the list of its entries in
  insertion order: \<open>set\<close> on a known key keeps the entry's place, a new key goes last.
\<close>

type_synonym ('k, 'v) jmap = "('k \<times> 'v) list"

definition jmap_get :: "('k, 'v) jmap \<Rightarrow> 'k \<Rightarrow> 'v option" where
  "jmap_get m k = map_of m k"

definition jmap_set :: "'k \<Rightarrow> 'v \<Rightarrow> ('k, 'v) jmap \<Rightarrow> ('k, 'v) jmap" where
  "jmap_set k v m = AList.update k v m"

definition jmap_delete :: "'k \<Rightarrow> ('k, 'v) jmap \<Rightarrow> ('k, 'v) jmap" where
  "jmap_delete k m = AList.delete k m"

definition jmap_keys :: "('k, 'v) jmap \<Rightarrow> 'k list" where
  "jmap_keys m = map fst m"

definition jmap_values :: "('k, 'v) jmap \<Rightarrow> 'v list" where
  "jmap_values m = map snd m"

text \<open>The laws a client of such a map relies on, and what follows from them once.\<close>

locale js_map =
  fixes lookup :: "'m \<Rightarrow> 'k \<Rightarrow> 'v option"
    and put :: "'k \<Rightarrow> 'v \<Rightarrow> 'm \<Rightarrow> 'm"
    and keys :: "'m \<Rightarrow> 'k list"
  assumes lookup_put: "lookup (put k v m) k' = (if k' = k then Some v else lookup m k')"
    and keys_put: "keys (put k v m) = (if k \<in> set (keys m) then keys m else keys m @ [k])"
    and lookup_keys: "lookup m k = None \<longleftrightarrow> k \<notin> set (keys m)"
begin

lemma set_keys_put: "set (keys (put k v m)) = insert k (set (keys m))"
  by (auto simp: keys_put)

lemma distinct_put: "distinct (keys m) \<Longrightarrow> distinct (keys (put k v m))"
  by (auto simp: keys_put)

lemma upsert_keys:
  "set (keys (fold (\<lambda>x m. put (key x) (f x (lookup m (key x))) m) xs m)) = set (keys m) \<union> key ` set xs"
  by (induction xs arbitrary: m) (auto simp: set_keys_put)

lemma upsert_distinct:
  "distinct (keys m) \<Longrightarrow> distinct (keys (fold (\<lambda>x m. put (key x) (f x (lookup m (key x))) m) xs m))"
  by (induction xs arbitrary: m) (auto simp: distinct_put)

lemma upsert_lookup:
  "lookup (fold (\<lambda>x m. put (key x) (f x (lookup m (key x))) m) xs m) k
     = fold (\<lambda>x acc. Some (f x acc)) (filter (\<lambda>x. key x = k) xs) (lookup m k)"
  by (induction xs arbitrary: m) (auto simp: lookup_put)

lemma upsert_untouched:
  "k \<notin> key ` set xs \<Longrightarrow>
   lookup (fold (\<lambda>x m. put (key x) (f x (lookup m (key x))) m) xs m) k = lookup m k"
  by (induction xs arbitrary: m) (auto simp: lookup_put)

end

lemma jmap_get_None: "jmap_get m k = None \<longleftrightarrow> k \<notin> set (jmap_keys m)"
  by (simp add: jmap_get_def jmap_keys_def map_of_eq_None_iff)

interpretation jm: js_map jmap_get jmap_set jmap_keys
proof unfold_locales
  fix k k' :: 'a and v :: 'b and m
  show "jmap_get (jmap_set k v m) k' = (if k' = k then Some v else jmap_get m k')"
    by (simp add: jmap_get_def jmap_set_def update_conv')
  show "jmap_keys (jmap_set k v m) = (if k \<in> set (jmap_keys m) then jmap_keys m else jmap_keys m @ [k])"
    by (simp add: jmap_keys_def jmap_set_def update_keys)
  show "jmap_get m k = None \<longleftrightarrow> k \<notin> set (jmap_keys m)"
    by (rule jmap_get_None)
qed

lemma jmap_delete_get: "jmap_get (jmap_delete k m) k' = (if k' = k then None else jmap_get m k')"
  by (simp add: jmap_get_def jmap_delete_def delete_conv')

lemma jmap_delete_keys: "set (jmap_keys (jmap_delete k m)) = set (jmap_keys m) - {k}"
  by (auto simp: jmap_keys_def jmap_delete_def delete_keys)

lemma jmap_delete_distinct: "distinct (jmap_keys m) \<Longrightarrow> distinct (jmap_keys (jmap_delete k m))"
  by (simp add: jmap_keys_def jmap_delete_def delete_keys distinct_removeAll)

lemma jmap_get_in: "distinct (jmap_keys m) \<Longrightarrow> (k, v) \<in> set m \<longleftrightarrow> jmap_get m k = Some v"
  by (simp add: jmap_keys_def jmap_get_def)

subsection \<open>Transition systems with an invariant\<close>

text \<open>
  A component that moves by steps: the client proves that the start satisfies the invariant
  and each step keeps it; every state of every run then satisfies it, and a monotone
  quantity of the steps is monotone over runs.
\<close>

locale inv_system =
  fixes step :: "'s \<Rightarrow> 's \<Rightarrow> bool"
    and init :: "'s \<Rightarrow> bool"
    and inv :: "'s \<Rightarrow> bool"
  assumes init_inv: "init s \<Longrightarrow> inv s"
    and step_inv: "inv s \<Longrightarrow> step s t \<Longrightarrow> inv t"
begin

lemma run_inv: "rtranclp step s t \<Longrightarrow> inv s \<Longrightarrow> inv t"
  by (induction rule: rtranclp_induct) (auto intro: step_inv)

lemma reachable_inv: "init s \<Longrightarrow> rtranclp step s t \<Longrightarrow> inv t"
  using run_inv init_inv by blast

lemma run_mono:
  assumes "rtranclp step s t" "inv s"
    and "\<And>s t. inv s \<Longrightarrow> step s t \<Longrightarrow> m s \<le> m t"
  shows "(m s :: 'o::preorder) \<le> m t"
  using assms(1)
proof (induction rule: rtranclp_induct)
  case base
  show ?case by simp
next
  case (step t u)
  from step.hyps(1) assms(2) have "inv t" by (rule run_inv)
  with assms(3) step.hyps(2) have "m t \<le> m u" by blast
  with step.IH show ?case by (rule order_trans)
qed

lemma run_stable:
  assumes "rtranclp step s t" "inv s" "P s"
    and "\<And>s t. inv s \<Longrightarrow> P s \<Longrightarrow> step s t \<Longrightarrow> P t"
  shows "P t"
  using assms(1)
proof (induction rule: rtranclp_induct)
  case base
  show ?case by (rule assms(3))
next
  case (step t u)
  from step.hyps(1) assms(2) have "inv t" by (rule run_inv)
  with assms(4) step show ?case by blast
qed

end

end
