(* ===== verification/Eth.thy ===== *)
theory Eth
  imports Prelude
begin

section \<open>Ethereum encodings (apps/dashboard/src/lib/eth.ts)\<close>

text \<open>
  The byte-level helpers of the dashboard: hex decoding, big-endian integers, the channel
  id and the six-slot message of a channel update. The hash \<open>keccak_256\<close> and the
  secp256k1 point decompression come from \<open>@noble\<close> and are parameters. \<open>Uint8Array.set\<close>
  throws a \<open>RangeError\<close> when the source does not fit, and storing a number keeps its low
  eight bits, with NaN stored as 0.
\<close>

datatype eth_error = HexOddLength | RangeError | BadPoint string

subsection \<open>Hex\<close>

definition hex_digit :: "char \<Rightarrow> nat option" where
  "hex_digit c = (let k = of_char c :: nat in
     if 48 \<le> k \<and> k \<le> 57 then Some (k - 48)
     else if 97 \<le> k \<and> k \<le> 102 then Some (k - 87)
     else if 65 \<le> k \<and> k \<le> 70 then Some (k - 55)
     else None)"

definition is_space :: "char \<Rightarrow> bool" where
  "is_space c = (let k = of_char c :: nat in k = 32 \<or> (9 \<le> k \<and> k \<le> 13))"

fun hex_val :: "int \<Rightarrow> string \<Rightarrow> int" where
  "hex_val acc [] = acc"
| "hex_val acc (c # cs) =
     (case hex_digit c of None \<Rightarrow> acc | Some d \<Rightarrow> hex_val (16 * acc + int d) cs)"

text \<open>
  \<open>parseInt(s, 16)\<close>: leading white space, a sign and a \<open>0x\<close> prefix are skipped, the
  longest run of hex digits is read, and no digit at all gives NaN (\<open>None\<close>).
\<close>

definition strip_0x :: "string \<Rightarrow> string" where
  "strip_0x s = (if take 2 s = ''0x'' \<or> take 2 s = ''0X'' then drop 2 s else s)"

definition parse_hex_digits :: "string \<Rightarrow> int option" where
  "parse_hex_digits s =
     (case s of [] \<Rightarrow> None | c # cs \<Rightarrow> (case hex_digit c of None \<Rightarrow> None | Some _ \<Rightarrow> Some (hex_val 0 s)))"

definition parseInt16 :: "string \<Rightarrow> int option" where
  "parseInt16 s0 =
     (let s = dropWhile is_space s0 in
      if take 1 s = ''-'' then map_option uminus (parse_hex_digits (strip_0x (drop 1 s)))
      else if take 1 s = ''+'' then parse_hex_digits (strip_0x (drop 1 s))
      else parse_hex_digits (strip_0x s))"

definition store_byte :: "int option \<Rightarrow> byte" where
  "store_byte v = (case v of None \<Rightarrow> 0 | Some n \<Rightarrow> word_of_int n)"

fun hex_pairs :: "string \<Rightarrow> byte list" where
  "hex_pairs (a # b # rest) = store_byte (parseInt16 [a, b]) # hex_pairs rest"
| "hex_pairs _ = []"

definition hexToBytes :: "string \<Rightarrow> eth_error + byte list" where
  "hexToBytes hex = (if odd (length hex) then Inl HexOddLength else Inr (hex_pairs hex))"

definition hex_char :: "nat \<Rightarrow> char" where
  "hex_char d = (if d < 10 then char_of (48 + d) else char_of (87 + d))"

text \<open>\<open>b.toString(16).padStart(2, "0")\<close>.\<close>

definition byte_hex :: "byte \<Rightarrow> string" where
  "byte_hex b = [hex_char (unat b div 16), hex_char (unat b mod 16)]"

definition bytes_hex :: "byte list \<Rightarrow> string" where
  "bytes_hex bs = concat (map byte_hex bs)"

subsection \<open>Big-endian integers\<close>

text \<open>The loop \<open>bytes[i] = Number(v \& 0xffn); v >>= 8n\<close> from the last index down to 0.\<close>

fun be_loop :: "nat \<Rightarrow> int \<Rightarrow> byte list \<Rightarrow> byte list" where
  "be_loop 0 v acc = acc"
| "be_loop (Suc i) v acc = be_loop i (v div 256) (word_of_int (v mod 256) # acc)"

definition u64BeBytes :: "int \<Rightarrow> byte list" where
  "u64BeBytes n = be_loop 8 n []"

definition u256BeBytes :: "int \<Rightarrow> byte list" where
  "u256BeBytes n = be_loop 32 n []"

subsection \<open>Channel id, update message, address\<close>

text \<open>\<open>buf.set(src, off)\<close>.\<close>

definition buf_set :: "byte list \<Rightarrow> nat \<Rightarrow> byte list \<Rightarrow> eth_error + byte list" where
  "buf_set src off buf =
     (if length buf < off + length src then Inl RangeError
      else Inr (take off buf @ src @ drop (off + length src) buf))"

definition channelIdOf :: "(byte list \<Rightarrow> byte list) \<Rightarrow> string \<Rightarrow> string \<Rightarrow> int \<Rightarrow> eth_error + string" where
  "channelIdOf keccak client node channelNonce =
     (let buf = replicate 96 0 in
      rbind (hexToBytes (drop 2 client)) (\<lambda>c.
      rbind (buf_set c 12 buf) (\<lambda>buf.
      rbind (hexToBytes (drop 2 node)) (\<lambda>n.
      rbind (buf_set n (32 + 12) buf) (\<lambda>buf.
      rbind (buf_set (u64BeBytes channelNonce) (64 + 24) buf) (\<lambda>buf.
      Inr (''0x'' @ bytes_hex (keccak buf))))))))"

definition update_domain :: "byte list" where
  "update_domain = map (\<lambda>c. of_nat (of_char c)) ''fldx-v0-channel-update''"

definition channelUpdateCanonical ::
  "(byte list \<Rightarrow> byte list) \<Rightarrow> int \<Rightarrow> string \<Rightarrow> string \<Rightarrow> int \<Rightarrow> int \<Rightarrow> eth_error + byte list" where
  "channelUpdateCanonical keccak chainId channelContract channelId nonce cumOwed =
     (let out = replicate 192 0 in
      rbind (buf_set (keccak update_domain) 0 out) (\<lambda>out.
      rbind (buf_set (u256BeBytes chainId) 32 out) (\<lambda>out.
      rbind (hexToBytes (drop 2 channelContract)) (\<lambda>a.
      rbind (buf_set a (64 + 12) out) (\<lambda>out.
      rbind (hexToBytes (drop 2 channelId)) (\<lambda>i.
      rbind (buf_set i 96 out) (\<lambda>out.
      rbind (buf_set (u256BeBytes nonce) 128 out) (\<lambda>out.
      buf_set (u256BeBytes cumOwed) 160 out))))))))"

text \<open>\<open>decompress\<close> is \<open>ProjectivePoint.fromHex(h).toRawBytes(false)\<close>: 65 bytes, or it throws.\<close>

definition ethAddressFromCompressed ::
  "(string \<Rightarrow> eth_error + byte list) \<Rightarrow> (byte list \<Rightarrow> byte list) \<Rightarrow> string \<Rightarrow> eth_error + string" where
  "ethAddressFromCompressed decompress keccak compressedHex =
     (let stripped = (if take 2 compressedHex = ''0x'' then drop 2 compressedHex else compressedHex) in
      rbind (decompress stripped) (\<lambda>uncompressed.
      Inr (''0x'' @ bytes_hex (drop 12 (keccak (drop 1 uncompressed))))))"

subsection \<open>Facts: big-endian bytes\<close>

definition be_val :: "byte list \<Rightarrow> int" where
  "be_val bs = foldl (\<lambda>a b. 256 * a + uint b) 0 bs"

text \<open>The reference: byte \<open>i\<close> of \<open>n\<close> is the digit of weight \<open>256 ^ (n - 1 - i)\<close>.\<close>

definition be_spec :: "nat \<Rightarrow> int \<Rightarrow> byte list" where
  "be_spec n v = map (\<lambda>i. word_of_int (v div 256 ^ (n - 1 - i))) [0..<n]"

lemma be_loop_acc: "be_loop n v acc = be_loop n v [] @ acc"
proof (induction n arbitrary: v acc)
  case (Suc n)
  let ?w = "word_of_int (v mod 256) :: byte"
  show ?case using Suc [of "v div 256" "?w # acc"] Suc [of "v div 256" "[?w]"] by simp
qed simp

lemma be_loop_Suc: "be_loop (Suc n) v [] = be_loop n (v div 256) [] @ [word_of_int (v mod 256)]"
  using be_loop_acc [of n "v div 256" "[word_of_int (v mod 256)]"] by simp

lemma length_be_loop [simp]: "length (be_loop n v acc) = n + length acc"
  by (induction n v acc rule: be_loop.induct) auto

lemma word_of_int_mod_byte [simp]: "(word_of_int (v mod 256) :: byte) = word_of_int v"
  by (simp add: word_of_int_eq_iff take_bit_eq_mod)

lemma be_loop_spec: "be_loop n v [] = be_spec n v"
proof (induction n arbitrary: v)
  case 0
  show ?case by (simp add: be_spec_def)
next
  case (Suc n)
  have "v div 256 ^ (n - i) = v div 256 div 256 ^ (n - 1 - i)" if "i < n" for i
  proof -
    from that have "n - i = Suc (n - 1 - i)" by simp
    then show ?thesis by (simp add: zdiv_zmult2_eq del: power_Suc add: power_Suc)
  qed
  then show ?case by (simp add: be_loop_Suc Suc be_spec_def del: be_loop.simps)
qed

lemma be_val_snoc: "be_val (bs @ [b]) = 256 * be_val bs + uint b"
  by (simp add: be_val_def)

lemma uint_byte_of_int [simp]: "uint (word_of_int v :: byte) = v mod 256"
  by (simp add: uint_word_of_int)

lemma be_val_be_loop: "be_val (be_loop n v []) = v mod 256 ^ n"
proof (induction n arbitrary: v)
  case 0
  show ?case by (simp add: be_val_def)
next
  case (Suc n)
  have "v mod (256 * 256 ^ n) = 256 * (v div 256 mod 256 ^ n) + v mod 256"
    by (rule zmod_zmult2_eq) simp
  then show ?case by (simp add: be_loop_Suc be_val_snoc Suc del: be_loop.simps)
qed

lemma length_u64BeBytes [simp]: "length (u64BeBytes n) = 8"
  by (simp add: u64BeBytes_def del: be_loop.simps)

lemma length_u256BeBytes [simp]: "length (u256BeBytes n) = 32"
  by (simp add: u256BeBytes_def del: be_loop.simps)

lemma be_val_u256: "be_val (u256BeBytes n) = n mod 2 ^ 256"
  unfolding u256BeBytes_def be_val_be_loop by simp

lemma be_val_u64: "be_val (u64BeBytes n) = n mod 2 ^ 64"
  unfolding u64BeBytes_def be_val_be_loop by simp

lemma u256BeBytes_inject:
  assumes "u256BeBytes m = u256BeBytes n" "0 \<le> m" "m < 2 ^ 256" "0 \<le> n" "n < 2 ^ 256"
  shows "m = n"
proof -
  have "m mod 2 ^ 256 = n mod 2 ^ 256" using assms(1) be_val_u256 by metis
  with assms(2-5) show ?thesis by simp
qed

subsection \<open>Facts: hex strings\<close>

lemma hex_char_code: "d < 16 \<Longrightarrow> (of_char (hex_char d) :: nat) = (if d < 10 then 48 + d else 87 + d)"
  by (simp add: hex_char_def)

lemma hex_char_simps:
  assumes "d < 16"
  shows "hex_digit (hex_char d) = Some d" "\<not> is_space (hex_char d)"
    "hex_char d \<noteq> CHR ''-''" "hex_char d \<noteq> CHR ''+''" "hex_char d \<noteq> CHR ''x''" "hex_char d \<noteq> CHR ''X''"
    "to_lower_char (hex_char d) = hex_char d"
  using hex_char_code [OF assms] assms
  by (auto simp: hex_digit_def is_space_def to_lower_char_def Let_def split: if_splits)

lemma parseInt16_pair:
  "a < 16 \<Longrightarrow> b < 16 \<Longrightarrow> parseInt16 [hex_char a, hex_char b] = Some (int (16 * a + b))"
  by (simp add: parseInt16_def parse_hex_digits_def strip_0x_def hex_char_simps Let_def)

lemma parseInt16_byte_hex: "parseInt16 (byte_hex b) = Some (uint b)"
proof -
  have "unat b < 256" using unsigned_less [of b] by simp
  then have "unat b div 16 < 16" "unat b mod 16 < 16" by auto
  then have "parseInt16 (byte_hex b) = Some (int (16 * (unat b div 16) + unat b mod 16))"
    unfolding byte_hex_def by (rule parseInt16_pair)
  then show ?thesis by (simp add: mult_div_mod_eq)
qed

lemma hex_pairs_bytes_hex: "hex_pairs (bytes_hex bs) = bs"
proof (induction bs)
  case Nil
  show ?case by (simp add: bytes_hex_def)
next
  case (Cons b bs)
  have "hex_pairs (byte_hex b @ s) = b # hex_pairs s" for s
    using parseInt16_byte_hex [of b] by (simp add: byte_hex_def store_byte_def)
  with Cons show ?case by (simp add: bytes_hex_def)
qed

lemma length_bytes_hex [simp]: "length (bytes_hex bs) = 2 * length bs"
  by (induction bs) (auto simp: bytes_hex_def byte_hex_def)

lemma hexToBytes_bytes_hex [simp]: "hexToBytes (bytes_hex bs) = Inr bs"
  by (simp add: hexToBytes_def hex_pairs_bytes_hex)

lemma length_hex_pairs: "even (length s) \<Longrightarrow> length (hex_pairs s) = length s div 2"
  by (induction s rule: hex_pairs.induct) auto

lemma length_hexToBytes: "hexToBytes s = Inr bs \<Longrightarrow> length bs = length s div 2"
  by (auto simp: hexToBytes_def length_hex_pairs split: if_splits)

lemma bytes_hex_inject: "bytes_hex a = bytes_hex b \<Longrightarrow> a = b"
  by (metis hex_pairs_bytes_hex)

lemma to_lower_bytes_hex: "to_lower (bytes_hex bs) = bytes_hex bs"
proof (induction bs)
  case (Cons b bs)
  have "unat b < 256" using unsigned_less [of b] by simp
  then have "unat b div 16 < 16" "unat b mod 16 < 16" by auto
  with Cons show ?case
    by (simp add: bytes_hex_def byte_hex_def to_lower_def hex_char_simps)
qed (simp add: bytes_hex_def to_lower_def)

subsection \<open>Facts: the layouts the helpers write\<close>

lemma buf_set_fits:
  "length pre = off \<Longrightarrow> length mid = length src \<Longrightarrow>
   buf_set src off (pre @ mid @ post) = Inr (pre @ src @ post)"
  by (simp add: buf_set_def)

lemma buf_set_length: "buf_set src off buf = Inr out \<Longrightarrow> length out = length buf"
  by (auto simp: buf_set_def split: if_splits)

lemma channelIdOf_layout:
  assumes "hexToBytes (drop 2 client) = Inr c" "length c = 20"
    and "hexToBytes (drop 2 node) = Inr n" "length n = 20"
  shows "channelIdOf keccak client node k =
    Inr (''0x'' @ bytes_hex (keccak (replicate 12 0 @ c @ replicate 12 0 @ n @ replicate 24 0 @ u64BeBytes k)))"
  using assms by (simp add: channelIdOf_def buf_set_def)

lemma canonical_layout:
  assumes "length (keccak update_domain) = 32"
    and "hexToBytes (drop 2 addr) = Inr a" "length a = 20"
    and "hexToBytes (drop 2 cid) = Inr i" "length i = 32"
  shows "channelUpdateCanonical keccak chainId addr cid nonce owed =
    Inr (keccak update_domain @ u256BeBytes chainId @ replicate 12 0 @ a @ i @ u256BeBytes nonce @ u256BeBytes owed)"
  using assms by (simp add: channelUpdateCanonical_def buf_set_def)

end
