(* ===== verification/Evm.thy ===== *)
theory Evm
  imports Eth
begin

section \<open>What both contracts share\<close>

text \<open>
  Solidity's value types, the environment of a transaction, ABI encoding of static
  arguments, and checked arithmetic (Solidity 0.8 reverts on overflow). The ERC20 token is
  not part of the repository: a contract's calls to it are appended to a log in the order
  they are made, and whether the token accepts a call is the field \<open>tok_accepts\<close> of the
  environment (\<open>SafeERC20\<close> reverts the transaction when it does not). The hash, the
  EIP-191 prefixing of OpenZeppelin's \<open>MessageHashUtils\<close> and \<open>ECDSA.recover\<close> are the
  fields of \<open>crypto\<close>; a \<open>recover\<close> that reverts is \<open>None\<close>.
\<close>

type_synonym address = "160 word"
type_synonym u256 = "256 word"
type_synonym u64 = "64 word"
type_synonym bytes32 = "byte list"

datatype token_call =
    TransferFrom (tc_from: address) (tc_amount: u256)
  | Transfer (tc_to: address) (tc_amount: u256)

record tx_env =
  msg_sender :: address
  block_timestamp :: u256
  tok_accepts :: "token_call \<Rightarrow> bool"

record crypto =
  keccak :: "byte list \<Rightarrow> bytes32"
  toEthSignedMessageHash :: "bytes32 \<Rightarrow> bytes32"
  recover :: "bytes32 \<Rightarrow> byte list \<Rightarrow> address option"

subsection \<open>ABI encoding\<close>

text \<open>Every static argument is one 32-byte slot, big-endian, padded on the left.\<close>

definition abi_address :: "address \<Rightarrow> byte list" where
  "abi_address a = be_spec 32 (uint a)"

definition abi_u64 :: "u64 \<Rightarrow> byte list" where
  "abi_u64 v = be_spec 32 (uint v)"

definition abi_u256 :: "u256 \<Rightarrow> byte list" where
  "abi_u256 v = be_spec 32 (uint v)"

text \<open>The 20 bytes of an address, and the address they denote.\<close>

definition address_bytes :: "address \<Rightarrow> byte list" where
  "address_bytes a = be_spec 20 (uint a)"

definition address_hex :: "address \<Rightarrow> string" where
  "address_hex a = ''0x'' @ bytes_hex (address_bytes a)"

subsection \<open>Checked addition\<close>

definition checked_add :: "'a::len word \<Rightarrow> 'a word \<Rightarrow> 'a word option" where
  "checked_add a b = (if unat a + unat b < 2 ^ LENGTH('a) then Some (a + b) else None)"

lemma checked_add_Some: "checked_add a b = Some c \<Longrightarrow> unat c = unat a + unat b"
  by (auto simp: checked_add_def unat_word_ariths split: if_splits)

subsection \<open>Token flow\<close>

fun inflow :: "token_call list \<Rightarrow> nat" where
  "inflow [] = 0"
| "inflow (TransferFrom _ a # cs) = unat a + inflow cs"
| "inflow (Transfer _ _ # cs) = inflow cs"

fun outflow :: "token_call list \<Rightarrow> nat" where
  "outflow [] = 0"
| "outflow (TransferFrom _ _ # cs) = outflow cs"
| "outflow (Transfer _ a # cs) = unat a + outflow cs"

lemma inflow_append [simp]: "inflow (xs @ ys) = inflow xs + inflow ys"
  by (induction xs rule: inflow.induct) auto

lemma outflow_append [simp]: "outflow (xs @ ys) = outflow xs + outflow ys"
  by (induction xs rule: outflow.induct) auto

text \<open>A sum over the live entries of a mapping, changed at one key.\<close>

lemma sum_update:
  fixes f :: "'k \<Rightarrow> nat"
  assumes "finite A"
  shows "(\<Sum>k\<in>insert a A. (f(a := v)) k) + (if a \<in> A then f a else 0) = (\<Sum>k\<in>A. f k) + v"
proof -
  have "(\<Sum>k\<in>A - {a}. (f(a := v)) k) = (\<Sum>k\<in>A - {a}. f k)"
    by (rule sum.cong) auto
  with assms show ?thesis
    by (simp add: sum.insert_remove sum.remove [of A a])
qed

subsection \<open>Padding of narrower integers\<close>

lemma be_spec_pad:
  assumes "0 \<le> v" "v < 256 ^ m"
  shows "be_spec (k + m) v = replicate k 0 @ be_spec m v"
proof -
  have low: "v div 256 ^ (k + m - 1 - i) = 0" if "i < k" for i
  proof -
    have "(256::int) ^ m \<le> 256 ^ (k + m - 1 - i)" using that by (intro power_increasing) auto
    with assms(2) have "v < 256 ^ (k + m - 1 - i)" by (rule less_le_trans)
    with assms(1) show ?thesis by (rule div_pos_pos_trivial)
  qed
  have "[0..<k + m] = [0..<k] @ map (\<lambda>i. i + k) [0..<m]"
    by (rule nth_equalityI) (auto simp: nth_append)
  moreover have "map (\<lambda>i. word_of_int (v div 256 ^ (k + m - 1 - i)) :: byte) [0..<k] = replicate k 0"
    using low by (intro replicate_eqI) auto
  moreover have "map (\<lambda>i. word_of_int (v div 256 ^ (k + m - 1 - i)) :: byte) (map (\<lambda>i. i + k) [0..<m])
      = be_spec m v"
    by (auto simp: be_spec_def)
  ultimately show ?thesis by (simp add: be_spec_def)
qed

lemma length_be_spec [simp]: "length (be_spec n v) = n"
  by (simp add: be_spec_def)

lemma be_val_be_spec: "be_val (be_spec n v) = v mod 256 ^ n"
  by (simp add: be_loop_spec [symmetric] be_val_be_loop)

lemma abi_address_split: "abi_address a = replicate 12 0 @ address_bytes a"
proof -
  have "uint a < 2 ^ 160" using unsigned_less [of a] by simp
  then show ?thesis
    unfolding abi_address_def address_bytes_def
    using be_spec_pad [of "uint a" 20 12] by simp
qed

lemma abi_u64_split: "abi_u64 v = replicate 24 0 @ be_spec 8 (uint v)"
proof -
  have "uint v < 2 ^ 64" using unsigned_less [of v] by simp
  then show ?thesis
    unfolding abi_u64_def using be_spec_pad [of "uint v" 8 24] by simp
qed

lemma length_abi [simp]:
  "length (abi_address a) = 32" "length (abi_u64 v) = 32" "length (abi_u256 w) = 32"
  "length (address_bytes a) = 20"
  by (simp_all add: abi_address_def abi_u64_def abi_u256_def address_bytes_def)

lemma hexToBytes_address_hex [simp]: "hexToBytes (drop 2 (address_hex a)) = Inr (address_bytes a)"
  by (simp add: address_hex_def)

lemma u256BeBytes_abi: "u256BeBytes (uint v) = abi_u256 v"
  by (simp add: u256BeBytes_def abi_u256_def be_loop_spec)

lemma u256BeBytes_abi_u64: "u256BeBytes (uint v) = abi_u64 v"
  by (simp add: u256BeBytes_def abi_u64_def be_loop_spec)

lemma u64BeBytes_abi: "replicate 24 0 @ u64BeBytes (uint v) = abi_u64 v"
  by (simp add: u64BeBytes_def abi_u64_split be_loop_spec)

lemma address_bytes_inject:
  assumes "address_bytes a = address_bytes b"
  shows "a = b"
proof -
  have "be_val (address_bytes c) = uint c" for c :: address
  proof -
    have "uint c < 2 ^ 160" using unsigned_less [of c] by simp
    then show ?thesis
      by (simp add: address_bytes_def be_loop_spec [symmetric] be_val_be_loop)
  qed
  with assms show ?thesis by (metis word_uint_eqI)
qed

lemma address_hex_inject: "address_hex a = address_hex b \<Longrightarrow> a = b"
  using address_bytes_inject bytes_hex_inject by (auto simp: address_hex_def)

lemma to_lower_address_hex [simp]: "to_lower (address_hex a) = address_hex a"
  using to_lower_bytes_hex [of "address_bytes a"]
  by (simp add: address_hex_def to_lower_def to_lower_char_def)

end
