(* ===== verification/Registry.thy ===== *)
theory Registry
  imports Evm
begin

section \<open>The node registry (contracts/src/NodeRegistry.sol)\<close>

text \<open>
  State: the mapping of nodes, the enumerable list of registered addresses and its 1-based
  index mapping, the rotating \<open>escrow\<close> and \<open>minStake\<close>, the immutable \<open>owner\<close>, the token
  calls made so far and the events emitted so far. Array lengths and list indices are
  natural numbers (an array cannot grow to \<open>2^256\<close>); an access out of range is a \<open>Panic\<close>.
\<close>

record node_info_sol =
  n_url :: string
  n_ecdhPubkey :: bytes32
  n_backendBitmap :: "8 word"
  n_maxTokens :: u64
  n_pricePer1k :: "u256 list"
  n_stake :: u256
  n_active :: bool

datatype reg_error =
    NotOwner | NotAuthorized | AlreadyRegistered | NotRegistered
  | StakeBelowMin u256 u256 | AmountExceedsStake u256 u256
  | RegTokenReverted | RegPanic

datatype reg_event =
    Registered address string bytes32 "8 word" u256
  | Updated address string "8 word" "u256 list"
  | Unregistered address u256
  | Slashed address address u256
  | EscrowSet address
  | MinStakeSet u256

record reg_state =
  owner :: address
  escrow :: address
  minStake :: u256
  nodes :: "address \<Rightarrow> node_info_sol"
  nodeList :: "address list"
  nodeListIndex :: "address \<Rightarrow> nat"
  r_calls :: "token_call list"
  r_events :: "reg_event list"

definition no_node :: node_info_sol where
  "no_node = \<lparr>n_url = [], n_ecdhPubkey = replicate 32 0, n_backendBitmap = 0, n_maxTokens = 0,
     n_pricePer1k = replicate 4 0, n_stake = 0, n_active = False\<rparr>"

definition reg_construct :: "address \<Rightarrow> u256 \<Rightarrow> reg_state" where
  "reg_construct own minS = \<lparr>owner = own, escrow = 0, minStake = minS, nodes = (\<lambda>_. no_node),
     nodeList = [], nodeListIndex = (\<lambda>_. 0), r_calls = [], r_events = [MinStakeSet minS]\<rparr>"

definition reg_pay :: "tx_env \<Rightarrow> token_call \<Rightarrow> reg_state \<Rightarrow> reg_error + reg_state" where
  "reg_pay env c s =
     (if tok_accepts env c then Inr (s\<lparr>r_calls := r_calls s @ [c]\<rparr>) else Inl RegTokenReverted)"

definition reg_emit :: "reg_event \<Rightarrow> reg_state \<Rightarrow> reg_state" where
  "reg_emit e s = s\<lparr>r_events := r_events s @ [e]\<rparr>"

definition setEscrow :: "tx_env \<Rightarrow> address \<Rightarrow> reg_state \<Rightarrow> reg_error + reg_state" where
  "setEscrow env e s =
     (if msg_sender env \<noteq> owner s then Inl NotOwner
      else Inr (reg_emit (EscrowSet e) (s\<lparr>escrow := e\<rparr>)))"

definition setMinStake :: "tx_env \<Rightarrow> u256 \<Rightarrow> reg_state \<Rightarrow> reg_error + reg_state" where
  "setMinStake env m s =
     (if msg_sender env \<noteq> owner s then Inl NotOwner
      else Inr (reg_emit (MinStakeSet m) (s\<lparr>minStake := m\<rparr>)))"

definition register ::
  "tx_env \<Rightarrow> string \<Rightarrow> bytes32 \<Rightarrow> 8 word \<Rightarrow> u64 \<Rightarrow> u256 list \<Rightarrow> u256 \<Rightarrow> reg_state \<Rightarrow> reg_error + reg_state" where
  "register env u ecdh bitmap maxTok price stake s =
     (let a = msg_sender env in
      if stake < minStake s then Inl (StakeBelowMin stake (minStake s))
      else if n_active (nodes s a) then Inl AlreadyRegistered
      else rbind (reg_pay env (TransferFrom a stake) s) (\<lambda>s.
        let n = \<lparr>n_url = u, n_ecdhPubkey = ecdh, n_backendBitmap = bitmap, n_maxTokens = maxTok,
                 n_pricePer1k = price, n_stake = stake, n_active = True\<rparr>;
            s = s\<lparr>nodes := (nodes s)(a := n)\<rparr>;
            s = (if nodeListIndex s a = 0
                 then let s = s\<lparr>nodeList := nodeList s @ [a]\<rparr> in
                      s\<lparr>nodeListIndex := (nodeListIndex s)(a := length (nodeList s))\<rparr>
                 else s)
        in Inr (reg_emit (Registered a u ecdh bitmap stake) s)))"

definition update_node ::
  "tx_env \<Rightarrow> string \<Rightarrow> bytes32 \<Rightarrow> 8 word \<Rightarrow> u64 \<Rightarrow> u256 list \<Rightarrow> reg_state \<Rightarrow> reg_error + reg_state" where
  "update_node env u ecdh bitmap maxTok price s =
     (let a = msg_sender env; n = nodes s a in
      if \<not> n_active n then Inl NotRegistered
      else Inr (reg_emit (Updated a u bitmap price)
        (s\<lparr>nodes := (nodes s)(a := n\<lparr>n_url := u, n_ecdhPubkey := ecdh, n_backendBitmap := bitmap,
             n_maxTokens := maxTok, n_pricePer1k := price\<rparr>)\<rparr>)))"

text \<open>
  \<open>_removeFromList\<close>: move the last address into the hole, pop, clear the index. Reading
  \<open>nodeList[lastIdx - 1]\<close> and writing \<open>nodeList[idx - 1]\<close> check their bounds.
\<close>

definition removeFromList :: "address \<Rightarrow> reg_state \<Rightarrow> reg_error + reg_state" where
  "removeFromList a s =
     (let idx = nodeListIndex s a in
      if idx = 0 then Inr s
      else let lastIdx = length (nodeList s) in
        if lastIdx = 0 \<or> lastIdx < idx then Inl RegPanic
        else let s = (if idx \<noteq> lastIdx
                 then let lst = nodeList s ! (lastIdx - 1) in
                      s\<lparr>nodeList := (nodeList s)[idx - 1 := lst],
                        nodeListIndex := (nodeListIndex s)(lst := idx)\<rparr>
                 else s)
             in Inr (s\<lparr>nodeList := butlast (nodeList s),
                       nodeListIndex := (nodeListIndex s)(a := 0)\<rparr>))"

definition unregister :: "tx_env \<Rightarrow> reg_state \<Rightarrow> reg_error + reg_state" where
  "unregister env s =
     (let a = msg_sender env; n = nodes s a in
      if \<not> n_active n then Inl NotRegistered
      else let returned = n_stake n;
               s = s\<lparr>nodes := (nodes s)(a := n\<lparr>n_stake := 0, n_active := False\<rparr>)\<rparr> in
        rbind (removeFromList a s) (\<lambda>s.
        rbind (if 0 < returned then reg_pay env (Transfer a returned) s else Inr s) (\<lambda>s.
        Inr (reg_emit (Unregistered a returned) s))))"

definition slash :: "tx_env \<Rightarrow> address \<Rightarrow> address \<Rightarrow> u256 \<Rightarrow> reg_state \<Rightarrow> reg_error + reg_state" where
  "slash env a recipient amount s =
     (let n = nodes s a in
      if msg_sender env \<noteq> escrow s \<and> msg_sender env \<noteq> owner s then Inl NotAuthorized
      else if \<not> n_active n then Inl NotRegistered
      else if n_stake n < amount then Inl (AmountExceedsStake amount (n_stake n))
      else let stake = n_stake n - amount;
               s = s\<lparr>nodes := (nodes s)(a := n\<lparr>n_stake := stake\<rparr>)\<rparr> in
        rbind (if stake = 0
               then removeFromList a (s\<lparr>nodes := (nodes s)(a := n\<lparr>n_stake := stake, n_active := False\<rparr>)\<rparr>)
               else Inr s) (\<lambda>s.
        rbind (if 0 < amount then reg_pay env (Transfer recipient amount) s else Inr s) (\<lambda>s.
        Inr (reg_emit (Slashed a recipient amount) s))))"

definition isActive :: "reg_state \<Rightarrow> address \<Rightarrow> bool" where
  "isActive s a = n_active (nodes s a)"

definition supportsBackend :: "reg_state \<Rightarrow> address \<Rightarrow> nat \<Rightarrow> bool" where
  "supportsBackend s a b = (and (n_backendBitmap (nodes s a)) (push_bit b 1) \<noteq> 0)"

definition nodeCount :: "reg_state \<Rightarrow> nat" where
  "nodeCount s = length (nodeList s)"

text \<open>One transaction of the contract, by any sender with any arguments, that does not revert.\<close>

inductive reg_step :: "reg_state \<Rightarrow> reg_state \<Rightarrow> bool" where
  set_escrow: "setEscrow env e s = Inr t \<Longrightarrow> reg_step s t"
| set_min_stake: "setMinStake env m s = Inr t \<Longrightarrow> reg_step s t"
| register: "register env u ecdh bm mt pr st s = Inr t \<Longrightarrow> reg_step s t"
| update: "update_node env u ecdh bm mt pr s = Inr t \<Longrightarrow> reg_step s t"
| unregister: "unregister env s = Inr t \<Longrightarrow> reg_step s t"
| slash: "slash env a r amt s = Inr t \<Longrightarrow> reg_step s t"

subsection \<open>The list and its index agree, and the stakes are backed\<close>

definition list_ok :: "reg_state \<Rightarrow> bool" where
  "list_ok s \<longleftrightarrow> distinct (nodeList s)
     \<and> (\<forall>i<length (nodeList s). nodeListIndex s (nodeList s ! i) = Suc i)
     \<and> (\<forall>a. a \<notin> set (nodeList s) \<longrightarrow> nodeListIndex s a = 0)"

definition stakes_ok :: "reg_state \<Rightarrow> bool" where
  "stakes_ok s \<longleftrightarrow> (\<forall>a. \<not> n_active (nodes s a) \<longrightarrow> n_stake (nodes s a) = 0)
     \<and> inflow (r_calls s) = outflow (r_calls s) + (\<Sum>a\<in>set (nodeList s). unat (n_stake (nodes s a)))"

definition reg_inv :: "reg_state \<Rightarrow> bool" where
  "reg_inv s \<longleftrightarrow> list_ok s \<and> (\<forall>a. n_active (nodes s a) \<longleftrightarrow> a \<in> set (nodeList s)) \<and> stakes_ok s"

text \<open>Swap-and-pop on a list without duplicates.\<close>

lemma swap_pop:
  assumes d: "distinct xs" and i: "i < length xs"
  defines "ys \<equiv> butlast (xs[i := last xs])"
  shows "length ys = length xs - 1"
    and "j < length ys \<Longrightarrow> ys ! j = (if j = i then last xs else xs ! j)"
    and "distinct ys" and "set ys = set xs - {xs ! i}"
proof -
  let ?n = "length xs - 1"
  have lastn: "last xs = xs ! ?n" using i by (intro last_conv_nth) auto
  show len: "length ys = ?n" by (simp add: ys_def)
  show nth: "ys ! j = (if j = i then last xs else xs ! j)" if "j < length ys" for j
    using that i by (auto simp: ys_def nth_butlast)
  have eq: "j = k" if "j < length xs" "k < length xs" "xs ! j = xs ! k" for j k
    using that d by (simp add: nth_eq_iff_index_eq)
  show "distinct ys"
    unfolding distinct_conv_nth
  proof (intro allI impI)
    fix j k assume "j < length ys" "k < length ys" "j \<noteq> k"
    then have b: "j < ?n" "k < ?n" "j \<noteq> k" by (simp_all add: len)
    then have "xs ! j \<noteq> xs ! k" "xs ! ?n \<noteq> xs ! k" "xs ! j \<noteq> xs ! ?n"
      using eq [of j k] eq [of ?n k] eq [of j ?n] by linarith+
    then show "ys ! j \<noteq> ys ! k" using b by (simp add: nth len lastn)
  qed
  show "set ys = set xs - {xs ! i}"
  proof (intro set_eqI iffI)
    fix x assume "x \<in> set ys"
    then obtain j where j: "j < length ys" "x = ys ! j" by (auto simp: in_set_conv_nth)
    then have b: "j < ?n" "j < length xs" "?n < length xs" by (auto simp: len)
    then have "j \<noteq> i \<Longrightarrow> xs ! j \<noteq> xs ! i" "xs ! ?n \<noteq> xs ! i \<or> i = ?n"
      using eq [of j i] eq [of ?n i] i by blast+
    with b j(2) nth [OF j(1)] show "x \<in> set xs - {xs ! i}"
      by (cases "j = i") (auto simp: lastn)
  next
    fix x assume "x \<in> set xs - {xs ! i}"
    then obtain j where j: "j < length xs" "x = xs ! j" "j \<noteq> i" by (auto simp: in_set_conv_nth)
    show "x \<in> set ys"
    proof (cases "j = ?n")
      case True
      then have "i < length ys" using j i len by auto
      moreover have "ys ! i = x" using nth [OF calculation] True j lastn by simp
      ultimately show ?thesis by (auto simp: in_set_conv_nth)
    next
      case False
      then have "j < length ys" using j len by auto
      moreover have "ys ! j = x" using nth [OF calculation] j by simp
      ultimately show ?thesis by (auto simp: in_set_conv_nth)
    qed
  qed
qed

lemma list_index:
  assumes "list_ok s" "a \<in> set (nodeList s)"
  obtains i where "i < length (nodeList s)" "nodeList s ! i = a" "nodeListIndex s a = Suc i"
  using assms by (auto simp: list_ok_def in_set_conv_nth)

lemma removeFromList_ok:
  assumes ok: "list_ok s" and a: "a \<in> set (nodeList s)"
  shows "\<exists>xs ix. removeFromList a s = Inr (s\<lparr>nodeList := xs, nodeListIndex := ix\<rparr>)
     \<and> list_ok (s\<lparr>nodeList := xs, nodeListIndex := ix\<rparr>) \<and> set xs = set (nodeList s) - {a}
     \<and> length xs = length (nodeList s) - 1"
proof -
  let ?xs = "nodeList s"
  from ok a obtain i where i: "i < length ?xs" "?xs ! i = a" "nodeListIndex s a = Suc i"
    by (rule list_index)
  have d: "distinct ?xs" using ok by (simp add: list_ok_def)
  let ?ys = "butlast (?xs[i := last ?xs])"
  let ?ix = "((nodeListIndex s)(last ?xs := Suc i))(a := 0)"
  note sp = swap_pop [OF d i(1)]
  have lastn: "last ?xs = ?xs ! (length ?xs - 1)" using i by (intro last_conv_nth) auto
  have r: "removeFromList a s = Inr (s\<lparr>nodeList := ?ys, nodeListIndex := ?ix\<rparr>)"
  proof (cases "Suc i = length ?xs")
    case True
    then have "length ?xs - 1 = i" by simp
    then have "last ?xs = a" using i lastn by simp
    then have "?xs[i := last ?xs] = ?xs" using i(2) list_update_id [of ?xs i] by simp
    moreover have "?xs \<noteq> []" using i by auto
    ultimately show ?thesis using True i \<open>last ?xs = a\<close> by (simp add: removeFromList_def Let_def)
  next
    case False
    moreover have "?xs \<noteq> []" using i by auto
    ultimately show ?thesis using i lastn by (simp add: removeFromList_def Let_def)
  qed
  have "?ix (?ys ! j) = Suc j" if j: "j < length ?ys" for j
  proof -
    have "?ys ! j \<in> set ?ys" using j by (rule nth_mem)
    then have "?ys ! j \<noteq> a" using sp(4) i(2) by auto
    moreover have "?xs ! j = last ?xs \<Longrightarrow> j = length ?xs - 1"
      using j sp(1) d lastn i by (auto simp: nth_eq_iff_index_eq)
    ultimately show ?thesis using sp(1) sp(2) [OF j] j ok by (auto simp: list_ok_def)
  qed
  moreover have "?ix b = 0" if "b \<notin> set ?ys" for b
  proof -
    have "b = a \<or> b \<notin> set ?xs" using that sp(4) i(2) by auto
    moreover have "last ?xs \<in> set ?xs" using i by (intro last_in_set) auto
    ultimately show ?thesis using ok by (auto simp: list_ok_def)
  qed
  ultimately have "list_ok (s\<lparr>nodeList := ?ys, nodeListIndex := ?ix\<rparr>)"
    using sp(3) by (simp add: list_ok_def)
  with r sp(1,4) i(2) show ?thesis by blast
qed

subsection \<open>Every transaction keeps the invariant\<close>

lemma stake_sum_other:
  "b \<notin> A \<Longrightarrow> (\<Sum>a\<in>A. unat (n_stake ((ns(b := n)) a))) = (\<Sum>a\<in>A. unat (n_stake (ns a)))"
  by (rule sum.cong) auto

lemma stake_sum_split:
  "finite A \<Longrightarrow> b \<in> A \<Longrightarrow>
   (\<Sum>a\<in>A. unat (n_stake ((ns(b := n)) a))) + unat (n_stake (ns b))
     = (\<Sum>a\<in>A. unat (n_stake (ns a))) + unat (n_stake n)"
  by (simp add: sum.remove stake_sum_other)

lemma stake_sum_remove:
  "finite A \<Longrightarrow> b \<in> A \<Longrightarrow>
   (\<Sum>a\<in>A - {b}. unat (n_stake ((ns(b := n)) a))) + unat (n_stake (ns b))
     = (\<Sum>a\<in>A. unat (n_stake (ns a)))"
  by (simp add: sum.remove stake_sum_other)

lemma reg_inv_construct: "reg_inv (reg_construct own m)"
  by (simp add: reg_inv_def list_ok_def stakes_ok_def reg_construct_def no_node_def)

lemma list_ok_cong:
  "nodeList s = nodeList t \<Longrightarrow> nodeListIndex s = nodeListIndex t \<Longrightarrow> list_ok s = list_ok t"
  by (simp add: list_ok_def)

lemma setEscrow_inv [inv_intros]: "setEscrow env e s = Inr t \<Longrightarrow> reg_inv s \<Longrightarrow> reg_inv t"
  by (auto simp: setEscrow_def reg_emit_def reg_inv_def list_ok_def stakes_ok_def split: if_splits)

lemma setMinStake_inv [inv_intros]: "setMinStake env m s = Inr t \<Longrightarrow> reg_inv s \<Longrightarrow> reg_inv t"
  by (auto simp: setMinStake_def reg_emit_def reg_inv_def list_ok_def stakes_ok_def split: if_splits)

lemma register_state:
  assumes "register env u ecdh bm mt pr st s = Inr t" "reg_inv s"
  shows "msg_sender env \<notin> set (nodeList s) \<and> minStake s \<le> st
    \<and> nodeList t = nodeList s @ [msg_sender env]
    \<and> nodeListIndex t = (nodeListIndex s)(msg_sender env := Suc (length (nodeList s)))
    \<and> nodes t = (nodes s)(msg_sender env := \<lparr>n_url = u, n_ecdhPubkey = ecdh, n_backendBitmap = bm,
         n_maxTokens = mt, n_pricePer1k = pr, n_stake = st, n_active = True\<rparr>)
    \<and> r_calls t = r_calls s @ [TransferFrom (msg_sender env) st]"
  using assms
  by (auto simp: register_def reg_pay_def reg_emit_def Let_def reg_inv_def list_ok_def split: if_splits)

lemma register_inv [inv_intros]:
  assumes "register env u ecdh bm mt pr st s = Inr t" "reg_inv s"
  shows "reg_inv t"
proof -
  note r = register_state [OF assms]
  have "list_ok t" using r assms(2) by (auto simp: reg_inv_def list_ok_def nth_append less_Suc_eq)
  moreover have "stakes_ok t"
    using r assms(2) by (auto simp: reg_inv_def stakes_ok_def intro!: sum.cong)
  ultimately show ?thesis using r assms(2) by (auto simp: reg_inv_def)
qed

lemma update_node_inv [inv_intros]:
  assumes "update_node env u ecdh bm mt pr s = Inr t" "reg_inv s"
  shows "reg_inv t"
proof -
  let ?a = "msg_sender env"
  from assms obtain n where n: "nodes t = (nodes s)(?a := n)" "n_stake n = n_stake (nodes s ?a)" "n_active n"
      "n_active (nodes s ?a)" and eq: "nodeList t = nodeList s" "nodeListIndex t = nodeListIndex s" "r_calls t = r_calls s"
    by (auto simp: update_node_def reg_emit_def Let_def split: if_splits)
  have "(\<Sum>a\<in>set (nodeList t). unat (n_stake (nodes t a))) = (\<Sum>a\<in>set (nodeList s). unat (n_stake (nodes s a)))"
    unfolding eq by (rule sum.cong) (auto simp: n)
  with n eq assms(2) show ?thesis by (auto simp: reg_inv_def stakes_ok_def list_ok_def)
qed

text \<open>Dropping a node from the list: the shape both ways of leaving share.\<close>

lemma drop_node_inv:
  assumes inv: "reg_inv s" and a: "n_active (nodes s a)"
    and n: "n_stake n = 0" "\<not> n_active n"
    and set: "set xs = set (nodeList s) - {a}"
    and ok: "list_ok (s\<lparr>nodes := ns, nodeList := xs, nodeListIndex := ix\<rparr>)"
    and t: "nodes t = (nodes s)(a := n)" "nodeList t = xs" "nodeListIndex t = ix"
      "inflow (r_calls t) = inflow (r_calls s)"
      "outflow (r_calls t) = outflow (r_calls s) + unat (n_stake (nodes s a))"
  shows "reg_inv t"
proof -
  have "a \<in> set (nodeList s)" using inv a by (auto simp: reg_inv_def)
  then have "(\<Sum>b\<in>set xs. unat (n_stake (nodes t b))) + unat (n_stake (nodes s a))
      = (\<Sum>b\<in>set (nodeList s). unat (n_stake (nodes s b)))"
    unfolding set t by (intro stake_sum_remove) auto
  then have "stakes_ok t" using inv t n by (auto simp: reg_inv_def stakes_ok_def)
  moreover have "list_ok t" using ok t by (simp add: list_ok_def)
  ultimately show ?thesis using inv t n set by (auto simp: reg_inv_def)
qed

lemma unregister_state:
  assumes "unregister env s = Inr t" "reg_inv s"
  shows "reg_inv t \<and> \<not> isActive t (msg_sender env) \<and> length (nodeList t) = length (nodeList s) - 1
    \<and> outflow (r_calls t) = outflow (r_calls s) + unat (n_stake (nodes s (msg_sender env)))"
proof -
  let ?a = "msg_sender env" let ?n = "nodes s ?a"
  let ?ns = "(nodes s)(?a := ?n\<lparr>n_stake := 0, n_active := False\<rparr>)"
  have act: "n_active ?n" using assms(1) by (auto simp: unregister_def Let_def split: if_splits)
  have "list_ok (s\<lparr>nodes := ?ns\<rparr>)" "?a \<in> set (nodeList (s\<lparr>nodes := ?ns\<rparr>))"
    using assms(2) act by (auto simp: reg_inv_def list_ok_def)
  from removeFromList_ok [OF this] obtain xs ix where x:
    "removeFromList ?a (s\<lparr>nodes := ?ns\<rparr>) = Inr (s\<lparr>nodes := ?ns, nodeList := xs, nodeListIndex := ix\<rparr>)"
    "list_ok (s\<lparr>nodes := ?ns, nodeList := xs, nodeListIndex := ix\<rparr>)"
    "set xs = set (nodeList s) - {?a}" "length xs = length (nodeList s) - 1"
    by auto
  have t: "nodes t = ?ns" "nodeList t = xs" "nodeListIndex t = ix"
    "inflow (r_calls t) = inflow (r_calls s)"
    "outflow (r_calls t) = outflow (r_calls s) + unat (n_stake ?n)"
    using assms(1) act x(1)
    by (auto simp: unregister_def Let_def reg_pay_def reg_emit_def word_gt_0 split: if_splits)
  have "reg_inv t" by (rule drop_node_inv [OF assms(2) act _ _ x(3,2) t]) simp_all
  with t x(4) show ?thesis by (simp add: isActive_def)
qed

lemma unregister_inv [inv_intros]: "unregister env s = Inr t \<Longrightarrow> reg_inv s \<Longrightarrow> reg_inv t"
  using unregister_state by blast

lemma slash_inv [inv_intros]:
  assumes "slash env a rcp amt s = Inr t" "reg_inv s"
  shows "reg_inv t"
proof -
  let ?n = "nodes s a" let ?st = "n_stake ?n - amt"
  have act: "n_active ?n" and le: "amt \<le> n_stake ?n"
    using assms(1) by (auto simp: slash_def Let_def not_less split: if_splits)
  have a: "a \<in> set (nodeList s)" using assms(2) act by (auto simp: reg_inv_def)
  have st: "unat ?st + unat amt = unat (n_stake ?n)"
    using le by (simp add: unat_sub word_le_nat_alt)
  show ?thesis
  proof (cases "?st = 0")
    case True
    let ?ns = "(nodes s)(a := ?n\<lparr>n_stake := 0, n_active := False\<rparr>)"
    have eq: "(nodes s)(a := ?n\<lparr>n_stake := ?st, n_active := False\<rparr>) = ?ns" using True by simp
    have "list_ok (s\<lparr>nodes := ?ns\<rparr>)" "a \<in> set (nodeList (s\<lparr>nodes := ?ns\<rparr>))"
      using assms(2) a by (auto simp: reg_inv_def list_ok_def)
    from removeFromList_ok [OF this] obtain xs ix where x:
      "removeFromList a (s\<lparr>nodes := ?ns\<rparr>) = Inr (s\<lparr>nodes := ?ns, nodeList := xs, nodeListIndex := ix\<rparr>)"
      "list_ok (s\<lparr>nodes := ?ns, nodeList := xs, nodeListIndex := ix\<rparr>)"
      "set xs = set (nodeList s) - {a}"
      by auto
    have "unat amt = unat (n_stake ?n)" using st True by simp
    then have t: "nodes t = ?ns" "nodeList t = xs" "nodeListIndex t = ix"
      "inflow (r_calls t) = inflow (r_calls s)"
      "outflow (r_calls t) = outflow (r_calls s) + unat (n_stake ?n)"
      using assms(1) act x(1) eq True
      by (auto simp: slash_def Let_def reg_pay_def reg_emit_def word_gt_0 split: if_splits)
    show ?thesis by (rule drop_node_inv [OF assms(2) act _ _ x(3,2) t]) simp_all
  next
    case False
    then have t: "nodes t = (nodes s)(a := ?n\<lparr>n_stake := ?st\<rparr>)" "nodeList t = nodeList s"
      "nodeListIndex t = nodeListIndex s" "inflow (r_calls t) = inflow (r_calls s)"
      "outflow (r_calls t) = outflow (r_calls s) + unat amt"
      using assms(1) act
      by (auto simp: slash_def Let_def reg_pay_def reg_emit_def word_gt_0 split: if_splits)
    have "(\<Sum>b\<in>set (nodeList s). unat (n_stake (nodes t b))) + unat (n_stake ?n)
        = (\<Sum>b\<in>set (nodeList s). unat (n_stake (nodes s b))) + unat ?st"
      using stake_sum_split [of "set (nodeList s)" a "nodes s" "?n\<lparr>n_stake := ?st\<rparr>"] a by (simp add: t)
    with st t assms(2) act show ?thesis by (auto simp: reg_inv_def stakes_ok_def list_ok_def)
  qed
qed

lemma reg_step_inv: "reg_inv s \<Longrightarrow> reg_step s t \<Longrightarrow> reg_inv t"
  by (erule reg_step.cases) (auto intro: inv_intros)

interpretation reg: inv_system reg_step "\<lambda>s. \<exists>own m. s = reg_construct own m" reg_inv
  by unfold_locales (auto simp: reg_inv_construct intro: reg_step_inv)

subsection \<open>Properties\<close>

text \<open>C33. The registry's enumerable list is exactly its active nodes: in every reachable
  state it holds each active address once and no other, the index mapping points at each
  entry's place (1-based, 0 for the absent), and \<open>nodeCount\<close> is the number of active nodes.\<close>

theorem nodeList_enumerates_active:
  assumes "rtranclp reg_step (reg_construct own m) s"
  shows "distinct (nodeList s) \<and> set (nodeList s) = {a. isActive s a}
    \<and> nodeCount s = card {a. isActive s a}
    \<and> (\<forall>a. isActive s a \<longrightarrow> nodeListIndex s a \<noteq> 0 \<and> nodeList s ! (nodeListIndex s a - 1) = a)"
proof -
  have inv: "reg_inv s" by (rule reg.reachable_inv [OF _ assms]) blast
  then have set: "set (nodeList s) = {a. isActive s a}" and d: "distinct (nodeList s)" and ok: "list_ok s"
    by (auto simp: reg_inv_def list_ok_def isActive_def)
  have "nodeListIndex s a \<noteq> 0 \<and> nodeList s ! (nodeListIndex s a - 1) = a" if "isActive s a" for a
    using that set list_index [OF ok, of a] by (metis diff_Suc_1 mem_Collect_eq nat.distinct(1))
  moreover have "nodeCount s = card {a. isActive s a}"
    using distinct_card [OF d] set by (simp add: nodeCount_def)
  ultimately show ?thesis using set d by blast
qed

text \<open>C34. The stakes are backed: in every reachable state of the registry the tokens taken in
  are the tokens paid out (returned or slashed) plus the stakes of the listed nodes, and an
  inactive address has no stake.\<close>

theorem stakes_backed:
  assumes "rtranclp reg_step (reg_construct own m) s"
  shows "inflow (r_calls s) = outflow (r_calls s) + (\<Sum>a\<in>set (nodeList s). unat (n_stake (nodes s a)))
    \<and> (\<forall>a. \<not> isActive s a \<longrightarrow> n_stake (nodes s a) = 0)"
proof -
  have "reg_inv s" by (rule reg.reachable_inv [OF _ assms]) blast
  then show ?thesis by (simp add: reg_inv_def stakes_ok_def isActive_def)
qed

text \<open>A node can always leave: in every reachable state, for an active sender and a token
  that accepts the refund, \<open>unregister\<close> neither reverts nor runs its list surgery out of
  bounds; it returns the whole stake, and the sender is no longer active.\<close>

theorem unregister_never_stuck:
  assumes reach: "rtranclp reg_step (reg_construct own m) s"
    and act: "isActive s (msg_sender env)" and tok: "\<And>c. tok_accepts env c"
  shows "\<exists>t. unregister env s = Inr t \<and> \<not> isActive t (msg_sender env)
    \<and> nodeCount t = nodeCount s - 1
    \<and> outflow (r_calls t) = outflow (r_calls s) + unat (n_stake (nodes s (msg_sender env)))"
proof -
  let ?a = "msg_sender env" let ?n = "nodes s ?a"
  let ?s = "s\<lparr>nodes := (nodes s)(?a := ?n\<lparr>n_stake := 0, n_active := False\<rparr>)\<rparr>"
  have inv: "reg_inv s" by (rule reg.reachable_inv [OF _ reach]) blast
  then have "list_ok ?s" "?a \<in> set (nodeList ?s)"
    using act by (auto simp: reg_inv_def list_ok_def isActive_def)
  from removeFromList_ok [OF this] obtain u where "removeFromList ?a ?s = Inr u" by blast
  then have "\<exists>t. unregister env s = Inr t"
    using act tok by (cases "0 < n_stake ?n") (simp_all add: unregister_def Let_def isActive_def reg_pay_def)
  then obtain t where t: "unregister env s = Inr t" by blast
  with unregister_state [OF t inv] show ?thesis by (auto simp: nodeCount_def)
qed

subsection \<open>A concrete registry\<close>

definition demo_reg_env :: "address \<Rightarrow> tx_env" where
  "demo_reg_env a = \<lparr>msg_sender = a, block_timestamp = 0, tok_accepts = (\<lambda>_. True)\<rparr>"

definition demo_reg :: reg_state where
  "demo_reg = (case register (demo_reg_env 2) ''http://n'' (replicate 32 1) 9 4000 [5, 0, 0, 7] 100
     (reg_construct 7 100) of Inl _ \<Rightarrow> reg_construct 7 100 | Inr s \<Rightarrow> s)"

lemma demo_reg_eq:
  "register (demo_reg_env 2) ''http://n'' (replicate 32 1) 9 4000 [5, 0, 0, 7] 100 (reg_construct 7 100) = Inr demo_reg"
  "nodeList demo_reg = [2]" "n_stake (nodes demo_reg 2) = 100" "isActive demo_reg 2"
  "r_calls demo_reg = [TransferFrom 2 100]"
  by (simp_all add: demo_reg_def register_def reg_construct_def reg_pay_def reg_emit_def demo_reg_env_def
      no_node_def isActive_def Let_def)

lemma demo_reg_reach: "rtranclp reg_step (reg_construct 7 100) demo_reg"
  using reg_step.register [OF demo_reg_eq(1)] by blast

theorem nodeList_enumerates_active_witness:
  "distinct (nodeList demo_reg) \<and> nodeCount demo_reg = card {a. isActive demo_reg a} \<and> nodeCount demo_reg = 1"
  using nodeList_enumerates_active [OF demo_reg_reach] by (simp add: nodeCount_def demo_reg_eq)

theorem stakes_backed_witness:
  "inflow (r_calls demo_reg) = 100 \<and>
   100 = outflow (r_calls demo_reg) + (\<Sum>a\<in>set (nodeList demo_reg). unat (n_stake (nodes demo_reg a)))"
  using stakes_backed [OF demo_reg_reach] by (simp add: demo_reg_eq)

theorem unregister_never_stuck_witness:
  "\<exists>t. unregister (demo_reg_env 2) demo_reg = Inr t \<and> nodeCount t = 0 \<and> outflow (r_calls t) = 100"
proof -
  have "isActive demo_reg (msg_sender (demo_reg_env 2))" "\<And>c. tok_accepts (demo_reg_env 2) c"
    by (simp_all add: demo_reg_env_def demo_reg_eq)
  from unregister_never_stuck [OF demo_reg_reach this] show ?thesis
    by (auto simp: demo_reg_env_def demo_reg_eq nodeCount_def)
qed

end
