(* ===== verification/JobChannel.thy ===== *)
theory JobChannel
  imports Registry
begin

section \<open>Payment channels (contracts/src/JobChannel.sol)\<close>

text \<open>
  The escrow contract. Its state is the mapping of channels (an id never used maps to the
  zero struct), the token calls made so far and the events emitted so far; its immutable
  fields and the chain id are the record \<open>jc_config\<close>. Every external function is a
  definition that returns the error it reverts with or the new state.
\<close>

datatype status = StNone | StOpen | StChallenged | StClosed

text \<open>The enum's order, in which a channel only ever moves forward.\<close>

fun status_code :: "status \<Rightarrow> nat" where
  "status_code StNone = 0"
| "status_code StOpen = 1"
| "status_code StChallenged = 2"
| "status_code StClosed = 3"

instantiation status :: linorder
begin

definition less_eq_status :: "status \<Rightarrow> status \<Rightarrow> bool" where
  "less_eq_status a b \<longleftrightarrow> status_code a \<le> status_code b"

definition less_status :: "status \<Rightarrow> status \<Rightarrow> bool" where
  "less_status a b \<longleftrightarrow> status_code a < status_code b"

instance
proof
  fix a b c :: status
  show "a < b \<longleftrightarrow> a \<le> b \<and> \<not> b \<le> a" by (auto simp: less_eq_status_def less_status_def)
  show "a \<le> a" by (simp add: less_eq_status_def)
  show "a \<le> b \<Longrightarrow> b \<le> c \<Longrightarrow> a \<le> c" by (simp add: less_eq_status_def)
  show "a \<le> b \<Longrightarrow> b \<le> a \<Longrightarrow> a = b" by (cases a; cases b) (simp_all add: less_eq_status_def)
  show "a \<le> b \<or> b \<le> a" by (auto simp: less_eq_status_def)
qed

end

record channel =
  c_client :: address
  c_node :: address
  deposit :: u256
  latestCumOwed :: u256
  latestNonce :: u64
  challengeDeadline :: u64
  openedAt :: u64
  c_status :: status

record jc_config =
  chainid :: u256
  this_addr :: address
  challengeWindow :: u64
  reclaimTimeout :: u64

datatype jc_error =
    ChannelExists | ChannelNotOpen | ChannelNotChallengeable | ChannelNotFinalizable
  | NodeNotActive | NotClient
  | StaleNonce u64 u64
  | InvalidClientSig address address | InvalidNodeSig address address
  | ChallengeWindowOpen u64 | ChallengeWindowClosed u64 | ReclaimTooEarly u64
  | EcdsaReverted | TokenReverted | ArithPanic

datatype jc_event =
    ChannelOpened bytes32 address address u64 u256
  | ChannelToppedUp bytes32 u256 u256
  | ChannelChallenged bytes32 u64 u256 u64
  | ChannelClosed bytes32 u64 u256 u256
  | ChannelReclaimed bytes32 u256

record jc_state =
  channels :: "bytes32 \<Rightarrow> channel"
  calls :: "token_call list"
  events :: "jc_event list"

definition zero_channel :: channel where
  "zero_channel = \<lparr>c_client = 0, c_node = 0, deposit = 0, latestCumOwed = 0, latestNonce = 0,
     challengeDeadline = 0, openedAt = 0, c_status = StNone\<rparr>"

definition jc_init :: jc_state where
  "jc_init = \<lparr>channels = (\<lambda>_. zero_channel), calls = [], events = []\<rparr>"

definition put_channel :: "bytes32 \<Rightarrow> channel \<Rightarrow> jc_state \<Rightarrow> jc_state" where
  "put_channel cid c s = s\<lparr>channels := (channels s)(cid := c)\<rparr>"

definition emit :: "jc_event \<Rightarrow> jc_state \<Rightarrow> jc_state" where
  "emit e s = s\<lparr>events := events s @ [e]\<rparr>"

definition pay :: "tx_env \<Rightarrow> token_call \<Rightarrow> jc_state \<Rightarrow> jc_error + jc_state" where
  "pay env c s = (if tok_accepts env c then Inr (s\<lparr>calls := calls s @ [c]\<rparr>) else Inl TokenReverted)"

text \<open>A transfer guarded by \<open>amount > 0\<close>.\<close>

definition pay_pos :: "tx_env \<Rightarrow> address \<Rightarrow> u256 \<Rightarrow> jc_state \<Rightarrow> jc_error + jc_state" where
  "pay_pos env a amt s = (if 0 < amt then pay env (Transfer a amt) s else Inr s)"

subsection \<open>Digests and signatures\<close>

definition channelIdOf_sol :: "crypto \<Rightarrow> address \<Rightarrow> address \<Rightarrow> u64 \<Rightarrow> bytes32" where
  "channelIdOf_sol cr client node channelNonce =
     keccak cr (abi_address client @ abi_address node @ abi_u64 channelNonce)"

definition CHANNEL_UPDATE_DOMAIN :: "crypto \<Rightarrow> bytes32" where
  "CHANNEL_UPDATE_DOMAIN cr = keccak cr (map (\<lambda>c. of_nat (of_char c)) ''fldx-v0-channel-update'')"

definition update_message :: "crypto \<Rightarrow> jc_config \<Rightarrow> bytes32 \<Rightarrow> u64 \<Rightarrow> u256 \<Rightarrow> byte list" where
  "update_message cr cfg cid nonce owed =
     CHANNEL_UPDATE_DOMAIN cr @ abi_u256 (chainid cfg) @ abi_address (this_addr cfg)
       @ cid @ abi_u64 nonce @ abi_u256 owed"

definition updateDigest :: "crypto \<Rightarrow> jc_config \<Rightarrow> bytes32 \<Rightarrow> u64 \<Rightarrow> u256 \<Rightarrow> bytes32" where
  "updateDigest cr cfg cid nonce owed =
     toEthSignedMessageHash cr (keccak cr (update_message cr cfg cid nonce owed))"

definition verifySigs ::
  "crypto \<Rightarrow> jc_config \<Rightarrow> bytes32 \<Rightarrow> u64 \<Rightarrow> u256 \<Rightarrow> byte list \<Rightarrow> byte list \<Rightarrow> address \<Rightarrow> address
     \<Rightarrow> jc_error + unit" where
  "verifySigs cr cfg cid nonce owed csig nsig client node =
     (let ethHash = updateDigest cr cfg cid nonce owed in
      case recover cr ethHash csig of None \<Rightarrow> Inl EcdsaReverted
      | Some rc \<Rightarrow>
          if rc \<noteq> client then Inl (InvalidClientSig rc client)
          else case recover cr ethHash nsig of None \<Rightarrow> Inl EcdsaReverted
          | Some rn \<Rightarrow> if rn \<noteq> node then Inl (InvalidNodeSig rn node) else Inr ())"

subsection \<open>The external functions\<close>

definition openChannel ::
  "crypto \<Rightarrow> (address \<Rightarrow> bool) \<Rightarrow> tx_env \<Rightarrow> address \<Rightarrow> u64 \<Rightarrow> u256 \<Rightarrow> jc_state \<Rightarrow> jc_error + jc_state" where
  "openChannel cr active env node channelNonce dep s =
     (let cid = channelIdOf_sol cr (msg_sender env) node channelNonce; c = channels s cid in
      if c_status c \<noteq> StNone then Inl ChannelExists
      else if \<not> active node then Inl NodeNotActive
      else rbind (pay env (TransferFrom (msg_sender env) dep) s) (\<lambda>s.
        let c = c\<lparr>c_client := msg_sender env, c_node := node, deposit := dep,
                  openedAt := ucast (block_timestamp env), c_status := StOpen\<rparr>
        in Inr (emit (ChannelOpened cid (msg_sender env) node channelNonce dep) (put_channel cid c s))))"

definition topUp :: "tx_env \<Rightarrow> bytes32 \<Rightarrow> u256 \<Rightarrow> jc_state \<Rightarrow> jc_error + jc_state" where
  "topUp env cid amount s =
     (let c = channels s cid in
      if c_status c \<noteq> StOpen then Inl ChannelNotOpen
      else rbind (pay env (TransferFrom (msg_sender env) amount) s) (\<lambda>s.
        case checked_add (deposit c) amount of None \<Rightarrow> Inl ArithPanic
        | Some d \<Rightarrow> Inr (emit (ChannelToppedUp cid amount d) (put_channel cid (c\<lparr>deposit := d\<rparr>) s))))"

definition settle :: "tx_env \<Rightarrow> bytes32 \<Rightarrow> channel \<Rightarrow> jc_state \<Rightarrow> jc_error + jc_state" where
  "settle env cid c s =
     (let dep = deposit c;
          paid = (if dep < latestCumOwed c then dep else latestCumOwed c);
          refund = dep - paid;
          s = put_channel cid (c\<lparr>c_status := StClosed, deposit := 0\<rparr>) s in
      rbind (pay_pos env (c_node c) paid s) (\<lambda>s.
      rbind (pay_pos env (c_client c) refund s) (\<lambda>s.
      Inr (emit (ChannelClosed cid (latestNonce c) paid refund) s))))"

definition cooperativeClose ::
  "crypto \<Rightarrow> jc_config \<Rightarrow> tx_env \<Rightarrow> bytes32 \<Rightarrow> u64 \<Rightarrow> u256 \<Rightarrow> byte list \<Rightarrow> byte list \<Rightarrow> jc_state
     \<Rightarrow> jc_error + jc_state" where
  "cooperativeClose cr cfg env cid nonce owed csig nsig s =
     (let c = channels s cid in
      if c_status c \<noteq> StOpen \<and> c_status c \<noteq> StChallenged then Inl ChannelNotOpen
      else if nonce < latestNonce c then Inl (StaleNonce nonce (latestNonce c))
      else rbind (verifySigs cr cfg cid nonce owed csig nsig (c_client c) (c_node c)) (\<lambda>_.
        settle env cid (c\<lparr>latestNonce := nonce, latestCumOwed := owed\<rparr>) s))"

definition challengeClose ::
  "crypto \<Rightarrow> jc_config \<Rightarrow> tx_env \<Rightarrow> bytes32 \<Rightarrow> u64 \<Rightarrow> u256 \<Rightarrow> byte list \<Rightarrow> byte list \<Rightarrow> jc_state
     \<Rightarrow> jc_error + jc_state" where
  "challengeClose cr cfg env cid nonce owed csig nsig s =
     (let c = channels s cid in
      if c_status c \<noteq> StOpen then Inl ChannelNotOpen
      else rbind (verifySigs cr cfg cid nonce owed csig nsig (c_client c) (c_node c)) (\<lambda>_.
        case checked_add (ucast (block_timestamp env)) (challengeWindow cfg) of None \<Rightarrow> Inl ArithPanic
        | Some dl \<Rightarrow>
            Inr (emit (ChannelChallenged cid nonce owed dl)
              (put_channel cid (c\<lparr>latestNonce := nonce, latestCumOwed := owed,
                 challengeDeadline := dl, c_status := StChallenged\<rparr>) s))))"

definition submitChallenge ::
  "crypto \<Rightarrow> jc_config \<Rightarrow> tx_env \<Rightarrow> bytes32 \<Rightarrow> u64 \<Rightarrow> u256 \<Rightarrow> byte list \<Rightarrow> byte list \<Rightarrow> jc_state
     \<Rightarrow> jc_error + jc_state" where
  "submitChallenge cr cfg env cid nonce owed csig nsig s =
     (let c = channels s cid in
      if c_status c \<noteq> StChallenged then Inl ChannelNotChallengeable
      else if ucast (challengeDeadline c) \<le> block_timestamp env
        then Inl (ChallengeWindowClosed (challengeDeadline c))
      else if nonce \<le> latestNonce c then Inl (StaleNonce nonce (latestNonce c))
      else rbind (verifySigs cr cfg cid nonce owed csig nsig (c_client c) (c_node c)) (\<lambda>_.
        Inr (emit (ChannelChallenged cid nonce owed (challengeDeadline c))
          (put_channel cid (c\<lparr>latestNonce := nonce, latestCumOwed := owed\<rparr>) s))))"

definition finalize :: "tx_env \<Rightarrow> bytes32 \<Rightarrow> jc_state \<Rightarrow> jc_error + jc_state" where
  "finalize env cid s =
     (let c = channels s cid in
      if c_status c \<noteq> StChallenged then Inl ChannelNotFinalizable
      else if block_timestamp env < ucast (challengeDeadline c)
        then Inl (ChallengeWindowOpen (challengeDeadline c))
      else settle env cid c s)"

definition reclaim :: "jc_config \<Rightarrow> tx_env \<Rightarrow> bytes32 \<Rightarrow> jc_state \<Rightarrow> jc_error + jc_state" where
  "reclaim cfg env cid s =
     (let c = channels s cid in
      if c_status c \<noteq> StOpen then Inl ChannelNotOpen
      else if msg_sender env \<noteq> c_client c then Inl NotClient
      else case checked_add (openedAt c) (reclaimTimeout cfg) of None \<Rightarrow> Inl ArithPanic
      | Some reclaimAt \<Rightarrow>
          if block_timestamp env < ucast reclaimAt then Inl (ReclaimTooEarly reclaimAt)
          else let amount = deposit c in
            rbind (pay_pos env (c_client c) amount (put_channel cid (c\<lparr>deposit := 0, c_status := StClosed\<rparr>) s)) (\<lambda>s.
            Inr (emit (ChannelReclaimed cid amount) s)))"

text \<open>One transaction that does not revert: any sender, any arguments, any set of active nodes.\<close>

inductive jc_step :: "crypto \<Rightarrow> jc_config \<Rightarrow> jc_state \<Rightarrow> jc_state \<Rightarrow> bool" for cr cfg where
  jc_open: "openChannel cr active env node k dep s = Inr t \<Longrightarrow> jc_step cr cfg s t"
| jc_topUp: "topUp env cid amt s = Inr t \<Longrightarrow> jc_step cr cfg s t"
| jc_coop: "cooperativeClose cr cfg env cid n w cs ns s = Inr t \<Longrightarrow> jc_step cr cfg s t"
| jc_challenge: "challengeClose cr cfg env cid n w cs ns s = Inr t \<Longrightarrow> jc_step cr cfg s t"
| jc_submit: "submitChallenge cr cfg env cid n w cs ns s = Inr t \<Longrightarrow> jc_step cr cfg s t"
| jc_finalize: "finalize env cid s = Inr t \<Longrightarrow> jc_step cr cfg s t"
| jc_reclaim: "reclaim cfg env cid s = Inr t \<Longrightarrow> jc_step cr cfg s t"

subsection \<open>What a contract in use satisfies\<close>

text \<open>Both parties signed the state \<open>(nonce, owed)\<close> of the channel.\<close>

definition signed :: "crypto \<Rightarrow> jc_config \<Rightarrow> bytes32 \<Rightarrow> address \<Rightarrow> address \<Rightarrow> u64 \<Rightarrow> u256 \<Rightarrow> bool" where
  "signed cr cfg cid client node nonce owed \<longleftrightarrow>
     (\<exists>cs. recover cr (updateDigest cr cfg cid nonce owed) cs = Some client) \<and>
     (\<exists>ns. recover cr (updateDigest cr cfg cid nonce owed) ns = Some node)"

definition used :: "jc_state \<Rightarrow> bytes32 set" where
  "used s = {cid. c_status (channels s cid) \<noteq> StNone}"

definition escrowed :: "jc_state \<Rightarrow> nat" where
  "escrowed s = (\<Sum>cid\<in>used s. unat (deposit (channels s cid)))"

definition escrow_ok :: "jc_state \<Rightarrow> bool" where
  "escrow_ok s \<longleftrightarrow> finite (used s)
     \<and> (\<forall>cid. c_status (channels s cid) \<in> {StNone, StClosed} \<longrightarrow> deposit (channels s cid) = 0)
     \<and> inflow (calls s) = outflow (calls s) + escrowed s"

fun event_ok :: "crypto \<Rightarrow> jc_config \<Rightarrow> jc_state \<Rightarrow> jc_event \<Rightarrow> bool" where
  "event_ok cr cfg s (ChannelClosed cid n paid refund) =
     (c_status (channels s cid) = StClosed \<and>
      (\<exists>w. signed cr cfg cid (c_client (channels s cid)) (c_node (channels s cid)) n w \<and> paid \<le> w))"
| "event_ok cr cfg s _ = True"

definition jc_inv :: "crypto \<Rightarrow> jc_config \<Rightarrow> jc_state \<Rightarrow> bool" where
  "jc_inv cr cfg s \<longleftrightarrow> escrow_ok s
     \<and> (\<forall>cid. c_status (channels s cid) \<in> {StNone, StOpen} \<longrightarrow> latestNonce (channels s cid) = 0)
     \<and> (\<forall>cid. c_status (channels s cid) = StChallenged \<longrightarrow>
          signed cr cfg cid (c_client (channels s cid)) (c_node (channels s cid))
            (latestNonce (channels s cid)) (latestCumOwed (channels s cid)))
     \<and> (\<forall>e\<in>set (events s). event_ok cr cfg s e)"

text \<open>
  The effect every transaction has on the one channel it touches, whatever the function:
  the status moves forward and never leaves \<open>StClosed\<close>, the parties and the nonce stay
  or grow, and the token moves exactly the change of the deposit.
\<close>

definition jc_effect :: "crypto \<Rightarrow> jc_config \<Rightarrow> bytes32 \<Rightarrow> jc_state \<Rightarrow> jc_state \<Rightarrow> bool" where
  "jc_effect cr cfg cid s t \<longleftrightarrow> (let c = channels s cid; c' = channels t cid in
     channels t = (channels s)(cid := c')
     \<and> c_status c \<noteq> StClosed \<and> c_status c' \<noteq> StNone \<and> c_status c \<le> c_status c'
     \<and> (c_status c \<noteq> StNone \<longrightarrow> c_client c' = c_client c \<and> c_node c' = c_node c)
     \<and> latestNonce c \<le> latestNonce c' \<and> (c_status c' = StOpen \<longrightarrow> latestNonce c' = latestNonce c)
     \<and> (c_status c' = StClosed \<longrightarrow> deposit c' = 0)
     \<and> (c_status c' = StChallenged \<longrightarrow>
          signed cr cfg cid (c_client c') (c_node c') (latestNonce c') (latestCumOwed c'))
     \<and> inflow (calls t) + outflow (calls s) + unat (deposit c)
         = inflow (calls s) + outflow (calls t) + unat (deposit c')
     \<and> (\<exists>e. events t = events s @ [e] \<and> event_ok cr cfg t e))"

lemma status_order [simp]:
  "StNone \<le> x" "x \<le> StClosed" "StOpen \<le> StChallenged" "\<not> StChallenged \<le> StOpen" "\<not> StOpen \<le> StNone"
  by (cases x; simp add: less_eq_status_def)+

lemma verifySigs_signed:
  "verifySigs cr cfg cid n w cs ns cl nd = Inr u \<Longrightarrow> signed cr cfg cid cl nd n w"
  by (auto simp: verifySigs_def signed_def Let_def split: option.splits if_splits)

lemma pay_pos_state:
  "pay_pos env a amt s = Inr t \<Longrightarrow> channels t = channels s \<and> events t = events s
     \<and> inflow (calls t) = inflow (calls s) \<and> outflow (calls t) = outflow (calls s) + unat amt"
  by (auto simp: pay_pos_def pay_def word_gt_0 split: if_splits)

lemma settle_state:
  assumes "settle env cid c s = Inr t"
  defines "paid \<equiv> min (latestCumOwed c) (deposit c)"
  shows "channels t = (channels s)(cid := c\<lparr>c_status := StClosed, deposit := 0\<rparr>)"
    and "inflow (calls t) = inflow (calls s)"
    and "outflow (calls t) = outflow (calls s) + unat (deposit c)"
    and "events t = events s @ [ChannelClosed cid (latestNonce c) paid (deposit c - paid)]"
proof -
  have p: "(if deposit c < latestCumOwed c then deposit c else latestCumOwed c) = paid"
    by (auto simp: paid_def min_def)
  have "paid \<le> deposit c" by (simp add: paid_def)
  then have "unat (deposit c - paid) + unat paid = unat (deposit c)"
    by (simp add: unat_sub word_le_nat_alt)
  then show "channels t = (channels s)(cid := c\<lparr>c_status := StClosed, deposit := 0\<rparr>)"
    "inflow (calls t) = inflow (calls s)"
    "outflow (calls t) = outflow (calls s) + unat (deposit c)"
    "events t = events s @ [ChannelClosed cid (latestNonce c) paid (deposit c - paid)]"
    using assms(1) unfolding settle_def Let_def p
    by (auto simp: put_channel_def emit_def dest!: pay_pos_state)
qed

lemma settle_effect:
  assumes t: "settle env cid (c\<lparr>latestNonce := n, latestCumOwed := w\<rparr>) s = Inr t" and c: "c = channels s cid"
    and st: "c_status c \<in> {StOpen, StChallenged}" and n: "latestNonce c \<le> n"
    and sg: "signed cr cfg cid (c_client c) (c_node c) n w"
  shows "jc_effect cr cfg cid s t"
  using settle_state [OF t] st n sg unfolding c jc_effect_def Let_def by auto

lemma open_effect:
  "openChannel cr active env node k dep s = Inr t \<Longrightarrow> jc_inv cr cfg s \<Longrightarrow>
   jc_effect cr cfg (channelIdOf_sol cr (msg_sender env) node k) s t"
  by (auto simp: openChannel_def pay_def put_channel_def emit_def jc_effect_def Let_def jc_inv_def
      escrow_ok_def split: if_splits)

lemma topUp_effect: "topUp env cid amt s = Inr t \<Longrightarrow> jc_effect cr cfg cid s t"
  by (auto simp: topUp_def pay_def put_channel_def emit_def jc_effect_def Let_def
      dest: checked_add_Some split: if_splits option.splits)

lemma coop_effect:
  assumes "cooperativeClose cr cfg env cid n w cs ns s = Inr t"
  shows "jc_effect cr cfg cid s t"
proof -
  let ?c = "channels s cid"
  from assms have "settle env cid (?c\<lparr>latestNonce := n, latestCumOwed := w\<rparr>) s = Inr t"
    "c_status ?c \<in> {StOpen, StChallenged}" "latestNonce ?c \<le> n"
    "signed cr cfg cid (c_client ?c) (c_node ?c) n w"
    by (auto simp: cooperativeClose_def Let_def not_less dest: verifySigs_signed split: if_splits)
  then show ?thesis by (intro settle_effect) auto
qed

lemma challenge_effect:
  "challengeClose cr cfg env cid n w cs ns s = Inr t \<Longrightarrow> jc_inv cr cfg s \<Longrightarrow> jc_effect cr cfg cid s t"
  by (auto simp: challengeClose_def put_channel_def emit_def jc_effect_def Let_def jc_inv_def
      dest: verifySigs_signed split: if_splits option.splits)

lemma submit_effect:
  "submitChallenge cr cfg env cid n w cs ns s = Inr t \<Longrightarrow> jc_effect cr cfg cid s t"
  by (auto simp: submitChallenge_def put_channel_def emit_def jc_effect_def Let_def
      dest: verifySigs_signed split: if_splits)

lemma finalize_effect:
  assumes "finalize env cid s = Inr t" "jc_inv cr cfg s"
  shows "jc_effect cr cfg cid s t"
proof -
  let ?c = "channels s cid"
  have "?c\<lparr>latestNonce := latestNonce ?c, latestCumOwed := latestCumOwed ?c\<rparr> = ?c" by simp
  with assms show ?thesis
    by (intro settle_effect [where c = ?c and n = "latestNonce ?c" and w = "latestCumOwed ?c"])
      (auto simp: finalize_def Let_def jc_inv_def split: if_splits)
qed

lemma reclaim_effect: "reclaim cfg env cid s = Inr t \<Longrightarrow> jc_effect cr cfg cid s t"
  by (auto simp: reclaim_def put_channel_def emit_def jc_effect_def Let_def
      dest!: pay_pos_state split: if_splits option.splits)

lemma step_effect: "jc_step cr cfg s t \<Longrightarrow> jc_inv cr cfg s \<Longrightarrow> \<exists>cid. jc_effect cr cfg cid s t"
  by (erule jc_step.cases)
    (blast intro: open_effect topUp_effect coop_effect challenge_effect submit_effect
      finalize_effect reclaim_effect)+

subsection \<open>Every transaction keeps the invariant\<close>

lemma jc_inv_init: "jc_inv cr cfg jc_init"
  by (simp add: jc_inv_def jc_init_def escrow_ok_def used_def escrowed_def zero_channel_def)

lemma escrowed_effect:
  assumes ok: "escrow_ok s" and t: "channels t = (channels s)(cid := c)" and c: "c_status c \<noteq> StNone"
  shows "used t = insert cid (used s)"
    and "escrowed t + unat (deposit (channels s cid)) = escrowed s + unat (deposit c)"
proof -
  show u: "used t = insert cid (used s)" using t c by (auto simp: used_def)
  let ?f = "\<lambda>cid. unat (deposit (channels s cid))"
  have "(if cid \<in> used s then ?f cid else 0) = ?f cid" using ok by (auto simp: escrow_ok_def used_def)
  moreover have "escrowed t = (\<Sum>k\<in>insert cid (used s). (?f(cid := unat (deposit c))) k)"
    unfolding escrowed_def u t by (rule sum.cong) auto
  ultimately show "escrowed t + ?f cid = escrowed s + unat (deposit c)"
    using sum_update [where A = "used s" and a = cid and f = ?f and v = "unat (deposit c)"] ok by (simp add: escrow_ok_def escrowed_def)
qed

lemma effect_other: "jc_effect cr cfg d s t \<Longrightarrow> cid \<noteq> d \<Longrightarrow> channels t cid = channels s cid"
  unfolding jc_effect_def Let_def by (metis fun_upd_other)

lemma effect_open: "jc_effect cr cfg d s t \<Longrightarrow> c_status (channels s d) \<noteq> StClosed"
  by (simp add: jc_effect_def Let_def)

lemma event_ok_mono:
  assumes "jc_effect cr cfg d s t" "event_ok cr cfg s e"
  shows "event_ok cr cfg t e"
proof (cases e)
  case (ChannelClosed cid n paid refund)
  with assms(2) effect_open [OF assms(1)] have "cid \<noteq> d" by auto
  with effect_other [OF assms(1)] assms(2) ChannelClosed show ?thesis by simp
qed simp_all

lemma effect_inv:
  assumes eff: "jc_effect cr cfg cid s t" and inv: "jc_inv cr cfg s"
  shows "jc_inv cr cfg t"
proof -
  obtain c where c_eq: "channels t cid = c" by blast
  from eff have t: "channels t = (channels s)(cid := c)" and c: "c_status c \<noteq> StNone"
    and closed: "c_status c = StClosed \<Longrightarrow> deposit c = 0"
    and flow: "inflow (calls t) + outflow (calls s) + unat (deposit (channels s cid))
        = inflow (calls s) + outflow (calls t) + unat (deposit c)"
    and chal: "c_status c = StChallenged \<Longrightarrow>
        signed cr cfg cid (c_client c) (c_node c) (latestNonce c) (latestCumOwed c)"
    and opn: "c_status c = StOpen \<Longrightarrow> latestNonce c = latestNonce (channels s cid) \<and> c_status (channels s cid) \<le> StOpen"
    unfolding jc_effect_def Let_def c_eq by simp_all
  have ok: "escrow_ok s" using inv by (simp add: jc_inv_def)
  note E = escrowed_effect [OF ok t c]
  have "escrow_ok t" using ok E flow closed c by (auto simp: escrow_ok_def t)
  moreover have "c_status c = StOpen \<Longrightarrow> latestNonce c = 0"
    using opn inv by (cases "c_status (channels s cid)") (simp_all add: jc_inv_def less_eq_status_def)
  moreover have "\<forall>e\<in>set (events t). event_ok cr cfg t e"
    using eff inv event_ok_mono [OF eff] by (auto simp: jc_effect_def jc_inv_def Let_def)
  ultimately show ?thesis using inv c chal by (simp add: jc_inv_def t)
qed

lemma jc_step_inv: "jc_inv cr cfg s \<Longrightarrow> jc_step cr cfg s t \<Longrightarrow> jc_inv cr cfg t"
  using step_effect effect_inv by blast

interpretation jc: inv_system "jc_step cr cfg" "\<lambda>s. s = jc_init" "jc_inv cr cfg" for cr cfg
  by unfold_locales (auto simp: jc_inv_init intro: jc_step_inv)

lemma step_frozen:
  assumes "jc_inv cr cfg s" "jc_step cr cfg s t" "c_status (channels s cid) = StClosed"
  shows "channels t cid = channels s cid"
  using step_effect [OF assms(2,1)] assms(3) effect_other effect_open by metis

lemma step_forward:
  assumes "jc_inv cr cfg s" "jc_step cr cfg s t"
  shows "c_status (channels s cid) \<le> c_status (channels t cid)"
    and "latestNonce (channels s cid) \<le> latestNonce (channels t cid)"
    and "c_status (channels s cid) \<noteq> StNone \<Longrightarrow>
      c_client (channels t cid) = c_client (channels s cid) \<and> c_node (channels t cid) = c_node (channels s cid)"
proof -
  from step_effect [OF assms(2,1)] obtain d where d: "jc_effect cr cfg d s t" by blast
  then have "channels t cid = channels s cid \<or> cid = d" using effect_other by metis
  with d show "c_status (channels s cid) \<le> c_status (channels t cid)"
    "latestNonce (channels s cid) \<le> latestNonce (channels t cid)"
    "c_status (channels s cid) \<noteq> StNone \<Longrightarrow>
      c_client (channels t cid) = c_client (channels s cid) \<and> c_node (channels t cid) = c_node (channels s cid)"
    by (auto simp: jc_effect_def Let_def)
qed

subsection \<open>Properties\<close>

text \<open>C1. The escrow is always solvent: in every state the contract can reach, by any
  sequence of transactions of any senders, the tokens it has taken in are the tokens it has
  paid out plus the sum of the deposits its mapping records.\<close>

theorem escrow_solvent:
  assumes "rtranclp (jc_step cr cfg) jc_init s"
  shows "inflow (calls s) = outflow (calls s) + escrowed s \<and> finite (used s)"
  using jc.reachable_inv [OF refl assms] by (simp add: jc_inv_def escrow_ok_def)


text \<open>C10. A channel only moves forward: over any run from a reachable state its status never
  goes back in the order None, Open, Challenged, Closed, its nonce never decreases, and the
  parties of an opened channel never change.\<close>

theorem channel_forward:
  assumes reach: "rtranclp (jc_step cr cfg) jc_init s" and run: "rtranclp (jc_step cr cfg) s t"
  shows "c_status (channels s cid) \<le> c_status (channels t cid)
    \<and> latestNonce (channels s cid) \<le> latestNonce (channels t cid)
    \<and> (c_status (channels s cid) = StNone \<or>
        c_client (channels t cid) = c_client (channels s cid) \<and> c_node (channels t cid) = c_node (channels s cid))"
proof (intro conjI)
  have inv: "jc_inv cr cfg s" by (rule jc.reachable_inv [OF refl reach])
  show "c_status (channels s cid) \<le> c_status (channels t cid)"
    by (rule jc.run_mono [OF run inv]) (rule step_forward)
  show "latestNonce (channels s cid) \<le> latestNonce (channels t cid)"
    by (rule jc.run_mono [OF run inv]) (rule step_forward)
  let ?P = "\<lambda>u. c_status (channels u cid) \<noteq> StNone \<and>
    c_client (channels u cid) = c_client (channels s cid) \<and> c_node (channels u cid) = c_node (channels s cid)"
  have "?P t" if "c_status (channels s cid) \<noteq> StNone"
  proof (rule jc.run_stable [where P = ?P, OF run inv])
    show "?P s" using that by simp
    fix u v assume u: "jc_inv cr cfg u" "?P u" "jc_step cr cfg u v"
    have "c_status (channels v cid) \<noteq> StNone"
      using step_forward(1) [OF u(1,3), of cid] u(2)
      by (cases "c_status (channels u cid)") (auto simp: less_eq_status_def)
    with step_forward(3) [OF u(1,3), of cid] u(2) show "?P v" by auto
  qed
  then show "c_status (channels s cid) = StNone \<or>
        c_client (channels t cid) = c_client (channels s cid) \<and> c_node (channels t cid) = c_node (channels s cid)"
    by blast
qed

text \<open>A closed channel is final: once closed, no later transaction changes any field of
  it, and opening it again with the same client, node and channel nonce reverts with
  \<open>ChannelExists\<close>, whoever is active and whatever the deposit.\<close>

theorem closed_is_final:
  assumes "rtranclp (jc_step cr cfg) jc_init s" and "rtranclp (jc_step cr cfg) s t"
    and "c_status (channels s (channelIdOf_sol cr (msg_sender env) node k)) = StClosed"
  shows "channels t (channelIdOf_sol cr (msg_sender env) node k)
      = channels s (channelIdOf_sol cr (msg_sender env) node k)
    \<and> openChannel cr active env node k dep t = Inl ChannelExists"
proof -
  let ?id = "channelIdOf_sol cr (msg_sender env) node k"
  have "jc_inv cr cfg s" by (rule jc.reachable_inv [OF refl assms(1)])
  then have eq: "channels t ?id = channels s ?id"
  proof (rule jc.run_stable [OF assms(2)])
    fix u v assume "jc_inv cr cfg u" "channels u ?id = channels s ?id" "jc_step cr cfg u v"
    then show "channels v ?id = channels s ?id" using step_frozen assms(3) by metis
  qed simp
  then show ?thesis using assms(3) by (simp add: openChannel_def Let_def)
qed

lemma coop_pays:
  assumes "c_status (channels s cid) \<in> {StOpen, StChallenged}"
    and "latestNonce (channels s cid) \<le> n"
    and "verifySigs cr cfg cid n w cs ns (c_client (channels s cid)) (c_node (channels s cid)) = Inr ()"
    and "\<And>c. tok_accepts env c"
  shows "\<exists>t. cooperativeClose cr cfg env cid n w cs ns s = Inr t
    \<and> calls t = calls s
        @ (if 0 < min w (deposit (channels s cid))
           then [Transfer (c_node (channels s cid)) (min w (deposit (channels s cid)))] else [])
        @ (if w < deposit (channels s cid)
           then [Transfer (c_client (channels s cid)) (deposit (channels s cid) - w)] else [])
    \<and> channels t = (channels s)(cid := (channels s cid)\<lparr>latestNonce := n, latestCumOwed := w,
        c_status := StClosed, deposit := 0\<rparr>)"
proof -
  let ?d = "deposit (channels s cid)"
  have "0 < ?d - min w ?d \<longleftrightarrow> w < ?d" by (auto simp: min_def not_le word_gt_0)
  moreover have "(if ?d < w then ?d else w) = min w ?d" by (auto simp: min_def)
  moreover have "w < ?d \<Longrightarrow> ?d - min w ?d = ?d - w" by (simp add: min_def less_imp_le)
  ultimately show ?thesis
    using assms by (auto simp: cooperativeClose_def settle_def pay_pos_def pay_def put_channel_def
        emit_def Let_def not_less)
qed

text \<open>What a cooperative close pays: with both signatures valid, a nonce that is not
  stale and a token that accepts its calls, it succeeds, pays the node the owed amount
  capped at the deposit and the client the rest, in this order and leaving out a zero
  transfer, and closes the channel with nothing left in it.\<close>

theorem cooperativeClose_pays:
  assumes "c_status (channels s cid) \<in> {StOpen, StChallenged}"
    and "latestNonce (channels s cid) \<le> n"
    and "verifySigs cr cfg cid n w cs ns (c_client (channels s cid)) (c_node (channels s cid)) = Inr ()"
    and "\<And>c. tok_accepts env c"
  shows "\<exists>t. cooperativeClose cr cfg env cid n w cs ns s = Inr t
    \<and> calls t = calls s
        @ (if 0 < min w (deposit (channels s cid))
           then [Transfer (c_node (channels s cid)) (min w (deposit (channels s cid)))] else [])
        @ (if w < deposit (channels s cid)
           then [Transfer (c_client (channels s cid)) (deposit (channels s cid) - w)] else [])
    \<and> channels t = (channels s)(cid := (channels s cid)\<lparr>latestNonce := n, latestCumOwed := w,
        c_status := StClosed, deposit := 0\<rparr>)"
  using assms by (rule coop_pays)


text \<open>The reclaim valve: a reclaim goes through only for the client of an open channel
  at or after the opening time plus the timeout (computed without overflow), it refunds the
  whole deposit to the client, and the channel is closed.\<close>

theorem reclaim_only_client_after_timeout:
  assumes "reclaim cfg env cid s = Inr t"
  shows "c_status (channels s cid) = StOpen \<and> msg_sender env = c_client (channels s cid)
    \<and> unat (openedAt (channels s cid)) + unat (reclaimTimeout cfg) \<le> unat (block_timestamp env)
    \<and> outflow (calls t) = outflow (calls s) + unat (deposit (channels s cid))
    \<and> c_status (channels t cid) = StClosed \<and> deposit (channels t cid) = 0"
proof -
  let ?c = "channels s cid"
  from assms obtain r where r: "checked_add (openedAt ?c) (reclaimTimeout cfg) = Some r"
      "\<not> block_timestamp env < ucast r" "c_status ?c = StOpen" "msg_sender env = c_client ?c"
    by (auto simp: reclaim_def Let_def split: if_splits option.splits)
  have "uint (ucast r :: u256) = uint r" by (rule uint_up_ucast) (simp add: is_up)
  then have "unat (ucast r :: u256) = unat r" by (metis unat_eq_nat_uint)
  then have "unat (openedAt ?c) + unat (reclaimTimeout cfg) \<le> unat (block_timestamp env)"
    using checked_add_Some [OF r(1)] r(2) by (simp add: word_less_nat_alt)
  moreover have "outflow (calls t) = outflow (calls s) + unat (deposit ?c)
      \<and> c_status (channels t cid) = StClosed \<and> deposit (channels t cid) = 0"
    using assms r by (auto simp: reclaim_def Let_def put_channel_def emit_def dest!: pay_pos_state split: if_splits)
  ultimately show ?thesis using r by simp
qed

subsection \<open>A concrete contract\<close>

text \<open>
  A chain for the witnesses: a constant hash, no prefix, and a signature that recovers to its
  own length, so that one zero byte is the client's signature and two are the node's.
\<close>

definition demo_cr :: crypto where
  "demo_cr = \<lparr>keccak = (\<lambda>_. replicate 32 0), toEthSignedMessageHash = (\<lambda>h. h),
     recover = (\<lambda>_ sig. Some (of_nat (length sig)))\<rparr>"

definition demo_cfg :: jc_config where
  "demo_cfg = \<lparr>chainid = 84532, this_addr = 9, challengeWindow = 3600, reclaimTimeout = 86400\<rparr>"

definition demo_env :: "address \<Rightarrow> u256 \<Rightarrow> tx_env" where
  "demo_env a now = \<lparr>msg_sender = a, block_timestamp = now, tok_accepts = (\<lambda>_. True)\<rparr>"

definition demo_cid :: bytes32 where
  "demo_cid = replicate 32 0"

definition or_init :: "jc_error + jc_state \<Rightarrow> jc_state" where
  "or_init r = (case r of Inl _ \<Rightarrow> jc_init | Inr s \<Rightarrow> s)"

definition demo_open :: jc_state where
  "demo_open = or_init (openChannel demo_cr (\<lambda>_. True) (demo_env 1 100) 2 0 50 jc_init)"

definition demo_challenged :: jc_state where
  "demo_challenged = or_init (challengeClose demo_cr demo_cfg (demo_env 2 200) demo_cid 3 20 [0] [0, 0] demo_open)"

definition demo_closed :: jc_state where
  "demo_closed = or_init (cooperativeClose demo_cr demo_cfg (demo_env 1 300) demo_cid 3 20 [0] [0, 0] demo_open)"

lemmas demo_simps = demo_cr_def demo_cfg_def demo_env_def demo_cid_def or_init_def jc_init_def zero_channel_def
  put_channel_def emit_def pay_def pay_pos_def channelIdOf_sol_def verifySigs_def Let_def checked_add_def

lemma demo_open_eq:
  "demo_open = \<lparr>channels = (\<lambda>_. zero_channel)(demo_cid := \<lparr>c_client = 1, c_node = 2, deposit = 50,
       latestCumOwed = 0, latestNonce = 0, challengeDeadline = 0, openedAt = 100, c_status = StOpen\<rparr>),
     calls = [TransferFrom 1 50], events = [ChannelOpened demo_cid 1 2 0 50]\<rparr>"
  by (simp add: demo_open_def openChannel_def demo_simps)

lemma demo_challenged_eq:
  "demo_challenged = \<lparr>channels = (\<lambda>_. zero_channel)(demo_cid := \<lparr>c_client = 1, c_node = 2, deposit = 50,
       latestCumOwed = 20, latestNonce = 3, challengeDeadline = 3800, openedAt = 100, c_status = StChallenged\<rparr>),
     calls = [TransferFrom 1 50],
     events = [ChannelOpened demo_cid 1 2 0 50, ChannelChallenged demo_cid 3 20 3800]\<rparr>"
  by (simp add: demo_challenged_def demo_open_eq challengeClose_def demo_simps)

lemma demo_closed_eq:
  "demo_closed = \<lparr>channels = (\<lambda>_. zero_channel)(demo_cid := \<lparr>c_client = 1, c_node = 2, deposit = 0,
       latestCumOwed = 20, latestNonce = 3, challengeDeadline = 0, openedAt = 100, c_status = StClosed\<rparr>),
     calls = [TransferFrom 1 50, Transfer 2 20, Transfer 1 30],
     events = [ChannelOpened demo_cid 1 2 0 50, ChannelClosed demo_cid 3 20 30]\<rparr>"
  by (simp add: demo_closed_def demo_open_eq cooperativeClose_def settle_def demo_simps)

lemma demo_open_step: "jc_step demo_cr demo_cfg jc_init demo_open"
  by (rule jc_open [where active = "\<lambda>_. True" and env = "demo_env 1 100" and node = 2 and k = 0 and dep = 50])
    (simp add: demo_open_def openChannel_def demo_simps)

lemma demo_closed_step: "jc_step demo_cr demo_cfg demo_open demo_closed"
  by (rule jc_coop [where env = "demo_env 1 300" and cid = demo_cid and n = 3 and w = 20 and cs = "[0]" and ns = "[0, 0]"])
    (simp add: demo_closed_def demo_open_eq cooperativeClose_def settle_def demo_simps)

lemma demo_reach_open: "rtranclp (jc_step demo_cr demo_cfg) jc_init demo_open"
  using demo_open_step by blast

lemma demo_closed_run: "rtranclp (jc_step demo_cr demo_cfg) demo_open demo_closed"
  using demo_closed_step by blast

lemma demo_reach_closed: "rtranclp (jc_step demo_cr demo_cfg) jc_init demo_closed"
  using demo_reach_open demo_closed_step by (rule rtranclp.rtrancl_into_rtrancl)

theorem escrow_solvent_witness:
  "inflow (calls demo_open) = outflow (calls demo_open) + escrowed demo_open \<and> inflow (calls demo_open) = 50"
  using escrow_solvent [OF demo_reach_open] by (simp add: demo_open_eq)


theorem channel_forward_witness:
  "c_status (channels demo_open demo_cid) \<le> c_status (channels demo_closed demo_cid)
    \<and> latestNonce (channels demo_open demo_cid) \<le> latestNonce (channels demo_closed demo_cid)"
  using channel_forward [OF demo_reach_open demo_closed_run, of demo_cid] by blast

theorem closed_is_final_witness:
  "openChannel demo_cr (\<lambda>_. True) (demo_env 1 400) 2 0 70 demo_closed = Inl ChannelExists"
proof -
  have "c_status (channels demo_closed (channelIdOf_sol demo_cr (msg_sender (demo_env 1 400)) 2 0)) = StClosed"
    by (simp add: demo_closed_eq demo_simps)
  from closed_is_final [OF demo_reach_closed rtranclp.rtrancl_refl this] show ?thesis by blast
qed

theorem cooperativeClose_pays_witness:
  "\<exists>t. cooperativeClose demo_cr demo_cfg (demo_env 1 300) demo_cid 3 20 [0] [0, 0] demo_open = Inr t
    \<and> calls t = [TransferFrom 1 50, Transfer 2 20, Transfer 1 30]"
proof -
  have "c_status (channels demo_open demo_cid) \<in> {StOpen, StChallenged}"
    "latestNonce (channels demo_open demo_cid) \<le> 3"
    "verifySigs demo_cr demo_cfg demo_cid 3 20 [0] [0, 0] (c_client (channels demo_open demo_cid))
       (c_node (channels demo_open demo_cid)) = Inr ()"
    "\<And>c. tok_accepts (demo_env 1 300) c"
    by (simp_all add: demo_open_eq demo_simps)
  from cooperativeClose_pays [OF this] show ?thesis by (auto simp: demo_open_eq min_def)
qed


theorem reclaim_only_client_after_timeout_witness:
  "outflow (calls (or_init (reclaim demo_cfg (demo_env 1 90000) demo_cid demo_open))) = 50"
proof -
  have "reclaim demo_cfg (demo_env 1 90000) demo_cid demo_open
      = Inr (or_init (reclaim demo_cfg (demo_env 1 90000) demo_cid demo_open))"
    by (simp add: demo_open_eq reclaim_def demo_simps)
  from reclaim_only_client_after_timeout [OF this] show ?thesis by (simp add: demo_open_eq)
qed

end
