(* ===== verification/Chains.thy ===== *)
theory Chains
  imports Eth
begin

section \<open>Chain configuration and contract interfaces\<close>

text \<open>
  \<open>packages/chains/src/index.ts\<close> (the table of chains, \<open>getChain\<close>, \<open>requireDeployed\<close>),
  \<open>apps/dashboard/src/lib/chain.ts\<close> (\<open>viemChainOf\<close> and the cached \<open>publicClient\<close>; viem's
  \<open>createPublicClient\<close> is a parameter), \<open>lib/wagmi.ts\<close> and \<open>lib/abis.ts\<close>: the ABIs as
  data, and the signatures of \<open>JobChannel.sol\<close> and \<open>NodeRegistry.sol\<close> they must agree with.
\<close>

subsection \<open>The table of chains\<close>

datatype chain_name = Anvil | BaseSepolia | Base

fun chain_name_str :: "chain_name \<Rightarrow> string" where
  "chain_name_str Anvil = ''anvil''"
| "chain_name_str BaseSepolia = ''baseSepolia''"
| "chain_name_str Base = ''base''"

record chain_addresses =
  usdc_at :: string
  registry_at :: "string option"
  channel_at :: "string option"

record chain_config =
  cc_chainId :: int
  cc_name :: chain_name
  cc_rpcUrl :: string
  cc_blockExplorer :: string
  cc_addresses :: chain_addresses

definition chains :: "(int, chain_config) jmap" where
  "chains =
    [(31337, \<lparr>cc_chainId = 31337, cc_name = Anvil, cc_rpcUrl = ''http://127.0.0.1:8545'',
        cc_blockExplorer = '''',
        cc_addresses = \<lparr>usdc_at = ''0x5FbDB2315678afecb367f032d93F642f64180aa3'',
          registry_at = Some ''0xe7f1725E7734CE288F8367e1Bb143E90bb3F0512'',
          channel_at = Some ''0x9fE46736679d2D9a65F0992F2272dE9f3c7fa6e0''\<rparr>\<rparr>),
     (84532, \<lparr>cc_chainId = 84532, cc_name = BaseSepolia, cc_rpcUrl = ''https://sepolia.base.org'',
        cc_blockExplorer = ''https://sepolia.basescan.org'',
        cc_addresses = \<lparr>usdc_at = ''0x036CbD53842c5426634e7929541eC2318f3dCF7e'',
          registry_at = Some ''0xf52b8f75eed06E61801D5251022FD052aa97A51C'',
          channel_at = Some ''0x8afaE8DF7E2b9f28c2e0A7655BF2Df57506Fb58a''\<rparr>\<rparr>),
     (8453, \<lparr>cc_chainId = 8453, cc_name = Base, cc_rpcUrl = ''https://mainnet.base.org'',
        cc_blockExplorer = ''https://basescan.org'',
        cc_addresses = \<lparr>usdc_at = ''0x833589fCD6eDb6E08f4c7C32D4f71b54bdA02913'',
          registry_at = None, channel_at = None\<rparr>\<rparr>)]"

datatype chain_error = UnknownChain int | NotDeployed chain_name int

fun chain_error_message :: "chain_error \<Rightarrow> string" where
  "chain_error_message (UnknownChain i) = ''unknown chainId: '' @ int_str i"
| "chain_error_message (NotDeployed n i) =
     ''fldx contracts not deployed on '' @ chain_name_str n @ '' (chainId '' @ int_str i @ ''). '' @
     ''See contracts/README.md for deployment.''"

definition getChain :: "int \<Rightarrow> chain_error + chain_config" where
  "getChain chainId =
     (case jmap_get chains chainId of None \<Rightarrow> Inl (UnknownChain chainId) | Some c \<Rightarrow> Inr c)"

text \<open>JavaScript's truthiness of a \<open>string | null\<close>.\<close>

definition truthy :: "string option \<Rightarrow> bool" where
  "truthy s = (case s of None \<Rightarrow> False | Some t \<Rightarrow> t \<noteq> [])"

definition requireDeployed :: "int \<Rightarrow> chain_error + chain_config" where
  "requireDeployed chainId =
     rbind (getChain chainId) (\<lambda>c.
       if \<not> truthy (registry_at (cc_addresses c)) \<or> \<not> truthy (channel_at (cc_addresses c))
       then Inl (NotDeployed (cc_name c) chainId)
       else Inr c)"

subsection \<open>The viem chain and the client cache\<close>

record viem_chain =
  vc_id :: int
  vc_name :: string
  vc_currency :: "string \<times> string \<times> nat"
  vc_rpc :: "string list"
  vc_explorer :: "(string \<times> string) option"

definition NATIVE_CURRENCY :: "string \<times> string \<times> nat" where
  "NATIVE_CURRENCY = (''Ether'', ''ETH'', 18)"

definition viemChainOf :: "chain_config \<Rightarrow> viem_chain" where
  "viemChainOf cfg =
     \<lparr>vc_id = cc_chainId cfg, vc_name = chain_name_str (cc_name cfg), vc_currency = NATIVE_CURRENCY,
      vc_rpc = [cc_rpcUrl cfg],
      vc_explorer = (if cc_blockExplorer cfg \<noteq> [] then Some (chain_name_str (cc_name cfg), cc_blockExplorer cfg)
                     else None)\<rparr>"

definition DEFAULT_CHAIN_ID :: int where
  "DEFAULT_CHAIN_ID = 84532"

text \<open>
  \<open>publicClient\<close> over the module-level \<open>clientCache\<close>. \<open>create\<close> stands for viem's
  \<open>createPublicClient\<close>, handed the number of the call as a serial (each call makes a new
  object), the chain and the RPC URL.
\<close>

record 'c client_cache =
  clientCache :: "(int, 'c) jmap"
  created :: nat

definition publicClient ::
  "(nat \<Rightarrow> viem_chain \<Rightarrow> string \<Rightarrow> 'c) \<Rightarrow> int option \<Rightarrow> 'c client_cache \<Rightarrow>
   (chain_error + 'c) \<times> 'c client_cache" where
  "publicClient create arg st =
     (let chainId = (case arg of None \<Rightarrow> DEFAULT_CHAIN_ID | Some i \<Rightarrow> i) in
      case jmap_get (clientCache st) chainId of
        Some hit \<Rightarrow> (Inr hit, st)
      | None \<Rightarrow>
          (case getChain chainId of
             Inl e \<Rightarrow> (Inl e, st)
           | Inr cfg \<Rightarrow>
               let client = create (created st) (viemChainOf cfg) (cc_rpcUrl cfg) in
               (Inr client, \<lparr>clientCache = jmap_set chainId client (clientCache st), created = Suc (created st)\<rparr>)))"

definition publicClients ::
  "(nat \<Rightarrow> viem_chain \<Rightarrow> string \<Rightarrow> 'c) \<Rightarrow> int option list \<Rightarrow> 'c client_cache \<Rightarrow> 'c client_cache" where
  "publicClients create args st = fold (\<lambda>a s. snd (publicClient create a s)) args st"

subsection \<open>wagmi configuration\<close>

record wagmi_config =
  wc_appName :: string
  wc_projectId :: string
  wc_chains :: "int list"
  wc_transports :: "int list"
  wc_ssr :: bool

definition baseSepolia_id :: int where
  "baseSepolia_id = 84532"

definition wagmiConfig :: "string option \<Rightarrow> wagmi_config" where
  "wagmiConfig env_project =
     \<lparr>wc_appName = ''fldx'',
      wc_projectId = (case env_project of None \<Rightarrow> ''00000000000000000000000000000000'' | Some p \<Rightarrow> p),
      wc_chains = [baseSepolia_id], wc_transports = [baseSepolia_id], wc_ssr = True\<rparr>"

definition FLDX_CHAIN_ID :: int where
  "FLDX_CHAIN_ID = baseSepolia_id"

subsection \<open>ABIs\<close>

datatype abi_type = TAddress | TUint nat | TBool | TBytes | TBytes32 | TTuple "(string \<times> abi_type) list"

datatype mutability = View | Pure | Nonpayable

record abi_fn =
  af_name :: string
  af_mut :: mutability
  af_inputs :: "(string \<times> abi_type) list"
  af_outputs :: "(string \<times> abi_type) list"

definition NODE_REGISTRY_ABI :: "abi_fn list" where
  "NODE_REGISTRY_ABI =
    [\<lparr>af_name = ''nodeCount'', af_mut = View, af_inputs = [], af_outputs = [('''', TUint 256)]\<rparr>,
     \<lparr>af_name = ''minStake'', af_mut = View, af_inputs = [], af_outputs = [('''', TUint 256)]\<rparr>]"

definition erc20Abi :: "abi_fn list" where
  "erc20Abi =
    [\<lparr>af_name = ''allowance'', af_mut = View,
      af_inputs = [(''owner'', TAddress), (''spender'', TAddress)], af_outputs = [('''', TUint 256)]\<rparr>,
     \<lparr>af_name = ''approve'', af_mut = Nonpayable,
      af_inputs = [(''spender'', TAddress), (''amount'', TUint 256)], af_outputs = [('''', TBool)]\<rparr>,
     \<lparr>af_name = ''balanceOf'', af_mut = View,
      af_inputs = [(''account'', TAddress)], af_outputs = [('''', TUint 256)]\<rparr>]"

definition jobChannelAbi :: "abi_fn list" where
  "jobChannelAbi =
    [\<lparr>af_name = ''openChannel'', af_mut = Nonpayable,
      af_inputs = [(''node'', TAddress), (''channelNonce'', TUint 64), (''deposit'', TUint 256)],
      af_outputs = [('''', TBytes32)]\<rparr>,
     \<lparr>af_name = ''topUp'', af_mut = Nonpayable,
      af_inputs = [(''channelId'', TBytes32), (''amount'', TUint 256)], af_outputs = []\<rparr>,
     \<lparr>af_name = ''cooperativeClose'', af_mut = Nonpayable,
      af_inputs = [(''channelId'', TBytes32), (''nonce'', TUint 64), (''cumOwed'', TUint 256),
                   (''clientSig'', TBytes), (''nodeSig'', TBytes)],
      af_outputs = []\<rparr>,
     \<lparr>af_name = ''challengeClose'', af_mut = Nonpayable,
      af_inputs = [(''channelId'', TBytes32), (''nonce'', TUint 64), (''cumOwed'', TUint 256),
                   (''clientSig'', TBytes), (''nodeSig'', TBytes)],
      af_outputs = []\<rparr>,
     \<lparr>af_name = ''reclaim'', af_mut = Nonpayable,
      af_inputs = [(''channelId'', TBytes32)], af_outputs = []\<rparr>,
     \<lparr>af_name = ''channels'', af_mut = View,
      af_inputs = [(''channelId'', TBytes32)],
      af_outputs = [('''', TTuple
        [(''client'', TAddress), (''node'', TAddress), (''deposit'', TUint 256), (''latestCumOwed'', TUint 256),
         (''latestNonce'', TUint 64), (''challengeDeadline'', TUint 64), (''openedAt'', TUint 64),
         (''status'', TUint 8)])]\<rparr>]"

text \<open>
  The declared external and public functions of \<open>JobChannel.sol\<close>, as the Solidity
  compiler publishes their types (an enum is a \<open>uint8\<close>), and the two views of
  \<open>NodeRegistry.sol\<close> the dashboard reads; other generated getters are left out.
\<close>

definition job_channel_interface :: "abi_fn list" where
  "job_channel_interface =
    [\<lparr>af_name = ''channelIdOf'', af_mut = Pure,
      af_inputs = [(''client'', TAddress), (''node'', TAddress), (''channelNonce'', TUint 64)],
      af_outputs = [('''', TBytes32)]\<rparr>,
     \<lparr>af_name = ''openChannel'', af_mut = Nonpayable,
      af_inputs = [(''node'', TAddress), (''channelNonce'', TUint 64), (''deposit'', TUint 256)],
      af_outputs = [('''', TBytes32)]\<rparr>,
     \<lparr>af_name = ''topUp'', af_mut = Nonpayable,
      af_inputs = [(''channelId'', TBytes32), (''amount'', TUint 256)], af_outputs = []\<rparr>,
     \<lparr>af_name = ''cooperativeClose'', af_mut = Nonpayable,
      af_inputs = [(''channelId'', TBytes32), (''nonce'', TUint 64), (''cumOwed'', TUint 256),
                   (''clientSig'', TBytes), (''nodeSig'', TBytes)],
      af_outputs = []\<rparr>,
     \<lparr>af_name = ''challengeClose'', af_mut = Nonpayable,
      af_inputs = [(''channelId'', TBytes32), (''nonce'', TUint 64), (''cumOwed'', TUint 256),
                   (''clientSig'', TBytes), (''nodeSig'', TBytes)],
      af_outputs = []\<rparr>,
     \<lparr>af_name = ''submitChallenge'', af_mut = Nonpayable,
      af_inputs = [(''channelId'', TBytes32), (''nonce'', TUint 64), (''cumOwed'', TUint 256),
                   (''clientSig'', TBytes), (''nodeSig'', TBytes)],
      af_outputs = []\<rparr>,
     \<lparr>af_name = ''finalize'', af_mut = Nonpayable, af_inputs = [(''channelId'', TBytes32)], af_outputs = []\<rparr>,
     \<lparr>af_name = ''reclaim'', af_mut = Nonpayable, af_inputs = [(''channelId'', TBytes32)], af_outputs = []\<rparr>,
     \<lparr>af_name = ''channels'', af_mut = View,
      af_inputs = [(''channelId'', TBytes32)],
      af_outputs = [('''', TTuple
        [(''client'', TAddress), (''node'', TAddress), (''deposit'', TUint 256), (''latestCumOwed'', TUint 256),
         (''latestNonce'', TUint 64), (''challengeDeadline'', TUint 64), (''openedAt'', TUint 64),
         (''status'', TUint 8)])]\<rparr>,
     \<lparr>af_name = ''updateDigest'', af_mut = View,
      af_inputs = [(''channelId'', TBytes32), (''nonce'', TUint 64), (''cumOwed'', TUint 256)],
      af_outputs = [('''', TBytes32)]\<rparr>]"

definition registry_interface :: "abi_fn list" where
  "registry_interface =
    [\<lparr>af_name = ''nodeCount'', af_mut = View, af_inputs = [], af_outputs = [('''', TUint 256)]\<rparr>,
     \<lparr>af_name = ''minStake'', af_mut = View, af_inputs = [], af_outputs = [('''', TUint 256)]\<rparr>]"

text \<open>What the dashboard's encoder and the contract's dispatcher must agree on: the name
  and the types in and out (the selector hashes the first two), and the mutability.\<close>

definition same_signature :: "abi_fn \<Rightarrow> abi_fn \<Rightarrow> bool" where
  "same_signature f g \<longleftrightarrow> af_name f = af_name g \<and> af_mut f = af_mut g \<and>
     map snd (af_inputs f) = map snd (af_inputs g) \<and> map snd (af_outputs f) = map snd (af_outputs g)"

definition abi_agrees :: "abi_fn list \<Rightarrow> abi_fn list \<Rightarrow> bool" where
  "abi_agrees abi iface \<longleftrightarrow> distinct (map af_name abi) \<and> distinct (map af_name iface) \<and>
     list_all (\<lambda>f. list_ex (same_signature f) iface) abi"

subsection \<open>Lemmas\<close>

text \<open>A \<open>0x\<close>-prefixed 20-byte address, as \<open>hexToBytes\<close> reads it without loss.\<close>

definition address_ok :: "string \<Rightarrow> bool" where
  "address_ok s \<longleftrightarrow> take 2 s = ''0x'' \<and> length s = 42 \<and> list_all (\<lambda>c. hex_digit c \<noteq> None) (drop 2 s)"

definition addresses_ok :: "chain_addresses \<Rightarrow> bool" where
  "addresses_ok a \<longleftrightarrow> address_ok (usdc_at a) \<and>
     (\<forall>r\<in>set_option (registry_at a) \<union> set_option (channel_at a). address_ok r)"

lemma length_hex_pairs_div: "length (hex_pairs s) = length s div 2"
  by (induction s rule: hex_pairs.induct) auto

lemma address_ok_bytes: "address_ok s \<Longrightarrow> \<exists>bs. hexToBytes (drop 2 s) = Inr bs \<and> length bs = 20"
  by (simp add: address_ok_def hexToBytes_def length_hex_pairs_div)

lemma chains_ids: "jmap_get chains i = Some c \<Longrightarrow> cc_chainId c = i"
  by (auto simp: chains_def jmap_get_def split: if_splits)

lemma chains_keys: "set (jmap_keys chains) = {31337, 84532, 8453}"
  by (auto simp: chains_def jmap_keys_def)

lemma chains_addresses_ok: "jmap_get chains i = Some c \<Longrightarrow> addresses_ok (cc_addresses c)"
  by (auto simp: chains_def jmap_get_def addresses_ok_def address_ok_def hex_digit_def split: if_splits)

definition cache_ok :: "(nat \<Rightarrow> viem_chain \<Rightarrow> string \<Rightarrow> 'c) \<Rightarrow> 'c client_cache \<Rightarrow> bool" where
  "cache_ok create st \<longleftrightarrow> distinct (jmap_keys (clientCache st)) \<and> created st = length (clientCache st) \<and>
     set (jmap_keys (clientCache st)) \<subseteq> set (jmap_keys chains) \<and>
     (\<forall>i c. jmap_get (clientCache st) i = Some c \<longrightarrow>
        (\<exists>k cfg. getChain i = Inr cfg \<and> c = create k (viemChainOf cfg) (cc_rpcUrl cfg)))"

lemma getChain_keys: "getChain i = Inr cfg \<Longrightarrow> i \<in> set (jmap_keys chains)"
  by (metis getChain_def Inl_Inr_False jmap_get_None option.simps(4))

lemma cache_ok_step: "cache_ok create st \<Longrightarrow> cache_ok create (snd (publicClient create a st))"
proof -
  assume ok: "cache_ok create st"
  let ?i = "case a of None \<Rightarrow> DEFAULT_CHAIN_ID | Some i \<Rightarrow> i"
  show ?thesis
  proof (cases "jmap_get (clientCache st) ?i")
    case (Some c)
    with ok show ?thesis by (simp add: publicClient_def Let_def)
  next
    case miss: None
    show ?thesis
    proof (cases "getChain ?i")
      case (Inl e)
      with miss ok show ?thesis by (simp add: publicClient_def Let_def)
    next
      case (Inr cfg)
      let ?c = "create (created st) (viemChainOf cfg) (cc_rpcUrl cfg)"
      let ?m = "jmap_set ?i ?c (clientCache st)"
      have keys: "jmap_keys ?m = jmap_keys (clientCache st) @ [?i]"
        using miss by (simp add: jm.keys_put jmap_get_None)
      then have "length ?m = Suc (length (clientCache st))"
        by (metis jmap_keys_def length_append_singleton length_map)
      then have "cache_ok create \<lparr>clientCache = ?m, created = Suc (created st)\<rparr>"
        using ok miss [unfolded jmap_get_None] Inr keys getChain_keys [OF Inr]
        by (auto simp: cache_ok_def jm.lookup_put)
      then show ?thesis using miss Inr by (simp add: publicClient_def Let_def)
    qed
  qed
qed

lemma cache_ok_run: "cache_ok create st \<Longrightarrow> cache_ok create (publicClients create as st)"
  unfolding publicClients_def by (induction as arbitrary: st) (auto intro: cache_ok_step)

lemma cache_ok_empty: "cache_ok create \<lparr>clientCache = [], created = 0\<rparr>"
  by (simp add: cache_ok_def jmap_keys_def jmap_get_def)

lemma cache_keeps_step:
  "jmap_get (clientCache st) i = Some c \<Longrightarrow>
   jmap_get (clientCache (snd (publicClient create a st))) i = Some c"
  by (auto simp: publicClient_def Let_def jm.lookup_put split: option.splits sum.splits)

lemma cache_keeps: "jmap_get (clientCache st) i = Some c \<Longrightarrow>
   jmap_get (clientCache (publicClients create as st)) i = Some c"
  unfolding publicClients_def by (induction as arbitrary: st) (auto intro: cache_keeps_step)

lemma publicClient_cached:
  "fst (publicClient create a st) = Inr c \<Longrightarrow>
   jmap_get (clientCache (snd (publicClient create a st))) (case a of None \<Rightarrow> DEFAULT_CHAIN_ID | Some i \<Rightarrow> i) = Some c"
  by (auto simp: publicClient_def Let_def jm.lookup_put split: option.splits sum.splits)

lemma cache_bounded: "cache_ok create st \<Longrightarrow> created st \<le> 3"
proof -
  assume ok: "cache_ok create st"
  then have "length (clientCache st) = card (set (jmap_keys (clientCache st)))"
    by (metis cache_ok_def distinct_card jmap_keys_def length_map)
  also have "\<dots> \<le> card {31337, 84532, 8453 :: int}"
    using ok by (intro card_mono) (auto simp: cache_ok_def chains_keys)
  finally show ?thesis using ok by (simp add: cache_ok_def)
qed

lemma abis_agree:
  "abi_agrees jobChannelAbi job_channel_interface \<and> abi_agrees NODE_REGISTRY_ABI registry_interface"
  by (simp add: abi_agrees_def jobChannelAbi_def job_channel_interface_def NODE_REGISTRY_ABI_def
    registry_interface_def same_signature_def)

subsection \<open>Properties\<close>

text \<open>\<open>requireDeployed\<close> on every chain id: it returns the configuration exactly for
  anvil and Base Sepolia, refuses Base mainnet as not deployed and any other id as unknown;
  what it returns is the entry of that very id, and its token, registry and channel
  addresses are \<open>0x\<close> and 40 hex digits, so \<open>hexToBytes\<close> reads 20 bytes from each.\<close>

theorem requireDeployed_spec:
  "requireDeployed i =
     (if i = 31337 \<or> i = 84532 then getChain i
      else if i = 8453 then Inl (NotDeployed Base 8453) else Inl (UnknownChain i)) \<and>
   (case requireDeployed i of Inl e \<Rightarrow> i \<notin> {31337, 84532}
    | Inr c \<Rightarrow> cc_chainId c = i \<and>
        (\<exists>u r ch ub rb cb. cc_addresses c = \<lparr>usdc_at = u, registry_at = Some r, channel_at = Some ch\<rparr> \<and>
           map (take 2) [u, r, ch] = replicate 3 ''0x'' \<and>
           map (\<lambda>s. hexToBytes (drop 2 s)) [u, r, ch] = [Inr ub, Inr rb, Inr cb] \<and>
           map length [ub, rb, cb] = [20, 20, 20]))"
proof (cases "i \<in> {31337, 84532}")
  case True
  then obtain c u r ch where c: "getChain i = Inr c" "jmap_get chains i = Some c"
    "cc_addresses c = \<lparr>usdc_at = u, registry_at = Some r, channel_at = Some ch\<rparr>" "r \<noteq> []" "ch \<noteq> []"
    by (auto simp: getChain_def chains_def jmap_get_def)
  then have ok: "address_ok u" "address_ok r" "address_ok ch"
    using chains_addresses_ok [OF c(2)] by (auto simp: addresses_ok_def)
  have "requireDeployed i = getChain i" using c by (simp add: requireDeployed_def truthy_def)
  then show ?thesis
    using True c chains_ids [OF c(2)] ok ok [THEN address_ok_bytes]
    by (auto simp: address_ok_def numeral_3_eq_3)
next
  case False
  then show ?thesis
    by (auto simp: requireDeployed_def getChain_def chains_def jmap_get_def truthy_def)
qed

text \<open>The client cache: from the empty module state, after any calls, a call that
  returned a client keeps returning that very client however many calls for whatever
  chains come in between, creates no second one, and at most three clients (one per
  configured chain) are ever created.\<close>

theorem publicClient_stable:
  assumes "st = publicClients create before \<lparr>clientCache = [], created = 0\<rparr>"
    and "fst (publicClient create a st) = Inr c"
    and "st' = publicClients create between (snd (publicClient create a st))"
  shows "publicClient create a st' = (Inr c, st') \<and> created st' \<le> 3"
proof
  have "jmap_get (clientCache st') (case a of None \<Rightarrow> DEFAULT_CHAIN_ID | Some i \<Rightarrow> i) = Some c"
    unfolding assms(3) by (rule cache_keeps [OF publicClient_cached [OF assms(2)]])
  then show "publicClient create a st' = (Inr c, st')" by (simp add: publicClient_def Let_def)
  have "cache_ok create st'"
    using assms cache_ok_run cache_ok_step cache_ok_empty by metis
  then show "created st' \<le> 3" by (rule cache_bounded)
qed

theorem publicClient_stable_witness:
  "publicClient (\<lambda>k ch url. (k, vc_id ch)) None
     (publicClients (\<lambda>k ch url. (k, vc_id ch)) [Some 1, Some 31337] \<lparr>clientCache = [(84532, (0, 84532))], created = 1\<rparr>)
   = (Inr (0, 84532), \<lparr>clientCache = [(84532, (0, 84532)), (31337, (1, 31337))], created = 2\<rparr>)"
  using publicClient_stable [of "\<lparr>clientCache = [], created = 0\<rparr>" "\<lambda>k ch url. (k, vc_id ch)" "[]" None "(0, 84532)"
    "publicClients (\<lambda>k ch url. (k, vc_id ch)) [Some 1, Some 31337] \<lparr>clientCache = [(84532, (0, 84532))], created = 1\<rparr>"
    "[Some 1, Some 31337]"]
  by (simp add: publicClients_def publicClient_def Let_def DEFAULT_CHAIN_ID_def getChain_def chains_def
    jmap_get_def jmap_set_def viemChainOf_def)

end
