(* ===== verification/Protocol.thy ===== *)
theory Protocol
  imports Prelude
begin

section \<open>Wire types (packages/protocol)\<close>

text \<open>
  The types of \<open>packages/protocol/src/generated/*.ts\<close>, re-exported by
  \<open>packages/protocol/src/index.ts\<close>. They are generated from the Rust enums and structs of
  \<open>crates/protocol/src/lib.rs\<close>; constructors and fields keep their names, with a short
  prefix per record where two records share a field name. A TypeScript field that may be
  absent, \<open>undefined\<close> or \<open>null\<close> is an \<open>option\<close>: the code reads it with \<open>??\<close>, \<open>== null\<close>
  or truthiness, which do not tell the first two apart. Token counts and nonces are
  integers on the wire (\<open>u32\<close>, \<open>u64\<close> in Rust).
\<close>

datatype backend_type = MockTee | Fhe | Mcp | Local

fun backend_str :: "backend_type \<Rightarrow> string" where
  "backend_str MockTee = ''mock-tee''"
| "backend_str Fhe = ''fhe''"
| "backend_str Mcp = ''mcp''"
| "backend_str Local = ''local''"

lemma backend_str_inject [simp]: "backend_str a = backend_str b \<longleftrightarrow> a = b"
  by (cases a; cases b) simp_all

text \<open>JSON values, for the tool input the protocol types as \<open>unknown\<close>.\<close>

datatype json = JNull | JBool bool | JNum rat | JStr string | JArr "json list" | JObj "(string \<times> json) list"

datatype request_status = Running | WaitingTool | Final | Error

datatype agent_step =
    Prompt (prompt_text: string)
  | ToolResult (tr_toolUseId: string) (tr_content: string) (tr_isError: bool)

record usage =
  inputTokens :: int
  outputTokens :: int
  cacheCreationInputTokens :: "int option"
  cacheReadInputTokens :: "int option"

datatype agent_response =
    FinalAnswer (ar_content: string) (ar_usage: usage)
  | ToolCall (ar_toolUseId: string) (ar_name: string) (ar_input: json) (ar_usage: usage)

record backend_price =
  bp_backend :: backend_type
  bp_pricePer1k :: string

record node_info =
  ni_publicKey :: string
  ni_backends :: "backend_type list"

record node_registration =
  identityPubkey :: string
  publicKey :: string
  url :: string
  backends :: "backend_type list"
  maxTokens :: int
  pricing :: "backend_price list"
  nr_nonce :: string
  nr_signature :: string

record node_heartbeat =
  hb_identityPubkey :: string
  hb_nonce :: string
  hb_signature :: string

record bid =
  bid_identityPubkey :: string
  bid_backend :: backend_type
  bid_pricePer1k :: string
  bid_maxTokens :: int
  bid_validUntil :: int
  bid_nonce :: string
  bid_signature :: string

record request_record =
  rr_sessionId :: string
  rr_backend :: backend_type
  startedAtMs :: int
  lastUpdateMs :: int
  endedAtMs :: "int option"
  rr_status :: request_status
  rr_stepCount :: int
  rr_lastToolName :: "string option"

record job_spec =
  js_backend :: backend_type
  js_estimatedTokens :: jsnum
  js_maxPricePer1k :: jsnum

record job_match =
  jm_url :: string
  jm_publicKey :: string

text \<open>\<open>cumOwed\<close> is a decimal string of USDC base units, \<open>channelId\<close> a \<open>0x\<close> hex string.\<close>

record channel_update =
  cu_channelId :: string
  cu_nonce :: nat
  cu_cumOwed :: string

record client_ack =
  ack_update :: channel_update
  clientSig :: string

record receipt_breakdown =
  rb_sessionId :: string
  rb_backend :: backend_type
  rb_usage :: usage
  rb_pricePer1k :: string
  rb_roundTripCost :: string

record node_signed_receipt =
  rc_update :: channel_update
  rc_breakdown :: receipt_breakdown
  nodeSig :: string

record encrypted_request =
  er_sessionId :: string
  clientPublicKey :: string
  er_nonce :: string
  er_ciphertext :: string
  er_backend :: backend_type
  er_channelId :: "string option"
  er_prevAck :: "client_ack option"

record encrypted_response =
  es_sessionId :: string
  es_nonce :: string
  es_ciphertext :: string
  es_receipt :: "node_signed_receipt option"

end
