(* ===== verification/Wire.thy ===== *)
theory Wire
  imports Protocol "HOL-Library.Monad_Syntax"
begin

section \<open>JSON form of the wire types\<close>

text \<open>
  What \<open>JSON.stringify\<close> is given and what a reader picks out of \<open>JSON.parse\<close>, for every
  message of \<open>/info\<close>, \<open>/jobs/match\<close>, \<open>/execute\<close> and \<open>/ack\<close>. Field names and tags are those
  of \<open>packages/protocol/src/generated/*.ts\<close>, which the serde attributes of
  \<open>crates/protocol/src/lib.rs\<close> produce: camel case, kebab-case enums, the \<open>type\<close> tag of
  \<open>AgentStep\<close> and \<open>AgentResponse\<close>, absent optional fields. The reader is the serde one (a
  missing field or a wrong type is an error, here \<open>None\<close>); the TypeScript side casts with
  \<open>as\<close> and reads the same fields.
\<close>

subsection \<open>Field access\<close>

fun jget :: "json \<Rightarrow> string \<Rightarrow> json option" where
  "jget (JObj fs) k = map_of fs k"
| "jget _ k = None"

fun as_str :: "json \<Rightarrow> string option" where
  "as_str (JStr s) = Some s"
| "as_str _ = None"

fun as_int :: "json \<Rightarrow> int option" where
  "as_int (JNum r) = (if of_int \<lfloor>r\<rfloor> = r then Some \<lfloor>r\<rfloor> else None)"
| "as_int _ = None"

fun as_bool :: "json \<Rightarrow> bool option" where
  "as_bool (JBool b) = Some b"
| "as_bool _ = None"

fun as_list :: "json \<Rightarrow> json list option" where
  "as_list (JArr xs) = Some xs"
| "as_list _ = None"

text \<open>A field that may be absent or \<open>null\<close>.\<close>

definition as_opt :: "(json \<Rightarrow> 'a option) \<Rightarrow> json option \<Rightarrow> 'a option option" where
  "as_opt f j = (case j of None \<Rightarrow> Some None | Some JNull \<Rightarrow> Some None | Some v \<Rightarrow> map_option Some (f v))"

definition field :: "(json \<Rightarrow> 'a option) \<Rightarrow> json \<Rightarrow> string \<Rightarrow> 'a option" where
  "field f j k = Option.bind (jget j k) f"

fun omap :: "('a \<Rightarrow> 'b option) \<Rightarrow> 'a list \<Rightarrow> 'b list option" where
  "omap f [] = Some []"
| "omap f (x # xs) = do { y \<leftarrow> f x; ys \<leftarrow> omap f xs; Some (y # ys) }"

lemma omap_map: "(\<And>x. x \<in> set xs \<Longrightarrow> f (g x) = Some x) \<Longrightarrow> omap f (map g xs) = Some xs"
  by (induction xs) auto

definition jint :: "int \<Rightarrow> json" where
  "jint i = JNum (of_int i)"

definition opt_field :: "string \<Rightarrow> ('a \<Rightarrow> json) \<Rightarrow> 'a option \<Rightarrow> (string \<times> json) list" where
  "opt_field k f v = (case v of None \<Rightarrow> [] | Some x \<Rightarrow> [(k, f x)])"

lemma as_int_jint [simp]: "as_int (jint i) = Some i"
  by (simp add: jint_def)

lemma jint_not_null [simp]: "jint i \<noteq> JNull"
  by (simp add: jint_def)

lemma as_opt_simps [simp]:
  "as_opt f None = Some None" "as_opt f (Some JNull) = Some None"
  "j \<noteq> JNull \<Longrightarrow> as_opt f (Some j) = map_option Some (f j)"
  by (auto simp: as_opt_def split: json.splits)

subsection \<open>Encoders\<close>

definition backend_json :: "backend_type \<Rightarrow> json" where
  "backend_json b = JStr (backend_str b)"

definition usage_json :: "usage \<Rightarrow> json" where
  "usage_json u = JObj ([(''inputTokens'', jint (inputTokens u)), (''outputTokens'', jint (outputTokens u))] @
     opt_field ''cacheCreationInputTokens'' jint (cacheCreationInputTokens u) @
     opt_field ''cacheReadInputTokens'' jint (cacheReadInputTokens u))"

fun step_json :: "agent_step \<Rightarrow> json" where
  "step_json (Prompt p) = JObj [(''type'', JStr ''prompt''), (''prompt'', JStr p)]"
| "step_json (ToolResult i c e) =
     JObj [(''type'', JStr ''toolResult''), (''toolUseId'', JStr i), (''content'', JStr c), (''isError'', JBool e)]"

fun response_json :: "agent_response \<Rightarrow> json" where
  "response_json (FinalAnswer c u) =
     JObj [(''type'', JStr ''final''), (''content'', JStr c), (''usage'', usage_json u)]"
| "response_json (ToolCall i n v u) =
     JObj [(''type'', JStr ''toolCall''), (''toolUseId'', JStr i), (''name'', JStr n), (''input'', v),
           (''usage'', usage_json u)]"

definition update_json :: "channel_update \<Rightarrow> json" where
  "update_json u = JObj [(''channelId'', JStr (cu_channelId u)), (''nonce'', jint (int (cu_nonce u))),
     (''cumOwed'', JStr (cu_cumOwed u))]"

definition ack_json :: "client_ack \<Rightarrow> json" where
  "ack_json a = JObj [(''update'', update_json (ack_update a)), (''clientSig'', JStr (clientSig a))]"

definition breakdown_json :: "receipt_breakdown \<Rightarrow> json" where
  "breakdown_json b = JObj [(''sessionId'', JStr (rb_sessionId b)), (''backend'', backend_json (rb_backend b)),
     (''usage'', usage_json (rb_usage b)), (''pricePer1k'', JStr (rb_pricePer1k b)),
     (''roundTripCost'', JStr (rb_roundTripCost b))]"

definition receipt_json :: "node_signed_receipt \<Rightarrow> json" where
  "receipt_json r = JObj [(''update'', update_json (rc_update r)), (''breakdown'', breakdown_json (rc_breakdown r)),
     (''nodeSig'', JStr (nodeSig r))]"

definition req_json :: "encrypted_request \<Rightarrow> json" where
  "req_json q = JObj ([(''sessionId'', JStr (er_sessionId q)), (''clientPublicKey'', JStr (clientPublicKey q)),
     (''nonce'', JStr (er_nonce q)), (''ciphertext'', JStr (er_ciphertext q)),
     (''backend'', backend_json (er_backend q))] @
     opt_field ''channelId'' JStr (er_channelId q) @ opt_field ''prevAck'' ack_json (er_prevAck q))"

definition enc_json :: "encrypted_response \<Rightarrow> json" where
  "enc_json e = JObj ([(''sessionId'', JStr (es_sessionId e)), (''nonce'', JStr (es_nonce e)),
     (''ciphertext'', JStr (es_ciphertext e))] @ opt_field ''receipt'' receipt_json (es_receipt e))"

definition info_json :: "node_info \<Rightarrow> json" where
  "info_json i = JObj [(''publicKey'', JStr (ni_publicKey i)), (''backends'', JArr (map backend_json (ni_backends i)))]"

text \<open>\<open>JSON.stringify\<close> writes NaN and the infinities as \<open>null\<close>.\<close>

fun jsnum_json :: "jsnum \<Rightarrow> json" where
  "jsnum_json (Fin r) = JNum r"
| "jsnum_json _ = JNull"

definition spec_json :: "job_spec \<Rightarrow> json" where
  "spec_json s = JObj [(''backend'', backend_json (js_backend s)), (''estimatedTokens'', jsnum_json (js_estimatedTokens s)),
     (''maxPricePer1k'', jsnum_json (js_maxPricePer1k s))]"

definition match_json :: "job_match \<Rightarrow> json" where
  "match_json m = JObj [(''url'', JStr (jm_url m)), (''publicKey'', JStr (jm_publicKey m))]"

subsection \<open>Decoders\<close>

definition backend_of_json :: "json \<Rightarrow> backend_type option" where
  "backend_of_json j = Option.bind (as_str j) (\<lambda>s. List.find (\<lambda>b. backend_str b = s) [MockTee, Fhe, Mcp, Local])"

definition usage_of_json :: "json \<Rightarrow> usage option" where
  "usage_of_json j = do {
     i \<leftarrow> field as_int j ''inputTokens'';
     u \<leftarrow> field as_int j ''outputTokens'';
     cc \<leftarrow> as_opt as_int (jget j ''cacheCreationInputTokens'');
     cr \<leftarrow> as_opt as_int (jget j ''cacheReadInputTokens'');
     Some \<lparr>inputTokens = i, outputTokens = u, cacheCreationInputTokens = cc, cacheReadInputTokens = cr\<rparr> }"

definition step_of_json :: "json \<Rightarrow> agent_step option" where
  "step_of_json j = do {
     t \<leftarrow> field as_str j ''type'';
     if t = ''prompt'' then map_option Prompt (field as_str j ''prompt'')
     else if t = ''toolResult'' then do {
       i \<leftarrow> field as_str j ''toolUseId'';
       c \<leftarrow> field as_str j ''content'';
       e \<leftarrow> (case jget j ''isError'' of None \<Rightarrow> Some False | Some v \<Rightarrow> as_bool v);
       Some (ToolResult i c e) }
     else None }"

definition response_of_json :: "json \<Rightarrow> agent_response option" where
  "response_of_json j = do {
     t \<leftarrow> field as_str j ''type'';
     u \<leftarrow> field usage_of_json j ''usage'';
     if t = ''final'' then map_option (\<lambda>c. FinalAnswer c u) (field as_str j ''content'')
     else if t = ''toolCall'' then do {
       i \<leftarrow> field as_str j ''toolUseId'';
       n \<leftarrow> field as_str j ''name'';
       v \<leftarrow> jget j ''input'';
       Some (ToolCall i n v u) }
     else None }"

definition update_of_json :: "json \<Rightarrow> channel_update option" where
  "update_of_json j = do {
     c \<leftarrow> field as_str j ''channelId'';
     n \<leftarrow> field as_int j ''nonce'';
     w \<leftarrow> field as_str j ''cumOwed'';
     if n < 0 then None else Some \<lparr>cu_channelId = c, cu_nonce = nat n, cu_cumOwed = w\<rparr> }"

definition ack_of_json :: "json \<Rightarrow> client_ack option" where
  "ack_of_json j = do {
     u \<leftarrow> field update_of_json j ''update'';
     s \<leftarrow> field as_str j ''clientSig'';
     Some \<lparr>ack_update = u, clientSig = s\<rparr> }"

definition breakdown_of_json :: "json \<Rightarrow> receipt_breakdown option" where
  "breakdown_of_json j = do {
     s \<leftarrow> field as_str j ''sessionId'';
     b \<leftarrow> field backend_of_json j ''backend'';
     u \<leftarrow> field usage_of_json j ''usage'';
     p \<leftarrow> field as_str j ''pricePer1k'';
     c \<leftarrow> field as_str j ''roundTripCost'';
     Some \<lparr>rb_sessionId = s, rb_backend = b, rb_usage = u, rb_pricePer1k = p, rb_roundTripCost = c\<rparr> }"

definition receipt_of_json :: "json \<Rightarrow> node_signed_receipt option" where
  "receipt_of_json j = do {
     u \<leftarrow> field update_of_json j ''update'';
     b \<leftarrow> field breakdown_of_json j ''breakdown'';
     s \<leftarrow> field as_str j ''nodeSig'';
     Some \<lparr>rc_update = u, rc_breakdown = b, nodeSig = s\<rparr> }"

definition req_of_json :: "json \<Rightarrow> encrypted_request option" where
  "req_of_json j = do {
     s \<leftarrow> field as_str j ''sessionId'';
     p \<leftarrow> field as_str j ''clientPublicKey'';
     n \<leftarrow> field as_str j ''nonce'';
     c \<leftarrow> field as_str j ''ciphertext'';
     b \<leftarrow> field backend_of_json j ''backend'';
     ch \<leftarrow> as_opt as_str (jget j ''channelId'');
     a \<leftarrow> as_opt ack_of_json (jget j ''prevAck'');
     Some \<lparr>er_sessionId = s, clientPublicKey = p, er_nonce = n, er_ciphertext = c, er_backend = b,
           er_channelId = ch, er_prevAck = a\<rparr> }"

definition enc_of_json :: "json \<Rightarrow> encrypted_response option" where
  "enc_of_json j = do {
     s \<leftarrow> field as_str j ''sessionId'';
     n \<leftarrow> field as_str j ''nonce'';
     c \<leftarrow> field as_str j ''ciphertext'';
     r \<leftarrow> as_opt receipt_of_json (jget j ''receipt'');
     Some \<lparr>es_sessionId = s, es_nonce = n, es_ciphertext = c, es_receipt = r\<rparr> }"

definition info_of_json :: "json \<Rightarrow> node_info option" where
  "info_of_json j = do {
     p \<leftarrow> field as_str j ''publicKey'';
     bs \<leftarrow> field as_list j ''backends'';
     b \<leftarrow> omap backend_of_json bs;
     Some \<lparr>ni_publicKey = p, ni_backends = b\<rparr> }"

definition match_of_json :: "json \<Rightarrow> job_match option" where
  "match_of_json j = do {
     u \<leftarrow> field as_str j ''url'';
     p \<leftarrow> field as_str j ''publicKey'';
     Some \<lparr>jm_url = u, jm_publicKey = p\<rparr> }"

subsection \<open>Round trips\<close>

lemma backend_json_roundtrip [simp]: "backend_of_json (backend_json b) = Some b"
  by (cases b) (simp_all add: backend_of_json_def backend_json_def)

lemma usage_json_roundtrip [simp]: "usage_of_json (usage_json u) = Some u"
  by (cases u; cases "cacheCreationInputTokens u"; cases "cacheReadInputTokens u")
    (simp_all add: usage_of_json_def usage_json_def field_def opt_field_def)

lemma step_json_roundtrip [simp]: "step_of_json (step_json s) = Some s"
  by (cases s) (simp_all add: step_of_json_def field_def)

lemma response_json_roundtrip [simp]: "response_of_json (response_json r) = Some r"
  by (cases r) (simp_all add: response_of_json_def field_def)

lemma update_json_roundtrip [simp]: "update_of_json (update_json u) = Some u"
  by (simp add: update_of_json_def update_json_def field_def)

lemma ack_json_roundtrip [simp]: "ack_of_json (ack_json a) = Some a"
  by (simp add: ack_of_json_def ack_json_def field_def)

lemma breakdown_json_roundtrip [simp]: "breakdown_of_json (breakdown_json b) = Some b"
  by (simp add: breakdown_of_json_def breakdown_json_def field_def)

lemma receipt_json_roundtrip [simp]: "receipt_of_json (receipt_json r) = Some r"
  by (simp add: receipt_of_json_def receipt_json_def field_def)

lemma obj_not_null [simp]: "ack_json a \<noteq> JNull" "receipt_json r \<noteq> JNull"
  by (simp_all add: ack_json_def receipt_json_def)

lemma req_json_roundtrip [simp]: "req_of_json (req_json q) = Some q"
  by (cases q; cases "er_channelId q"; cases "er_prevAck q")
    (simp_all add: req_of_json_def req_json_def field_def opt_field_def)

lemma enc_json_roundtrip [simp]: "enc_of_json (enc_json e) = Some e"
  by (cases e; cases "es_receipt e") (simp_all add: enc_of_json_def enc_json_def field_def opt_field_def)

lemma info_json_roundtrip [simp]: "info_of_json (info_json i) = Some i"
  by (simp add: info_of_json_def info_json_def field_def omap_map)

lemma match_json_roundtrip [simp]: "match_of_json (match_json m) = Some m"
  by (simp add: match_of_json_def match_json_def field_def)


end
