(* ===== verification/Transport.thy ===== *)
theory Transport
  imports Wire "HOL-Library.Countable"
begin

section \<open>Encrypted transport\<close>

text \<open>
  \<open>packages/fldx-client/src/transport.ts\<close>: \<open>fetchNodeInfo\<close>, \<open>matchJob\<close>, \<open>sendStep\<close> with both of
  its overloads, \<open>postAck\<close>; and the part of the node's \<open>execute\<close> handler
  (\<open>apps/node/src/main.rs\<close>) that opens a request and seals the answer, with
  \<open>derive_key\<close>, \<open>encrypt\<close> and \<open>decrypt\<close> of \<open>crates/crypto\<close>.

  The primitives of the noble and RustCrypto packages, base64 and the JSON text codecs are
  the parameters of record \<open>prims\<close>; each may throw, with the library's message. The random
  ephemeral key and nonces are arguments. A server is a function from requests to a fetch
  that rejects with a message or a response.
\<close>

type_synonym bytes = "byte list"

record prims =
  x_pub :: "bytes \<Rightarrow> bytes"
  dalek_shared :: "bytes \<Rightarrow> bytes \<Rightarrow> bytes"
  x_shared :: "bytes \<Rightarrow> bytes \<Rightarrow> string + bytes"
  hkdf_sha256 :: "bytes \<Rightarrow> bytes \<Rightarrow> bytes \<Rightarrow> bytes"
  aead_seal :: "bytes \<Rightarrow> bytes \<Rightarrow> bytes \<Rightarrow> bytes"
  aead_open :: "bytes \<Rightarrow> bytes \<Rightarrow> bytes \<Rightarrow> string + bytes"
  b64_encode :: "bytes \<Rightarrow> string"
  b64_decode :: "string \<Rightarrow> string + bytes"
  json_stringify :: "json \<Rightarrow> string"
  json_parse :: "string \<Rightarrow> string + json"
  serde_write :: "json \<Rightarrow> string"
  serde_read :: "string \<Rightarrow> string + json"

record http_request =
  rq_method :: string
  rq_url :: string
  rq_headers :: "(string \<times> string) list"
  rq_body :: "string option"

record http_response =
  rs_status :: nat
  rs_body :: string

type_synonym server = "http_request \<Rightarrow> string + http_response"

text \<open>\<open>TextEncoder\<close> and \<open>TextDecoder\<close>: strings are the list of their UTF-8 bytes.\<close>

definition utf8 :: "string \<Rightarrow> bytes" where
  "utf8 s = map (\<lambda>c. of_char c) s"

definition utf8_decode :: "bytes \<Rightarrow> string" where
  "utf8_decode bs = map (\<lambda>b. char_of (unat b)) bs"

lemma of_char_of_nat_byte: "unat (of_char c :: byte) = of_char c"
proof -
  have "(of_char c :: byte) = word_of_nat (of_char c)"
    by (metis of_nat_of_char)
  moreover have "(of_char c :: nat) < 256"
    by simp
  ultimately show ?thesis by (simp add: unat_of_nat)
qed

lemma utf8_roundtrip [simp]: "utf8_decode (utf8 s) = s"
proof -
  have "char_of (unat (of_char c :: byte)) = c" for c
    by (simp add: of_char_of_nat_byte)
  then show ?thesis by (simp add: utf8_def utf8_decode_def comp_def)
qed

definition res_ok :: "http_response \<Rightarrow> bool" where
  "res_ok r \<longleftrightarrow> 200 \<le> rs_status r \<and> rs_status r \<le> 299"

definition json_header :: "(string \<times> string) list" where
  "json_header = [(''content-type'', ''application/json'')]"

definition http_error :: "string \<Rightarrow> string \<Rightarrow> http_response \<Rightarrow> string" where
  "http_error verb u r = verb @ '' '' @ u @ '' failed: '' @ nat_str (rs_status r) @ '' '' @ rs_body r"

text \<open>The shape every call shares: fetch, refuse a status outside 200-299 with its text.\<close>

definition fetch_ok :: "server \<Rightarrow> http_request \<Rightarrow> string + http_response" where
  "fetch_ok srv q = rbind (srv q) (\<lambda>res.
     if \<not> res_ok res then Inl (http_error (rq_method q) (rq_url q) res) else Inr res)"

text \<open>A body the code casts with \<open>as\<close>: a body of another shape is outside the wire types.\<close>

definition read_as :: "(json \<Rightarrow> 'a option) \<Rightarrow> json \<Rightarrow> string + 'a" where
  "read_as f j = (case f j of None \<Rightarrow> Inl ''unexpected JSON shape'' | Some a \<Rightarrow> Inr a)"

subsection \<open>Plain calls\<close>

definition get_request :: "string \<Rightarrow> http_request" where
  "get_request u = \<lparr>rq_method = ''GET'', rq_url = u, rq_headers = [], rq_body = None\<rparr>"

definition post_request :: "prims \<Rightarrow> string \<Rightarrow> json \<Rightarrow> http_request" where
  "post_request p u j =
     \<lparr>rq_method = ''POST'', rq_url = u, rq_headers = json_header, rq_body = Some (json_stringify p j)\<rparr>"

definition fetchNodeInfo :: "prims \<Rightarrow> server \<Rightarrow> string \<Rightarrow> string + node_info" where
  "fetchNodeInfo p srv nodeUrl =
     rbind (fetch_ok srv (get_request (nodeUrl @ ''/info''))) (\<lambda>res.
     rbind (json_parse p (rs_body res)) (read_as info_of_json))"

definition matchJob :: "prims \<Rightarrow> server \<Rightarrow> string \<Rightarrow> job_spec \<Rightarrow> string + job_match" where
  "matchJob p srv coordinatorUrl spec =
     rbind (fetch_ok srv (post_request p (coordinatorUrl @ ''/jobs/match'') (spec_json spec))) (\<lambda>res.
     rbind (json_parse p (rs_body res)) (read_as match_of_json))"

definition postAck :: "prims \<Rightarrow> server \<Rightarrow> string \<Rightarrow> client_ack \<Rightarrow> string + unit" where
  "postAck p srv nodeUrl a =
     rbind (fetch_ok srv (post_request p (nodeUrl @ ''/ack'') (ack_json a))) (\<lambda>res. Inr ())"

subsection \<open>sendStep\<close>

record send_opts =
  so_nodeUrl :: string
  so_backend :: backend_type
  so_nodePub :: bytes
  so_sessionId :: string
  so_step :: agent_step
  so_channelId :: "string option"
  so_prevAck :: "client_ack option"

record step_result =
  sr_response :: agent_response
  sr_receipt :: "node_signed_receipt option"

datatype send_arg = Opts send_opts | Positional string backend_type bytes string agent_step

datatype send_out = Result step_result | Bare agent_response

definition HKDF_INFO :: bytes where
  "HKDF_INFO = utf8 ''fldx-v0-session-key''"

fun opts_of :: "send_arg \<Rightarrow> send_opts" where
  "opts_of (Opts o') = o'"
| "opts_of (Positional u b pub sid st) =
     \<lparr>so_nodeUrl = u, so_backend = b, so_nodePub = pub, so_sessionId = sid, so_step = st,
      so_channelId = None, so_prevAck = None\<rparr>"

text \<open>\<open>opts.channelId ? ... : {}\<close>: an empty string is falsy.\<close>

definition truthy_str :: "string option \<Rightarrow> string option" where
  "truthy_str s = (case s of Some [] \<Rightarrow> None | _ \<Rightarrow> s)"

definition session_key :: "prims \<Rightarrow> bytes \<Rightarrow> string \<Rightarrow> bytes" where
  "session_key p shared sid = hkdf_sha256 p shared (utf8 sid) HKDF_INFO"

definition seal_request :: "prims \<Rightarrow> bytes \<Rightarrow> bytes \<Rightarrow> bytes \<Rightarrow> send_opts \<Rightarrow> encrypted_request" where
  "seal_request p clientPriv nonce key o' =
     \<lparr>er_sessionId = so_sessionId o', clientPublicKey = b64_encode p (x_pub p clientPriv),
      er_nonce = b64_encode p nonce,
      er_ciphertext = b64_encode p (aead_seal p key nonce (utf8 (json_stringify p (step_json (so_step o'))))),
      er_backend = so_backend o', er_channelId = truthy_str (so_channelId o'), er_prevAck = so_prevAck o'\<rparr>"

definition open_response :: "prims \<Rightarrow> bytes \<Rightarrow> encrypted_response \<Rightarrow> string + agent_response" where
  "open_response p key enc =
     rbind (b64_decode p (es_nonce enc)) (\<lambda>respNonce.
     rbind (b64_decode p (es_ciphertext enc)) (\<lambda>respCipher.
     rbind (aead_open p key respNonce respCipher) (\<lambda>respPlain.
     rbind (json_parse p (utf8_decode respPlain)) (read_as response_of_json))))"

definition sendStep :: "prims \<Rightarrow> server \<Rightarrow> bytes \<Rightarrow> bytes \<Rightarrow> send_arg \<Rightarrow> string + send_out" where
  "sendStep p srv clientPriv nonce arg =
     (let opts = opts_of arg in
      rbind (x_shared p clientPriv (so_nodePub opts)) (\<lambda>shared.
      let key = session_key p shared (so_sessionId opts);
          req = seal_request p clientPriv nonce key opts in
      rbind (fetch_ok srv (post_request p (so_nodeUrl opts @ ''/execute'') (req_json req))) (\<lambda>res.
      rbind (json_parse p (rs_body res)) (\<lambda>j.
      rbind (read_as enc_of_json j) (\<lambda>enc.
      rbind (open_response p key enc) (\<lambda>response.
      Inr (case arg of Positional _ _ _ _ _ \<Rightarrow> Bare response
           | Opts _ \<Rightarrow> Result \<lparr>sr_response = response, sr_receipt = es_receipt enc\<rparr>)))))))"

subsection \<open>The node's side of the envelope\<close>

text \<open>
  \<open>serve\<close> stands for what lies between decryption and encryption in \<open>execute\<close> (backend,
  solvency gate, receipt): from the request and the decrypted step to an answer and a
  receipt, or an error status and its text.
\<close>

type_synonym step_server =
  "encrypted_request \<Rightarrow> agent_step \<Rightarrow> (nat \<times> string) + (agent_response \<times> node_signed_receipt option)"

definition NONCE_SIZE :: nat where
  "NONCE_SIZE = 24"

definition node_decrypt :: "prims \<Rightarrow> bytes \<Rightarrow> bytes \<Rightarrow> bytes \<Rightarrow> string + bytes" where
  "node_decrypt p key nonce ct =
     (if length nonce \<noteq> NONCE_SIZE
      then Inl (''nonce must be '' @ nat_str NONCE_SIZE @ '' bytes, got '' @ nat_str (length nonce))
      else aead_open p key nonce ct)"

definition bad_request :: "string \<Rightarrow> string + 'a \<Rightarrow> (nat \<times> string) + 'a" where
  "bad_request what r = (case r of Inl m \<Rightarrow> Inl (400, what @ m) | Inr a \<Rightarrow> Inr a)"

definition decode_client_pub :: "prims \<Rightarrow> string \<Rightarrow> (nat \<times> string) + bytes" where
  "decode_client_pub p s =
     rbind (bad_request ''invalid client public key b64: '' (b64_decode p s)) (\<lambda>b.
       if length b \<noteq> 32 then Inl (400, ''client public key must be 32 bytes'') else Inr b)"

definition node_execute ::
  "prims \<Rightarrow> bytes \<Rightarrow> bytes \<Rightarrow> step_server \<Rightarrow> encrypted_request \<Rightarrow> (nat \<times> string) + encrypted_response" where
  "node_execute p nodePriv respNonce serve req =
     rbind (decode_client_pub p (clientPublicKey req)) (\<lambda>clientPub.
     let key = session_key p (dalek_shared p nodePriv clientPub) (er_sessionId req) in
     rbind (bad_request ''invalid nonce b64: '' (b64_decode p (er_nonce req))) (\<lambda>nonce.
     rbind (bad_request ''invalid ciphertext b64: '' (b64_decode p (er_ciphertext req))) (\<lambda>ct.
     rbind (bad_request ''decrypt: '' (node_decrypt p key nonce ct)) (\<lambda>plain.
     rbind (bad_request ''plaintext is not a valid AgentStep: ''
              (rbind (serde_read p (utf8_decode plain)) (read_as step_of_json))) (\<lambda>step.
     rbind (serve req step) (\<lambda>(resp, receipt).
     Inr \<lparr>es_sessionId = er_sessionId req, es_nonce = b64_encode p respNonce,
          es_ciphertext = b64_encode p (aead_seal p key respNonce (utf8 (serde_write p (response_json resp)))),
          es_receipt = receipt\<rparr>))))))"

text \<open>
  The node behind HTTP, at one URL: \<open>POST /execute\<close> with a JSON body. What the web
  framework itself refuses (no such route, a body that is not the request type) is the
  parameter \<open>refuse\<close>.
\<close>

definition node_server ::
  "prims \<Rightarrow> server \<Rightarrow> string \<Rightarrow> bytes \<Rightarrow> bytes \<Rightarrow> step_server \<Rightarrow> server" where
  "node_server p refuse base nodePriv respNonce serve q =
     (case (if rq_method q = ''POST'' \<and> rq_url q = base @ ''/execute'' then rq_body q else None) of
        None \<Rightarrow> refuse q
      | Some t \<Rightarrow>
          (case rbind (serde_read p t) (read_as req_of_json) of
             Inl m \<Rightarrow> refuse q
           | Inr req \<Rightarrow> Inr
               (case node_execute p nodePriv respNonce serve req of
                  Inl (st, m) \<Rightarrow> \<lparr>rs_status = st, rs_body = m\<rparr>
                | Inr enc \<Rightarrow> \<lparr>rs_status = 200, rs_body = serde_write p (enc_json enc)\<rparr>)))"

subsection \<open>What the primitives promise\<close>

text \<open>
  Documented behaviour of the libraries: X25519 agreement (both implementations, on
  32-byte keys, with public keys of 32 bytes), authenticated decryption undoes encryption,
  base64 decoding undoes encoding, and each JSON reader reads what the other side's writer
  wrote.
\<close>

definition prims_ok :: "prims \<Rightarrow> bool" where
  "prims_ok p \<longleftrightarrow>
     (\<forall>a. length (x_pub p a) = 32) \<and>
     (\<forall>a b. length a = 32 \<longrightarrow> length b = 32 \<longrightarrow> x_shared p a (x_pub p b) = Inr (dalek_shared p b (x_pub p a))) \<and>
     (\<forall>k n m. aead_open p k n (aead_seal p k n m) = Inr m) \<and>
     (\<forall>b. b64_decode p (b64_encode p b) = Inr b) \<and>
     (\<forall>j. serde_read p (json_stringify p j) = Inr j) \<and>
     (\<forall>j. json_parse p (serde_write p j) = Inr j)"

lemma read_as_Some [simp]: "f j = Some a \<Longrightarrow> read_as f j = Inr a"
  by (simp add: read_as_def)

lemma bad_request_Inr [simp]: "bad_request w (Inr a) = Inr a"
  by (simp add: bad_request_def)

text \<open>The node recovers the step the client sealed.\<close>

lemma node_opens_request:
  assumes ok: "prims_ok p" and len: "length cp = 32" "length np = 32" "length nonce = NONCE_SIZE"
    and pub: "so_nodePub o' = x_pub p np" "x_shared p cp (x_pub p np) = Inr shared"
    and req: "req = seal_request p cp nonce (session_key p shared (so_sessionId o')) o'"
  shows "node_execute p np rn serve req =
     rbind (serve req (so_step o')) (\<lambda>(resp, receipt).
       Inr \<lparr>es_sessionId = so_sessionId o', es_nonce = b64_encode p rn,
            es_ciphertext = b64_encode p (aead_seal p (session_key p shared (so_sessionId o')) rn
              (utf8 (serde_write p (response_json resp)))),
            es_receipt = receipt\<rparr>)"
proof -
  have "dalek_shared p np (x_pub p cp) = shared" using ok len pub(2) by (simp add: prims_ok_def)
  then show ?thesis
    using ok len by (simp add: req node_execute_def seal_request_def decode_client_pub_def prims_ok_def
      node_decrypt_def Let_def)
qed

lemma client_opens_response:
  assumes "prims_ok p"
  shows "open_response p key \<lparr>es_sessionId = sid, es_nonce = b64_encode p rn,
      es_ciphertext = b64_encode p (aead_seal p key rn (utf8 (serde_write p (response_json resp)))),
      es_receipt = receipt\<rparr> = Inr resp"
  using assms by (simp add: open_response_def prims_ok_def)

lemma post_url_method [simp]:
  "rq_method (post_request p u j) = ''POST''" "rq_url (post_request p u j) = u"
  "rq_body (post_request p u j) = Some (json_stringify p j)"
  by (simp_all add: post_request_def)

lemma node_server_execute:
  assumes "prims_ok p"
  shows "node_server p refuse base np rn serve (post_request p (base @ ''/execute'') (req_json req)) =
     Inr (case node_execute p np rn serve req of
            Inl (st, m) \<Rightarrow> \<lparr>rs_status = st, rs_body = m\<rparr>
          | Inr enc \<Rightarrow> \<lparr>rs_status = 200, rs_body = serde_write p (enc_json enc)\<rparr>)"
  using assms by (simp add: node_server_def prims_ok_def)

subsection \<open>Properties\<close>

text \<open>C8. End-to-end delivery: against a node holding the private key of the public key the
  client was given, \<open>sendStep\<close> with fresh keys delivers exactly the client's step, under the
  request's session id, backend, channel id and piggybacked acknowledgement, to the node's
  handler, and returns exactly the handler's response and receipt; when the handler fails
  with a status outside 200-299, the call throws an error naming the URL, the status and
  the node's text.\<close>

theorem sendStep_end_to_end:
  assumes "prims_ok p" "length cp = 32" "length np = 32" "length nonce = NONCE_SIZE"
    and "so_nodePub o' = x_pub p np" "so_nodeUrl o' = base"
    and "\<And>st m. answer = Inl (st, m) \<Longrightarrow> st < 200 \<or> 299 < st"
    and "\<And>q step. er_sessionId q = so_sessionId o' \<Longrightarrow> er_backend q = so_backend o' \<Longrightarrow>
           er_channelId q = truthy_str (so_channelId o') \<Longrightarrow> er_prevAck q = so_prevAck o' \<Longrightarrow>
           step = so_step o' \<Longrightarrow> serve q step = answer"
  shows "sendStep p (node_server p refuse base np rn serve) cp nonce (Opts o') =
     (case answer of
        Inr (resp, receipt) \<Rightarrow> Inr (Result \<lparr>sr_response = resp, sr_receipt = receipt\<rparr>)
      | Inl (st, m) \<Rightarrow> Inl (''POST '' @ base @ ''/execute failed: '' @ nat_str st @ '' '' @ m))"
proof -
  let ?shared = "dalek_shared p np (x_pub p cp)"
  let ?key = "session_key p ?shared (so_sessionId o')"
  let ?req = "seal_request p cp nonce ?key o'"
  have sh: "x_shared p cp (x_pub p np) = Inr ?shared" using assms(1-3) by (simp add: prims_ok_def)
  have "serve ?req (so_step o') = answer"
    by (rule assms(8)) (simp_all add: seal_request_def)
  with node_opens_request [OF assms(1-5) sh refl]
  have ex: "node_execute p np rn serve ?req =
     rbind answer (\<lambda>(resp, receipt).
       Inr \<lparr>es_sessionId = so_sessionId o', es_nonce = b64_encode p rn,
            es_ciphertext = b64_encode p (aead_seal p ?key rn (utf8 (serde_write p (response_json resp)))),
            es_receipt = receipt\<rparr>)" by simp
  have parse: "\<And>j. json_parse p (serde_write p j) = Inr j" using assms(1) by (simp add: prims_ok_def)
  show ?thesis
  proof (cases answer)
    case (Inl e)
    then show ?thesis
      using ex sh assms(5,6) assms(7) [of "fst e" "snd e"] node_server_execute [OF assms(1)]
      by (auto simp: sendStep_def Let_def fetch_ok_def res_ok_def http_error_def split: prod.splits)
  next
    case (Inr a)
    then show ?thesis
      using ex sh assms(5,6) node_server_execute [OF assms(1)] client_opens_response [OF assms(1)]
      by (auto simp: sendStep_def Let_def fetch_ok_def res_ok_def parse split: prod.splits)
  qed
qed

text \<open>The two overloads agree: the positional call does on every server, key and nonce,
  errors included, what the options call without channel and acknowledgement does, and
  returns its bare response.\<close>

theorem sendStep_positional:
  "sendStep p srv cp nonce (Positional u b pub sid st) =
     rbind (sendStep p srv cp nonce (Opts \<lparr>so_nodeUrl = u, so_backend = b, so_nodePub = pub, so_sessionId = sid,
              so_step = st, so_channelId = None, so_prevAck = None\<rparr>))
       (\<lambda>r. case r of Result x \<Rightarrow> Inr (Bare (sr_response x)) | Bare x \<Rightarrow> Inr (Bare x))"
  by (simp add: sendStep_def Let_def rbind_assoc)

subsection \<open>A concrete instance of the primitives\<close>

text \<open>
  A key agreement by bytewise addition, an envelope that prefixes key and nonce, base64 as
  the identity on bytes and JSON text as a numbering: enough to meet the laws.
\<close>

instance json :: countable
  by countable_datatype

definition demo_prims :: prims where
  "demo_prims =
     \<lparr>x_pub = (\<lambda>a. take 32 (a @ replicate 32 0)),
      dalek_shared = (\<lambda>a b. map2 (+) a b),
      x_shared = (\<lambda>a b. Inr (map2 (+) a b)),
      hkdf_sha256 = (\<lambda>ikm salt info. ikm @ salt @ info),
      aead_seal = (\<lambda>k n m. k @ n @ m),
      aead_open = (\<lambda>k n c. if take (length (k @ n)) c = k @ n then Inr (drop (length (k @ n)) c) else Inl ''invalid tag''),
      b64_encode = utf8_decode, b64_decode = (\<lambda>s. Inr (utf8 s)),
      json_stringify = (\<lambda>j. replicate (to_nat j) (CHR ''x'')), json_parse = (\<lambda>s. Inr (from_nat (length s))),
      serde_write = (\<lambda>j. replicate (to_nat j) (CHR ''x'')), serde_read = (\<lambda>s. Inr (from_nat (length s)))\<rparr>"

lemma utf8_of_decode: "utf8 (utf8_decode b) = b"
proof -
  have "of_char (char_of (unat x)) = x" for x :: byte
    using unsigned_less [of x, where ?'a = nat] by (simp add: word_unat_eq_iff of_char_of_nat_byte)
  then show ?thesis by (simp add: utf8_def utf8_decode_def comp_def)
qed

lemma map2_add_commute: "map2 (+) (a :: byte list) b = map2 (+) b a"
  by (induction a b rule: list_induct2') (auto simp: add.commute)

lemma demo_prims_ok: "prims_ok demo_prims"
  by (auto simp: prims_ok_def demo_prims_def utf8_of_decode map2_add_commute)

definition demo_opts :: send_opts where
  "demo_opts = \<lparr>so_nodeUrl = ''http://n'', so_backend = MockTee, so_nodePub = replicate 32 7, so_sessionId = ''s1'',
     so_step = Prompt ''hello'', so_channelId = Some ''0xab'', so_prevAck = None\<rparr>"

theorem sendStep_end_to_end_witness:
  "sendStep demo_prims (node_server demo_prims (\<lambda>q. Inl ''refused'') ''http://n'' (replicate 32 7) (replicate 24 1)
       (\<lambda>q step. if er_channelId q = Some ''0xab'' \<and> step = Prompt ''hello'' then Inl (402, ''exhausted'') else Inl (400, [])))
     (replicate 32 3) (replicate 24 9) (Opts demo_opts)
   = Inl ''POST http://n/execute failed: 402 exhausted''"
proof -
  have "so_nodePub demo_opts = x_pub demo_prims (replicate 32 7)"
    by (simp add: demo_opts_def demo_prims_def)
  moreover have "nat_str 402 = ''402''" by code_simp
  ultimately show ?thesis
    using sendStep_end_to_end [of demo_prims "replicate 32 3" "replicate 32 7" "replicate 24 9" demo_opts "''http://n''"
        "Inl (402, ''exhausted'')"
        "\<lambda>q step. if er_channelId q = Some ''0xab'' \<and> step = Prompt ''hello'' then Inl (402, ''exhausted'') else Inl (400, [])"
        "\<lambda>q. Inl ''refused''" "replicate 24 1", OF demo_prims_ok]
    by (simp add: demo_opts_def NONCE_SIZE_def truthy_str_def)
qed

end
