(* ===== verification/AgentLoop.thy ===== *)
theory AgentLoop
  imports Transport
begin

section \<open>The client's agent loop\<close>

text \<open>
  \<open>packages/fldx-client/src/loop.ts\<close>: \<open>runAgentLoop\<close> sends a prompt, and while the node
  answers with a tool call runs the tool and sends its result. What it calls is an
  environment over a world state: \<open>sendStep\<close>, the optional \<open>signAck\<close> and the tool table,
  each of which may throw and may change the world. The events handed to \<open>onEvent\<close> are
  collected in order; a callback that itself throws is not modelled. The loop has no bound
  on its rounds, so it runs on fuel: one unit per round, \<open>Running\<close> when it is used up.
\<close>

datatype agent_event =
    Matched string backend_type string
  | RequestStart string nat
  | Response string agent_response
  | ToolCallStart string string json
  | ToolCallEnd string string bool
  | FinalEvent string string
  | ReceiptEvent string node_signed_receipt "client_ack option"
  | ErrorEvent string string

record 'w loop_env =
  env_send :: "send_opts \<Rightarrow> 'w \<Rightarrow> (string + step_result) \<times> 'w"
  env_signAck :: "(node_signed_receipt \<Rightarrow> 'w \<Rightarrow> (string + client_ack) \<times> 'w) option"
  env_tools :: "string \<Rightarrow> (json \<Rightarrow> 'w \<Rightarrow> (string + (string \<times> bool)) \<times> 'w) option"

record loop_args =
  la_nodeUrl :: string
  la_nodePub :: bytes
  la_backend :: backend_type
  la_sessionId :: string
  la_prompt :: string
  la_channelId :: "string option"

record 'w loop_state =
  lp_step :: agent_step
  lp_attempt :: nat
  lp_prevAck :: "client_ack option"
  lp_events :: "agent_event list"
  lp_world :: 'w

datatype loop_out = Returned string | Threw string | Looping

definition loop_init :: "loop_args \<Rightarrow> 'w \<Rightarrow> 'w loop_state" where
  "loop_init a w = \<lparr>lp_step = Prompt (la_prompt a), lp_attempt = 0, lp_prevAck = None, lp_events = [], lp_world = w\<rparr>"

definition onEvent :: "agent_event \<Rightarrow> 'w loop_state \<Rightarrow> 'w loop_state" where
  "onEvent e st = st\<lparr>lp_events := lp_events st @ [e]\<rparr>"

definition request_of :: "loop_args \<Rightarrow> 'w loop_state \<Rightarrow> send_opts" where
  "request_of a st =
     \<lparr>so_nodeUrl = la_nodeUrl a, so_backend = la_backend a, so_nodePub = la_nodePub a,
      so_sessionId = la_sessionId a, so_step = lp_step st, so_channelId = la_channelId a,
      so_prevAck = lp_prevAck st\<rparr>"

text \<open>The block under \<open>if (receipt)\<close>: a failing signer is an event, not a failure.\<close>

definition take_receipt ::
  "'w loop_env \<Rightarrow> loop_args \<Rightarrow> node_signed_receipt option \<Rightarrow> 'w loop_state \<Rightarrow> 'w loop_state" where
  "take_receipt env a receipt st =
     (case receipt of None \<Rightarrow> st
      | Some r \<Rightarrow>
          (case env_signAck env of
             None \<Rightarrow> onEvent (ReceiptEvent (la_sessionId a) r None) st
           | Some sign \<Rightarrow>
               (case sign r (lp_world st) of
                  (Inr ack, w) \<Rightarrow>
                    onEvent (ReceiptEvent (la_sessionId a) r (Some ack)) (st\<lparr>lp_prevAck := Some ack, lp_world := w\<rparr>)
                | (Inl m, w) \<Rightarrow>
                    onEvent (ReceiptEvent (la_sessionId a) r None)
                      (onEvent (ErrorEvent (la_sessionId a) (''signAck: '' @ m)) (st\<lparr>lp_world := w\<rparr>)))))"

text \<open>\<open>handler ? await handler(input) : ...\<close>\<close>

definition run_tool ::
  "'w loop_env \<Rightarrow> string \<Rightarrow> json \<Rightarrow> 'w \<Rightarrow> (string + (string \<times> bool)) \<times> 'w" where
  "run_tool env name input w =
     (case env_tools env name of
        Some handler \<Rightarrow> handler input w
      | None \<Rightarrow> (Inr (''unknown client tool: '' @ name, True), w))"

definition call_tool ::
  "'w loop_env \<Rightarrow> loop_args \<Rightarrow> string \<Rightarrow> string \<Rightarrow> json \<Rightarrow> 'w loop_state \<Rightarrow> loop_out \<times> 'w loop_state" where
  "call_tool env a useId name input st =
     (let st = onEvent (ToolCallStart (la_sessionId a) name input) st in
      case run_tool env name input (lp_world st) of
        (Inl m, w) \<Rightarrow> (Threw m, st\<lparr>lp_world := w\<rparr>)
      | (Inr (content, isError), w) \<Rightarrow>
          (Looping, (onEvent (ToolCallEnd (la_sessionId a) name isError) (st\<lparr>lp_world := w\<rparr>))
             \<lparr>lp_step := ToolResult useId content isError\<rparr>))"

text \<open>One turn of the \<open>while (true)\<close> loop.\<close>

definition loop_round :: "'w loop_env \<Rightarrow> loop_args \<Rightarrow> 'w loop_state \<Rightarrow> loop_out \<times> 'w loop_state" where
  "loop_round env a st0 =
     (let attempt = lp_attempt st0 + 1;
          st = onEvent (RequestStart (la_sessionId a) attempt) (st0\<lparr>lp_attempt := attempt\<rparr>) in
      case env_send env (request_of a st) (lp_world st) of
        (Inl m, w) \<Rightarrow> (Threw m, onEvent (ErrorEvent (la_sessionId a) m) (st\<lparr>lp_world := w\<rparr>))
      | (Inr result, w) \<Rightarrow>
          (let response = sr_response result;
               st = take_receipt env a (sr_receipt result)
                      (onEvent (Response (la_sessionId a) response) (st\<lparr>lp_world := w\<rparr>)) in
           case response of
             FinalAnswer content _ \<Rightarrow> (Returned content, onEvent (FinalEvent (la_sessionId a) content) st)
           | ToolCall useId name input _ \<Rightarrow> call_tool env a useId name input st))"

fun loop_run :: "nat \<Rightarrow> 'w loop_env \<Rightarrow> loop_args \<Rightarrow> 'w loop_state \<Rightarrow> loop_out \<times> 'w loop_state" where
  "loop_run 0 env a st = (Looping, st)"
| "loop_run (Suc n) env a st =
     (case loop_round env a st of
        (Looping, st') \<Rightarrow> loop_run n env a st'
      | (out, st') \<Rightarrow> (out, st'))"

definition runAgentLoop :: "nat \<Rightarrow> 'w loop_env \<Rightarrow> loop_args \<Rightarrow> 'w \<Rightarrow> loop_out \<times> 'w loop_state" where
  "runAgentLoop n env a w = loop_run n env a (loop_init a w)"

subsection \<open>Reading a trace\<close>

text \<open>The last acknowledgement, response and tool result a list of events tells of.\<close>

fun ack_of :: "agent_event \<Rightarrow> client_ack option" where
  "ack_of (ReceiptEvent _ _ a) = a"
| "ack_of _ = None"

fun response_of :: "agent_event \<Rightarrow> agent_response option" where
  "response_of (Response _ r) = Some r"
| "response_of _ = None"

fun tool_end_of :: "agent_event \<Rightarrow> bool option" where
  "tool_end_of (ToolCallEnd _ _ e) = Some e"
| "tool_end_of _ = None"

fun start_of :: "agent_event \<Rightarrow> nat option" where
  "start_of (RequestStart _ n) = Some n"
| "start_of _ = None"

fun last_some :: "('e \<Rightarrow> 'a option) \<Rightarrow> 'e list \<Rightarrow> 'a option" where
  "last_some f [] = None"
| "last_some f (e # es) = (case last_some f es of None \<Rightarrow> f e | Some x \<Rightarrow> Some x)"

lemma last_some_append [simp]:
  "last_some f (xs @ ys) = (case last_some f ys of None \<Rightarrow> last_some f xs | Some x \<Rightarrow> Some x)"
  by (induction xs) (auto split: option.splits)

text \<open>A request as the events before it say it must be.\<close>

definition request_fits :: "loop_args \<Rightarrow> agent_event list \<Rightarrow> send_opts \<Rightarrow> bool" where
  "request_fits a es q \<longleftrightarrow>
     so_nodeUrl q = la_nodeUrl a \<and> so_nodePub q = la_nodePub a \<and> so_backend q = la_backend a \<and>
     so_sessionId q = la_sessionId a \<and> so_channelId q = la_channelId a \<and>
     so_prevAck q = last_some ack_of es \<and>
     (case last_some response_of es of
        None \<Rightarrow> so_step q = Prompt (la_prompt a)
      | Some (FinalAnswer _ _) \<Rightarrow> False
      | Some (ToolCall i _ _ _) \<Rightarrow> (\<exists>c e. so_step q = ToolResult i c e \<and> last_some tool_end_of es = Some e))"

definition before_start :: "loop_args \<Rightarrow> nat \<Rightarrow> agent_event list \<Rightarrow> agent_event list" where
  "before_start a k es = takeWhile (\<lambda>e. e \<noteq> RequestStart (la_sessionId a) k) es"

text \<open>The environment with a log of the requests it was sent.\<close>

definition logging :: "'w loop_env \<Rightarrow> ('w \<times> send_opts list) loop_env" where
  "logging env =
     \<lparr>env_send = (\<lambda>q (w, l). case env_send env q w of (r, w') \<Rightarrow> (r, (w', l @ [q]))),
      env_signAck = map_option (\<lambda>f r (w, l). case f r w of (x, w') \<Rightarrow> (x, (w', l))) (env_signAck env),
      env_tools = (\<lambda>n. map_option (\<lambda>f j (w, l). case f j w of (x, w') \<Rightarrow> (x, (w', l))) (env_tools env n))\<rparr>"

definition sent :: "('w \<times> send_opts list) loop_state \<Rightarrow> send_opts list" where
  "sent st = snd (lp_world st)"

text \<open>What holds between rounds.\<close>

definition trace_ok :: "loop_args \<Rightarrow> ('w \<times> send_opts list) loop_state \<Rightarrow> bool" where
  "trace_ok a st \<longleftrightarrow>
     length (sent st) = lp_attempt st \<and>
     List.map_filter start_of (lp_events st) = [1..<Suc (lp_attempt st)] \<and>
     (\<forall>e\<in>set (lp_events st). \<forall>k s. e = RequestStart s k \<longrightarrow> s = la_sessionId a) \<and>
     (\<forall>i<lp_attempt st. request_fits a (before_start a (Suc i) (lp_events st)) (sent st ! i))"

definition loop_inv :: "loop_args \<Rightarrow> ('w \<times> send_opts list) loop_state \<Rightarrow> bool" where
  "loop_inv a st \<longleftrightarrow> trace_ok a st \<and> request_fits a (lp_events st) (request_of a st)"

definition loop_step :: "'w loop_env \<Rightarrow> loop_args \<Rightarrow> 'w loop_state \<Rightarrow> 'w loop_state \<Rightarrow> bool" where
  "loop_step env a st st' \<longleftrightarrow> loop_round env a st = (Looping, st')"

subsection \<open>The trace invariant\<close>

lemma map_filter_append [simp]:
  "List.map_filter f (xs @ ys) = List.map_filter f xs @ List.map_filter f ys"
  by (simp add: List.map_filter_def)

lemma map_filter_one [simp]: "List.map_filter f [x] = (case f x of None \<Rightarrow> [] | Some y \<Rightarrow> [y])"
  by (simp add: List.map_filter_def split: option.split)

lemma in_map_filter: "x \<in> set (List.map_filter f xs) \<longleftrightarrow> (\<exists>y\<in>set xs. f y = Some x)"
  by (force simp: List.map_filter_def)

lemma start_of_Some: "start_of e = Some k \<longleftrightarrow> (\<exists>s. e = RequestStart s k)"
  by (cases e) auto

lemma started:
  assumes "trace_ok a st"
  shows "RequestStart (la_sessionId a) k \<in> set (lp_events st) \<longleftrightarrow> 0 < k \<and> k \<le> lp_attempt st"
proof -
  have sid: "\<And>s j. RequestStart s j \<in> set (lp_events st) \<Longrightarrow> s = la_sessionId a"
    using assms by (simp add: trace_ok_def)
  have "RequestStart (la_sessionId a) k \<in> set (lp_events st) \<longleftrightarrow> (\<exists>s. RequestStart s k \<in> set (lp_events st))"
    using sid by blast
  also have "\<dots> \<longleftrightarrow> k \<in> set (List.map_filter start_of (lp_events st))"
    by (auto simp: in_map_filter start_of_Some)
  also have "\<dots> \<longleftrightarrow> 0 < k \<and> k \<le> lp_attempt st"
    using assms by (auto simp: trace_ok_def simp del: upt_Suc)
  finally show ?thesis .
qed

lemma before_start_append:
  "RequestStart (la_sessionId a) k \<in> set es \<Longrightarrow> before_start a k (es @ xs) = before_start a k es"
  unfolding before_start_def by (rule takeWhile_append1) auto

lemma before_start_new:
  "RequestStart (la_sessionId a) k \<notin> set es \<Longrightarrow> before_start a k (es @ [RequestStart (la_sessionId a) k]) = es"
  unfolding before_start_def by (subst takeWhile_append2) auto

lemma onEvent_sel [simp]:
  "lp_step (onEvent e st) = lp_step st" "lp_attempt (onEvent e st) = lp_attempt st"
  "lp_prevAck (onEvent e st) = lp_prevAck st" "lp_world (onEvent e st) = lp_world st"
  "lp_events (onEvent e st) = lp_events st @ [e]"
  by (simp_all add: onEvent_def)

lemma onEvent_sent [simp]: "sent (onEvent e st) = sent st"
  by (simp add: sent_def)

lemma trace_ok_extend:
  assumes "trace_ok a st" "start_of e = None" "lp_attempt st' = lp_attempt st" "sent st' = sent st"
    and "lp_events st' = lp_events st @ [e]"
  shows "trace_ok a st'"
proof -
  have "before_start a (Suc i) (lp_events st') = before_start a (Suc i) (lp_events st)" if "i < lp_attempt st" for i
    using that started [OF assms(1), of "Suc i"] assms(5) by (simp add: before_start_append)
  then show ?thesis using assms by (auto simp: trace_ok_def)
qed

lemma trace_ok_cong:
  "lp_attempt st' = lp_attempt st \<Longrightarrow> sent st' = sent st \<Longrightarrow> lp_events st' = lp_events st \<Longrightarrow>
   trace_ok a st' = trace_ok a st"
  by (simp add: trace_ok_def)

lemma trace_ok_send:
  assumes inv: "loop_inv a st0"
    and ev: "lp_events st = lp_events st0 @ [RequestStart (la_sessionId a) (Suc (lp_attempt st0))]"
    and att: "lp_attempt st = Suc (lp_attempt st0)" and snt: "sent st = sent st0 @ [request_of a st0]"
  shows "trace_ok a st"
proof -
  let ?n = "lp_attempt st0" and ?es = "lp_events st0"
  from inv have ok: "trace_ok a st0" by (simp add: loop_inv_def)
  have "request_fits a (before_start a (Suc i) (lp_events st)) (sent st ! i)" if "i < Suc ?n" for i
  proof (cases "i = ?n")
    case True
    moreover have "length (sent st0) = ?n" using ok by (simp add: trace_ok_def)
    moreover have "RequestStart (la_sessionId a) (Suc ?n) \<notin> set ?es" using started [OF ok, of "Suc ?n"] by simp
    ultimately show ?thesis using inv by (simp add: ev snt before_start_new loop_inv_def nth_append)
  next
    case False
    with that have i: "i < ?n" by simp
    moreover have "length (sent st0) = ?n" "request_fits a (before_start a (Suc i) ?es) (sent st0 ! i)"
      using ok i by (auto simp: trace_ok_def)
    moreover have "RequestStart (la_sessionId a) (Suc i) \<in> set ?es" using started [OF ok, of "Suc i"] i by simp
    ultimately show ?thesis by (simp add: ev snt before_start_append nth_append)
  qed
  moreover have "List.map_filter start_of (lp_events st) = [1..<Suc (Suc ?n)]"
    using ok by (simp add: ev trace_ok_def)
  moreover have "length (sent st) = Suc ?n" using ok by (simp add: snt trace_ok_def)
  moreover have "\<forall>e\<in>set (lp_events st). \<forall>k s. e = RequestStart s k \<longrightarrow> s = la_sessionId a"
    using ok by (simp add: ev trace_ok_def)
  ultimately show ?thesis unfolding trace_ok_def att by blast
qed

text \<open>After the response of a round has been announced.\<close>

definition answered :: "loop_args \<Rightarrow> agent_response \<Rightarrow> ('w \<times> send_opts list) loop_state \<Rightarrow> bool" where
  "answered a r st \<longleftrightarrow> trace_ok a st \<and> lp_prevAck st = last_some ack_of (lp_events st) \<and>
     last_some response_of (lp_events st) = Some r"

lemma answered_event:
  assumes "answered a r st" "start_of e = None" "ack_of e = None" "response_of e = None"
  shows "answered a r (onEvent e st)"
  using assms by (auto simp: answered_def intro: trace_ok_extend)

lemma answered_world: "answered a r (st\<lparr>lp_world := (w, sent st)\<rparr>) = answered a r st"
  by (simp add: answered_def trace_ok_def sent_def)

lemma logging_sign:
  assumes "env_signAck (logging env) = Some sign" "sign r w = (x, w')"
  shows "snd w' = snd w"
  using assms by (cases w) (auto simp: logging_def split: prod.splits)

lemma logging_tool: "run_tool (logging env) n j w = (x, w') \<Longrightarrow> snd w' = snd w"
  by (cases w) (auto simp: logging_def run_tool_def split: prod.splits option.splits)

lemma take_receipt_answered:
  assumes "answered a r st"
  shows "answered a r (take_receipt (logging env) a rc st) \<and>
    sent (take_receipt (logging env) a rc st) = sent st \<and>
    lp_attempt (take_receipt (logging env) a rc st) = lp_attempt st"
proof (cases rc)
  case None
  with assms show ?thesis by (simp add: take_receipt_def)
next
  case (Some r')
  show ?thesis
  proof (cases "env_signAck (logging env)")
    case None
    with Some assms show ?thesis by (simp add: take_receipt_def answered_event)
  next
    case (Some sign)
    obtain x w where sg: "sign r' (lp_world st) = (x, w)" by (rule prod.exhaust)
    then have w: "w = (fst w, sent st)" using logging_sign [OF Some sg] by (simp add: sent_def prod_eq_iff)
    have st: "answered a r (st\<lparr>lp_world := w\<rparr>)" by (subst w) (simp add: answered_world assms)
    have sw: "sent (st\<lparr>lp_world := w\<rparr>) = sent st" using w by (simp add: sent_def prod_eq_iff)
    show ?thesis
    proof (cases x)
      case (Inl m)
      with Some \<open>rc = Some r'\<close> sg st sw show ?thesis
        by (simp add: take_receipt_def answered_event)
    next
      case (Inr ack)
      let ?st = "onEvent (ReceiptEvent (la_sessionId a) r' (Some ack)) (st\<lparr>lp_prevAck := Some ack, lp_world := w\<rparr>)"
      have "trace_ok a ?st"
        by (rule trace_ok_extend [of a "st\<lparr>lp_world := w\<rparr>" "ReceiptEvent (la_sessionId a) r' (Some ack)"])
          (use st in \<open>auto simp: answered_def sent_def\<close>)
      then have "answered a r ?st" using st by (simp add: answered_def)
      moreover have "sent ?st = sent st" using sw by (simp add: sent_def)
      ultimately show ?thesis using Some \<open>rc = Some r'\<close> sg Inr by (simp add: take_receipt_def)
    qed
  qed
qed

lemma call_tool_trace:
  assumes "answered a (ToolCall useId name input u) st"
    and "call_tool (logging env) a useId name input st = (out, st')"
  shows "trace_ok a st' \<and> (out = Looping \<longrightarrow> loop_inv a st')"
proof -
  let ?st = "onEvent (ToolCallStart (la_sessionId a) name input) st"
  obtain x w where rt: "run_tool (logging env) name input (lp_world ?st) = (x, w)" by (rule prod.exhaust)
  have st: "answered a (ToolCall useId name input u) ?st" using assms(1) by (simp add: answered_event)
  have w: "w = (fst w, sent ?st)" using logging_tool [OF rt] by (simp add: sent_def prod_eq_iff)
  have stw: "answered a (ToolCall useId name input u) (?st\<lparr>lp_world := w\<rparr>)"
    by (subst w) (simp only: answered_world st)
  show ?thesis
  proof (cases x)
    case (Inl m)
    with assms(2) rt stw show ?thesis by (auto simp: call_tool_def Let_def answered_def)
  next
    case (Inr ce)
    obtain c e where ce: "ce = (c, e)" by fastforce
    let ?fin = "onEvent (ToolCallEnd (la_sessionId a) name e) (?st\<lparr>lp_world := w\<rparr>)"
    have "answered a (ToolCall useId name input u) ?fin" by (rule answered_event [OF stw]) simp_all
    moreover have "st' = ?fin\<lparr>lp_step := ToolResult useId c e\<rparr>" "out = Looping"
      using assms(2) rt Inr ce by (simp_all add: call_tool_def Let_def)
    moreover from this have "trace_ok a st' = trace_ok a ?fin" by (intro trace_ok_cong) (simp_all add: sent_def)
    ultimately show ?thesis
      by (auto simp: loop_inv_def answered_def request_fits_def request_of_def)
  qed
qed

lemma loop_round_trace:
  assumes inv: "loop_inv a st0" and rd: "loop_round (logging env) a st0 = (out, st')"
  shows "trace_ok a st' \<and> (out = Looping \<longrightarrow> loop_inv a st')"
proof -
  let ?st = "onEvent (RequestStart (la_sessionId a) (Suc (lp_attempt st0))) (st0\<lparr>lp_attempt := Suc (lp_attempt st0)\<rparr>)"
  obtain x w where sd: "env_send (logging env) (request_of a ?st) (lp_world ?st) = (x, w)" by (rule prod.exhaust)
  have "request_of a ?st = request_of a st0" by (simp add: request_of_def)
  then have w: "snd w = sent st0 @ [request_of a st0]"
    using sd by (cases "lp_world st0") (auto simp: logging_def sent_def onEvent_def split: prod.splits)
  have tr: "trace_ok a (?st\<lparr>lp_world := w\<rparr>)"
    by (rule trace_ok_send [OF inv]) (simp_all add: sent_def w)
  have pa: "lp_prevAck ?st = last_some ack_of (lp_events ?st)"
    using inv by (simp add: loop_inv_def request_fits_def request_of_def)
  show ?thesis
  proof (cases x)
    case (Inl m)
    have "trace_ok a (onEvent (ErrorEvent (la_sessionId a) m) (?st\<lparr>lp_world := w\<rparr>))"
      by (rule trace_ok_extend [OF tr, where e = "ErrorEvent (la_sessionId a) m"]) simp_all
    with rd sd Inl show ?thesis by (auto simp: loop_round_def Let_def)
  next
    case (Inr res)
    let ?r = "sr_response res"
    let ?st1 = "onEvent (Response (la_sessionId a) ?r) (?st\<lparr>lp_world := w\<rparr>)"
    let ?st2 = "take_receipt (logging env) a (sr_receipt res) ?st1"
    have "trace_ok a ?st1"
      by (rule trace_ok_extend [OF tr, where e = "Response (la_sessionId a) ?r"]) simp_all
    then have "answered a ?r ?st1" using pa by (simp add: answered_def)
    then have an: "answered a ?r ?st2" using take_receipt_answered by blast
    show ?thesis
    proof (cases ?r)
      case (FinalAnswer c u)
      have "trace_ok a (onEvent (FinalEvent (la_sessionId a) c) ?st2)"
        using answered_event [OF an, of "FinalEvent (la_sessionId a) c"] by (simp add: answered_def)
      with rd sd Inr FinalAnswer show ?thesis by (auto simp: loop_round_def Let_def)
    next
      case (ToolCall i n j u)
      with rd sd Inr have "call_tool (logging env) a i n j ?st2 = (out, st')" by (simp add: loop_round_def Let_def)
      with an ToolCall call_tool_trace show ?thesis by metis
    qed
  qed
qed

lemma loop_inv_init: "loop_inv a (loop_init a (w, []))"
  by (simp add: loop_inv_def trace_ok_def loop_init_def sent_def request_fits_def request_of_def List.map_filter_def)

interpretation loop: inv_system "loop_step (logging env :: ('w \<times> send_opts list) loop_env) a" "\<lambda>st. \<exists>w. st = loop_init a (w, [] :: send_opts list)" "loop_inv a"
proof unfold_locales
  fix s :: "('w \<times> send_opts list) loop_state" assume "\<exists>w. s = loop_init a (w, [])"
  then show "loop_inv a s" by (auto simp: loop_inv_init)
next
  fix s t :: "('w \<times> send_opts list) loop_state" assume "loop_inv a s" "loop_step (logging env) a s t"
  then show "loop_inv a t" using loop_round_trace by (force simp: loop_step_def)
qed

lemma loop_run_reach:
  "loop_run n env a st = (out, st') \<Longrightarrow>
   \<exists>mid. (loop_step env a)\<^sup>*\<^sup>* st mid \<and>
     (out = Looping \<and> st' = mid \<or> out \<noteq> Looping \<and> loop_round env a mid = (out, st'))"
proof (induction n arbitrary: st)
  case 0
  then show ?case by auto
next
  case (Suc n)
  obtain o' s where rd: "loop_round env a st = (o', s)" by (rule prod.exhaust)
  show ?case
  proof (cases "o' = Looping")
    case True
    with Suc.prems rd have "loop_run n env a s = (out, st')" by simp
    from Suc.IH [OF this] show ?thesis
      using rd True by (meson converse_rtranclp_into_rtranclp loop_step_def)
  next
    case False
    with Suc.prems rd have "o' = out" "s = st'" by (cases o'; simp)+
    with rd False show ?thesis by blast
  qed
qed

lemma loop_run_trace:
  assumes "runAgentLoop n (logging env) a (w, []) = (out, st)"
  shows "trace_ok a st"
proof -
  from loop_run_reach [OF assms [unfolded runAgentLoop_def]] obtain mid
    where m: "(loop_step (logging env) a)\<^sup>*\<^sup>* (loop_init a (w, [])) mid"
      "out = Looping \<and> st = mid \<or> loop_round (logging env) a mid = (out, st)" by auto
  from loop.reachable_inv [OF _ m(1)] have "loop_inv a mid" by blast
  with m(2) show ?thesis using loop_round_trace loop_inv_def by blast
qed

subsection \<open>How a run ends\<close>

definition send_via :: "prims \<Rightarrow> server \<Rightarrow> (nat \<Rightarrow> bytes \<times> bytes) \<Rightarrow> send_opts \<Rightarrow> nat \<Rightarrow> (string + step_result) \<times> nat" where
  "send_via p srv draws q k =
     ((case sendStep p srv (fst (draws k)) (snd (draws k)) (Opts q) of
         Inl m \<Rightarrow> Inl m
       | Inr (Result r) \<Rightarrow> Inr r
       | Inr (Bare r) \<Rightarrow> Inr \<lparr>sr_response = r, sr_receipt = None\<rparr>), Suc k)"

fun is_final :: "agent_event \<Rightarrow> bool" where
  "is_final (FinalEvent _ _) = True"
| "is_final _ = False"

definition quiet :: "'w loop_state \<Rightarrow> bool" where
  "quiet st \<longleftrightarrow> (\<forall>e\<in>set (lp_events st). \<not> is_final e)"

lemma quiet_event: "quiet st \<Longrightarrow> \<not> is_final e \<Longrightarrow> quiet (onEvent e st)"
  by (auto simp: quiet_def)

lemma quiet_cong: "lp_events st' = lp_events st \<Longrightarrow> quiet st' = quiet st"
  by (simp add: quiet_def)

text \<open>Receipt handling only appends receipt and error events and does not touch the attempt.\<close>

lemma take_receipt_events:
  "\<exists>es. lp_events (take_receipt env a rc st) = lp_events st @ es \<and> (\<forall>e\<in>set es. \<not> is_final e \<and> response_of e = None) \<and>
     lp_attempt (take_receipt env a rc st) = lp_attempt st"
  by (cases rc; cases "env_signAck env")
    (auto simp: take_receipt_def split: prod.splits sum.splits)

lemma last_some_none: "(\<forall>e\<in>set es. f e = None) \<Longrightarrow> last_some f es = None"
  by (induction es) auto

text \<open>What a round adds, by its outcome.\<close>

lemma loop_round_events:
  assumes "loop_round env a st = (out, st')" "quiet st"
  shows "lp_attempt st' = Suc (lp_attempt st) \<and>
    (\<exists>es. lp_events st' = lp_events st @ es \<and> (\<forall>e\<in>set (butlast es). \<not> is_final e) \<and>
      (case out of
         Returned c \<Rightarrow> es \<noteq> [] \<and> last es = FinalEvent (la_sessionId a) c \<and>
           (\<exists>u. last_some response_of es = Some (FinalAnswer c u))
       | Threw m \<Rightarrow> es \<noteq> [] \<and> (last es = ErrorEvent (la_sessionId a) m \<or>
           (\<exists>name input h. last es = ToolCallStart (la_sessionId a) name input \<and> env_tools env name = Some h))
       | Looping \<Rightarrow> (\<forall>e\<in>set es. \<not> is_final e)))"
proof -
  let ?st = "onEvent (RequestStart (la_sessionId a) (Suc (lp_attempt st))) (st\<lparr>lp_attempt := Suc (lp_attempt st)\<rparr>)"
  obtain x w where sd: "env_send env (request_of a ?st) (lp_world ?st) = (x, w)" by (rule prod.exhaust)
  show ?thesis
  proof (cases x)
    case (Inl m)
    with assms sd show ?thesis by (auto simp: loop_round_def Let_def)
  next
    case (Inr res)
    let ?st1 = "onEvent (Response (la_sessionId a) (sr_response res)) (?st\<lparr>lp_world := w\<rparr>)"
    let ?st2 = "take_receipt env a (sr_receipt res) ?st1"
    obtain es where es: "lp_events ?st2 = lp_events ?st1 @ es" "\<forall>e\<in>set es. \<not> is_final e \<and> response_of e = None"
      "lp_attempt ?st2 = lp_attempt ?st1" using take_receipt_events by metis
    then have ls: "last_some response_of es = None" by (simp add: last_some_none)
    show ?thesis
    proof (cases "sr_response res")
      case (FinalAnswer c u)
      with assms sd Inr es ls show ?thesis by (auto simp: loop_round_def Let_def butlast_append)
    next
      case (ToolCall i n j u)
      obtain y w' where rt: "run_tool env n j (lp_world ?st2) = (y, w')" by (rule prod.exhaust)
      show ?thesis
      proof (cases y)
        case (Inl m)
        then have "\<exists>h. env_tools env n = Some h" using rt by (auto simp: run_tool_def split: option.splits)
        with assms sd Inr es ToolCall rt Inl show ?thesis
          by (auto simp: loop_round_def call_tool_def Let_def butlast_append)
      next
        case (Inr ce)
        with assms sd \<open>x = Inr res\<close> es ToolCall rt show ?thesis
          by (cases ce) (auto simp: loop_round_def call_tool_def Let_def butlast_append dest: in_set_butlastD)
      qed
    qed
  qed
qed

lemma loop_run_events:
  "loop_run n env a st = (out, st') \<Longrightarrow> quiet st \<Longrightarrow>
   (\<forall>e\<in>set (butlast (lp_events st')). \<not> is_final e) \<and>
   (case out of
      Returned c \<Rightarrow> last (lp_events st') = FinalEvent (la_sessionId a) c \<and>
        (\<exists>u. last_some response_of (lp_events st') = Some (FinalAnswer c u)) \<and> lp_attempt st' \<le> lp_attempt st + n
    | Threw m \<Rightarrow> last (lp_events st') = ErrorEvent (la_sessionId a) m \<and> lp_attempt st' \<le> lp_attempt st + n \<or>
        (\<exists>name input h. last (lp_events st') = ToolCallStart (la_sessionId a) name input \<and>
           env_tools env name = Some h \<and> lp_attempt st' \<le> lp_attempt st + n)
    | Looping \<Rightarrow> quiet st' \<and> lp_attempt st' = lp_attempt st + n)"
proof (induction n arbitrary: st)
  case 0
  then show ?case by (auto simp: quiet_def dest: in_set_butlastD)
next
  case (Suc n)
  obtain o' s where rd: "loop_round env a st = (o', s)" by (rule prod.exhaust)
  note ev = loop_round_events [OF rd Suc.prems(2)]
  show ?case
  proof (cases o')
    case Looping
    with ev Suc.prems have "quiet s" by (auto simp: quiet_def)
    with Suc.IH [of s] Suc.prems rd Looping ev show ?thesis
      by (auto split: loop_out.splits)
  next
    case (Returned c)
    with ev rd Suc.prems show ?thesis by (auto simp: quiet_def butlast_append)
  next
    case (Threw m)
    with ev rd Suc.prems show ?thesis by (auto simp: quiet_def butlast_append)
  qed
qed

lemma loop_run_more:
  "loop_run n env a st = (out, st') \<Longrightarrow> out \<noteq> Looping \<Longrightarrow> loop_run (n + k) env a st = (out, st')"
  by (induction n arbitrary: st) (auto split: prod.splits loop_out.splits)

lemma runAgentLoop_ends:
  assumes "runAgentLoop n env a w = (out, st)"
  shows "(\<forall>e\<in>set (butlast (lp_events st)). \<not> is_final e) \<and>
    (case out of
       Returned c \<Rightarrow> last (lp_events st) = FinalEvent (la_sessionId a) c \<and>
         (\<exists>u. last_some response_of (lp_events st) = Some (FinalAnswer c u)) \<and> lp_attempt st \<le> n
     | Threw m \<Rightarrow> last (lp_events st) = ErrorEvent (la_sessionId a) m \<and> lp_attempt st \<le> n \<or>
         (\<exists>name input h. last (lp_events st) = ToolCallStart (la_sessionId a) name input \<and>
            env_tools env name = Some h \<and> lp_attempt st \<le> n)
     | Looping \<Rightarrow> quiet st \<and> lp_attempt st = n)"
proof -
  have "quiet (loop_init a w)" by (simp add: quiet_def loop_init_def)
  from loop_run_events [OF assms [unfolded runAgentLoop_def] this]
  show ?thesis by (simp add: loop_init_def split: loop_out.splits)
qed

lemma returned_snoc:
  assumes "runAgentLoop n env a w = (Returned c, st)"
  shows "\<exists>es. lp_events st = es @ [FinalEvent (la_sessionId a) c]"
proof -
  have "last (lp_events st) = FinalEvent (la_sessionId a) c" "lp_events st \<noteq> []"
    using runAgentLoop_ends [OF assms] by auto
  then show ?thesis by (metis append_butlast_last_id)
qed

text \<open>A quantity that no signer and no tool raises, and every tool-call answer lowers.\<close>

definition winds_down :: "('w \<Rightarrow> nat) \<Rightarrow> 'w loop_env \<Rightarrow> bool" where
  "winds_down m env \<longleftrightarrow>
     (\<forall>q w res w' i n j u. env_send env q w = (Inr res, w') \<longrightarrow> sr_response res = ToolCall i n j u \<longrightarrow> m w' < m w) \<and>
     (\<forall>f r w x w'. env_signAck env = Some f \<longrightarrow> f r w = (x, w') \<longrightarrow> m w' \<le> m w) \<and>
     (\<forall>n f j w x w'. env_tools env n = Some f \<longrightarrow> f j w = (x, w') \<longrightarrow> m w' \<le> m w)"

lemma winds_send: "winds_down m env \<Longrightarrow> env_send env q w = (Inr res, w') \<Longrightarrow>
   sr_response res = ToolCall i n j u \<Longrightarrow> m w' < m w"
  unfolding winds_down_def by blast

lemma winds_sign: "winds_down m env \<Longrightarrow> env_signAck env = Some f \<Longrightarrow> f r w = (x, w') \<Longrightarrow> m w' \<le> m w"
  unfolding winds_down_def by blast

lemma winds_tool: "winds_down m env \<Longrightarrow> run_tool env n j w = (x, w') \<Longrightarrow> m w' \<le> m w"
  unfolding winds_down_def run_tool_def by (auto split: option.splits)

lemma take_receipt_winds:
  "winds_down m env \<Longrightarrow> m (lp_world (take_receipt env a rc st)) \<le> m (lp_world st)"
  by (auto simp: take_receipt_def split: option.splits prod.splits sum.splits dest: winds_sign)

lemma loop_round_winds:
  assumes "winds_down m env" "loop_round env a st = (Looping, st')"
  shows "m (lp_world st') < m (lp_world st)"
proof -
  let ?st = "onEvent (RequestStart (la_sessionId a) (Suc (lp_attempt st))) (st\<lparr>lp_attempt := Suc (lp_attempt st)\<rparr>)"
  obtain res w i n j u where sd: "env_send env (request_of a ?st) (lp_world ?st) = (Inr res, w)"
      "sr_response res = ToolCall i n j u"
    using assms(2) by (auto simp: loop_round_def Let_def split: prod.splits sum.splits agent_response.splits)
  let ?st1 = "onEvent (Response (la_sessionId a) (sr_response res)) (?st\<lparr>lp_world := w\<rparr>)"
  let ?st2 = "take_receipt env a (sr_receipt res) ?st1"
  have "m w < m (lp_world st)" using winds_send [OF assms(1) sd] by simp
  moreover have "m (lp_world ?st2) \<le> m w" using take_receipt_winds [OF assms(1), of a "sr_receipt res" ?st1] by simp
  moreover have "m (lp_world st') \<le> m (lp_world ?st2)"
    using assms(2) sd by (auto simp: loop_round_def call_tool_def Let_def
      split: prod.splits sum.splits dest: winds_tool [OF assms(1)])
  ultimately show ?thesis by simp
qed

lemma loop_run_ends:
  "winds_down m env \<Longrightarrow> m (lp_world st) < n \<Longrightarrow> fst (loop_run n env a st) \<noteq> Looping"
proof (induction n arbitrary: st)
  case 0
  then show ?case by simp
next
  case (Suc n)
  obtain o' s where rd: "loop_round env a st = (o', s)" by (rule prod.exhaust)
  show ?case
  proof (cases o')
    case Looping
    with loop_round_winds [OF Suc.prems(1)] rd Suc.prems(2) have "m (lp_world s) < n" by fastforce
    with Suc rd Looping show ?thesis by simp
  qed (use rd in auto)
qed

text \<open>The node keeps asking for tools and no tool throws.\<close>

definition keeps_asking :: "'w loop_env \<Rightarrow> bool" where
  "keeps_asking env \<longleftrightarrow>
     (\<forall>q w. \<exists>res w' i n j u. env_send env q w = (Inr res, w') \<and> sr_response res = ToolCall i n j u) \<and>
     (\<forall>n f j w. env_tools env n = Some f \<longrightarrow> (\<exists>y. fst (f j w) = Inr y))"

lemma keeps_asking_round: "keeps_asking env \<Longrightarrow> fst (loop_round env a st) = Looping"
proof -
  assume k: "keeps_asking env"
  let ?st = "onEvent (RequestStart (la_sessionId a) (Suc (lp_attempt st))) (st\<lparr>lp_attempt := Suc (lp_attempt st)\<rparr>)"
  obtain res w i n j u where sd: "env_send env (request_of a ?st) (lp_world ?st) = (Inr res, w)"
      "sr_response res = ToolCall i n j u"
    using k unfolding keeps_asking_def by metis
  have "\<exists>y w'. run_tool env n j v = (Inr y, w')" for v
    using k by (cases "env_tools env n") (auto simp: run_tool_def keeps_asking_def, metis prod.collapse)
  then have "run_tool env n j v \<noteq> (Inl m, w')" for v m w' by (metis Inl_Inr_False prod.inject)
  then show ?thesis using sd
    by (auto simp: loop_round_def call_tool_def Let_def split: prod.splits sum.splits)
qed

lemma keeps_asking_run:
  "keeps_asking env \<Longrightarrow> fst (loop_run n env a st) = Looping"
proof (induction n arbitrary: st)
  case (Suc n)
  with keeps_asking_round [of env a st] show ?case by (cases "loop_round env a st") simp
qed simp

subsection \<open>Properties\<close>

text \<open>C9. Every request of a run is what the events before it say: against any node, signer
  and tools and after any number of rounds, the requests sent are as many as the attempts
  announced, which are numbered 1, 2, 3 and so on; each carries the URL, key, backend,
  session and channel id the loop was started with and the acknowledgement of the last
  receipt that was signed (none before the first); the first carries the prompt, each later
  one the result of the tool call last answered, with that call's id and the error flag
  announced for it.\<close>

theorem loop_trace:
  assumes "runAgentLoop n (logging env) a (w, []) = (out, st)"
  shows "length (sent st) = lp_attempt st \<and>
    List.map_filter start_of (lp_events st) = [1..<Suc (lp_attempt st)] \<and>
    (\<forall>i<lp_attempt st. request_fits a (before_start a (Suc i) (lp_events st)) (sent st ! i))"
  using loop_run_trace [OF assms] by (simp add: trace_ok_def)

text \<open>How a run ends, as its events tell it: a returned value is the content of the last
  response, a final answer, and its \<open>final\<close> event is the last of the run and the only one;
  an exception of the transport is announced by an \<open>error\<close> event, the last of the run; an
  exception of a tool's handler escapes with no event of its own, the last event being the
  start of that tool's call; and a run that is still going has announced no final answer
  and used one round per unit of fuel.\<close>

theorem loop_outcome:
  "case runAgentLoop n env a w of
     (out, st) \<Rightarrow> (\<forall>e\<in>set (butlast (lp_events st)). \<not> is_final e) \<and>
       (case out of
          Returned c \<Rightarrow> last (lp_events st) = FinalEvent (la_sessionId a) c \<and>
            (\<exists>u. last_some response_of (lp_events st) = Some (FinalAnswer c u)) \<and> lp_attempt st \<le> n
        | Threw m \<Rightarrow> last (lp_events st) = ErrorEvent (la_sessionId a) m \<and> lp_attempt st \<le> n \<or>
            (\<exists>name input h. last (lp_events st) = ToolCallStart (la_sessionId a) name input \<and>
               env_tools env name = Some h \<and> lp_attempt st \<le> n)
        | Looping \<Rightarrow> quiet st \<and> lp_attempt st = n)"
proof -
  obtain out st where r: "runAgentLoop n env a w = (out, st)" by (rule prod.exhaust)
  show ?thesis unfolding r prod.case by (rule runAgentLoop_ends [OF r])
qed

text \<open>C28. Termination: when some natural-number measure of the world falls with every
  tool-call answer and no signer and no tool raises it, the loop returns or throws within
  one round more than the measure of the starting world, and more fuel changes nothing.\<close>

theorem loop_terminates:
  assumes "winds_down m env" and "m w < n"
  shows "\<exists>out st. out \<noteq> Looping \<and> runAgentLoop (n + k) env a w = (out, st)"
proof -
  have "fst (runAgentLoop n env a w) \<noteq> Looping"
    unfolding runAgentLoop_def using assms by (intro loop_run_ends) (simp_all add: loop_init_def)
  then obtain out st where "runAgentLoop n env a w = (out, st)" "out \<noteq> Looping"
    by (cases "runAgentLoop n env a w") auto
  then show ?thesis using loop_run_more unfolding runAgentLoop_def by blast
qed

text \<open>There is no bound on the rounds: against a node that answers every request with a
  tool call, with tools that do not throw, the loop neither returns nor throws, and has
  sent one more request after every round.\<close>

theorem loop_unbounded:
  assumes "keeps_asking env"
  shows "\<exists>st. runAgentLoop n env a w = (Looping, st) \<and> lp_attempt st = n"
proof -
  obtain out st where r: "loop_run n env a (loop_init a w) = (out, st)" by (rule prod.exhaust)
  then have "out = Looping" using keeps_asking_run [OF assms] by (metis fst_conv)
  moreover have "quiet (loop_init a w)" by (simp add: quiet_def loop_init_def)
  ultimately show ?thesis using loop_run_events [OF r] r by (simp add: runAgentLoop_def loop_init_def)
qed

subsection \<open>Witnesses\<close>

text \<open>A node that asks for the file \<open>w\<close> times and then answers, with a receipt each time.\<close>

definition demo_usage :: usage where
  "demo_usage = \<lparr>inputTokens = 1, outputTokens = 2, cacheCreationInputTokens = None, cacheReadInputTokens = None\<rparr>"

definition demo_receipt :: node_signed_receipt where
  "demo_receipt = \<lparr>rc_update = \<lparr>cu_channelId = ''0xab'', cu_nonce = 1, cu_cumOwed = ''5''\<rparr>,
     rc_breakdown = \<lparr>rb_sessionId = ''s'', rb_backend = MockTee, rb_usage = demo_usage, rb_pricePer1k = ''0'',
       rb_roundTripCost = ''0''\<rparr>, nodeSig = ''0x''\<rparr>"

definition demo_loop_env :: "nat loop_env" where
  "demo_loop_env = \<lparr>env_send = (\<lambda>q w. if w = 0 then (Inr \<lparr>sr_response = FinalAnswer ''done'' demo_usage, sr_receipt = Some demo_receipt\<rparr>, w)
        else (Inr \<lparr>sr_response = ToolCall ''t1'' ''read'' JNull demo_usage, sr_receipt = Some demo_receipt\<rparr>, w - 1)),
     env_signAck = Some (\<lambda>r w. (Inr \<lparr>ack_update = rc_update r, clientSig = ''0x01''\<rparr>, w)),
     env_tools = (\<lambda>n. None)\<rparr>"

definition demo_loop_args :: loop_args where
  "demo_loop_args = \<lparr>la_nodeUrl = ''http://n'', la_nodePub = [], la_backend = MockTee, la_sessionId = ''s'',
     la_prompt = ''hi'', la_channelId = Some ''0xab''\<rparr>"

theorem loop_trace_witness:
  "let st = snd (runAgentLoop 3 (logging demo_loop_env) demo_loop_args (1, [])) in
     length (sent st) = lp_attempt st \<and> lp_attempt st = 2 \<and>
     List.map_filter start_of (lp_events st) = [1..<Suc (lp_attempt st)] \<and>
     (\<forall>i<lp_attempt st. request_fits demo_loop_args (before_start demo_loop_args (Suc i) (lp_events st)) (sent st ! i))"
proof -
  have "lp_attempt (snd (runAgentLoop 3 (logging demo_loop_env) demo_loop_args (1, []))) = 2"
    by (simp add: numeral_3_eq_3 runAgentLoop_def loop_round_def logging_def demo_loop_env_def Let_def loop_init_def
      take_receipt_def call_tool_def run_tool_def)
  then show ?thesis
    using loop_trace [of 3 demo_loop_env demo_loop_args 1, OF prod.collapse [symmetric]]
    unfolding Let_def by blast
qed

theorem loop_outcome_witness:
  "\<exists>st. runAgentLoop 3 demo_loop_env demo_loop_args 2 = (Returned ''done'', st) \<and>
     last (lp_events st) = FinalEvent ''s'' ''done'' \<and> list_all (\<lambda>e. \<not> is_final e) (butlast (lp_events st))"
proof -
  have "fst (runAgentLoop 3 demo_loop_env demo_loop_args 2) = Returned ''done''"
    by (simp add: numeral_3_eq_3 runAgentLoop_def loop_round_def demo_loop_env_def Let_def loop_init_def
      take_receipt_def call_tool_def run_tool_def)
  then obtain st where r: "runAgentLoop 3 demo_loop_env demo_loop_args 2 = (Returned ''done'', st)"
    by (metis prod.collapse)
  with loop_outcome [where n = 3 and env = demo_loop_env and a = demo_loop_args and w = 2] show ?thesis
    by (simp add: list_all_iff demo_loop_args_def)
qed

theorem loop_terminates_witness:
  "\<exists>out st. out \<noteq> Looping \<and> runAgentLoop (5 + 2) demo_loop_env demo_loop_args 4 = (out, st)"
  by (rule loop_terminates [where m = id])
    (auto simp: winds_down_def demo_loop_env_def split: if_splits)

theorem loop_unbounded_witness:
  "\<exists>st. runAgentLoop 50 (demo_loop_env\<lparr>env_send := \<lambda>q w. (Inr \<lparr>sr_response = ToolCall ''t'' ''x'' JNull demo_usage, sr_receipt = None\<rparr>, w)\<rparr>)
     demo_loop_args 0 = (Looping, st) \<and> lp_attempt st = 50"
  by (rule loop_unbounded) (simp add: keeps_asking_def demo_loop_env_def)

end
