(* ===== verification/Sessions.thy ===== *)
theory Sessions
  imports AgentLoop Eth
begin

section \<open>Sessions of the dashboard\<close>

text \<open>
  \<open>apps/dashboard/src/lib/events.ts\<close> (the session record, usage and cost) and the state of
  \<open>components/Dashboard.tsx\<close>: sending a request through the agent loop, what each loop event
  does to the session, merging with the activity the nodes report, and the list of requests
  the graph draws. React's \<open>setState(prev => ...)\<close> is applying the function to the state; the
  clock (\<open>Date.now()\<close>) is an argument of each handler.
\<close>

subsection \<open>Session records\<close>

datatype session_source = LocalSession | RemoteSession

datatype session_status = Reported request_status | Matching | Pending

record tool_call =
  tc_name :: string
  tc_startedAt :: int
  tc_endedAt :: "int option"
  tc_isError :: bool

record session_record =
  ss_sessionId :: string
  ss_source :: session_source
  ss_backend :: backend_type
  ss_nodeUrl :: "string option"
  ss_startedAt :: int
  ss_endedAt :: "int option"
  ss_lastUpdate :: int
  ss_status :: session_status
  ss_stepCount :: int
  ss_toolCalls :: "tool_call list"
  ss_lastToolName :: "string option"
  ss_prompt :: "string option"
  ss_finalContent :: "string option"
  ss_errorMessage :: "string option"
  ss_estimatedTokens :: jsnum
  ss_pricePer1k :: jsnum
  ss_actualUsage :: "usage option"

definition makeLocalSession :: "int \<Rightarrow> string \<Rightarrow> backend_type \<Rightarrow> string \<Rightarrow> jsnum \<Rightarrow> jsnum \<Rightarrow> session_record" where
  "makeLocalSession now sid b p est price =
     \<lparr>ss_sessionId = sid, ss_source = LocalSession, ss_backend = b, ss_nodeUrl = None, ss_startedAt = now,
      ss_endedAt = None, ss_lastUpdate = now, ss_status = Pending, ss_stepCount = 0, ss_toolCalls = [],
      ss_lastToolName = None, ss_prompt = Some p, ss_finalContent = None, ss_errorMessage = None,
      ss_estimatedTokens = est, ss_pricePer1k = price, ss_actualUsage = None\<rparr>"

fun or_zero :: "int option \<Rightarrow> int" where
  "or_zero None = 0"
| "or_zero (Some n) = n"

definition sumOpt :: "int option \<Rightarrow> int option \<Rightarrow> int option" where
  "sumOpt a b = (if a = None \<and> b = None then None else Some (or_zero a + or_zero b))"

fun addUsage :: "usage option \<Rightarrow> usage \<Rightarrow> usage" where
  "addUsage None b =
     \<lparr>inputTokens = inputTokens b, outputTokens = outputTokens b,
      cacheCreationInputTokens = cacheCreationInputTokens b, cacheReadInputTokens = cacheReadInputTokens b\<rparr>"
| "addUsage (Some a) b =
     \<lparr>inputTokens = inputTokens a + inputTokens b, outputTokens = outputTokens a + outputTokens b,
      cacheCreationInputTokens = sumOpt (cacheCreationInputTokens a) (cacheCreationInputTokens b),
      cacheReadInputTokens = sumOpt (cacheReadInputTokens a) (cacheReadInputTokens b)\<rparr>"

definition totalTokens :: "usage \<Rightarrow> int" where
  "totalTokens u = inputTokens u + outputTokens u + or_zero (cacheCreationInputTokens u) + or_zero (cacheReadInputTokens u)"

definition sessionCost :: "session_record \<Rightarrow> jsnum \<times> bool" where
  "sessionCost s =
     (case ss_actualUsage s of
        Some u \<Rightarrow> (jmul (jdivc (Fin (of_int (totalTokens u))) 1000) (ss_pricePer1k s), True)
      | None \<Rightarrow> (jmul (jdivc (ss_estimatedTokens s) 1000) (ss_pricePer1k s), False))"

definition isInFlight :: "session_record \<Rightarrow> bool" where
  "isInFlight s \<longleftrightarrow> ss_endedAt s = None"

lemma or_zero_sumOpt [simp]: "or_zero (sumOpt a b) = or_zero a + or_zero b"
  by (cases a; cases b) (simp_all add: sumOpt_def)

lemma totalTokens_addUsage:
  "totalTokens (addUsage a b) = (case a of None \<Rightarrow> 0 | Some u \<Rightarrow> totalTokens u) + totalTokens b"
  by (cases a) (simp_all add: totalTokens_def)

subsection \<open>Handlers of the agent loop's events\<close>

definition browserTools :: "string \<Rightarrow> (json \<Rightarrow> 'w \<Rightarrow> (string + (string \<times> bool)) \<times> 'w) option" where
  "browserTools name =
     (if name = ''read_local_file''
      then Some (\<lambda>input w. (Inr (''read_local_file is unavailable from the dashboard '' @ em_dash @
             '' run this prompt via the CLI.'', True), w))
      else None)"

definition end_last_tool :: "int \<Rightarrow> bool \<Rightarrow> tool_call list \<Rightarrow> tool_call list" where
  "end_last_tool t err tcs =
     map (\<lambda>(i, tc). if i = length tcs - 1 then tc\<lparr>tc_endedAt := Some t, tc_isError := err\<rparr> else tc)
       (enumerate 0 tcs)"

fun usage_of :: "agent_response \<Rightarrow> usage" where
  "usage_of (FinalAnswer _ u) = u"
| "usage_of (ToolCall _ _ _ u) = u"

text \<open>The \<open>onEvent\<close> callback on the session it belongs to.\<close>

fun session_event :: "int \<Rightarrow> agent_event \<Rightarrow> session_record \<Rightarrow> session_record" where
  "session_event t (ToolCallStart _ name _) s =
     s\<lparr>ss_status := Reported WaitingTool, ss_lastToolName := Some name, ss_lastUpdate := t,
       ss_toolCalls := ss_toolCalls s @ [\<lparr>tc_name = name, tc_startedAt = t, tc_endedAt = None, tc_isError = False\<rparr>]\<rparr>"
| "session_event t (ToolCallEnd _ _ err) s =
     s\<lparr>ss_status := Reported Running, ss_lastUpdate := t, ss_toolCalls := end_last_tool t err (ss_toolCalls s)\<rparr>"
| "session_event t (FinalEvent _ c) s =
     s\<lparr>ss_status := Reported Final, ss_finalContent := Some c, ss_endedAt := Some t, ss_lastUpdate := t\<rparr>"
| "session_event t (ErrorEvent _ m) s =
     s\<lparr>ss_status := Reported Error, ss_errorMessage := Some m, ss_endedAt := Some t, ss_lastUpdate := t\<rparr>"
| "session_event t (Response _ r) s =
     s\<lparr>ss_stepCount := ss_stepCount s + 1, ss_lastUpdate := t, ss_actualUsage := Some (addUsage (ss_actualUsage s) (usage_of r))\<rparr>"
| "session_event t _ s = s"

definition patchLocal :: "string \<Rightarrow> (session_record \<Rightarrow> session_record) \<Rightarrow> session_record list \<Rightarrow> session_record list" where
  "patchLocal sid f ss = map (\<lambda>s. if ss_sessionId s = sid then f s else s) ss"

subsection \<open>The dashboard's state and handleSend\<close>

record dash_state =
  localSessions :: "session_record list"
  selectedSessionId :: "string option"
  selectedPubKey :: "string option"
  sending :: bool
  latestReceiptByNode :: "(string, node_signed_receipt) jmap"

record send_args =
  sa_backend :: backend_type
  sa_prompt :: string
  sa_estimatedTokens :: jsnum
  sa_maxPricePer1k :: jsnum

text \<open>Up to the first \<open>await\<close>.\<close>

definition send_begin :: "int \<Rightarrow> string \<Rightarrow> send_args \<Rightarrow> dash_state \<Rightarrow> dash_state" where
  "send_begin now sid args d =
     (let rec = (makeLocalSession now sid (sa_backend args) (sa_prompt args) (sa_estimatedTokens args) (Fin 0))
                  \<lparr>ss_status := Matching\<rparr> in
      d\<lparr>localSessions := rec # localSessions d, selectedSessionId := Some sid, sending := True\<rparr>)"

text \<open>\<open>matchedNode?.pricing.find(...)?.pricePer1k\<close> in dollars; absent or empty is 0.\<close>

definition price_of :: "node_registration list \<Rightarrow> string \<Rightarrow> backend_type \<Rightarrow> jsnum" where
  "price_of ns pub b =
     (case Option.bind (List.find (\<lambda>n. publicKey n = pub) ns) (\<lambda>n.
             map_option bp_pricePer1k (List.find (\<lambda>p. bp_backend p = b) (pricing n))) of
        None \<Rightarrow> Fin 0
      | Some [] \<Rightarrow> Fin 0
      | Some u \<Rightarrow> jdivc (js_number u) 1000000)"

definition send_matched :: "string \<Rightarrow> string \<Rightarrow> jsnum \<Rightarrow> dash_state \<Rightarrow> dash_state" where
  "send_matched sid u price d =
     d\<lparr>localSessions := patchLocal sid (\<lambda>s. s\<lparr>ss_status := Reported Running, ss_nodeUrl := Some u, ss_pricePer1k := price\<rparr>)
         (localSessions d)\<rparr>"

text \<open>The channel id goes along only to the selected node, and the signer only with it.\<close>

definition channel_for :: "string option \<Rightarrow> string option \<Rightarrow> string \<Rightarrow> string option" where
  "channel_for selected chanId pub = (if selected = Some pub then truthy_str chanId else None)"

definition signer_for :: "string option \<Rightarrow> bool \<Rightarrow> 'f \<Rightarrow> 'f option" where
  "signer_for chanId ready sign = (if chanId \<noteq> None \<and> ready then Some sign else None)"

definition dash_event :: "string \<Rightarrow> string \<Rightarrow> int \<Rightarrow> agent_event \<Rightarrow> dash_state \<Rightarrow> dash_state" where
  "dash_event sid pub t ev d =
     (case ev of
        ReceiptEvent _ r _ \<Rightarrow> d\<lparr>latestReceiptByNode := jmap_set pub r (latestReceiptByNode d)\<rparr>
      | _ \<Rightarrow> d\<lparr>localSessions := patchLocal sid (session_event t ev) (localSessions d)\<rparr>)"

definition send_failed :: "string \<Rightarrow> int \<Rightarrow> string \<Rightarrow> dash_state \<Rightarrow> dash_state" where
  "send_failed sid t m d =
     d\<lparr>localSessions := patchLocal sid (\<lambda>s. s\<lparr>ss_status := Reported Error, ss_errorMessage := Some m, ss_endedAt := Some t\<rparr>)
         (localSessions d)\<rparr>"

definition send_done :: "dash_state \<Rightarrow> dash_state" where
  "send_done d = d\<lparr>sending := False\<rparr>"

text \<open>What \<open>handleSend\<close> captures when it is called, and the calls it makes.\<close>

record 'w send_ctx =
  cx_nodes :: "node_registration list"
  cx_channelId :: "string option"
  cx_ready :: bool
  cx_signReceipt :: "node_signed_receipt \<Rightarrow> 'w \<Rightarrow> (string + client_ack) \<times> 'w"
  cx_match :: "job_spec \<Rightarrow> string + job_match"
  cx_decode :: "string \<Rightarrow> string + bytes"
  cx_send :: "send_opts \<Rightarrow> 'w \<Rightarrow> (string + step_result) \<times> 'w"

definition send_loop ::
  "'w send_ctx \<Rightarrow> string option \<Rightarrow> string \<Rightarrow> send_args \<Rightarrow> job_match \<Rightarrow> bytes \<Rightarrow> nat \<Rightarrow> 'w \<Rightarrow> loop_out \<times> 'w loop_state" where
  "send_loop cx sel sid args m nodePub fuel w =
     (let chan = channel_for sel (cx_channelId cx) (jm_publicKey m) in
      runAgentLoop fuel
        \<lparr>env_send = cx_send cx, env_signAck = signer_for chan (cx_ready cx) (cx_signReceipt cx), env_tools = browserTools\<rparr>
        \<lparr>la_nodeUrl = jm_url m, la_nodePub = nodePub, la_backend = sa_backend args, la_sessionId = sid,
         la_prompt = sa_prompt args, la_channelId = chan\<rparr> w)"

text \<open>
  The whole handler, from the state it finds to the state it leaves; \<open>clock k\<close> is the time of
  its \<open>k\<close>-th reading. \<open>None\<close> when the fuel of the agent loop is used up.
\<close>

definition handleSend ::
  "(nat \<Rightarrow> int) \<Rightarrow> 'w send_ctx \<Rightarrow> string \<Rightarrow> send_args \<Rightarrow> nat \<Rightarrow> 'w \<Rightarrow> dash_state \<Rightarrow> dash_state option" where
  "handleSend clock cx sid args fuel w d0 =
     (let d = send_begin (clock 0) sid args d0 in
      case cx_match cx \<lparr>js_backend = sa_backend args, js_estimatedTokens = sa_estimatedTokens args,
                         js_maxPricePer1k = sa_maxPricePer1k args\<rparr> of
        Inl e \<Rightarrow> Some (send_done (send_failed sid (clock 1) e d))
      | Inr m \<Rightarrow>
          (let d = send_matched sid (jm_url m) (price_of (cx_nodes cx) (jm_publicKey m) (sa_backend args)) d in
           case cx_decode cx (jm_publicKey m) of
             Inl e \<Rightarrow> Some (send_done (send_failed sid (clock 1) e d))
           | Inr nodePub \<Rightarrow>
               (let (out, st) = send_loop cx (selectedPubKey d0) sid args m nodePub fuel w;
                    d = fold (\<lambda>(k, ev). dash_event sid (jm_publicKey m) (clock (Suc k)) ev) (enumerate 0 (lp_events st)) d in
                case out of
                  Looping \<Rightarrow> None
                | Returned c \<Rightarrow> Some (send_done d)
                | Threw e \<Rightarrow> Some (send_done (send_failed sid (clock (Suc (length (lp_events st)))) e d)))))"

subsection \<open>Merging with the nodes' activity\<close>

record activity_entry =
  ae_nodeUrl :: string
  ae_record :: request_record

text \<open>\<open>a ?? b\<close>\<close>

fun or_else :: "'a option \<Rightarrow> 'a option \<Rightarrow> 'a option" where
  "or_else (Some a) b = Some a"
| "or_else None b = b"

definition merge_into :: "activity_entry \<Rightarrow> session_record \<Rightarrow> session_record" where
  "merge_into e s = (let r = ae_record e in
     s\<lparr>ss_nodeUrl := or_else (ss_nodeUrl s) (Some (ae_nodeUrl e)),
       ss_stepCount := max (ss_stepCount s) (rr_stepCount r),
       ss_lastToolName := or_else (rr_lastToolName r) (ss_lastToolName s),
       ss_lastUpdate := max (ss_lastUpdate s) (lastUpdateMs r),
       ss_endedAt := (if endedAtMs r \<noteq> None then or_else (ss_endedAt s) (endedAtMs r) else ss_endedAt s)\<rparr>)"

definition remote_session :: "activity_entry \<Rightarrow> session_record" where
  "remote_session e = (let r = ae_record e in
     \<lparr>ss_sessionId = rr_sessionId r, ss_source = RemoteSession, ss_backend = rr_backend r,
      ss_nodeUrl = Some (ae_nodeUrl e), ss_startedAt = startedAtMs r, ss_endedAt = endedAtMs r,
      ss_lastUpdate = lastUpdateMs r, ss_status = Reported (rr_status r), ss_stepCount = rr_stepCount r,
      ss_toolCalls = [], ss_lastToolName = rr_lastToolName r, ss_prompt = None, ss_finalContent = None,
      ss_errorMessage = None, ss_estimatedTokens = Fin 0, ss_pricePer1k = Fin 0, ss_actualUsage = None\<rparr>)"

fun merge_entry :: "activity_entry \<Rightarrow> session_record option \<Rightarrow> session_record" where
  "merge_entry e (Some s) = merge_into e s"
| "merge_entry e None = remote_session e"

definition entry_id :: "activity_entry \<Rightarrow> string" where
  "entry_id e = rr_sessionId (ae_record e)"

definition bySession :: "session_record list \<Rightarrow> activity_entry list \<Rightarrow> (string, session_record) jmap" where
  "bySession locals activity =
     fold (\<lambda>e m. jmap_set (entry_id e) (merge_entry e (jmap_get m (entry_id e))) m) activity
       (fold (\<lambda>s m. jmap_set (ss_sessionId s) s m) locals [])"

definition mergeSessions :: "session_record list \<Rightarrow> activity_entry list \<Rightarrow> session_record list" where
  "mergeSessions locals activity = sort_key (\<lambda>s. - ss_startedAt s) (jmap_values (bySession locals activity))"

subsection \<open>What the graph draws\<close>

datatype request_kind = RequestKind | ToolCallKind

record active_request =
  ar_nodeUrl :: string
  ar_sessionId :: string
  ar_backend :: backend_type
  ar_startedAt :: int
  ar_endedAt :: "int option"
  ar_status :: session_status
  ar_lastToolName :: "string option"
  ar_source :: session_source
  ar_kind :: request_kind
  ar_label :: string

definition FADE_MS :: int where
  "FADE_MS = 1500"

definition shown :: "int \<Rightarrow> int option \<Rightarrow> bool" where
  "shown now e = (case e of None \<Rightarrow> True | Some t \<Rightarrow> now - t < FADE_MS)"

definition tool_request :: "string \<Rightarrow> session_record \<Rightarrow> tool_call \<Rightarrow> active_request" where
  "tool_request u s tc =
     \<lparr>ar_nodeUrl = u, ar_sessionId = ss_sessionId s, ar_backend = ss_backend s, ar_startedAt = tc_startedAt tc,
      ar_endedAt = tc_endedAt tc, ar_status = (if tc_isError tc then Reported Error else Reported Running),
      ar_lastToolName = Some (tc_name tc), ar_source = ss_source s, ar_kind = ToolCallKind,
      ar_label = ''tool: '' @ tc_name tc\<rparr>"

definition session_requests :: "int \<Rightarrow> session_record \<Rightarrow> active_request list" where
  "session_requests now s =
     (case truthy_str (ss_nodeUrl s) of
        None \<Rightarrow> []
      | Some u \<Rightarrow>
          (if shown now (ss_endedAt s) then
             [\<lparr>ar_nodeUrl = u, ar_sessionId = ss_sessionId s, ar_backend = ss_backend s, ar_startedAt = ss_startedAt s,
               ar_endedAt = ss_endedAt s, ar_status = ss_status s, ar_lastToolName = ss_lastToolName s,
               ar_source = ss_source s, ar_kind = RequestKind, ar_label = backend_str (ss_backend s)\<rparr>] else []) @
          (if ss_source s = LocalSession then
             map (tool_request u s) (filter (\<lambda>tc. shown now (tc_endedAt tc)) (ss_toolCalls s))
           else if ss_status s = Reported WaitingTool \<and> truthy_str (ss_lastToolName s) \<noteq> None then
             [\<lparr>ar_nodeUrl = u, ar_sessionId = ss_sessionId s, ar_backend = ss_backend s, ar_startedAt = ss_lastUpdate s,
               ar_endedAt = None, ar_status = Reported Running, ar_lastToolName = ss_lastToolName s,
               ar_source = ss_source s, ar_kind = ToolCallKind,
               ar_label = ''tool: '' @ the (ss_lastToolName s)\<rparr>]
           else []))"

definition sessionsToActiveRequests :: "session_record list \<Rightarrow> int \<Rightarrow> active_request list" where
  "sessionsToActiveRequests ss now = concat (map (session_requests now) ss)"

subsection \<open>Derived values of a render\<close>

definition alive_nodes :: "node_registration list \<Rightarrow> string list \<Rightarrow> node_registration list" where
  "alive_nodes rawNodes aliveUrls = filter (\<lambda>n. url n \<in> set aliveUrls) rawNodes"

definition selectedSession :: "session_record list \<Rightarrow> string option \<Rightarrow> session_record option" where
  "selectedSession ss sel = List.find (\<lambda>s. Some (ss_sessionId s) = sel) ss"

definition selectedNode :: "node_registration list \<Rightarrow> string option \<Rightarrow> node_registration option" where
  "selectedNode ns sel = List.find (\<lambda>n. Some (publicKey n) = sel) ns"

definition selectedNodeAddress :: "(string \<Rightarrow> eth_error + string) \<Rightarrow> node_registration option \<Rightarrow> (eth_error + string) option" where
  "selectedNodeAddress addr n = map_option (\<lambda>n. addr (identityPubkey n)) n"

text \<open>The header line, and the rows of the selected node's card (\<open>toLocaleString\<close> is a parameter).\<close>

definition header_text :: "node_registration list \<Rightarrow> string" where
  "header_text ns = nat_str (length ns) @ '' node'' @ (if length ns = 1 then [] else ''s'') @ '' registered''"

definition node_detail_rows :: "(int \<Rightarrow> string) \<Rightarrow> node_registration \<Rightarrow> (string \<times> string) list" where
  "node_detail_rows locale_fmt n =
     [(''pubkey'', str_slice 0 12 (publicKey n) @ ellipsis), (''url'', url n),
      (''backends'', str_join '', '' (map backend_str (backends n))), (''max tokens'', locale_fmt (maxTokens n))] @
     map (\<lambda>p. (backend_str (bp_backend p), jto_fixed 4 (jdivc (js_number (bp_pricePer1k p)) 1000000))) (pricing n)"

definition latest_receipt :: "dash_state \<Rightarrow> node_registration option \<Rightarrow> node_signed_receipt option" where
  "latest_receipt d n = Option.bind n (\<lambda>n. jmap_get (latestReceiptByNode d) (publicKey n))"

subsection \<open>Folding events into a session\<close>

definition session_events :: "(int \<times> agent_event) list \<Rightarrow> session_record \<Rightarrow> session_record" where
  "session_events evs s = fold (\<lambda>(t, ev). session_event t ev) evs s"

definition responses :: "(int \<times> agent_event) list \<Rightarrow> agent_response list" where
  "responses evs = List.map_filter (\<lambda>(t, ev). response_of ev) evs"

lemma session_events_simps [simp]:
  "session_events [] s = s"
  "session_events ((t, ev) # evs) s = session_events evs (session_event t ev s)"
  "session_events (evs @ evs') s = session_events evs' (session_events evs s)"
  by (simp_all add: session_events_def)

lemma responses_simps [simp]:
  "responses [] = []"
  "responses ((t, ev) # evs) = (case response_of ev of None \<Rightarrow> [] | Some r \<Rightarrow> [r]) @ responses evs"
  by (simp_all add: responses_def List.map_filter_def split: option.split)

lemma session_event_fixed [simp]:
  "ss_sessionId (session_event t ev s) = ss_sessionId s" "ss_source (session_event t ev s) = ss_source s"
  "ss_backend (session_event t ev s) = ss_backend s" "ss_nodeUrl (session_event t ev s) = ss_nodeUrl s"
  "ss_startedAt (session_event t ev s) = ss_startedAt s" "ss_prompt (session_event t ev s) = ss_prompt s"
  "ss_pricePer1k (session_event t ev s) = ss_pricePer1k s"
  "ss_estimatedTokens (session_event t ev s) = ss_estimatedTokens s"
  by (cases ev; simp)+

lemma session_events_fixed [simp]:
  "ss_sessionId (session_events evs s) = ss_sessionId s" "ss_source (session_events evs s) = ss_source s"
  "ss_backend (session_events evs s) = ss_backend s" "ss_nodeUrl (session_events evs s) = ss_nodeUrl s"
  "ss_startedAt (session_events evs s) = ss_startedAt s" "ss_prompt (session_events evs s) = ss_prompt s"
  "ss_pricePer1k (session_events evs s) = ss_pricePer1k s"
  "ss_estimatedTokens (session_events evs s) = ss_estimatedTokens s"
  by (induction evs arbitrary: s) auto

lemma session_events_steps:
  "ss_stepCount (session_events evs s) = ss_stepCount s + int (length (responses evs))"
proof (induction evs arbitrary: s)
  case (Cons a evs)
  then show ?case by (cases a; cases "snd a") auto
qed simp

lemma session_events_usage:
  "case ss_actualUsage (session_events evs s) of
     None \<Rightarrow> ss_actualUsage s = None \<and> responses evs = []
   | Some u \<Rightarrow> totalTokens u = (case ss_actualUsage s of None \<Rightarrow> 0 | Some v \<Rightarrow> totalTokens v)
        + (\<Sum>r\<leftarrow>responses evs. totalTokens (usage_of r)) \<and> (ss_actualUsage s \<noteq> None \<or> responses evs \<noteq> [])"
proof (induction evs arbitrary: s)
  case Nil
  then show ?case by (simp split: option.split)
next
  case (Cons a evs)
  obtain t ev where a: "a = (t, ev)" by (rule prod.exhaust)
  show ?case using Cons.IH [of "session_event t ev s"]
    by (cases ev) (auto simp: a totalTokens_addUsage split: option.splits)
qed

lemma session_events_ended: "ss_endedAt s \<noteq> None \<Longrightarrow> ss_endedAt (session_events evs s) \<noteq> None"
proof (induction evs arbitrary: s)
  case (Cons a evs)
  then show ?case by (cases a; cases "snd a") auto
qed simp

lemma session_event_ended: "ss_endedAt (session_event t (ErrorEvent i m) s) \<noteq> None"
  by simp

text \<open>The dashboard folds the events into the session they belong to and into no other.\<close>

lemma patchLocal_ids [simp]:
  "(\<And>s. ss_sessionId (f s) = ss_sessionId s) \<Longrightarrow> map ss_sessionId (patchLocal sid f ss) = map ss_sessionId ss"
  by (induction ss) (auto simp: patchLocal_def)

lemma patchLocal_fresh: "sid \<notin> ss_sessionId ` set ss \<Longrightarrow> patchLocal sid f ss = ss"
  unfolding patchLocal_def by (rule map_idI) auto

lemma patchLocal_Cons [simp]:
  "patchLocal sid f (s # ss) = (if ss_sessionId s = sid then f s else s) # patchLocal sid f ss"
  by (simp add: patchLocal_def)

lemma find_patch:
  "(\<And>s. ss_sessionId (f s) = ss_sessionId s) \<Longrightarrow>
   List.find (\<lambda>s. ss_sessionId s = i) (patchLocal sid f ss)
     = map_option (if i = sid then f else id) (List.find (\<lambda>s. ss_sessionId s = i) ss)"
  by (induction ss) (auto simp: patchLocal_def)

lemma dash_event_find:
  "List.find (\<lambda>s. ss_sessionId s = i) (localSessions (dash_event sid pub t ev d))
     = map_option (if i = sid then session_event t ev else id) (List.find (\<lambda>s. ss_sessionId s = i) (localSessions d))"
  by (cases ev) (auto simp: dash_event_def find_patch option.map_id option.map_ident cong: option.map_cong)

definition dash_events :: "(string \<times> string \<times> int \<times> agent_event) list \<Rightarrow> dash_state \<Rightarrow> dash_state" where
  "dash_events evs d = fold (\<lambda>(sid, pub, t, ev). dash_event sid pub t ev) evs d"

definition own_events :: "string \<Rightarrow> (string \<times> string \<times> int \<times> agent_event) list \<Rightarrow> (int \<times> agent_event) list" where
  "own_events i evs = map (\<lambda>(sid, pub, t, ev). (t, ev)) (filter (\<lambda>(sid, pub, t, ev). sid = i) evs)"

lemma dash_events_find:
  "List.find (\<lambda>s. ss_sessionId s = i) (localSessions (dash_events evs d))
     = map_option (session_events (own_events i evs)) (List.find (\<lambda>s. ss_sessionId s = i) (localSessions d))"
proof (induction evs arbitrary: d)
  case Nil
  then show ?case by (simp add: dash_events_def own_events_def option.map_ident)
next
  case (Cons a evs)
  obtain sid pub t ev where a: "a = (sid, pub, t, ev)" by (metis prod_cases4)
  have "dash_events (a # evs) d = dash_events evs (dash_event sid pub t ev d)"
    by (simp add: dash_events_def a)
  then show ?case
    by (simp add: Cons.IH dash_event_find option.map_comp comp_def)
      (simp add: own_events_def a)
qed

text \<open>One send's events, on the session it put at the head of the list.\<close>

lemma dash_event_head:
  "sid \<notin> ss_sessionId ` set rest \<Longrightarrow> localSessions d = s # rest \<Longrightarrow> ss_sessionId s = sid \<Longrightarrow>
   localSessions (dash_event sid pub t ev d) = session_event t ev s # rest"
  by (cases ev) (auto simp: dash_event_def patchLocal_fresh)

lemma dash_event_rest [simp]:
  "sending (dash_event sid pub t ev d) = sending d" "selectedSessionId (dash_event sid pub t ev d) = selectedSessionId d"
  "selectedPubKey (dash_event sid pub t ev d) = selectedPubKey d"
  by (cases ev; simp add: dash_event_def)+

definition stamp :: "(nat \<Rightarrow> int) \<Rightarrow> agent_event list \<Rightarrow> (int \<times> agent_event) list" where
  "stamp clock evs = map (\<lambda>(k, ev). (clock (Suc k), ev)) (enumerate 0 evs)"

lemma fold_dash_event:
  "sid \<notin> ss_sessionId ` set rest \<Longrightarrow> localSessions d = s # rest \<Longrightarrow> ss_sessionId s = sid \<Longrightarrow>
   localSessions (fold (\<lambda>(k, ev). dash_event sid pub (f k) ev) kevs d)
     = session_events (map (\<lambda>(k, ev). (f k, ev)) kevs) s # rest \<and>
   selectedSessionId (fold (\<lambda>(k, ev). dash_event sid pub (f k) ev) kevs d) = selectedSessionId d"
proof (induction kevs arbitrary: d s)
  case (Cons a kevs)
  obtain k ev where a: "a = (k, ev)" by (rule prod.exhaust)
  show ?case
    using Cons.IH [of "dash_event sid pub (f k) ev d" "session_event (f k) ev s"] Cons.prems
    by (simp add: a dash_event_head)
qed simp

lemma responses_stamp [simp]: "responses (stamp clock evs) = List.map_filter response_of evs"
proof -
  have "responses (map (\<lambda>(k, ev). (clock (Suc k), ev)) (enumerate n evs)) = List.map_filter response_of evs" for n
    by (induction evs arbitrary: n) (auto simp: List.map_filter_def responses_def split: option.split)
  then show ?thesis by (simp add: stamp_def)
qed

lemma stamp_snoc: "stamp clock (evs @ [e]) = stamp clock evs @ [(clock (Suc (length evs)), e)]"
  by (simp add: stamp_def enumerate_append_eq)

text \<open>The record a send starts from, once a node is matched.\<close>

definition matched_session :: "int \<Rightarrow> string \<Rightarrow> send_args \<Rightarrow> string \<Rightarrow> jsnum \<Rightarrow> session_record" where
  "matched_session now sid args u price =
     (makeLocalSession now sid (sa_backend args) (sa_prompt args) (sa_estimatedTokens args) price)
       \<lparr>ss_status := Reported Running, ss_nodeUrl := Some u\<rparr>"

lemma send_begin_matched:
  "sid \<notin> ss_sessionId ` set (localSessions d) \<Longrightarrow>
   localSessions (send_matched sid u price (send_begin now sid args d))
     = matched_session now sid args u price # localSessions d"
  by (simp add: send_matched_def send_begin_def Let_def patchLocal_fresh matched_session_def makeLocalSession_def)

subsection \<open>Merging\<close>

lemma find_Some_id: "List.find (\<lambda>s. ss_sessionId s = i) ss = Some s \<Longrightarrow> ss_sessionId s = i \<and> s \<in> set ss"
  by (auto simp: find_Some_iff)

lemma find_None_id: "List.find (\<lambda>s. ss_sessionId s = i) ss = None \<longleftrightarrow> i \<notin> ss_sessionId ` set ss"
  by (auto simp: find_None_iff)

lemma find_distinct:
  "distinct (map ss_sessionId ss) \<Longrightarrow> s \<in> set ss \<Longrightarrow> List.find (\<lambda>x. ss_sessionId x = ss_sessionId s) ss = Some s"
  by (induction ss) (auto simp: image_iff)

lemma merge_into_fixed [simp]:
  "ss_sessionId (merge_into e s) = ss_sessionId s" "ss_source (merge_into e s) = ss_source s"
  "ss_status (merge_into e s) = ss_status s" "ss_startedAt (merge_into e s) = ss_startedAt s"
  "ss_prompt (merge_into e s) = ss_prompt s" "ss_finalContent (merge_into e s) = ss_finalContent s"
  "ss_errorMessage (merge_into e s) = ss_errorMessage s" "ss_toolCalls (merge_into e s) = ss_toolCalls s"
  "ss_actualUsage (merge_into e s) = ss_actualUsage s" "ss_pricePer1k (merge_into e s) = ss_pricePer1k s"
  by (simp_all add: merge_into_def Let_def)

lemma fold_merge_into_fixed:
  "ss_sessionId (fold merge_into es s) = ss_sessionId s \<and> ss_source (fold merge_into es s) = ss_source s \<and>
   ss_status (fold merge_into es s) = ss_status s \<and> ss_startedAt (fold merge_into es s) = ss_startedAt s \<and>
   ss_prompt (fold merge_into es s) = ss_prompt s \<and> ss_finalContent (fold merge_into es s) = ss_finalContent s \<and>
   ss_toolCalls (fold merge_into es s) = ss_toolCalls s \<and> ss_actualUsage (fold merge_into es s) = ss_actualUsage s"
  by (induction es arbitrary: s) simp_all

fun first_end :: "activity_entry list \<Rightarrow> int option" where
  "first_end [] = None"
| "first_end (e # es) = or_else (endedAtMs (ae_record e)) (first_end es)"

lemma or_else_simps [simp]: "or_else a None = a" "or_else (or_else a b) c = or_else a (or_else b c)"
  by (cases a; simp)+

lemma fold_merge_into_ended: "ss_endedAt (fold merge_into es s) = or_else (ss_endedAt s) (first_end es)"
proof (induction es arbitrary: s)
  case (Cons e es)
  then show ?case by (cases "endedAtMs (ae_record e)") (simp_all add: merge_into_def Let_def)
qed simp

lemma fold_merge_into_steps:
  "ss_stepCount (fold merge_into es s) = fold (\<lambda>e. max (rr_stepCount (ae_record e))) es (ss_stepCount s)"
  by (induction es arbitrary: s) (simp_all add: merge_into_def Let_def max.commute)

lemma merge_entries:
  "fold (\<lambda>e acc. Some (merge_entry e acc)) es (Some s) = Some (fold merge_into es s)"
  by (induction es arbitrary: s) simp_all

lemma merge_entries_remote:
  "es \<noteq> [] \<Longrightarrow> fold (\<lambda>e acc. Some (merge_entry e acc)) es None = Some (fold merge_into (tl es) (remote_session (hd es)))"
  by (cases es) (simp_all add: merge_entries)

lemma locals_lookup:
  "distinct (map ss_sessionId (locals :: session_record list)) \<Longrightarrow>
   jmap_get (fold (\<lambda>s m. jmap_set (ss_sessionId s) s m) locals []) i = List.find (\<lambda>s. ss_sessionId s = i) locals"
proof -
  have "fold (\<lambda>x acc. Some x) (filter (\<lambda>x. ss_sessionId x = i) locals) None = List.find (\<lambda>s. ss_sessionId s = i) locals"
    if "distinct (map ss_sessionId locals)"
    using that
  proof (induction locals)
    case (Cons a locals)
    then have "filter (\<lambda>x. ss_sessionId x = i) locals = []" if "ss_sessionId a = i"
      using that by (auto simp: filter_empty_conv image_iff)
    with Cons show ?case by auto
  qed simp
  moreover have "jmap_get ([] :: (string, session_record) jmap) i = None" by (simp add: jmap_get_def)
  moreover assume "distinct (map ss_sessionId locals)"
  ultimately show ?thesis
    using jm.upsert_lookup [of ss_sessionId "\<lambda>x _. x" locals "[]" i] by simp
qed

lemma bySession_lookup:
  "distinct (map ss_sessionId locals) \<Longrightarrow>
   jmap_get (bySession locals activity) i =
     fold (\<lambda>e acc. Some (merge_entry e acc)) (filter (\<lambda>e. entry_id e = i) activity)
       (List.find (\<lambda>s. ss_sessionId s = i) locals)"
  by (simp add: bySession_def jm.upsert_lookup locals_lookup)

lemma bySession_keys:
  "set (jmap_keys (bySession locals activity)) = ss_sessionId ` set locals \<union> entry_id ` set activity \<and>
   distinct (jmap_keys (bySession locals activity))"
proof -
  have "set (jmap_keys (fold (\<lambda>s m. jmap_set (ss_sessionId s) s m) locals [])) = ss_sessionId ` set locals"
    using jm.upsert_keys [of ss_sessionId "\<lambda>x _. x" locals "[]"] by (simp add: jmap_keys_def)
  moreover have "distinct (jmap_keys (fold (\<lambda>s m. jmap_set (ss_sessionId s) s m) locals []))"
    using jm.upsert_distinct [of "[]" ss_sessionId "\<lambda>x _. x" locals] by (simp add: jmap_keys_def)
  ultimately show ?thesis
    by (simp add: bySession_def jm.upsert_keys jm.upsert_distinct)
qed

lemma bySession_ids:
  assumes "distinct (map ss_sessionId locals)" "jmap_get (bySession locals activity) i = Some s"
  shows "ss_sessionId s = i"
proof (cases "List.find (\<lambda>s. ss_sessionId s = i) locals")
  case (Some a)
  with assms show ?thesis
    by (auto simp: bySession_lookup merge_entries fold_merge_into_fixed dest: find_Some_id)
next
  case None
  let ?es = "filter (\<lambda>e. entry_id e = i) activity"
  have ne: "?es \<noteq> []" using assms None by (auto simp: bySession_lookup)
  then have "entry_id (hd ?es) = i" using hd_in_set [OF ne] by simp
  with assms None ne show ?thesis
    by (auto simp: bySession_lookup merge_entries_remote fold_merge_into_fixed remote_session_def Let_def entry_id_def)
qed

lemma mergeSessions_mem:
  assumes "distinct (map ss_sessionId locals)"
  shows "s \<in> set (mergeSessions locals activity) \<longleftrightarrow> jmap_get (bySession locals activity) (ss_sessionId s) = Some s"
proof -
  have "s \<in> set (mergeSessions locals activity) \<longleftrightarrow> (\<exists>k. (k, s) \<in> set (bySession locals activity))"
    by (force simp: mergeSessions_def jmap_values_def)
  also have "\<dots> \<longleftrightarrow> (\<exists>k. jmap_get (bySession locals activity) k = Some s)"
    using bySession_keys by (simp add: jmap_get_in)
  also have "\<dots> \<longleftrightarrow> jmap_get (bySession locals activity) (ss_sessionId s) = Some s"
    using bySession_ids [OF assms] by blast
  finally show ?thesis .
qed

lemma mergeSessions_ids:
  assumes "distinct (map ss_sessionId locals)"
  shows "distinct (map ss_sessionId (mergeSessions locals activity)) \<and>
    ss_sessionId ` set (mergeSessions locals activity) = ss_sessionId ` set locals \<union> entry_id ` set activity"
proof -
  let ?m = "bySession locals activity"
  have "ss_sessionId v = k" if "(k, v) \<in> set ?m" for k v
    using that bySession_keys bySession_ids [OF assms] by (metis jmap_get_in)
  then have keys: "map ss_sessionId (jmap_values ?m) = jmap_keys ?m"
    by (auto simp: jmap_values_def jmap_keys_def)
  have "distinct (map ss_sessionId (mergeSessions locals activity)) = distinct (map ss_sessionId (jmap_values ?m))"
    unfolding mergeSessions_def by (simp add: distinct_map)
  moreover have "ss_sessionId ` set (mergeSessions locals activity) = set (jmap_keys ?m)"
    by (simp add: mergeSessions_def flip: keys)
  ultimately show ?thesis using bySession_keys keys by simp
qed

subsection \<open>Properties\<close>

text \<open>Sessions do not interfere: whatever events of however many concurrent sends arrive in
  whatever order, the record of every session is what its own events, in their own order,
  make of it.\<close>

theorem sessions_independent:
  "List.find (\<lambda>s. ss_sessionId s = i) (localSessions (dash_events evs d))
     = map_option (session_events (own_events i evs)) (List.find (\<lambda>s. ss_sessionId s = i) (localSessions d))"
  by (rule dash_events_find)

text \<open>What a session costs: over any events, a session costs its price per thousand times
  the tokens of all its responses together, cache reads and writes included, and is
  reported as real from the first response on; before that the estimate stands.\<close>

theorem sessionCost_events:
  assumes "ss_actualUsage s = None"
  shows "sessionCost (session_events evs s) =
    (if responses evs = [] then (jmul (jdivc (ss_estimatedTokens s) 1000) (ss_pricePer1k s), False)
     else (jmul (jdivc (Fin (of_int (\<Sum>r\<leftarrow>responses evs. totalTokens (usage_of r)))) 1000) (ss_pricePer1k s), True))"
  using session_events_usage [of s evs] assms
  by (simp add: sessionCost_def split: option.splits)

theorem sessionCost_events_witness:
  "sessionCost (session_events [(5, Response ''s'' (FinalAnswer ''hi'' demo_usage)), (6, Response ''s'' (FinalAnswer ''ho'' demo_usage))]
     (makeLocalSession 0 ''s'' MockTee ''p'' (Fin 4000) (Fin 2))) = (Fin (3 / 250), True)"
  using sessionCost_events [of "makeLocalSession 0 ''s'' MockTee ''p'' (Fin 4000) (Fin 2)"
    "[(5, Response ''s'' (FinalAnswer ''hi'' demo_usage)), (6, Response ''s'' (FinalAnswer ''ho'' demo_usage))]"]
  by (simp add: makeLocalSession_def demo_usage_def totalTokens_def)


lemma session_events_error:
  "ErrorEvent i m \<in> snd ` set evs \<Longrightarrow> ss_endedAt (session_events evs s) \<noteq> None"
proof (induction evs arbitrary: s)
  case (Cons a evs)
  obtain t ev where a: "a = (t, ev)" by (rule prod.exhaust)
  show ?case
  proof (cases "ev = ErrorEvent i m")
    case True
    then show ?thesis using session_events_ended [of "session_event t ev s" evs] by (simp add: a)
  next
    case False
    with Cons.prems have "ErrorEvent i m \<in> snd ` set evs" by (auto simp: a)
    from Cons.IH [OF this] show ?thesis by (simp add: a)
  qed
qed simp

lemma set_stamp: "snd ` set (stamp clock evs) = set evs"
proof -
  have "map snd (stamp clock evs) = evs" by (simp add: stamp_def split_def comp_def)
  then show ?thesis by (metis list.set_map)
qed

text \<open>The session of a send after the events of its loop, and after a loop that returned.\<close>

lemma send_events_state:
  assumes "sid \<notin> ss_sessionId ` set (localSessions d0)"
    and d2: "d2 = fold (\<lambda>(k, ev). dash_event sid pub (clock (Suc k)) ev) (enumerate 0 evs)
      (send_matched sid u price (send_begin (clock 0) sid args d0))"
    and s2: "s2 = session_events (stamp clock evs) (matched_session (clock 0) sid args u price)"
  shows "localSessions d2 = s2 # localSessions d0 \<and> selectedSessionId d2 = Some sid \<and> ss_sessionId s2 = sid \<and>
    ss_stepCount s2 = int (length (List.map_filter response_of evs))"
proof -
  let ?d1 = "send_matched sid u price (send_begin (clock 0) sid args d0)"
  have "selectedSessionId ?d1 = Some sid" by (simp add: send_matched_def send_begin_def Let_def)
  moreover have "ss_sessionId (matched_session (clock 0) sid args u price) = sid"
    "ss_stepCount (matched_session (clock 0) sid args u price) = 0"
    by (simp_all add: matched_session_def makeLocalSession_def)
  ultimately show ?thesis
    using fold_dash_event [OF assms(1) send_begin_matched [OF assms(1), of u price "clock 0" args], where pub = pub
      and f = "\<lambda>k. clock (Suc k)" and kevs = "enumerate 0 evs"]
    by (simp add: d2 s2 session_events_steps flip: stamp_def)
qed

lemma returned_session:
  assumes "runAgentLoop n env a w = (Returned c, st)"
  shows "ss_status (session_events (stamp clock (lp_events st)) s) = Reported Final \<and>
    ss_finalContent (session_events (stamp clock (lp_events st)) s) = Some c \<and>
    ss_endedAt (session_events (stamp clock (lp_events st)) s) \<noteq> None"
  using returned_snoc [OF assms] by (auto simp: stamp_snoc)


text \<open>A failed co-signature ends a session that goes on: whenever the loop is still going
  and any error event has been announced (a \<open>signAck\<close> that threw is the only kind that does
  not stop the loop), the dashboard's record of the session carries an end time, so it is
  no longer in flight, while its next requests are being sent.\<close>

theorem signer_error_ends_session:
  assumes "runAgentLoop n env a w = (Looping, st)" and "ErrorEvent i m \<in> set (lp_events st)"
  shows "\<not> isInFlight (session_events (stamp clock (lp_events st)) s) \<and> lp_attempt st = n"
proof -
  have "ss_endedAt (session_events (stamp clock (lp_events st)) s) \<noteq> None"
    by (rule session_events_error [of i m]) (simp add: set_stamp assms(2))
  then show ?thesis using runAgentLoop_ends [OF assms(1)] by (simp add: isInFlight_def)
qed

lemma truthy_str_None: "truthy_str x = None \<longleftrightarrow> x \<in> {None, Some []}"
  by (auto simp: truthy_str_def split: option.splits list.splits)

lemma truthy_str_Some: "truthy_str x = Some u \<longleftrightarrow> x = Some u \<and> u \<noteq> []"
  by (auto simp: truthy_str_def split: option.splits list.splits)

lemma tool_requests [simp]:
  "filter (\<lambda>r. ar_kind r = RequestKind) (map (tool_request u s) tcs) = []"
  "filter (\<lambda>r. ar_kind r = ToolCallKind \<and> ar_source r = LocalSession) (map (tool_request u s) tcs)
     = (if ss_source s = LocalSession then map (tool_request u s) tcs else [])"
  by (induction tcs) (auto simp: tool_request_def)

lemma session_requests_request:
  "map ar_sessionId (filter (\<lambda>r. ar_kind r = RequestKind) (session_requests now s))
     = (if truthy_str (ss_nodeUrl s) \<noteq> None \<and> shown now (ss_endedAt s) then [ss_sessionId s] else [])"
  by (simp add: session_requests_def split: option.split)

lemma session_requests_tools:
  "map (\<lambda>r. (ar_sessionId r, ar_label r))
       (filter (\<lambda>r. ar_kind r = ToolCallKind \<and> ar_source r = LocalSession) (session_requests now s))
     = (if ss_source s = LocalSession \<and> truthy_str (ss_nodeUrl s) \<noteq> None
        then map (\<lambda>tc. (ss_sessionId s, ''tool: '' @ tc_name tc)) (filter (\<lambda>tc. shown now (tc_endedAt tc)) (ss_toolCalls s))
        else [])"
  by (simp add: session_requests_def comp_def split: option.split) (simp add: tool_request_def)

text \<open>What the graph is given: the request balls are, in order, exactly those of the
  sessions with a node that are in flight or ended less than 1.5 seconds ago, each once; the
  tool balls of a dashboard session are exactly its tool calls that are open or ended less
  than 1.5 seconds ago.\<close>

theorem active_requests_spec:
  "map ar_sessionId (filter (\<lambda>r. ar_kind r = RequestKind) (sessionsToActiveRequests ss now))
     = map ss_sessionId (filter (\<lambda>s. ss_nodeUrl s \<notin> {None, Some []} \<and>
         (case ss_endedAt s of None \<Rightarrow> True | Some t \<Rightarrow> now - t < 1500)) ss) \<and>
   map (\<lambda>r. (ar_sessionId r, ar_label r)) (filter (\<lambda>r. ar_kind r = ToolCallKind \<and> ar_source r = LocalSession)
        (sessionsToActiveRequests ss now))
     = concat (map (\<lambda>s. map (\<lambda>tc. (ss_sessionId s, ''tool: '' @ tc_name tc))
         (filter (\<lambda>tc. case tc_endedAt tc of None \<Rightarrow> True | Some t \<Rightarrow> now - t < 1500) (ss_toolCalls s)))
         (filter (\<lambda>s. ss_source s = LocalSession \<and> ss_nodeUrl s \<notin> {None, Some []}) ss))"
proof -
  have "map ar_sessionId (filter (\<lambda>r. ar_kind r = RequestKind) (sessionsToActiveRequests ss now))
     = map ss_sessionId (filter (\<lambda>s. truthy_str (ss_nodeUrl s) \<noteq> None \<and> shown now (ss_endedAt s)) ss)"
    by (induction ss) (simp_all add: sessionsToActiveRequests_def session_requests_request)
  moreover have "map (\<lambda>r. (ar_sessionId r, ar_label r)) (filter (\<lambda>r. ar_kind r = ToolCallKind \<and> ar_source r = LocalSession)
        (sessionsToActiveRequests ss now))
     = concat (map (\<lambda>s. map (\<lambda>tc. (ss_sessionId s, ''tool: '' @ tc_name tc)) (filter (\<lambda>tc. shown now (tc_endedAt tc)) (ss_toolCalls s)))
         (filter (\<lambda>s. ss_source s = LocalSession \<and> truthy_str (ss_nodeUrl s) \<noteq> None) ss))"
    by (induction ss) (auto simp: sessionsToActiveRequests_def session_requests_tools)
  ultimately show ?thesis by (simp only: truthy_str_None shown_def FADE_MS_def)
qed

subsection \<open>Witnesses\<close>

definition demo_record :: "string \<Rightarrow> request_record" where
  "demo_record i = \<lparr>rr_sessionId = i, rr_backend = Local, startedAtMs = 7, lastUpdateMs = 9, endedAtMs = Some 9,
     rr_status = Final, rr_stepCount = 3, rr_lastToolName = None\<rparr>"


definition demo_cx :: "nat send_ctx" where
  "demo_cx = \<lparr>cx_nodes = [], cx_channelId = None, cx_ready = False, cx_signReceipt = (\<lambda>r w. (Inl ''no'', w)),
     cx_match = (\<lambda>s. Inr \<lparr>jm_url = ''http://n'', jm_publicKey = ''k''\<rparr>), cx_decode = (\<lambda>s. Inr []),
     cx_send = (\<lambda>q w. (Inr \<lparr>sr_response = FinalAnswer ''ok'' demo_usage, sr_receipt = None\<rparr>, w))\<rparr>"

definition demo_send_args :: send_args where
  "demo_send_args = \<lparr>sa_backend = MockTee, sa_prompt = ''hi'', sa_estimatedTokens = Fin 4000, sa_maxPricePer1k = Fin 1\<rparr>"

definition demo_dash :: dash_state where
  "demo_dash = \<lparr>localSessions = [], selectedSessionId = None, selectedPubKey = None, sending = False, latestReceiptByNode = []\<rparr>"


theorem signer_error_ends_session_witness:
  "\<exists>st. runAgentLoop 1 (demo_loop_env\<lparr>env_signAck := Some (\<lambda>r w. (Inl ''rejected'', w))\<rparr>) demo_loop_args 1 = (Looping, st) \<and>
     \<not> isInFlight (session_events (stamp int (lp_events st)) (makeLocalSession 0 ''s'' MockTee ''p'' (Fin 1) (Fin 1)))"
proof -
  obtain st where st: "runAgentLoop 1 (demo_loop_env\<lparr>env_signAck := Some (\<lambda>r w. (Inl ''rejected'', w))\<rparr>) demo_loop_args 1 = (Looping, st)"
    "ErrorEvent ''s'' ''signAck: rejected'' \<in> set (lp_events st)"
    by (simp add: runAgentLoop_def loop_init_def loop_round_def demo_loop_env_def demo_loop_args_def Let_def take_receipt_def
      call_tool_def run_tool_def)
  from signer_error_ends_session [OF this] st(1) show ?thesis by blast
qed

end
