(* ===== verification/Liveness.thy ===== *)
theory Liveness
  imports Sessions Chains
begin

section \<open>Polling hooks\<close>

text \<open>
  The dashboard's hooks that poll: \<open>hooks/useNodeActivity.ts\<close> (which nodes are alive and what
  they report), \<open>hooks/useNodes.ts\<close> (the coordinator's list), \<open>hooks/useOnChainStatus.ts\<close>; and
  \<open>hooks/useTheme.ts\<close> with the bootstrap script of \<open>app/layout.tsx\<close>. A poll is split at its
  \<open>await\<close>: what runs before the request and what runs when the answers are in, so polls can
  overlap. A \<open>Set\<close> is the list of its elements in insertion order.
\<close>

subsection \<open>useNodeActivity\<close>

record liveness =
  lastOk :: int
  firstSeen :: int

record activity_hook =
  ah_liveness :: "(string, liveness) jmap"
  ah_entries :: "activity_entry list"
  ah_aliveUrls :: "string list"
  ah_cancelled :: bool

record probe =
  pr_url :: string
  pr_ok :: bool
  pr_entries :: "activity_entry list"

definition ALIVE_GRACE_MS :: int where
  "ALIVE_GRACE_MS = 2500"

definition NEW_NODE_GRACE_MS :: int where
  "NEW_NODE_GRACE_MS = 1500"

definition eqSet :: "string list \<Rightarrow> string list \<Rightarrow> bool" where
  "eqSet a b \<longleftrightarrow> length a = length b \<and> list_all (\<lambda>v. v \<in> set b) a"

definition equalEntry :: "activity_entry \<Rightarrow> activity_entry \<Rightarrow> bool" where
  "equalEntry a b \<longleftrightarrow> ae_nodeUrl a = ae_nodeUrl b \<and>
     rr_sessionId (ae_record a) = rr_sessionId (ae_record b) \<and>
     lastUpdateMs (ae_record a) = lastUpdateMs (ae_record b) \<and>
     rr_status (ae_record a) = rr_status (ae_record b) \<and>
     rr_stepCount (ae_record a) = rr_stepCount (ae_record b) \<and>
     endedAtMs (ae_record a) = endedAtMs (ae_record b)"

definition equalEntries :: "activity_entry list \<Rightarrow> activity_entry list \<Rightarrow> bool" where
  "equalEntries a b \<longleftrightarrow> length a = length b \<and> list_all2 equalEntry a b"

text \<open>Up to the requests. The flag tells whether there is anything to wait for.\<close>

definition seed_url :: "int \<Rightarrow> string \<Rightarrow> (string, liveness) jmap \<Rightarrow> (string, liveness) jmap" where
  "seed_url now u m = (if jmap_get m u = None then jmap_set u \<lparr>lastOk = 0, firstSeen = now\<rparr> m else m)"

definition poll_start :: "int \<Rightarrow> string list \<Rightarrow> activity_hook \<Rightarrow> activity_hook \<times> bool" where
  "poll_start now current h =
     (let h = h\<lparr>ah_liveness := fold (seed_url now) current (ah_liveness h)\<rparr> in
      if current = [] then
        ((if \<not> ah_cancelled h then h\<lparr>ah_entries := [], ah_aliveUrls := []\<rparr> else h), False)
      else (h, True))"

text \<open>One probe: \<open>GET url/activity\<close>; any failure is an empty, failed probe.\<close>

definition probe_of :: "string \<Rightarrow> string + (bool \<times> request_record list) \<Rightarrow> probe" where
  "probe_of u res =
     (case res of
        Inl e \<Rightarrow> \<lparr>pr_url = u, pr_ok = False, pr_entries = []\<rparr>
      | Inr (ok, rs) \<Rightarrow>
          if \<not> ok then \<lparr>pr_url = u, pr_ok = False, pr_entries = []\<rparr>
          else \<lparr>pr_url = u, pr_ok = True, pr_entries = map (\<lambda>r. \<lparr>ae_nodeUrl = u, ae_record = r\<rparr>) rs\<rparr>)"

definition mark_ok :: "int \<Rightarrow> probe \<Rightarrow> (string, liveness) jmap \<Rightarrow> (string, liveness) jmap" where
  "mark_ok after r m =
     (if pr_ok r then
        jmap_set (pr_url r)
          ((case jmap_get m (pr_url r) of None \<Rightarrow> \<lparr>lastOk = 0, firstSeen = after\<rparr> | Some l \<Rightarrow> l)\<lparr>lastOk := after\<rparr>) m
      else m)"

definition is_alive :: "int \<Rightarrow> (string, liveness) jmap \<Rightarrow> string \<Rightarrow> bool" where
  "is_alive after m u =
     (case jmap_get m u of
        None \<Rightarrow> False
      | Some liv \<Rightarrow>
          if 0 < lastOk liv \<and> after - lastOk liv \<le> ALIVE_GRACE_MS then True
          else lastOk liv = 0 \<and> after - firstSeen liv \<le> NEW_NODE_GRACE_MS)"

definition collect :: "string list \<Rightarrow> (string, liveness) jmap \<Rightarrow> (string, liveness) jmap" where
  "collect urls m = fold (\<lambda>u m. if u \<notin> set urls then jmap_delete u m else m) (jmap_keys m) m"

text \<open>When all probes of a poll over \<open>current\<close> are in.\<close>

definition poll_finish :: "int \<Rightarrow> string list \<Rightarrow> probe list \<Rightarrow> activity_hook \<Rightarrow> activity_hook" where
  "poll_finish after current per h =
     (if ah_cancelled h then h
      else
        let m = fold (mark_ok after) per (ah_liveness h);
            currentUrls = js_dedup current;
            alive = filter (is_alive after m) currentUrls;
            entries = concat (map pr_entries per) in
        h\<lparr>ah_liveness := collect currentUrls m,
          ah_aliveUrls := (if eqSet (ah_aliveUrls h) alive then ah_aliveUrls h else alive),
          ah_entries := (if equalEntries (ah_entries h) entries then ah_entries h else entries)\<rparr>)"

definition activity_mount :: "activity_hook" where
  "activity_mount = \<lparr>ah_liveness = [], ah_entries = [], ah_aliveUrls = [], ah_cancelled = False\<rparr>"

definition activity_unmount :: "activity_hook \<Rightarrow> activity_hook" where
  "activity_unmount h = h\<lparr>ah_cancelled := True\<rparr>"

text \<open>Whatever order the starts, answers and the unmount of overlapping polls come in.\<close>

inductive activity_step :: "activity_hook \<Rightarrow> activity_hook \<Rightarrow> bool" where
  start: "activity_step h (fst (poll_start now current h))"
| finish: "activity_step h (poll_finish after current per h)"
| unmount: "activity_step h (activity_unmount h)"

subsection \<open>useNodes\<close>

text \<open>Each effect run has its own \<open>cancelled\<close> flag: a reply counts only in its own generation.\<close>

record nodes_hook =
  nh_url :: string
  nh_gen :: nat
  nh_nodes :: "node_registration list"
  nh_error :: "string option"

definition nodes_mount :: "string \<Rightarrow> nodes_hook" where
  "nodes_mount u = \<lparr>nh_url = u, nh_gen = 0, nh_nodes = [], nh_error = None\<rparr>"

definition nodes_change :: "string \<Rightarrow> nodes_hook \<Rightarrow> nodes_hook" where
  "nodes_change u h = h\<lparr>nh_url := u, nh_gen := Suc (nh_gen h)\<rparr>"

text \<open>A fetch that rejects, a status with a body, or a body that does not parse (\<open>Inl\<close>).\<close>

definition nodes_reply :: "nat \<Rightarrow> string + (nat \<times> (string + node_registration list)) \<Rightarrow> nodes_hook \<Rightarrow> nodes_hook" where
  "nodes_reply gen res h =
     (case (case res of
              Inl e \<Rightarrow> Inl e
            | Inr (status, body) \<Rightarrow>
                if \<not> (200 \<le> status \<and> status \<le> 299) then Inl (''HTTP '' @ nat_str status) else body) of
        Inr data \<Rightarrow> (if gen = nh_gen h then h\<lparr>nh_nodes := data, nh_error := None\<rparr> else h)
      | Inl e \<Rightarrow> (if gen = nh_gen h then h\<lparr>nh_error := Some e\<rparr> else h))"

subsection \<open>useOnChainStatus\<close>

record onchain_status =
  oc_loading :: bool
  oc_error :: "string option"
  oc_nodeCount :: "int option"
  oc_minStake :: "int option"
  oc_cancelled :: bool
  oc_timer :: bool

definition onchain_mount :: onchain_status where
  "onchain_mount = \<lparr>oc_loading = True, oc_error = None, oc_nodeCount = None, oc_minStake = None, oc_cancelled = False, oc_timer = False\<rparr>"

text \<open>\<open>read registry view\<close> stands for \<open>client.readContract\<close> on the registry's address; creating
  the client goes through the cache of the chain component.\<close>

definition onchain_tick ::
  "(nat \<Rightarrow> viem_chain \<Rightarrow> string \<Rightarrow> 'c) \<Rightarrow> ('c \<Rightarrow> string \<Rightarrow> string \<Rightarrow> string + int) \<Rightarrow> int \<Rightarrow>
   'c client_cache \<Rightarrow> onchain_status \<Rightarrow> 'c client_cache \<times> onchain_status" where
  "onchain_tick create read chainId cache st =
     (let failed = (\<lambda>m. if oc_cancelled st then st else st\<lparr>oc_loading := False, oc_error := Some m, oc_timer := True\<rparr>) in
      case requireDeployed chainId of
        Inl e \<Rightarrow> (cache, failed (chain_error_message e))
      | Inr cfg \<Rightarrow>
          (case publicClient create (Some chainId) cache of
             (Inl e, cache') \<Rightarrow> (cache', failed (chain_error_message e))
           | (Inr client, cache') \<Rightarrow>
               (cache',
                (case rbind (read client (the (registry_at (cc_addresses cfg))) ''nodeCount'') (\<lambda>n.
                       rbind (read client (the (registry_at (cc_addresses cfg))) ''minStake'') (\<lambda>s. Inr (n, s))) of
                   Inl m \<Rightarrow> failed m
                 | Inr (n, s) \<Rightarrow>
                     if oc_cancelled st then st
                     else st\<lparr>oc_loading := False, oc_error := None, oc_nodeCount := Some n, oc_minStake := Some s,
                             oc_timer := True\<rparr>))))"

subsection \<open>useTheme\<close>

datatype theme = Dark | Light

fun theme_str :: "theme \<Rightarrow> string" where
  "theme_str Dark = ''dark''"
| "theme_str Light = ''light''"

text \<open>The page: the root element's \<open>data-theme\<close> attribute and the stored value, with a
  storage that may refuse (\<open>localStorage\<close> throws when it is disabled).\<close>

record page =
  pg_attr :: "string option"
  pg_stored :: "string option"
  pg_storage :: bool

definition theme_key :: string where
  "theme_key = ''fldx-theme''"

definition themeBootstrap :: "page \<Rightarrow> page" where
  "themeBootstrap p =
     (if pg_storage p \<and> (pg_stored p = Some ''light'' \<or> pg_stored p = Some ''dark'')
      then p\<lparr>pg_attr := pg_stored p\<rparr> else p)"

definition readInitial :: "page option \<Rightarrow> theme" where
  "readInitial doc =
     (case doc of
        None \<Rightarrow> Dark
      | Some p \<Rightarrow> if pg_attr p = Some ''light'' then Light else Dark)"

definition theme_effect :: "theme \<Rightarrow> page \<Rightarrow> page" where
  "theme_effect t p =
     (let p = p\<lparr>pg_attr := (if t = Dark then None else Some (theme_str t))\<rparr> in
      if pg_storage p then p\<lparr>pg_stored := Some (theme_str t)\<rparr> else p)"

definition toggle_theme :: "theme \<Rightarrow> theme" where
  "toggle_theme t = (if t = Dark then Light else Dark)"

text \<open>A fresh load: no attribute, the bootstrap script, then the hook's first state.\<close>

definition reload :: "page \<Rightarrow> page \<times> theme" where
  "reload p = (let p = themeBootstrap (p\<lparr>pg_attr := None\<rparr>) in (p, readInitial (Some p)))"

subsection \<open>Lemmas\<close>

lemma eqSet_iff: "distinct a \<Longrightarrow> distinct b \<Longrightarrow> eqSet a b \<longleftrightarrow> set a = set b"
proof
  assume d: "distinct a" "distinct b" and "eqSet a b"
  then have "set a \<subseteq> set b" "card (set a) = card (set b)"
    by (auto simp: eqSet_def list_all_iff distinct_card)
  then show "set a = set b" by (simp add: card_subset_eq)
next
  assume d: "distinct a" "distinct b" and "set a = set b"
  then show "eqSet a b" by (metis distinct_card eqSet_def list_all_iff)
qed

lemma seed_get:
  "jmap_get (seed_url now u m) k =
     (if k = u \<and> jmap_get m u = None then Some \<lparr>lastOk = 0, firstSeen = now\<rparr> else jmap_get m k)"
  by (simp add: seed_url_def jm.lookup_put)

lemma seeds_get:
  "jmap_get (fold (seed_url now) us m) k =
     (case jmap_get m k of Some l \<Rightarrow> Some l
      | None \<Rightarrow> if k \<in> set us then Some \<lparr>lastOk = 0, firstSeen = now\<rparr> else None)"
  by (induction us arbitrary: m) (auto simp: seed_get split: option.splits)

lemma marks_get:
  "jmap_get (fold (mark_ok after) per m) k =
     (if \<exists>r\<in>set per. pr_ok r \<and> pr_url r = k
      then Some ((case jmap_get m k of None \<Rightarrow> \<lparr>lastOk = 0, firstSeen = after\<rparr> | Some l \<Rightarrow> l)\<lparr>lastOk := after\<rparr>)
      else jmap_get m k)"
  by (induction per arbitrary: m) (auto simp: mark_ok_def jm.lookup_put split: option.splits)

lemma collect_get: "jmap_get (collect urls m) k = (if k \<in> set urls then jmap_get m k else None)"
proof -
  have "jmap_get (fold (\<lambda>u m. if u \<notin> set urls then jmap_delete u m else m) ks m) k
      = (if k \<in> set urls \<or> k \<notin> set ks then jmap_get m k else None)" for ks
    by (induction ks arbitrary: m) (auto simp: jmap_delete_get)
  then show ?thesis by (simp add: collect_def) (metis jmap_get_None)
qed

definition activity_inv :: "activity_hook \<Rightarrow> bool" where
  "activity_inv h \<longleftrightarrow> distinct (jmap_keys (ah_liveness h)) \<and> distinct (ah_aliveUrls h)"

lemma distinct_seeds: "distinct (jmap_keys m) \<Longrightarrow> distinct (jmap_keys (fold (seed_url now) us m))"
  by (induction us arbitrary: m) (auto simp: seed_url_def jm.distinct_put)

lemma distinct_marks: "distinct (jmap_keys m) \<Longrightarrow> distinct (jmap_keys (fold (mark_ok after) per m))"
  by (induction per arbitrary: m) (auto simp: mark_ok_def jm.distinct_put)

lemma distinct_collect: "distinct (jmap_keys m) \<Longrightarrow> distinct (jmap_keys (collect urls m))"
proof -
  have "distinct (jmap_keys m) \<Longrightarrow> distinct (jmap_keys (fold (\<lambda>u m. if u \<notin> set urls then jmap_delete u m else m) ks m))"
    for ks by (induction ks arbitrary: m) (auto simp: jmap_delete_distinct)
  then show "distinct (jmap_keys m) \<Longrightarrow> ?thesis" by (simp add: collect_def)
qed

lemma poll_start_inv: "activity_inv h \<Longrightarrow> activity_inv (fst (poll_start now current h))"
  by (simp add: activity_inv_def poll_start_def Let_def distinct_seeds)

lemma poll_finish_inv: "activity_inv h \<Longrightarrow> activity_inv (poll_finish after current per h)"
  by (simp add: activity_inv_def poll_finish_def Let_def distinct_marks distinct_collect)

lemma unmount_inv: "activity_inv h \<Longrightarrow> activity_inv (activity_unmount h)"
  by (simp add: activity_inv_def activity_unmount_def)

interpretation activity: inv_system activity_step "\<lambda>h. h = activity_mount" activity_inv
proof unfold_locales
  show "h = activity_mount \<Longrightarrow> activity_inv h" for h
    by (simp add: activity_inv_def activity_mount_def jmap_keys_def)
  show "activity_inv h \<Longrightarrow> activity_step h h' \<Longrightarrow> activity_inv h'" for h h'
    by (erule activity_step.cases) (auto simp: poll_start_inv poll_finish_inv unmount_inv)
qed

text \<open>What a finished poll shows, and the record it leaves of a URL.\<close>

lemma poll_finish_alive:
  assumes "activity_inv h" "\<not> ah_cancelled h"
  shows "set (ah_aliveUrls (poll_finish after current per h))
    = {u \<in> set current. is_alive after (fold (mark_ok after) per (ah_liveness h)) u}"
proof -
  let ?alive = "filter (is_alive after (fold (mark_ok after) per (ah_liveness h))) (js_dedup current)"
  have "eqSet (ah_aliveUrls h) ?alive \<longleftrightarrow> set (ah_aliveUrls h) = set ?alive"
    using assms by (intro eqSet_iff) (simp_all add: activity_inv_def)
  then show ?thesis using assms(2) by (auto simp: poll_finish_def Let_def)
qed

lemma poll_finish_liveness:
  "\<not> ah_cancelled h \<Longrightarrow> jmap_get (ah_liveness (poll_finish after current per h)) u
    = (if u \<in> set current then jmap_get (fold (mark_ok after) per (ah_liveness h)) u else None)"
  by (simp add: poll_finish_def Let_def collect_get)

subsection \<open>Runs of polls\<close>

datatype poll_event =
    PollStart int "string list"
  | PollFinish int "string list" "probe list"

fun do_poll :: "poll_event \<Rightarrow> activity_hook \<Rightarrow> activity_hook" where
  "do_poll (PollStart now current) h = fst (poll_start now current h)"
| "do_poll (PollFinish after current per) h = poll_finish after current per h"

definition run_polls :: "poll_event list \<Rightarrow> activity_hook \<Rightarrow> activity_hook" where
  "run_polls evs h = fold do_poll evs h"

text \<open>An event in which \<open>u\<close> does not answer and is still listed.\<close>

fun silent :: "string \<Rightarrow> poll_event \<Rightarrow> bool" where
  "silent u (PollStart _ _) = True"
| "silent u (PollFinish _ current per) = (u \<in> set current \<and> (\<forall>r\<in>set per. pr_url r = u \<longrightarrow> \<not> pr_ok r))"

lemma poll_event_step: "activity_step h (do_poll ev h)"
  by (cases ev) (auto intro: activity_step.intros)

lemma run_polls_steps: "activity_step\<^sup>*\<^sup>* h (run_polls evs h)"
  unfolding run_polls_def
  by (induction evs arbitrary: h) (auto intro: converse_rtranclp_into_rtranclp poll_event_step)

lemma poll_event_cancelled [simp]: "ah_cancelled (do_poll ev h) = ah_cancelled h"
  by (cases ev) (simp_all add: poll_start_def poll_finish_def Let_def)

lemma run_polls_cancelled [simp]: "ah_cancelled (run_polls evs h) = ah_cancelled h"
  unfolding run_polls_def by (induction evs arbitrary: h) auto

lemma silent_keeps:
  assumes "\<not> ah_cancelled h" "jmap_get (ah_liveness h) u = Some l" "silent u ev"
  shows "jmap_get (ah_liveness (do_poll ev h)) u = Some l"
proof (cases ev)
  case (PollStart now current)
  with assms show ?thesis by (simp add: poll_start_def Let_def seeds_get)
next
  case (PollFinish after current per)
  with assms show ?thesis by (auto simp: poll_finish_liveness marks_get)
qed

lemma silent_run:
  "\<not> ah_cancelled h \<Longrightarrow> jmap_get (ah_liveness h) u = Some l \<Longrightarrow> list_all (silent u) evs \<Longrightarrow>
   jmap_get (ah_liveness (run_polls evs h)) u = Some l"
  unfolding run_polls_def by (induction evs arbitrary: h) (auto simp: silent_keeps)

lemma onchain_tick_cancelled: "oc_cancelled st \<Longrightarrow> snd (onchain_tick create read i cache st) = st"
  by (auto simp: onchain_tick_def Let_def split: sum.splits prod.splits)

lemma nodes_reply_stale: "gen \<noteq> nh_gen h \<Longrightarrow> nodes_reply gen res h = h"
  by (auto simp: nodes_reply_def split: sum.splits)

subsection \<open>Properties\<close>

text \<open>C27. Who is alive after a poll: in every state the hook can reach while mounted, a poll
  that finishes at time \<open>after\<close> over the listed URLs shows exactly those listed URLs that
  answered it, or last answered at most 2.5 seconds ago, or never answered and were first
  seen at most 1.5 seconds ago; reusing the previous set when it is equal changes nothing.\<close>

theorem alive_exact:
  assumes "activity_step\<^sup>*\<^sup>* activity_mount h" and "\<not> ah_cancelled h" and "0 < after"
  shows "u \<in> set (ah_aliveUrls (poll_finish after current per h)) \<longleftrightarrow>
    u \<in> set current \<and>
    ((\<exists>r\<in>set per. pr_url r = u \<and> pr_ok r) \<or>
     (\<exists>l. jmap_get (ah_liveness h) u = Some l \<and>
        (0 < lastOk l \<and> after - lastOk l \<le> 2500 \<or> lastOk l = 0 \<and> after - firstSeen l \<le> 1500)))"
proof -
  have "activity_inv h" using activity.reachable_inv [OF refl assms(1)] .
  from poll_finish_alive [OF this assms(2)] assms(3) show ?thesis
    by (auto simp: is_alive_def marks_get ALIVE_GRACE_MS_def NEW_NODE_GRACE_MS_def split: option.splits if_splits)
qed

text \<open>Dead nodes drop out: once a listed node has stopped answering, then whatever other
  polls start and finish and however they overlap, a poll that finishes more than 2.5
  seconds after its last answer (or first sight) no longer shows it.\<close>

theorem dead_nodes_drop:
  assumes "activity_step\<^sup>*\<^sup>* activity_mount h" and "\<not> ah_cancelled h"
    and "jmap_get (ah_liveness h) u = Some l" and "lastOk l \<le> t0" and "firstSeen l \<le> t0"
    and "list_all (silent u) (evs @ [PollFinish after current per])" and "t0 + 2500 < after"
  shows "u \<notin> set (ah_aliveUrls (run_polls (evs @ [PollFinish after current per]) h))"
proof -
  let ?h = "run_polls evs h"
  have "activity_inv ?h"
    using activity.reachable_inv [OF refl] assms(1) run_polls_steps by (meson rtranclp_trans)
  moreover have "jmap_get (ah_liveness ?h) u = Some l" using silent_run assms(2,3,6) by simp
  moreover have "run_polls (evs @ [PollFinish after current per]) h = poll_finish after current per ?h"
    by (simp add: run_polls_def)
  ultimately show ?thesis using assms poll_finish_alive [of ?h after current per]
    by (auto simp: is_alive_def marks_get ALIVE_GRACE_MS_def NEW_NODE_GRACE_MS_def)
qed

text \<open>The theme survives a reload: after the effect has run for a theme, the page shows it
  and, with a storage that works, a fresh load finds the same theme before the first
  render; toggling twice gives the theme back.\<close>

theorem theme_roundtrip:
  "readInitial (Some (theme_effect t p)) = t \<and> toggle_theme (toggle_theme t) = t \<and>
   (pg_storage p \<longrightarrow> snd (reload (theme_effect t p)) = t)"
  by (cases t) (simp_all add: readInitial_def theme_effect_def toggle_theme_def reload_def themeBootstrap_def Let_def)

subsection \<open>Witnesses\<close>

definition demo_seen :: activity_hook where
  "demo_seen = run_polls [PollStart 1000 [''a''], PollFinish 1100 [''a''] [\<lparr>pr_url = ''a'', pr_ok = True, pr_entries = []\<rparr>]] activity_mount"

lemma demo_seen_liveness: "jmap_get (ah_liveness demo_seen) ''a'' = Some \<lparr>lastOk = 1100, firstSeen = 1000\<rparr>"
  by (simp add: demo_seen_def run_polls_def activity_mount_def poll_finish_def mark_ok_def poll_start_def
    seed_url_def collect_def jmap_keys_def jmap_get_def jmap_set_def Let_def)

lemma demo_seen_reach: "activity_step\<^sup>*\<^sup>* activity_mount demo_seen" "\<not> ah_cancelled demo_seen"
  by (simp_all add: demo_seen_def run_polls_steps) (simp add: activity_mount_def)

theorem alive_exact_witness:
  "''a'' \<in> set (ah_aliveUrls (poll_finish 3600 [''a''] [] demo_seen)) \<and>
   ''a'' \<notin> set (ah_aliveUrls (poll_finish 3601 [''a''] [] demo_seen))"
  using alive_exact [OF demo_seen_reach, of 3600 "''a''" "[''a'']" "[]"]
    alive_exact [OF demo_seen_reach, of 3601 "''a''" "[''a'']" "[]"]
  by (simp add: demo_seen_liveness)

theorem dead_nodes_drop_witness:
  "''a'' \<notin> set (ah_aliveUrls (run_polls [PollStart 1400 [''a'', ''b''], PollFinish 3700 [''a'', ''b''] []] demo_seen))"
  using dead_nodes_drop [OF demo_seen_reach demo_seen_liveness, of 1100 "[PollStart 1400 [''a'', ''b'']]" 3700 "[''a'', ''b'']" "[]"]
  by simp

theorem theme_roundtrip_witness:
  "snd (reload (theme_effect Light \<lparr>pg_attr = None, pg_stored = Some ''dark'', pg_storage = True\<rparr>)) = Light"
  using theme_roundtrip [of Light "\<lparr>pg_attr = None, pg_stored = Some ''dark'', pg_storage = True\<rparr>"] by simp

end
