(* ===== verification/ChannelHook.thy ===== *)
theory ChannelHook
  imports JobChannel Chains Sessions
begin

section \<open>The channel hook\<close>

text \<open>
  \<open>apps/dashboard/src/hooks/useChannel.ts\<close>: the dashboard's side of a payment channel. The
  hook keeps the channel's last receipt and acknowledgement in \<open>localStorage\<close>, opens the
  channel (approve, then \<open>openChannel\<close>), signs the node's receipts with the wallet and submits
  the cooperative close. What a callback captured when it was made (the wallet, the selected
  node, the state it saw) is an argument, the hook's own state another: React may call an old
  callback after the state has moved on.

  The chain behind the wallet is an interface, stated as the locale \<open>channel_chain\<close> and
  interpreted on the model of \<open>JobChannel.sol\<close>.
\<close>

subsection \<open>State and storage\<close>

record channel_state =
  ch_channelId :: string
  ch_client :: string
  ch_nodeAddress :: string
  ch_lastReceipt :: "node_signed_receipt option"
  ch_lastAck :: "client_ack option"

record onchain_channel =
  on_status :: nat
  on_deposit :: int
  on_latestNonce :: int
  on_latestCumOwed :: int

text \<open>The item under \<open>fldx-channel-state-v1\<close>: absent, text that does not parse, or a map.
  (\<open>JSON.parse\<close> gives back what \<open>JSON.stringify\<close> wrote.) No window: on the server.\<close>

datatype stored = Absent | Garbled | Stored "(string, channel_state) jmap"

record browser =
  br_window :: bool
  br_item :: stored

definition readStorage :: "browser \<Rightarrow> (string, channel_state) jmap" where
  "readStorage b =
     (if \<not> br_window b then []
      else case br_item b of Absent \<Rightarrow> [] | Garbled \<Rightarrow> [] | Stored m \<Rightarrow> m)"

definition writeStorage :: "(string, channel_state) jmap \<Rightarrow> browser \<Rightarrow> browser" where
  "writeStorage m b = (if \<not> br_window b then b else b\<lparr>br_item := Stored m\<rparr>)"

definition storageKey :: "string \<Rightarrow> string \<Rightarrow> string" where
  "storageKey client node = to_lower client @ ''::'' @ to_lower node"

definition CHANNEL_NONCE :: int where
  "CHANNEL_NONCE = 0"

text \<open>What a render captures, and the hook's state.\<close>

record hook_env =
  he_address :: "string option"
  he_nodeAddress :: "string option"
  he_wallet :: bool
  he_public :: bool
  he_config :: chain_config

record hook_state =
  hs_state :: "channel_state option"
  hs_onchain :: "onchain_channel option"
  hs_browser :: browser

definition he_contract :: "hook_env \<Rightarrow> string option" where
  "he_contract e = truthy_str (channel_at (cc_addresses (he_config e)))"

definition ready :: "hook_env \<Rightarrow> bool" where
  "ready e \<longleftrightarrow> truthy_str (he_address e) \<noteq> None \<and> truthy_str (he_nodeAddress e) \<noteq> None \<and> he_contract e \<noteq> None \<and> he_wallet e"

text \<open>The memoised channel id: none without both addresses; computing it may throw.\<close>

definition hook_channelId :: "(byte list \<Rightarrow> byte list) \<Rightarrow> hook_env \<Rightarrow> (eth_error + string) option" where
  "hook_channelId kec e =
     (case (truthy_str (he_address e), truthy_str (he_nodeAddress e)) of
        (Some a, Some n) \<Rightarrow> Some (channelIdOf kec a n CHANNEL_NONCE)
      | _ \<Rightarrow> None)"

text \<open>The effect that runs when the pair changes.\<close>

definition hydrate :: "(byte list \<Rightarrow> byte list) \<Rightarrow> hook_env \<Rightarrow> hook_state \<Rightarrow> hook_state" where
  "hydrate kec e hs =
     (case (truthy_str (he_address e), truthy_str (he_nodeAddress e), hook_channelId kec e) of
        (Some a, Some n, Some (Inr cid)) \<Rightarrow> hs\<lparr>hs_state := jmap_get (readStorage (hs_browser hs)) (storageKey a n)\<rparr>
      | _ \<Rightarrow> hs)"

definition persist :: "hook_env \<Rightarrow> channel_state \<Rightarrow> hook_state \<Rightarrow> hook_state" where
  "persist e nxt hs =
     (case (truthy_str (he_address e), truthy_str (he_nodeAddress e)) of
        (Some a, Some n) \<Rightarrow>
          hs\<lparr>hs_browser := writeStorage (jmap_set (storageKey a n) nxt (readStorage (hs_browser hs))) (hs_browser hs),
             hs_state := Some nxt\<rparr>
      | _ \<Rightarrow> hs)"

subsection \<open>The wallet and the chain\<close>

datatype contract_call =
    Approve (ap_spender: string) (ap_amount: int)
  | OpenChannelCall (oc_node: string) (oc_nonce: int) (oc_deposit: int)
  | CooperativeCloseCall (cl_channelId: string) (cl_nonce: int) (cl_cumOwed: int) (cl_clientSig: string) (cl_nodeSig: string)

text \<open>
  \<open>api_send from to call\<close>: \<open>sendTransaction\<close> and waiting for its receipt. It may be refused
  (\<open>Inl\<close>); otherwise it is mined, and viem's \<open>waitForTransactionReceipt\<close> resolves for a
  transaction that reverted too, so a mined call may have changed nothing.
\<close>

record 'c chain_api =
  api_allowance :: "string \<Rightarrow> string \<Rightarrow> string \<Rightarrow> 'c \<Rightarrow> string + int"
  api_send :: "string \<Rightarrow> string \<Rightarrow> contract_call \<Rightarrow> 'c \<Rightarrow> string + 'c"
  api_channels :: "string \<Rightarrow> string \<Rightarrow> 'c \<Rightarrow> string + onchain_channel"
  api_sign :: "string \<Rightarrow> byte list \<Rightarrow> 'c \<Rightarrow> string + string"

definition eth_message :: "eth_error \<Rightarrow> string" where
  "eth_message e = (case e of HexOddLength \<Rightarrow> ''hex must be even-length'' | RangeError \<Rightarrow> ''offset is out of bounds'' | BadPoint m \<Rightarrow> m)"

definition lift_eth :: "eth_error + 'a \<Rightarrow> string + 'a" where
  "lift_eth r = (case r of Inl e \<Rightarrow> Inl (eth_message e) | Inr a \<Rightarrow> Inr a)"

text \<open>\<open>BigInt(s)\<close>: surrounding white space is trimmed, the empty string is 0, a sign is allowed
  before decimal digits, and anything else is a \<open>SyntaxError\<close>. (Radix prefixes, which
  \<open>BigInt\<close> also reads, are not modelled.)\<close>

definition js_trim :: "string \<Rightarrow> string" where
  "js_trim s = rev (dropWhile is_space (rev (dropWhile is_space s)))"

definition js_bigint :: "string \<Rightarrow> string + int" where
  "js_bigint s0 =
     (let s = js_trim s0; body = (if s \<noteq> [] \<and> hd s \<in> {CHR ''-'', CHR ''+''} then tl s else s) in
      if s = [] then Inr 0
      else if body = [] then Inl ''Cannot convert to a BigInt''
      else case digits_val 0 body of
             None \<Rightarrow> Inl ''Cannot convert to a BigInt''
           | Some n \<Rightarrow> Inr (if hd s = CHR ''-'' then - int n else int n))"

definition refreshOnchain ::
  "(byte list \<Rightarrow> byte list) \<Rightarrow> 'c chain_api \<Rightarrow> hook_env \<Rightarrow> 'c \<Rightarrow> hook_state \<Rightarrow> hook_state" where
  "refreshOnchain kec api e w hs =
     (case (he_contract e, hook_channelId kec e) of
        (Some ct, Some (Inr cid)) \<Rightarrow>
          if \<not> he_public e then hs
          else (case api_channels api ct cid w of Inl m \<Rightarrow> hs | Inr oc \<Rightarrow> hs\<lparr>hs_onchain := Some oc\<rparr>)
      | _ \<Rightarrow> hs)"

text \<open>\<open>openChannel\<close>: the error or unit, the hook's state and the chain it leaves.\<close>

definition hook_openChannel ::
  "(byte list \<Rightarrow> byte list) \<Rightarrow> 'c chain_api \<Rightarrow> hook_env \<Rightarrow> int \<Rightarrow> hook_state \<Rightarrow> 'c \<Rightarrow>
   (string + unit) \<times> hook_state \<times> 'c" where
  "hook_openChannel kec api e depositUnits hs w0 =
     (case (truthy_str (he_address e), truthy_str (he_nodeAddress e), he_contract e) of
        (Some a, Some n, Some ct) \<Rightarrow>
          if \<not> he_wallet e \<or> \<not> he_public e \<or> usdc_at (cc_addresses (he_config e)) = []
          then (Inl ''wallet / chain not ready'', hs, w0)
          else
            let usdc = usdc_at (cc_addresses (he_config e)) in
            (case api_allowance api usdc a ct w0 of
               Inl m \<Rightarrow> (Inl m, hs, w0)
             | Inr allowance \<Rightarrow>
                 (case (if allowance < depositUnits then api_send api a usdc (Approve ct (2 ^ 256 - 1)) w0 else Inr w0) of
                    Inl m \<Rightarrow> (Inl m, hs, w0)
                  | Inr w1 \<Rightarrow>
                      (case api_send api a ct (OpenChannelCall n CHANNEL_NONCE depositUnits) w1 of
                         Inl m \<Rightarrow> (Inl m, hs, w1)
                       | Inr w2 \<Rightarrow>
                           (case lift_eth (channelIdOf kec a n CHANNEL_NONCE) of
                              Inl m \<Rightarrow> (Inl m, hs, w2)
                            | Inr cid \<Rightarrow>
                                (Inr (),
                                 refreshOnchain kec api e w2
                                   (persist e \<lparr>ch_channelId = cid, ch_client = a, ch_nodeAddress = n, ch_lastReceipt = None,
                                      ch_lastAck = None\<rparr> hs),
                                 w2)))))
      | _ \<Rightarrow> (Inl ''wallet / chain not ready'', hs, w0))"

text \<open>The bytes the wallet signs for a receipt: the hash of the canonical update.\<close>

definition receipt_canonical :: "(byte list \<Rightarrow> byte list) \<Rightarrow> hook_env \<Rightarrow> string \<Rightarrow> channel_update \<Rightarrow> string + byte list" where
  "receipt_canonical kec e ct u =
     rbind (js_bigint (cu_cumOwed u)) (\<lambda>owed.
       lift_eth (channelUpdateCanonical kec (cc_chainId (he_config e)) ct (cu_channelId u) (int (cu_nonce u)) owed))"

definition hook_signReceipt ::
  "(byte list \<Rightarrow> byte list) \<Rightarrow> 'c chain_api \<Rightarrow> hook_env \<Rightarrow> channel_state option \<Rightarrow> node_signed_receipt \<Rightarrow>
   hook_state \<Rightarrow> 'c \<Rightarrow> (string + client_ack) \<times> hook_state" where
  "hook_signReceipt kec api e captured receipt hs w =
     (case (truthy_str (he_address e), truthy_str (he_nodeAddress e), he_contract e) of
        (Some a, Some n, Some ct) \<Rightarrow>
          if \<not> he_wallet e then (Inl ''wallet not ready for signing'', hs)
          else
            (case rbind (receipt_canonical kec e ct (rc_update receipt)) (\<lambda>canonical. api_sign api a (kec canonical) w) of
               Inl m \<Rightarrow> (Inl m, hs)
             | Inr sig \<Rightarrow>
                 let ack = \<lparr>ack_update = rc_update receipt, clientSig = sig\<rparr> in
                 (Inr ack,
                  (case captured of None \<Rightarrow> hs
                   | Some st \<Rightarrow> persist e (st\<lparr>ch_lastReceipt := Some receipt, ch_lastAck := Some ack\<rparr>) hs)))
      | _ \<Rightarrow> (Inl ''wallet not ready for signing'', hs))"

definition no_state_message :: string where
  "no_state_message = ''nothing to close '' @ em_dash @ '' no signed state yet''"

definition hook_cooperativeClose ::
  "(byte list \<Rightarrow> byte list) \<Rightarrow> 'c chain_api \<Rightarrow> hook_env \<Rightarrow> channel_state option \<Rightarrow> hook_state \<Rightarrow> 'c \<Rightarrow>
   (string + unit) \<times> hook_state \<times> 'c" where
  "hook_cooperativeClose kec api e captured hs w0 =
     (case (he_contract e, Option.bind captured ch_lastAck, Option.bind captured ch_lastReceipt) of
        (Some ct, Some ack, Some receipt) \<Rightarrow>
          if \<not> he_wallet e \<or> \<not> he_public e then (Inl no_state_message, hs, w0)
          else
            (case js_bigint (cu_cumOwed (ack_update ack)) of
               Inl m \<Rightarrow> (Inl m, hs, w0)
             | Inr owed \<Rightarrow>
                 (case api_send api (case he_address e of None \<Rightarrow> [] | Some a \<Rightarrow> a) ct
                         (CooperativeCloseCall (cu_channelId (ack_update ack)) (int (cu_nonce (ack_update ack))) owed
                            (clientSig ack) (nodeSig receipt)) w0 of
                    Inl m \<Rightarrow> (Inl m, hs, w0)
                  | Inr w1 \<Rightarrow> (Inr (), refreshOnchain kec api e w1 hs, w1)))
      | _ \<Rightarrow> (Inl no_state_message, hs, w0))"

subsection \<open>JobChannel behind the wallet\<close>

definition parse_address :: "string \<Rightarrow> address option" where
  "parse_address s =
     (case hexToBytes (drop 2 s) of
        Inl e \<Rightarrow> None
      | Inr bs \<Rightarrow> if length bs = 20 then Some (word_of_int (be_val bs)) else None)"

definition parse_bytes :: "string \<Rightarrow> byte list option" where
  "parse_bytes s = (case hexToBytes (drop 2 s) of Inl e \<Rightarrow> None | Inr bs \<Rightarrow> Some bs)"

text \<open>
  What a mined call does to the contract: viem refuses arguments outside their ABI types, a
  call to another address or one that reverts changes nothing. Allowances and transfers of
  the token are the token's: \<open>tok_accepts\<close> says which calls it lets through.
\<close>

definition jc_send ::
  "crypto \<Rightarrow> jc_config \<Rightarrow> (address \<Rightarrow> bool) \<Rightarrow> tx_env \<Rightarrow> string \<Rightarrow> string \<Rightarrow> contract_call \<Rightarrow> jc_state \<Rightarrow> string + jc_state" where
  "jc_send cr cfg active env sender target call s =
     (case parse_address sender of
        None \<Rightarrow> Inl ''invalid address''
      | Some me \<Rightarrow>
          let env = env\<lparr>msg_sender := me\<rparr>;
              mined = (\<lambda>r. Inr (if parse_address target \<noteq> Some (this_addr cfg) then s
                                else case r of Inl e \<Rightarrow> s | Inr t \<Rightarrow> t)) in
          (case call of
             Approve sp amt \<Rightarrow> Inr s
           | OpenChannelCall n k d \<Rightarrow>
               (case parse_address n of
                  None \<Rightarrow> Inl ''invalid address''
                | Some node \<Rightarrow>
                    if 0 \<le> k \<and> k < 2 ^ 64 \<and> 0 \<le> d \<and> d < 2 ^ 256
                    then mined (openChannel cr active env node (word_of_int k) (word_of_int d) s)
                    else Inl ''integer out of range'')
           | CooperativeCloseCall cid n owed cs ns \<Rightarrow>
               (case (parse_bytes cid, parse_bytes cs, parse_bytes ns) of
                  (Some c, Some csig, Some nsig) \<Rightarrow>
                    if length c = 32 \<and> 0 \<le> n \<and> n < 2 ^ 64 \<and> 0 \<le> owed \<and> owed < 2 ^ 256
                    then mined (cooperativeClose cr cfg env c (word_of_int n) (word_of_int owed) csig nsig s)
                    else Inl ''argument out of range''
                | _ \<Rightarrow> Inl ''invalid hex'')))"

definition jc_view :: "jc_config \<Rightarrow> string \<Rightarrow> string \<Rightarrow> jc_state \<Rightarrow> string + onchain_channel" where
  "jc_view cfg target cid s =
     (case parse_bytes cid of
        None \<Rightarrow> Inl ''invalid hex''
      | Some c \<Rightarrow>
          if parse_address target \<noteq> Some (this_addr cfg) then Inl ''returned no data''
          else Inr \<lparr>on_status = status_code (c_status (channels s c)), on_deposit = uint (deposit (channels s c)),
                    on_latestNonce = uint (latestNonce (channels s c)), on_latestCumOwed = uint (latestCumOwed (channels s c))\<rparr>)"

definition jc_api ::
  "crypto \<Rightarrow> jc_config \<Rightarrow> (address \<Rightarrow> bool) \<Rightarrow> tx_env \<Rightarrow> (string \<Rightarrow> string \<Rightarrow> string \<Rightarrow> jc_state \<Rightarrow> string + int) \<Rightarrow>
   (string \<Rightarrow> byte list \<Rightarrow> jc_state \<Rightarrow> string + string) \<Rightarrow> jc_state chain_api" where
  "jc_api cr cfg active env allow sign =
     \<lparr>api_allowance = allow, api_send = jc_send cr cfg active env, api_channels = jc_view cfg, api_sign = sign\<rparr>"

lemma be_val_address: "be_val (address_bytes a) = uint a"
proof -
  have "uint a < 2 ^ 160" using unsigned_less [of a] by simp
  then show ?thesis by (simp add: address_bytes_def be_loop_spec [symmetric] be_val_be_loop)
qed

lemma parse_address_hex [simp]: "parse_address (address_hex a) = Some a"
  by (simp add: parse_address_def be_val_address)

lemma parse_bytes_hex [simp]: "parse_bytes (''0x'' @ bytes_hex bs) = Some bs" "parse_bytes (CHR ''0'' # CHR ''x'' # bytes_hex bs) = Some bs"
  by (simp_all add: parse_bytes_def)

subsection \<open>The two sides agree on bytes\<close>

lemma update_domain_agrees: "CHANNEL_UPDATE_DOMAIN cr = keccak cr update_domain"
  by (simp add: CHANNEL_UPDATE_DOMAIN_def update_domain_def)

lemma canonical_is_message:
  assumes "length (keccak cr update_domain) = 32" and "length cid = 32"
  shows "channelUpdateCanonical (keccak cr) (uint (chainid cfg)) (address_hex (this_addr cfg)) (''0x'' @ bytes_hex cid)
           (uint nonce) (uint owed) = Inr (update_message cr cfg cid nonce owed)"
  using canonical_layout [of "keccak cr" "address_hex (this_addr cfg)" "address_bytes (this_addr cfg)" "''0x'' @ bytes_hex cid" cid] assms
  by (simp add: update_message_def update_domain_agrees u256BeBytes_abi u256BeBytes_abi_u64 abi_address_split)

lemma channel_id_is_contracts:
  "channelIdOf (keccak cr) (address_hex client) (address_hex node) (uint k)
     = Inr (''0x'' @ bytes_hex (channelIdOf_sol cr client node k))"
  by (simp add: channelIdOf_layout channelIdOf_sol_def abi_address_split flip: u64BeBytes_abi)

subsection \<open>The interface of the chain\<close>

text \<open>
  What the hook relies on when it closes: the call, mined with two valid signatures over the
  canonical bytes of a state the chain still takes, settles the channel on that state.
\<close>

locale channel_chain =
  fixes api :: "'c chain_api"
    and contract :: string
    and canonical :: "string \<Rightarrow> int \<Rightarrow> int \<Rightarrow> byte list"
    and valid :: "string \<Rightarrow> byte list \<Rightarrow> string \<Rightarrow> bool"
    and parties :: "string \<Rightarrow> 'c \<Rightarrow> string \<times> string"
    and closable :: "string \<Rightarrow> int \<Rightarrow> int \<Rightarrow> 'c \<Rightarrow> bool"
    and settled :: "string \<Rightarrow> int \<Rightarrow> int \<Rightarrow> 'c \<Rightarrow> 'c \<Rightarrow> bool"
  assumes close_law: "closable cid n owed w \<Longrightarrow> parties cid w = (a, node) \<Longrightarrow>
      valid a (canonical cid n owed) cs \<Longrightarrow> valid node (canonical cid n owed) ns \<Longrightarrow>
      \<exists>w'. api_send api a contract (CooperativeCloseCall cid n owed cs ns) w = Inr w' \<and> settled cid n owed w w'"
begin

lemma close_settles:
  assumes "he_contract e = Some contract" "he_wallet e" "he_public e" "he_address e = Some a"
    and "captured = Some st" "ch_lastAck st = Some ack" "ch_lastReceipt st = Some r"
    and "js_bigint (cu_cumOwed (ack_update ack)) = Inr owed"
    and "closable (cu_channelId (ack_update ack)) (int (cu_nonce (ack_update ack))) owed w"
    and "parties (cu_channelId (ack_update ack)) w = (a, node)"
    and "valid a (canonical (cu_channelId (ack_update ack)) (int (cu_nonce (ack_update ack))) owed) (clientSig ack)"
    and "valid node (canonical (cu_channelId (ack_update ack)) (int (cu_nonce (ack_update ack))) owed) (nodeSig r)"
  shows "\<exists>hs' w'. hook_cooperativeClose kec api e captured hs w = (Inr (), hs', w') \<and>
    settled (cu_channelId (ack_update ack)) (int (cu_nonce (ack_update ack))) owed w w'"
proof -
  from close_law [OF assms(9,10,11,12)] obtain w' where
    "api_send api a contract (CooperativeCloseCall (cu_channelId (ack_update ack)) (int (cu_nonce (ack_update ack))) owed
       (clientSig ack) (nodeSig r)) w = Inr w'"
    "settled (cu_channelId (ack_update ack)) (int (cu_nonce (ack_update ack))) owed w w'" by blast
  with assms show ?thesis by (simp add: hook_cooperativeClose_def)
qed

lemma sign_then_close:
  assumes "he_contract e = Some contract" "he_wallet e" "he_public e"
    and "he_address e = Some a" "a \<noteq> []" "truthy_str (he_nodeAddress e) = Some nd"
    and "captured = Some st" "js_bigint (cu_cumOwed (rc_update r)) = Inr owed"
    and "receipt_canonical kec e contract (rc_update r)
           = Inr (canonical (cu_channelId (rc_update r)) (int (cu_nonce (rc_update r))) owed)"
    and "\<And>m. \<exists>sig. api_sign api a (kec m) w = Inr sig \<and> valid a m sig"
    and "closable (cu_channelId (rc_update r)) (int (cu_nonce (rc_update r))) owed w"
    and "parties (cu_channelId (rc_update r)) w = (a, node)"
    and "valid node (canonical (cu_channelId (rc_update r)) (int (cu_nonce (rc_update r))) owed) (nodeSig r)"
  shows "\<exists>ack hs1 hs2 w'. hook_signReceipt kec api e captured r hs w = (Inr ack, hs1) \<and>
    hook_cooperativeClose kec api e (hs_state hs1) hs1 w = (Inr (), hs2, w') \<and>
    settled (cu_channelId (rc_update r)) (int (cu_nonce (rc_update r))) owed w w'"
proof -
  let ?m = "canonical (cu_channelId (rc_update r)) (int (cu_nonce (rc_update r))) owed"
  obtain sig where sig: "api_sign api a (kec ?m) w = Inr sig" "valid a ?m sig" using assms(10) by blast
  let ?ack = "\<lparr>ack_update = rc_update r, clientSig = sig\<rparr>"
  let ?st = "st\<lparr>ch_lastReceipt := Some r, ch_lastAck := Some ?ack\<rparr>"
  let ?hs1 = "persist e ?st hs"
  have ta: "truthy_str (he_address e) = Some a"
    using assms(4,5) by (simp add: truthy_str_Some)
  then have sg: "hook_signReceipt kec api e captured r hs w = (Inr ?ack, ?hs1)"
    using assms(1-9) sig(1) by (simp add: hook_signReceipt_def Let_def)
  have "hs_state ?hs1 = Some ?st" using ta assms(6) by (simp add: persist_def)
  from close_settles [OF assms(1-4) this, of ?ack r owed w node kec "?hs1"] assms sig(2)
  show ?thesis using sg by fastforce
qed

end

definition jc_valid :: "crypto \<Rightarrow> string \<Rightarrow> byte list \<Rightarrow> string \<Rightarrow> bool" where
  "jc_valid cr a m sig \<longleftrightarrow>
     (\<exists>bs who. parse_bytes sig = Some bs \<and> parse_address a = Some who \<and>
        recover cr (toEthSignedMessageHash cr (keccak cr m)) bs = Some who)"

definition jc_canonical :: "crypto \<Rightarrow> jc_config \<Rightarrow> string \<Rightarrow> int \<Rightarrow> int \<Rightarrow> byte list" where
  "jc_canonical cr cfg cid n owed =
     update_message cr cfg (the (parse_bytes cid)) (word_of_int n) (word_of_int owed)"

definition jc_parties :: "string \<Rightarrow> jc_state \<Rightarrow> string \<times> string" where
  "jc_parties cid s = (let c = channels s (the (parse_bytes cid)) in (address_hex (c_client c), address_hex (c_node c)))"

definition jc_closable :: "tx_env \<Rightarrow> string \<Rightarrow> int \<Rightarrow> int \<Rightarrow> jc_state \<Rightarrow> bool" where
  "jc_closable env cid n owed s \<longleftrightarrow>
     (\<exists>c. parse_bytes cid = Some c \<and> length c = 32 \<and> c_status (channels s c) \<in> {StOpen, StChallenged} \<and>
        uint (latestNonce (channels s c)) \<le> n \<and> n < 2 ^ 64 \<and> 0 \<le> owed \<and> owed < 2 ^ 256) \<and>
     (\<forall>call. tok_accepts env call)"

definition jc_settled :: "string \<Rightarrow> int \<Rightarrow> int \<Rightarrow> jc_state \<Rightarrow> jc_state \<Rightarrow> bool" where
  "jc_settled cid n owed s t \<longleftrightarrow>
     (let c = the (parse_bytes cid); ch = channels s c; dep = uint (deposit ch) in
      c_status (channels t c) = StClosed \<and> deposit (channels t c) = 0 \<and>
      uint (latestNonce (channels t c)) = n \<and>
      calls t = calls s
        @ (if 0 < min owed dep then [Transfer (c_node ch) (word_of_int (min owed dep))] else [])
        @ (if owed < dep then [Transfer (c_client ch) (word_of_int (dep - owed))] else []))"


lemma jc_close_law:
  assumes "jc_closable env cid n owed s" "jc_parties cid s = (a, node)"
    and "jc_valid cr a (jc_canonical cr cfg cid n owed) cs" "jc_valid cr node (jc_canonical cr cfg cid n owed) ns"
  shows "\<exists>t. api_send (jc_api cr cfg active env allow sign) a (address_hex (this_addr cfg))
      (CooperativeCloseCall cid n owed cs ns) s = Inr t \<and> jc_settled cid n owed s t"
proof -
  from assms(1) obtain c where c: "parse_bytes cid = Some c" "length c = 32" "c_status (channels s c) \<in> {StOpen, StChallenged}"
    "uint (latestNonce (channels s c)) \<le> n" "n < 2 ^ 64" "0 \<le> owed" "owed < 2 ^ 256" and tok: "\<And>call. tok_accepts env call"
    by (auto simp: jc_closable_def)
  let ?ch = "channels s c" and ?n = "word_of_int n :: u64" and ?w = "word_of_int owed :: u256"
  have n0: "0 \<le> n" using c(4) uint_ge_0 order_trans by blast
  have un: "uint ?n = n" using c(5) n0 by (simp add: uint_word_of_int)
  have uw: "uint ?w = owed" using c(6,7) by (simp add: uint_word_of_int)
  have a: "a = address_hex (c_client ?ch)" "node = address_hex (c_node ?ch)"
    using assms(2) c(1) by (simp_all add: jc_parties_def Let_def)
  from assms(3,4) a c(1) obtain csb nsb where sigs: "parse_bytes cs = Some csb" "parse_bytes ns = Some nsb"
    "recover cr (updateDigest cr cfg c ?n ?w) csb = Some (c_client ?ch)"
    "recover cr (updateDigest cr cfg c ?n ?w) nsb = Some (c_node ?ch)"
    by (auto simp: jc_valid_def jc_canonical_def updateDigest_def)
  have "latestNonce ?ch \<le> ?n" using c(4) un by (simp add: word_le_def)
  moreover have "verifySigs cr cfg c ?n ?w csb nsb (c_client ?ch) (c_node ?ch) = Inr ()"
    using sigs by (simp add: verifySigs_def Let_def)
  moreover have "tok_accepts (env\<lparr>msg_sender := c_client ?ch\<rparr>) call" for call using tok by simp
  ultimately obtain t where t: "cooperativeClose cr cfg (env\<lparr>msg_sender := c_client ?ch\<rparr>) c ?n ?w csb nsb s = Inr t"
    "calls t = calls s
        @ (if 0 < min ?w (deposit ?ch) then [Transfer (c_node ?ch) (min ?w (deposit ?ch))] else [])
        @ (if ?w < deposit ?ch then [Transfer (c_client ?ch) (deposit ?ch - ?w)] else [])"
    "channels t = (channels s)(c := ?ch\<lparr>latestNonce := ?n, latestCumOwed := ?w, c_status := StClosed, deposit := 0\<rparr>)"
    using coop_pays [OF c(3)] by metis
  have send: "api_send (jc_api cr cfg active env allow sign) a (address_hex (this_addr cfg)) (CooperativeCloseCall cid n owed cs ns) s = Inr t"
    using t(1) sigs c n0 a by (simp add: jc_api_def jc_send_def Let_def)
  have lt: "?w < deposit ?ch \<longleftrightarrow> owed < uint (deposit ?ch)" using uw by (simp add: word_less_def)
  have mn: "min ?w (deposit ?ch) = word_of_int (min owed (uint (deposit ?ch)))"
    using lt by (simp add: min_def word_le_def uw)
  have mn0: "0 < min ?w (deposit ?ch) \<longleftrightarrow> 0 < min owed (uint (deposit ?ch))"
    using uw by (simp add: min_def word_less_def word_le_def)
  have df: "deposit ?ch - ?w = word_of_int (uint (deposit ?ch) - owed)"
    by (metis uw word_sub_wi)
  have calls: "calls t = calls s
        @ (if 0 < min owed (uint (deposit ?ch)) then [Transfer (c_node ?ch) (word_of_int (min owed (uint (deposit ?ch))))] else [])
        @ (if owed < uint (deposit ?ch) then [Transfer (c_client ?ch) (word_of_int (uint (deposit ?ch) - owed))] else [])"
    unfolding t(2) lt mn0 df unfolding mn ..
  with send calls t(3) c(1) un show ?thesis by (simp add: jc_settled_def Let_def)
qed

interpretation jc_chain: channel_chain "jc_api cr cfg active env allow sign" "address_hex (this_addr cfg)"
    "jc_canonical cr cfg" "jc_valid cr" jc_parties "jc_closable env" jc_settled
  by unfold_locales (rule jc_close_law)


subsection \<open>Storage\<close>

lemma to_lower_append [simp]: "to_lower (xs @ ys) = to_lower xs @ to_lower ys"
  by (simp add: to_lower_def)

lemma length_address_hex [simp]: "length (address_hex a) = 42"
  by (simp add: address_hex_def)

lemma storageKey_inject:
  "storageKey (address_hex a) (address_hex n) = storageKey (address_hex a') (address_hex n') \<longleftrightarrow> a = a' \<and> n = n'"
  using address_hex_inject by (auto simp: storageKey_def)

lemma read_write: "br_window b \<Longrightarrow> readStorage (writeStorage m b) = m"
  by (simp add: readStorage_def writeStorage_def)

text \<open>A connected wallet and a selected node with their addresses in lower-case hex.\<close>

definition env_for :: "address \<Rightarrow> address \<Rightarrow> hook_env \<Rightarrow> bool" where
  "env_for a n e \<longleftrightarrow> he_address e = Some (address_hex a) \<and> he_nodeAddress e = Some (address_hex n)"

lemma env_for_truthy:
  "env_for a n e \<Longrightarrow> truthy_str (he_address e) = Some (address_hex a) \<and> truthy_str (he_nodeAddress e) = Some (address_hex n)"
  by (simp add: env_for_def truthy_str_Some address_hex_def)

lemma env_for_id:
  "env_for a n e \<Longrightarrow> hook_channelId (keccak (cr :: crypto)) e = Some (Inr (''0x'' @ bytes_hex (channelIdOf_sol cr a n 0)))"
  using env_for_truthy [of a n e] channel_id_is_contracts [of cr a n 0] by (simp add: hook_channelId_def CHANNEL_NONCE_def)

lemma hydrate_for:
  "env_for a n e \<Longrightarrow> hydrate (keccak (cr :: crypto)) e hs =
     hs\<lparr>hs_state := jmap_get (readStorage (hs_browser hs)) (storageKey (address_hex a) (address_hex n))\<rparr>"
  using env_for_truthy [of a n e] env_for_id [of a n e cr] by (simp add: hydrate_def)

lemma persist_for:
  "env_for a n e \<Longrightarrow> persist e st hs =
     hs\<lparr>hs_browser := writeStorage (jmap_set (storageKey (address_hex a) (address_hex n)) st (readStorage (hs_browser hs))) (hs_browser hs),
        hs_state := Some st\<rparr>"
  using env_for_truthy [of a n e] by (simp add: persist_def)

lemma refreshOnchain_state [simp]:
  "hs_state (refreshOnchain kec api e w hs) = hs_state hs" "hs_browser (refreshOnchain kec api e w hs) = hs_browser hs"
  by (simp_all add: refreshOnchain_def split: option.splits sum.splits)

lemma js_bigint_nat_str [simp]: "js_bigint (nat_str n) = Inr (int n)"
proof -
  have sp: "\<not> is_space c" "c \<noteq> CHR ''-''" "c \<noteq> CHR ''+''" if c: "c \<in> set (nat_str n)" for c
  proof -
    from nat_str_digits [OF c] obtain d where d: "d < 10" "c = digit_char d" by blast
    then have "(of_char c :: nat) = 48 + d" by (simp add: digit_char_def)
    with d(1) show "\<not> is_space c" by (simp add: is_space_def Let_def)
    from nat_str_digit [OF c] show "c \<noteq> CHR ''-''" "c \<noteq> CHR ''+''" using char_digit_signs by metis+
  qed
  have "dropWhile is_space (nat_str n) = nat_str n"
    by (rule dropWhile_eq_self_iff [THEN iffD2]) (simp add: sp hd_in_set)
  moreover have "dropWhile is_space (rev (nat_str n)) = rev (nat_str n)"
    by (rule dropWhile_eq_self_iff [THEN iffD2]) (simp add: sp hd_rev last_in_set)
  ultimately have "js_trim (nat_str n) = nat_str n" by (simp add: js_trim_def)
  moreover have "hd (nat_str n) \<notin> {CHR ''-'', CHR ''+''}" using sp hd_in_set [OF nat_str_nonempty] by blast
  ultimately show ?thesis by (simp add: js_bigint_def Let_def digits_val_nat_str)
qed

subsection \<open>Properties\<close>

text \<open>The dashboard and the contract sign the same bytes: for every chain id, contract
  address, channel id, nonce and amount, the 192 bytes \<open>channelUpdateCanonical\<close> writes are
  the message whose hash \<open>JobChannel.updateDigest\<close> wraps.\<close>

theorem canonical_matches_contract:
  assumes "length (keccak cr update_domain) = 32" and "length cid = 32"
  shows "channelUpdateCanonical (keccak cr) (uint (chainid cfg)) (address_hex (this_addr cfg)) (''0x'' @ bytes_hex cid)
           (uint nonce) (uint owed) = Inr (update_message cr cfg cid nonce owed) \<and>
    updateDigest cr cfg cid nonce owed = toEthSignedMessageHash cr (keccak cr (update_message cr cfg cid nonce owed))"
  using canonical_is_message [OF assms] by (simp add: updateDigest_def)

text \<open>C12. The channel id the dashboard derives without a transaction is the id the contract
  computes, for every client, node and channel nonce.\<close>

theorem channelId_matches_contract:
  "channelIdOf (keccak cr) (address_hex client) (address_hex node) (uint k)
     = Inr (''0x'' @ bytes_hex (channelIdOf_sol cr client node k))"
  by (rule channel_id_is_contracts)

text \<open>The bytes signed for a receipt, and what settling moves, in natural numbers.\<close>

lemma receipt_canonical_for:
  assumes "cc_chainId (he_config e) = uint (chainid cfg)" "length (keccak cr update_domain) = 32" "length cid = 32"
    and "u = \<lparr>cu_channelId = ''0x'' @ bytes_hex cid, cu_nonce = n, cu_cumOwed = nat_str owed\<rparr>"
    and "n < 2 ^ 64" "owed < 2 ^ 256"
  shows "receipt_canonical (keccak cr) e (address_hex (this_addr cfg)) u
    = Inr (jc_canonical cr cfg (''0x'' @ bytes_hex cid) (int n) (int owed))"
proof -
  have w: "word_of_int (int n) = (of_nat n :: u64)" "word_of_int (int owed) = (of_nat owed :: u256)" by simp_all
  have u: "uint (of_nat n :: u64) = int n" "uint (of_nat owed :: u256) = int owed"
    using assms(5,6) by (simp_all add: unsigned_of_nat take_bit_nat_eq_self uint_nat unat_of_nat)
  have msg: "jc_canonical cr cfg (''0x'' @ bytes_hex cid) (int n) (int owed) = update_message cr cfg cid (of_nat n) (of_nat owed)"
    by (simp only: jc_canonical_def w parse_bytes_hex option.sel)
  have "channelUpdateCanonical (keccak cr) (cc_chainId (he_config e)) (address_hex (this_addr cfg)) (''0x'' @ bytes_hex cid)
      (int n) (int owed) = Inr (update_message cr cfg cid (of_nat n) (of_nat owed))"
    using canonical_is_message [OF assms(2,3), of cfg "of_nat n" "of_nat owed"] by (simp only: u assms(1))
  then show ?thesis
    unfolding receipt_canonical_def assms(4) msg channel_update.select_convs js_bigint_nat_str
    by (simp only: rbind.simps lift_eth_def sum.case)
qed

lemma settled_calls:
  assumes "jc_settled (''0x'' @ bytes_hex cid) (int n) (int owed) s t" "unat (deposit (channels s cid)) = dep"
    and "c_client (channels s cid) = client" "c_node (channels s cid) = node"
  shows "c_status (channels t cid) = StClosed \<and> deposit (channels t cid) = 0 \<and> unat (latestNonce (channels t cid)) = n \<and>
    calls t = calls s @ (if 0 < min owed dep then [Transfer node (of_nat (min owed dep))] else [])
      @ (if owed < dep then [Transfer client (of_nat (dep - owed))] else [])"
proof -
  have d: "uint (deposit (channels s cid)) = int dep" using assms(2) uint_nat by metis
  have mn: "min (int owed) (int dep) = int (min owed dep)" by simp
  have "word_of_int (int dep - int owed) = (of_nat (dep - owed) :: u256)" if "owed < dep"
    using that by (simp flip: of_nat_diff)
  then show ?thesis
    using assms(1,3,4) unfolding jc_settled_def Let_def parse_bytes_hex option.sel d mn
    by (auto simp: unat_eq_nat_uint)
qed

lemma sign_then_close_core:
  assumes "env_for client node e" "he_wallet e" "he_public e"
    and "channel_at (cc_addresses (he_config e)) = Some (address_hex (this_addr cfg))"
    and "cc_chainId (he_config e) = uint (chainid cfg)"
    and "length (keccak cr update_domain) = 32" "length cid = 32"
    and "rc_update r = \<lparr>cu_channelId = ''0x'' @ bytes_hex cid, cu_nonce = n, cu_cumOwed = nat_str owed\<rparr>"
    and "n < 2 ^ 64" "owed < 2 ^ 256"
    and "c_status (channels s cid) \<in> {StOpen, StChallenged}" "unat (latestNonce (channels s cid)) \<le> n"
    and "c_client (channels s cid) = client" "c_node (channels s cid) = node"
    and "\<And>m. \<exists>sig bs. sign (address_hex client) (keccak cr m) s = Inr sig \<and> parse_bytes sig = Some bs \<and>
           recover cr (toEthSignedMessageHash cr (keccak cr m)) bs = Some client"
    and "parse_bytes (nodeSig r) = Some nb"
        "recover cr (updateDigest cr cfg cid (of_nat n) (of_nat owed)) nb = Some node"
    and "\<And>call. tok_accepts env call"
  shows "\<exists>ack hs1 hs2 t.
    hook_signReceipt (keccak cr) (jc_api cr cfg active env allow sign) e (Some st) r hs s = (Inr ack, hs1) \<and>
    ack_update ack = rc_update r \<and>
    hook_cooperativeClose (keccak cr) (jc_api cr cfg active env allow sign) e (hs_state hs1) hs1 s = (Inr (), hs2, t) \<and>
    c_status (channels t cid) = StClosed \<and> deposit (channels t cid) = 0 \<and> unat (latestNonce (channels t cid)) = n \<and>
    calls t = calls s
      @ (if 0 < min owed (unat (deposit (channels s cid))) then [Transfer node (of_nat (min owed (unat (deposit (channels s cid)))))] else [])
      @ (if owed < unat (deposit (channels s cid)) then [Transfer client (of_nat (unat (deposit (channels s cid)) - owed))] else [])"
proof -
  let ?cid = "''0x'' @ bytes_hex cid"
  have ct: "he_contract e = Some (address_hex (this_addr cfg))"
    using assms(4) by (simp add: he_contract_def truthy_str_Some address_hex_def)
  have addr: "he_address e = Some (address_hex client)" "address_hex client \<noteq> []"
    "truthy_str (he_nodeAddress e) = Some (address_hex node)"
    using assms(1) env_for_truthy [OF assms(1)] by (simp_all add: env_for_def address_hex_def)
  have wire: "cu_channelId (rc_update r) = ?cid" "cu_nonce (rc_update r) = n" "js_bigint (cu_cumOwed (rc_update r)) = Inr (int owed)"
    by (simp_all add: assms(8))
  obtain l where l: "uint (latestNonce (channels s cid)) = int l" "unat (latestNonce (channels s cid)) = l"
    using uint_nat by blast
  have closable: "jc_closable env ?cid (int n) (int owed) s"
    using assms(7,9,10,11,12,18) l by (simp add: jc_closable_def)
  have parties: "jc_parties ?cid s = (address_hex client, address_hex node)"
    using assms(13,14) by (simp add: jc_parties_def Let_def)
  have vn: "jc_valid cr (address_hex node) (jc_canonical cr cfg ?cid (int n) (int owed)) (nodeSig r)"
    using assms(16,17) by (simp add: jc_valid_def jc_canonical_def updateDigest_def)
  have sign: "\<exists>sig. api_sign (jc_api cr cfg active env allow sign) (address_hex client) (keccak cr m) s = Inr sig \<and>
      jc_valid cr (address_hex client) m sig" for m
    using assms(15) [of m] by (auto simp: jc_api_def jc_valid_def)
  obtain ack hs1 hs2 t where res:
    "hook_signReceipt (keccak cr) (jc_api cr cfg active env allow sign) e (Some st) r hs s = (Inr ack, hs1)"
    "hook_cooperativeClose (keccak cr) (jc_api cr cfg active env allow sign) e (hs_state hs1) hs1 s = (Inr (), hs2, t)"
    "jc_settled ?cid (int n) (int owed) s t"
    using jc_chain.sign_then_close [OF ct assms(2,3) addr refl wire(3), unfolded wire(1,2),
        OF receipt_canonical_for [OF assms(5,6,7,8,9,10)] sign closable parties vn]
    by blast
  have ae: "ack_update ack = rc_update r"
    using res(1) by (auto simp: hook_signReceipt_def Let_def split: option.splits if_splits sum.splits)
  show ?thesis
    by (intro exI conjI) (rule res(1) ae res(2) settled_calls [OF res(3) refl assms(13,14), THEN conjunct1]
      settled_calls [OF res(3) refl assms(13,14), THEN conjunct2, THEN conjunct1]
      settled_calls [OF res(3) refl assms(13,14), THEN conjunct2, THEN conjunct2, THEN conjunct1]
      settled_calls [OF res(3) refl assms(13,14), THEN conjunct2, THEN conjunct2, THEN conjunct2])+
qed

text \<open>Sign, then close: with the wallet connected and the channel contract of the chain
  configured, for a receipt the node signed over a state the open channel still takes,
  \<open>signReceipt\<close> returns an acknowledgement and keeps it, and the following
  \<open>cooperativeClose\<close> goes through on the contract: the channel is closed on the receipt's
  nonce, the node is paid the amount owed capped at the deposit and the client the rest.\<close>

theorem sign_then_close_settles:
  assumes "env_for client node e" "he_wallet e" "he_public e"
    and "channel_at (cc_addresses (he_config e)) = Some (address_hex (this_addr cfg))"
    and "cc_chainId (he_config e) = uint (chainid cfg)"
    and "length (keccak cr update_domain) = 32" "length cid = 32"
    and "rc_update r = \<lparr>cu_channelId = ''0x'' @ bytes_hex cid, cu_nonce = n, cu_cumOwed = nat_str owed\<rparr>"
    and "n < 2 ^ 64" "owed < 2 ^ 256"
    and "c_status (channels s cid) \<in> {StOpen, StChallenged}" "unat (latestNonce (channels s cid)) \<le> n"
    and "c_client (channels s cid) = client" "c_node (channels s cid) = node"
    and "\<And>m. \<exists>sig bs. sign (address_hex client) (keccak cr m) s = Inr sig \<and> parse_bytes sig = Some bs \<and>
           recover cr (toEthSignedMessageHash cr (keccak cr m)) bs = Some client"
    and "parse_bytes (nodeSig r) = Some nb"
        "recover cr (updateDigest cr cfg cid (of_nat n) (of_nat owed)) nb = Some node"
    and "\<And>call. tok_accepts env call"
  shows "\<exists>ack hs1 hs2 t.
    hook_signReceipt (keccak cr) (jc_api cr cfg active env allow sign) e (Some st) r hs s = (Inr ack, hs1) \<and>
    ack_update ack = rc_update r \<and>
    hook_cooperativeClose (keccak cr) (jc_api cr cfg active env allow sign) e (hs_state hs1) hs1 s = (Inr (), hs2, t) \<and>
    c_status (channels t cid) = StClosed \<and> deposit (channels t cid) = 0 \<and> unat (latestNonce (channels t cid)) = n \<and>
    calls t = calls s
      @ (if 0 < min owed (unat (deposit (channels s cid))) then [Transfer node (of_nat (min owed (unat (deposit (channels s cid)))))] else [])
      @ (if owed < unat (deposit (channels s cid)) then [Transfer client (of_nat (unat (deposit (channels s cid)) - owed))] else [])"
  using assms by (rule sign_then_close_core)

text \<open>The stored channels: what is persisted for a client and a node is what the hook
  finds again for that pair, in a new page too, no other pair's entry is touched, and two
  pairs never share a key.\<close>

theorem hydrate_persist:
  assumes "env_for a n e" and "env_for a' n' e'" and "br_window (hs_browser hs)"
    and "hs_browser hs' = hs_browser (persist e st hs)"
  shows "hs_state (hydrate (keccak (cr :: crypto)) e' hs')
     = (if a' = a \<and> n' = n then Some st else hs_state (hydrate (keccak cr) e' hs))"
  using assms by (simp add: hydrate_for persist_for read_write jm.lookup_put storageKey_inject)

text \<open>A receipt signed through an old callback: whatever node is selected by then,
  \<open>signReceipt\<close> replaces the state the hook shows by the state of the channel it was made
  for, with the new receipt and acknowledgement, and stores it under that channel's pair.\<close>

theorem signReceipt_shows_captured:
  assumes "env_for a n e"
    and "hook_signReceipt (keccak cr) api e (Some st) r hs w = (Inr ack, hs')"
  shows "hs_state hs' = Some (st\<lparr>ch_lastReceipt := Some r, ch_lastAck := Some ack\<rparr>) \<and>
    hs_browser hs' = writeStorage (jmap_set (storageKey (address_hex a) (address_hex n))
      (st\<lparr>ch_lastReceipt := Some r, ch_lastAck := Some ack\<rparr>) (readStorage (hs_browser hs))) (hs_browser hs)"
  using assms env_for_truthy [OF assms(1)]
  by (auto simp: hook_signReceipt_def Let_def persist_for split: option.splits if_splits sum.splits)

text \<open>C35. Opening a pair's channel again: once the pair's channel has been opened on the
  contract, whether still open or closed, \<open>openChannel\<close> reports success although the
  contract took nothing and its state is unchanged, and replaces the stored state by one
  without receipt and acknowledgement, so a later cooperative close finds nothing to submit.\<close>

theorem reopen_reports_success:
  assumes "env_for a n e" "he_wallet e" "he_public e" "br_window (hs_browser hs)"
    and "channel_at (cc_addresses (he_config e)) = Some (address_hex (this_addr cfg))"
    and "usdc_at (cc_addresses (he_config e)) \<noteq> []"
    and "allow (usdc_at (cc_addresses (he_config e))) (address_hex a) (address_hex (this_addr cfg)) s = Inr al"
    and "c_status (channels s (channelIdOf_sol cr a n 0)) \<noteq> StNone"
    and "0 \<le> dep" "dep < 2 ^ 256"
  shows "\<exists>hs'. hook_openChannel (keccak cr) (jc_api cr cfg active env allow sign) e dep hs s = (Inr (), hs', s) \<and>
    hs_state hs' = Some \<lparr>ch_channelId = ''0x'' @ bytes_hex (channelIdOf_sol cr a n 0), ch_client = address_hex a,
      ch_nodeAddress = address_hex n, ch_lastReceipt = None, ch_lastAck = None\<rparr> \<and>
    hook_cooperativeClose (keccak cr) (jc_api cr cfg active env allow sign) e (hs_state hs') hs' s = (Inl no_state_message, hs', s)"
proof -
  have ct: "he_contract e = Some (address_hex (this_addr cfg))"
    using assms(5) by (simp add: he_contract_def truthy_str_Some address_hex_def)
  have send: "api_send (jc_api cr cfg active env allow sign) (address_hex a) (address_hex (this_addr cfg))
      (OpenChannelCall (address_hex n) 0 dep) s = Inr s"
    using assms(8-10) by (simp add: jc_api_def jc_send_def openChannel_def Let_def)
  have approve: "api_send (jc_api cr cfg active env allow sign) (address_hex a) u (Approve sp x) s = Inr s" for u sp x
    by (simp add: jc_api_def jc_send_def)
  have al: "api_allowance (jc_api cr cfg active env allow sign) = allow" by (simp add: jc_api_def)
  have id: "lift_eth (channelIdOf (keccak cr) (address_hex a) (address_hex n) 0) = Inr (''0x'' @ bytes_hex (channelIdOf_sol cr a n 0))"
    using channel_id_is_contracts [of cr a n 0] by (simp add: lift_eth_def)
  show ?thesis
    using env_for_truthy [OF assms(1)] assms(2,3,6,7) ct send approve al id
    by (simp add: hook_openChannel_def CHANNEL_NONCE_def Let_def persist_for [OF assms(1)] hook_cooperativeClose_def)
qed

subsection \<open>Witnesses\<close>

definition demo_hook_env :: hook_env where
  "demo_hook_env = \<lparr>he_address = Some (address_hex 1), he_nodeAddress = Some (address_hex 2), he_wallet = True, he_public = True,
     he_config = \<lparr>cc_chainId = 84532, cc_name = BaseSepolia, cc_rpcUrl = [], cc_blockExplorer = [],
       cc_addresses = \<lparr>usdc_at = ''0x01'', registry_at = None, channel_at = Some (address_hex 9)\<rparr>\<rparr>\<rparr>"

definition demo_hook :: hook_state where
  "demo_hook = \<lparr>hs_state = None, hs_onchain = None, hs_browser = \<lparr>br_window = True, br_item = Garbled\<rparr>\<rparr>"

definition demo_ch :: channel_state where
  "demo_ch = \<lparr>ch_channelId = ''0x'' @ bytes_hex demo_cid, ch_client = address_hex 1, ch_nodeAddress = address_hex 2,
     ch_lastReceipt = None, ch_lastAck = None\<rparr>"

definition demo_signed :: node_signed_receipt where
  "demo_signed = demo_receipt\<lparr>rc_update := \<lparr>cu_channelId = ''0x'' @ bytes_hex demo_cid, cu_nonce = 3, cu_cumOwed = nat_str 20\<rparr>,
     nodeSig := ''0x'' @ bytes_hex [0, 0]\<rparr>"

definition demo_sign :: "string \<Rightarrow> byte list \<Rightarrow> jc_state \<Rightarrow> string + string" where
  "demo_sign a m s = Inr (''0x'' @ bytes_hex [0])"

lemma demo_env_for: "env_for 1 2 demo_hook_env"
  by (simp add: env_for_def demo_hook_env_def)

theorem canonical_matches_contract_witness:
  "channelUpdateCanonical (keccak demo_cr) 84532 (address_hex 9) (''0x'' @ bytes_hex demo_cid) 3 20
     = Inr (update_message demo_cr demo_cfg demo_cid 3 20)"
proof -
  have "length (keccak demo_cr update_domain) = 32" "length demo_cid = 32" by (simp_all add: demo_cr_def demo_cid_def)
  from canonical_matches_contract [OF this, of demo_cfg 3 20] show ?thesis by (simp add: demo_cfg_def)
qed

theorem sign_then_close_settles_witness:
  "\<exists>ack hs1 hs2 t.
    hook_signReceipt (keccak demo_cr) (jc_api demo_cr demo_cfg (\<lambda>_. True) (demo_env 1 300) (\<lambda>_ _ _ _. Inr 0) demo_sign) demo_hook_env
      (Some demo_ch) demo_signed demo_hook demo_open = (Inr ack, hs1) \<and>
    hook_cooperativeClose (keccak demo_cr) (jc_api demo_cr demo_cfg (\<lambda>_. True) (demo_env 1 300) (\<lambda>_ _ _ _. Inr 0) demo_sign) demo_hook_env
      (hs_state hs1) hs1 demo_open = (Inr (), hs2, t) \<and>
    c_status (channels t demo_cid) = StClosed \<and> calls t = [TransferFrom 1 50, Transfer 2 20, Transfer 1 30]"
proof -
  have r: "rc_update demo_signed = \<lparr>cu_channelId = ''0x'' @ bytes_hex demo_cid, cu_nonce = 3, cu_cumOwed = nat_str 20\<rparr>"
    by (simp add: demo_signed_def)
  have h: "he_wallet demo_hook_env" "he_public demo_hook_env"
    "channel_at (cc_addresses (he_config demo_hook_env)) = Some (address_hex (this_addr demo_cfg))"
    "cc_chainId (he_config demo_hook_env) = uint (chainid demo_cfg)"
    "length (keccak demo_cr update_domain) = 32" "length demo_cid = 32"
    by (simp_all add: demo_hook_env_def demo_cfg_def demo_cr_def demo_cid_def)
  have c: "c_status (channels demo_open demo_cid) \<in> {StOpen, StChallenged}" "unat (latestNonce (channels demo_open demo_cid)) \<le> 3"
    "c_client (channels demo_open demo_cid) = 1" "c_node (channels demo_open demo_cid) = 2"
    by (simp_all add: demo_open_eq)
  have sg: "\<exists>sig bs. demo_sign (address_hex 1) (keccak demo_cr m) demo_open = Inr sig \<and> parse_bytes sig = Some bs \<and>
      recover demo_cr (toEthSignedMessageHash demo_cr (keccak demo_cr m)) bs = Some 1" for m
    by (simp add: demo_sign_def demo_cr_def)
  have ns: "parse_bytes (nodeSig demo_signed) = Some [0, 0]"
    "recover demo_cr (updateDigest demo_cr demo_cfg demo_cid (of_nat 3) (of_nat 20)) [0, 0] = Some 2"
    unfolding demo_signed_def by (simp_all add: demo_cr_def)
  have n: "(3::nat) < 2 ^ 64" "(20::nat) < 2 ^ 256" and tok: "\<And>call. tok_accepts (demo_env 1 300) call"
    by (simp_all add: demo_env_def)
  from sign_then_close_settles [where sign = demo_sign and s = demo_open and cr = demo_cr and cfg = demo_cfg and
      st = demo_ch and active = "\<lambda>_. True" and allow = "\<lambda>_ _ _ _. Inr 0" and hs = demo_hook, OF demo_env_for h r n c sg ns tok]
  show ?thesis by (auto simp: demo_open_eq)
qed

theorem hydrate_persist_witness:
  "hs_state (hydrate (keccak demo_cr) demo_hook_env (persist demo_hook_env demo_ch demo_hook)) = Some demo_ch"
  using hydrate_persist [OF demo_env_for demo_env_for _ refl, of demo_hook demo_cr demo_ch] by (simp add: demo_hook_def)

theorem signReceipt_shows_captured_witness:
  "\<exists>ack hs'. hook_signReceipt (keccak demo_cr) (jc_api demo_cr demo_cfg (\<lambda>_. True) (demo_env 1 300) (\<lambda>_ _ _ _. Inr 0) demo_sign)
      demo_hook_env (Some demo_ch) demo_signed (demo_hook\<lparr>hs_state := None\<rparr>) demo_open = (Inr ack, hs') \<and>
    hs_state hs' = Some (demo_ch\<lparr>ch_lastReceipt := Some demo_signed, ch_lastAck := Some ack\<rparr>)"
proof -
  have canon: "channelUpdateCanonical (keccak demo_cr) 84532 (address_hex 9) (''0x'' @ bytes_hex demo_cid) 3 20
      = Inr (update_message demo_cr demo_cfg demo_cid 3 20)"
    using canonical_is_message [of demo_cr demo_cid demo_cfg 3 20] by (simp add: demo_cr_def demo_cid_def demo_cfg_def)
  have t: "truthy_str (channel_at (cc_addresses (he_config demo_hook_env))) = Some (address_hex 9)" "he_wallet demo_hook_env"
    "cc_chainId (he_config demo_hook_env) = 84532"
    by (simp_all add: demo_hook_env_def truthy_str_Some address_hex_def)
  have r: "rc_update demo_signed = \<lparr>cu_channelId = ''0x'' @ bytes_hex demo_cid, cu_nonce = 3, cu_cumOwed = nat_str 20\<rparr>"
    by (simp add: demo_signed_def)
  have rc: "receipt_canonical (keccak demo_cr) demo_hook_env (address_hex 9) (rc_update demo_signed)
      = Inr (update_message demo_cr demo_cfg demo_cid 3 20)"
    unfolding receipt_canonical_def r channel_update.select_convs js_bigint_nat_str t(3)
    using canon by (simp only: rbind.simps of_nat_numeral lift_eth_def sum.case)
  obtain ack hs' where s: "hook_signReceipt (keccak demo_cr) (jc_api demo_cr demo_cfg (\<lambda>_. True) (demo_env 1 300) (\<lambda>_ _ _ _. Inr 0) demo_sign)
      demo_hook_env (Some demo_ch) demo_signed (demo_hook\<lparr>hs_state := None\<rparr>) demo_open = (Inr ack, hs')"
    using env_for_truthy [OF demo_env_for] t(1,2) rc
    by (simp add: hook_signReceipt_def he_contract_def jc_api_def demo_sign_def Let_def)
  from signReceipt_shows_captured [OF demo_env_for s] show ?thesis using s by blast
qed

theorem reopen_reports_success_witness:
  "\<exists>hs'. hook_openChannel (keccak demo_cr) (jc_api demo_cr demo_cfg (\<lambda>_. True) (demo_env 1 400) (\<lambda>_ _ _ _. Inr 0) demo_sign)
     demo_hook_env 70 demo_hook demo_closed = (Inr (), hs', demo_closed)"
proof -
  have h: "he_wallet demo_hook_env" "he_public demo_hook_env" "br_window (hs_browser demo_hook)"
    "channel_at (cc_addresses (he_config demo_hook_env)) = Some (address_hex (this_addr demo_cfg))"
    "usdc_at (cc_addresses (he_config demo_hook_env)) \<noteq> []"
    by (simp_all add: demo_hook_env_def demo_cfg_def demo_hook_def)
  have c: "c_status (channels demo_closed (channelIdOf_sol demo_cr 1 2 0)) \<noteq> StNone"
    by (simp add: demo_closed_eq demo_simps)
  from reopen_reports_success [where al = 0 and allow = "\<lambda>_ _ _ _. Inr 0" and dep = 70 and active = "\<lambda>_. True" and
      env = "demo_env 1 400" and sign = demo_sign, OF demo_env_for h refl c]
  show ?thesis by auto
qed

end
