(* ===== verification/Graph.thy ===== *)
theory Graph
  imports Sessions Liveness
begin

section \<open>The node graph of the dashboard\<close>

text \<open>
  \<open>apps/dashboard/src/components/NodeGraph.tsx\<close>: the nodes of the force layout and how a new
  node list is merged into them, the view (pan and zoom), the mouse and wheel handlers, and
  one frame of the canvas as the list of drawing calls. Graph nodes are shared objects in
  the code (the node list, the links, the simulation and a drag hold the same object), so
  they live in a heap and are named by references. What d3's simulation does to positions is
  an event with arbitrary new positions; text widths are a function \<open>widths\<close> of font and
  text; coordinates are real numbers.
\<close>

subsection \<open>Numbers and labels\<close>

definition PROGRESS_TAU_MS :: real where
  "PROGRESS_TAU_MS = 5000"

definition COMPLETION_FADE_MS :: real where
  "COMPLETION_FADE_MS = 1500"

definition MIN_SCALE :: real where
  "MIN_SCALE = 3 / 10"

definition MAX_SCALE :: real where
  "MAX_SCALE = 4"

definition WHEEL_ZOOM_FACTOR :: real where
  "WHEEL_ZOOM_FACTOR = 1003 / 1000"

definition DRAG_CLICK_THRESHOLD_PX :: real where
  "DRAG_CLICK_THRESHOLD_PX = 4"

definition ZOOM_INDICATOR_HOLD_MS :: int where
  "ZOOM_INDICATOR_HOLD_MS = 600"

definition ZOOM_INDICATOR_FADE_MS :: int where
  "ZOOM_INDICATOR_FADE_MS = 400"

definition clamp :: "real \<Rightarrow> real \<Rightarrow> real \<Rightarrow> real" where
  "clamp v lo hi = max lo (min hi v)"

definition requestProgress :: "active_request \<Rightarrow> int \<Rightarrow> real \<times> real" where
  "requestProgress req now =
     (let elapsed = max 0 (of_int (now - ar_startedAt req));
          base = 1 - exp (- elapsed / PROGRESS_TAU_MS) in
      case ar_endedAt req of
        None \<Rightarrow> (base, 1)
      | Some e \<Rightarrow>
          (let sinceEnd = of_int (now - e);
               snap = min 1 (sinceEnd / 500);
               p = base + (1 - base) * snap;
               fade = (if sinceEnd \<le> 500 then 1 else max 0 (1 - (sinceEnd - 500) / (COMPLETION_FADE_MS - 500))) in
           (p, fade)))"

fun status_str :: "session_status \<Rightarrow> string" where
  "status_str (Reported Running) = ''running''"
| "status_str (Reported WaitingTool) = ''waiting-tool''"
| "status_str (Reported Final) = ''final''"
| "status_str (Reported Error) = ''error''"
| "status_str Matching = ''matching''"
| "status_str Pending = ''pending''"

fun statusLabel :: "session_status \<Rightarrow> string" where
  "statusLabel (Reported WaitingTool) = ''waiting on tool''"
| "statusLabel (Reported Running) = ''running''"
| "statusLabel (Reported Final) = ''done''"
| "statusLabel (Reported Error) = ''error''"
| "statusLabel Matching = ''matching''"
| "statusLabel Pending = ''pending''"

definition humanElapsed :: "int \<Rightarrow> string" where
  "humanElapsed ms =
     (if ms < 1000 then int_str ms @ ''ms''
      else (let s = of_int ms / 1000 :: rat in
            if s < 60 then to_fixed 1 s @ ''s''
            else int_str \<lfloor>s / 60\<rfloor> @ ''m'' @ int_str (js_round (rat_rem s 60)) @ ''s''))"

fun source_str :: "session_source \<Rightarrow> string" where
  "source_str LocalSession = ''local''"
| "source_str RemoteSession = ''remote''"

subsection \<open>Colours\<close>

text \<open>\<open>rgba(rgb, alpha)\<close> is kept as the pair the template string is made of.\<close>

datatype colour = Css string | Rgba string rat

record canvas_theme =
  edgeRgb :: string
  edgeIdleAlpha :: rat
  edgeActiveAlpha :: rat
  nodeFillWorker :: string
  nodeFillClient :: string
  nodeFillActive :: string
  nodeStrokeWorker :: string
  nodeStrokeClient :: string
  nodeStrokeActive :: string
  nodeStrokeSelected :: string
  nodeText :: string
  nodeSubText :: string
  glowClientRgb :: string
  glowActiveRgb :: string
  glowWorkerRgb :: string
  panelBg :: string
  panelBorder :: string
  panelText :: string
  indicatorPanel :: string
  indicatorBorder :: string
  toolCallColor :: string
  toolCallGlowRgb :: string
  labelBg :: string
  labelBorder :: string

fun CANVAS_THEMES :: "theme \<Rightarrow> canvas_theme" where
  "CANVAS_THEMES Dark =
     \<lparr>edgeRgb = ''102, 204, 255'', edgeIdleAlpha = 12 / 100, edgeActiveAlpha = 7 / 10,
      nodeFillWorker = ''#0b1428'', nodeFillClient = ''#1a1030'', nodeFillActive = ''#0f2a22'',
      nodeStrokeWorker = ''#66ccff'', nodeStrokeClient = ''#b48cff'', nodeStrokeActive = ''#66ffaa'',
      nodeStrokeSelected = ''#ffbb44'', nodeText = ''#e7ecf3'', nodeSubText = ''rgba(231, 236, 243, 0.45)'',
      glowClientRgb = ''180, 140, 255'', glowActiveRgb = ''102, 255, 170'', glowWorkerRgb = ''102, 204, 255'',
      panelBg = ''rgba(5, 10, 24, 0.92)'', panelBorder = ''rgba(102, 204, 255, 0.45)'', panelText = ''#e7ecf3'',
      indicatorPanel = ''rgba(5, 10, 24, 0.85)'', indicatorBorder = ''rgba(102, 204, 255, 0.5)'',
      toolCallColor = ''#b48cff'', toolCallGlowRgb = ''180, 140, 255'',
      labelBg = ''rgba(5, 10, 24, 0.78)'', labelBorder = ''rgba(102, 204, 255, 0.28)''\<rparr>"
| "CANVAS_THEMES Light =
     \<lparr>edgeRgb = ''20, 80, 140'', edgeIdleAlpha = 18 / 100, edgeActiveAlpha = 75 / 100,
      nodeFillWorker = ''#eaf2fb'', nodeFillClient = ''#f3edfb'', nodeFillActive = ''#e3f3eb'',
      nodeStrokeWorker = ''#1a73e8'', nodeStrokeClient = ''#7c4dff'', nodeStrokeActive = ''#10a37f'',
      nodeStrokeSelected = ''#d97706'', nodeText = ''#0a1224'', nodeSubText = ''rgba(10, 18, 36, 0.5)'',
      glowClientRgb = ''124, 77, 255'', glowActiveRgb = ''16, 163, 127'', glowWorkerRgb = ''26, 115, 232'',
      panelBg = ''rgba(255, 255, 255, 0.95)'', panelBorder = ''rgba(20, 80, 140, 0.45)'', panelText = ''#0a1224'',
      indicatorPanel = ''rgba(255, 255, 255, 0.92)'', indicatorBorder = ''rgba(20, 80, 140, 0.5)'',
      toolCallColor = ''#7c4dff'', toolCallGlowRgb = ''124, 77, 255'',
      labelBg = ''rgba(255, 255, 255, 0.92)'', labelBorder = ''rgba(20, 80, 140, 0.3)''\<rparr>"

subsection \<open>State\<close>

datatype node_kind = ClientKind | WorkerKind

record graph_node =
  gn_id :: string
  gn_label :: string
  gn_kind :: node_kind
  gn_reg :: "node_registration option"
  gn_x :: "real option"
  gn_y :: "real option"
  gn_fx :: "real option"
  gn_fy :: "real option"

text \<open>The ends of a link are ids; what d3 puts in their place is the argument \<open>ends\<close> of a frame.\<close>

record graph_link =
  gl_source :: string
  gl_target :: string
  gl_active :: bool

record gview =
  vw_scale :: real
  vw_tx :: real
  vw_ty :: real

datatype drag = NodeDrag (nd_node: nat) (nd_moved: real)
  | PanDrag (pd_clientX: real) (pd_clientY: real) (pd_tx: real) (pd_ty: real) (pd_moved: real)

record ball =
  bl_x :: real
  bl_y :: real
  bl_r :: real
  bl_req :: active_request
  bl_alpha :: real

text \<open>The calls into d3's simulation, in order.\<close>

datatype sim_call =
    SimCreate "nat list" "graph_link list"
  | SimNodes "nat list"
  | SimLinks "graph_link list"
  | SimAlphaRestart rat
  | SimAlphaTargetRestart rat
  | SimAlphaTarget rat

record graph_state =
  gs_heap :: "nat \<Rightarrow> graph_node"
  gs_next :: nat
  gs_graphNodes :: "nat list"
  gs_links :: "graph_link list"
  gs_activeRequests :: "active_request list"
  gs_selectedPubKey :: "string option"
  gs_theme :: theme
  gs_width :: real
  gs_height :: real
  gs_view :: gview
  gs_drag :: "drag option"
  gs_ballRects :: "ball list"
  gs_hoveredBall :: "(active_request \<times> real \<times> real) option"
  gs_lastZoomAt :: int
  gs_zoomActive :: bool
  gs_zoomTimer :: bool
  gs_cursor :: string
  gs_sim :: "sim_call list"
  gs_selects :: "string option list"

definition CLIENT_ID :: string where
  "CLIENT_ID = ''__client''"

definition fresh_node :: "string \<Rightarrow> string \<Rightarrow> node_kind \<Rightarrow> node_registration option \<Rightarrow> graph_node" where
  "fresh_node i l k r = \<lparr>gn_id = i, gn_label = l, gn_kind = k, gn_reg = r, gn_x = None, gn_y = None, gn_fx = None, gn_fy = None\<rparr>"

definition graph_mount :: "active_request list \<Rightarrow> string option \<Rightarrow> theme \<Rightarrow> graph_state" where
  "graph_mount reqs sel th =
     \<lparr>gs_heap = (\<lambda>_. fresh_node [] [] WorkerKind None), gs_next = 0, gs_graphNodes = [], gs_links = [],
      gs_activeRequests = reqs, gs_selectedPubKey = sel, gs_theme = th, gs_width = 0, gs_height = 0,
      gs_view = \<lparr>vw_scale = 1, vw_tx = 0, vw_ty = 0\<rparr>, gs_drag = None, gs_ballRects = [], gs_hoveredBall = None,
      gs_lastZoomAt = 0, gs_zoomActive = False, gs_zoomTimer = False, gs_cursor = [], gs_sim = [], gs_selects = []\<rparr>"

subsection \<open>Merging a new node list\<close>

definition prevById :: "graph_state \<Rightarrow> (string, nat) jmap" where
  "prevById s = fold (\<lambda>r m. jmap_set (gn_id (gs_heap s r)) r m) (gs_graphNodes s) []"

definition node_label :: "node_registration \<Rightarrow> string" where
  "node_label n = str_join '','' (map backend_str (backends n))"

text \<open>The callback of \<open>nodes.map\<close>: an object known by its key is updated in place, another is new.\<close>

definition worker_node :: "(string, nat) jmap \<Rightarrow> node_registration \<Rightarrow> (nat \<Rightarrow> graph_node) \<times> nat \<Rightarrow> nat \<times> (nat \<Rightarrow> graph_node) \<times> nat" where
  "worker_node prev n hf =
     (let (h, f) = hf in
      case jmap_get prev (publicKey n) of
        Some r \<Rightarrow> (r, h(r := (h r)\<lparr>gn_reg := Some n, gn_label := node_label n\<rparr>), f)
      | None \<Rightarrow> (f, h(f := fresh_node (publicKey n) (node_label n) WorkerKind (Some n)), Suc f))"

fun worker_nodes :: "(string, nat) jmap \<Rightarrow> node_registration list \<Rightarrow> (nat \<Rightarrow> graph_node) \<times> nat \<Rightarrow> nat list \<times> (nat \<Rightarrow> graph_node) \<times> nat" where
  "worker_nodes prev [] hf = ([], hf)"
| "worker_nodes prev (n # ns) hf =
     (let (r, hf) = worker_node prev n hf; (rs, hf) = worker_nodes prev ns hf in (r # rs, hf))"

definition client_node :: "(string, nat) jmap \<Rightarrow> (nat \<Rightarrow> graph_node) \<times> nat \<Rightarrow> nat \<times> (nat \<Rightarrow> graph_node) \<times> nat" where
  "client_node prev hf =
     (let (h, f) = hf in
      case jmap_get prev CLIENT_ID of
        Some r \<Rightarrow> (r, h, f)
      | None \<Rightarrow> (f, h(f := (fresh_node CLIENT_ID ''client'' ClientKind None)\<lparr>gn_fx := Some 0, gn_fy := Some 0\<rparr>), Suc f))"

definition reconcile :: "node_registration list \<Rightarrow> graph_state \<Rightarrow> graph_state" where
  "reconcile nodes s =
     (let prev = prevById s;
          (c, hf) = client_node prev (gs_heap s, gs_next s);
          (ws, h, f) = worker_nodes prev nodes hf;
          graphNodes = c # ws;
          links = map (\<lambda>w. \<lparr>gl_source = CLIENT_ID, gl_target = gn_id (h w), gl_active = False\<rparr>) ws;
          topologyChanged = (length graphNodes \<noteq> length (gs_graphNodes s) \<or>
            list_ex (\<lambda>r. jmap_get prev (gn_id (h r)) = None) graphNodes);
          s' = s\<lparr>gs_heap := h, gs_next := f, gs_graphNodes := graphNodes, gs_links := links\<rparr> in
      if gs_sim s = [] then s'\<lparr>gs_sim := [SimCreate graphNodes links]\<rparr>
      else s'\<lparr>gs_sim := gs_sim s @ [SimNodes graphNodes, SimLinks links] @ (if topologyChanged then [SimAlphaRestart (3 / 10)] else [])\<rparr>)"

text \<open>A tick of the simulation gives each node it knows a position.\<close>

definition sim_tick :: "(nat \<Rightarrow> real \<times> real) \<Rightarrow> graph_state \<Rightarrow> graph_state" where
  "sim_tick pos s =
     s\<lparr>gs_heap := (\<lambda>r. if r \<in> set (gs_graphNodes s)
        then (gs_heap s r)\<lparr>gn_x := Some (fst (pos r)), gn_y := Some (snd (pos r))\<rparr> else gs_heap s r)\<rparr>"

subsection \<open>Coordinates and hit tests\<close>

text \<open>A mouse event with the canvas' bounding rectangle at that moment.\<close>

record mouse_event =
  me_button :: int
  me_clientX :: real
  me_clientY :: real
  me_movementX :: real
  me_movementY :: real
  me_rectLeft :: real
  me_rectTop :: real

definition localPos :: "mouse_event \<Rightarrow> real \<times> real" where
  "localPos ev = (me_clientX ev - me_rectLeft ev, me_clientY ev - me_rectTop ev)"

definition canvasToWorld :: "graph_state \<Rightarrow> real \<times> real \<Rightarrow> real \<times> real" where
  "canvasToWorld s m =
     ((fst m - gs_width s / 2 - vw_tx (gs_view s)) / vw_scale (gs_view s),
      (snd m - gs_height s / 2 - vw_ty (gs_view s)) / vw_scale (gs_view s))"

definition node_radius :: "graph_node \<Rightarrow> real" where
  "node_radius n = (if gn_kind n = ClientKind then 22 else 28)"

definition node_hit :: "real \<times> real \<Rightarrow> graph_node \<Rightarrow> bool" where
  "node_hit w n =
     (case (gn_x n, gn_y n) of
        (Some x, Some y) \<Rightarrow> (x - fst w) * (x - fst w) + (y - snd w) * (y - snd w) \<le> node_radius n * node_radius n
      | _ \<Rightarrow> False)"

definition nodeAtWorld :: "graph_state \<Rightarrow> real \<times> real \<Rightarrow> nat option" where
  "nodeAtWorld s w = List.find (\<lambda>r. node_hit w (gs_heap s r)) (rev (gs_graphNodes s))"

definition ballAtWorld :: "graph_state \<Rightarrow> real \<times> real \<Rightarrow> ball option" where
  "ballAtWorld s w =
     List.find (\<lambda>b. (bl_x b - fst w) * (bl_x b - fst w) + (bl_y b - snd w) * (bl_y b - snd w) \<le> (bl_r b + 2) * (bl_r b + 2))
       (gs_ballRects s)"

definition setCursorForHover :: "graph_state \<Rightarrow> graph_state" where
  "setCursorForHover s =
     s\<lparr>gs_cursor := (if gs_drag s \<noteq> None then ''grabbing'' else if gs_hoveredBall s \<noteq> None then ''pointer'' else ''default'')\<rparr>"

subsection \<open>Handlers\<close>

definition pin :: "nat \<Rightarrow> real \<times> real \<Rightarrow> graph_state \<Rightarrow> graph_state" where
  "pin r w s = s\<lparr>gs_heap := (gs_heap s)(r := (gs_heap s r)\<lparr>gn_fx := Some (fst w), gn_fy := Some (snd w)\<rparr>)\<rparr>"

text \<open>The simulation exists once the first node list has been merged.\<close>

definition sim_log :: "sim_call \<Rightarrow> graph_state \<Rightarrow> graph_state" where
  "sim_log c s = (if gs_sim s = [] then s else s\<lparr>gs_sim := gs_sim s @ [c]\<rparr>)"

definition onMouseDown :: "mouse_event \<Rightarrow> graph_state \<Rightarrow> graph_state" where
  "onMouseDown ev s =
     (if me_button ev \<noteq> 0 then s
      else (let w = canvasToWorld s (localPos ev);
                pan = s\<lparr>gs_drag := Some (PanDrag (me_clientX ev) (me_clientY ev) (vw_tx (gs_view s)) (vw_ty (gs_view s)) 0)\<rparr> in
            setCursorForHover
              (case nodeAtWorld s w of
                 Some r \<Rightarrow>
                   if gn_kind (gs_heap s r) = WorkerKind
                   then sim_log (SimAlphaTargetRestart (3 / 10)) ((pin r w s)\<lparr>gs_drag := Some (NodeDrag r 0)\<rparr>)
                   else pan
               | None \<Rightarrow> pan)))"

definition onMouseMove :: "mouse_event \<Rightarrow> graph_state \<Rightarrow> graph_state" where
  "onMouseMove ev s =
     (case gs_drag s of
        Some (NodeDrag r m) \<Rightarrow>
          (pin r (canvasToWorld s (localPos ev)) s)
            \<lparr>gs_drag := Some (NodeDrag r (m + (\<bar>me_movementX ev\<bar> + \<bar>me_movementY ev\<bar>)))\<rparr>
      | Some (PanDrag x y tx ty m) \<Rightarrow>
          (let dx = me_clientX ev - x; dy = me_clientY ev - y in
           s\<lparr>gs_view := (gs_view s)\<lparr>vw_tx := tx + dx, vw_ty := ty + dy\<rparr>,
             gs_drag := Some (PanDrag x y tx ty (\<bar>dx\<bar> + \<bar>dy\<bar>))\<rparr>)
      | None \<Rightarrow>
          setCursorForHover (s\<lparr>gs_hoveredBall :=
            map_option (\<lambda>b. (bl_req b, bl_x b, bl_y b)) (ballAtWorld s (canvasToWorld s (localPos ev)))\<rparr>))"

definition onSelect :: "string option \<Rightarrow> graph_state \<Rightarrow> graph_state" where
  "onSelect k s = s\<lparr>gs_selects := gs_selects s @ [k]\<rparr>"

definition onMouseUp :: "mouse_event \<Rightarrow> graph_state \<Rightarrow> graph_state" where
  "onMouseUp ev s =
     (let s' = s\<lparr>gs_drag := None\<rparr> in
      setCursorForHover
        (case gs_drag s of
           Some (NodeDrag r m) \<Rightarrow>
             (let s' = sim_log (SimAlphaTarget 0) s' in
              if m \<le> DRAG_CLICK_THRESHOLD_PX \<and> gn_kind (gs_heap s' r) = WorkerKind
              then onSelect (Some (gn_id (gs_heap s' r))) s' else s')
         | Some (PanDrag _ _ _ _ m) \<Rightarrow>
             if m \<le> DRAG_CLICK_THRESHOLD_PX \<and> ballAtWorld s' (canvasToWorld s' (localPos ev)) = None
             then onSelect None s' else s'
         | None \<Rightarrow> s'))"

definition onMouseLeave :: "graph_state \<Rightarrow> graph_state" where
  "onMouseLeave s =
     (let s = s\<lparr>gs_hoveredBall := None\<rparr> in if gs_drag s = None then s\<lparr>gs_cursor := ''default''\<rparr> else s)"

text \<open>The timer is the one timeout outstanding; it clears the flag when it fires.\<close>

definition markZoomActive :: "graph_state \<Rightarrow> graph_state" where
  "markZoomActive s = s\<lparr>gs_zoomActive := True, gs_zoomTimer := True\<rparr>"

definition zoomTimerFires :: "graph_state \<Rightarrow> graph_state" where
  "zoomTimerFires s = (if gs_zoomTimer s then s\<lparr>gs_zoomActive := False, gs_zoomTimer := False\<rparr> else s)"

definition onWheel :: "mouse_event \<Rightarrow> real \<Rightarrow> int \<Rightarrow> graph_state \<Rightarrow> graph_state" where
  "onWheel ev deltaY now s =
     (let (cx, cy) = localPos ev;
          v = gs_view s;
          wx = (cx - gs_width s / 2 - vw_tx v) / vw_scale v;
          wy = (cy - gs_height s / 2 - vw_ty v) / vw_scale v;
          factor = WHEEL_ZOOM_FACTOR powr (- deltaY);
          newScale = clamp (vw_scale v * factor) MIN_SCALE MAX_SCALE;
          s = (if newScale \<noteq> vw_scale v then markZoomActive (s\<lparr>gs_lastZoomAt := now\<rparr>) else s) in
      s\<lparr>gs_view := \<lparr>vw_scale = newScale, vw_tx = cx - gs_width s / 2 - wx * newScale,
                    vw_ty = cy - gs_height s / 2 - wy * newScale\<rparr>\<rparr>)"

definition reset_view :: "int \<Rightarrow> graph_state \<Rightarrow> graph_state" where
  "reset_view now s =
     (let s = markZoomActive (s\<lparr>gs_view := \<lparr>vw_scale = 1, vw_tx = 0, vw_ty = 0\<rparr>, gs_lastZoomAt := now\<rparr>) in
      sim_log (SimAlphaRestart (6 / 10))
        (s\<lparr>gs_heap := (\<lambda>r. if r \<in> set (gs_graphNodes s) \<and> gn_kind (gs_heap s r) = WorkerKind
             then (gs_heap s r)\<lparr>gn_fx := None, gn_fy := None\<rparr> else gs_heap s r)\<rparr>))"

text \<open>The container's size; the backing store of the canvas follows the device pixel ratio.\<close>

definition resize :: "real \<Rightarrow> real \<Rightarrow> graph_state \<Rightarrow> graph_state" where
  "resize w h s = s\<lparr>gs_width := w, gs_height := h\<rparr>"

text \<open>\<open>canvas.width\<close> and \<open>canvas.height\<close>: \<open>devicePixelRatio || 1\<close> times the size.\<close>

definition backing_size :: "real \<Rightarrow> real \<Rightarrow> real \<Rightarrow> real \<times> real" where
  "backing_size dpr w h = (let d = (if dpr = 0 then 1 else dpr) in (w * d, h * d))"

subsection \<open>One frame\<close>

text \<open>The calls a frame makes on the canvas context; a radial gradient is given with its stops.\<close>

datatype paint = Solid colour | Radial real real real real real real "(rat \<times> colour) list"

datatype draw_op =
    ClearRect real real real real
  | SaveCtx
  | RestoreCtx
  | Translate real real
  | ScaleCtx real real
  | BeginPath
  | MoveTo real real
  | LineTo real real
  | Arc real real real real real
  | RectPath real real real real
  | FillPath
  | StrokePath
  | FillStyle paint
  | StrokeStyle paint
  | LineWidth real
  | GlobalAlpha real
  | SetFont string
  | TextAlign string
  | TextBaseline string
  | FillText string real real

definition mono_font :: "string \<Rightarrow> string" where
  "mono_font px = px @ '' SF Mono, Geist Mono, ui-monospace, monospace''"

definition times_sign :: string where
  "times_sign = [char_of (195::nat), char_of (151::nat)]"

definition active_urls :: "graph_state \<Rightarrow> string list" where
  "active_urls s = map ar_nodeUrl (gs_activeRequests s)"

definition node_active :: "graph_state \<Rightarrow> graph_node \<Rightarrow> bool" where
  "node_active s n = (case gn_reg n of None \<Rightarrow> False | Some r \<Rightarrow> url r \<in> set (active_urls s))"

definition nodeByUrl :: "graph_state \<Rightarrow> (string, nat) jmap" where
  "nodeByUrl s =
     fold (\<lambda>r m. case (gn_kind (gs_heap s r), gn_reg (gs_heap s r)) of
             (WorkerKind, Some reg) \<Rightarrow> jmap_set (url reg) r m
           | _ \<Rightarrow> m) (gs_graphNodes s) []"

definition clientNode :: "graph_state \<Rightarrow> nat option" where
  "clientNode s = List.find (\<lambda>r. gn_kind (gs_heap s r) = ClientKind) (gs_graphNodes s)"

definition position :: "graph_node \<Rightarrow> (real \<times> real) option" where
  "position n = (case (gn_x n, gn_y n) of (Some x, Some y) \<Rightarrow> Some (x, y) | _ \<Rightarrow> None)"

definition draw_edge :: "(graph_link \<Rightarrow> nat \<times> nat) \<Rightarrow> graph_state \<Rightarrow> graph_link \<Rightarrow> draw_op list" where
  "draw_edge ends s l =
     (let t = CANVAS_THEMES (gs_theme s); src = gs_heap s (fst (ends l)); tgt = gs_heap s (snd (ends l)) in
      case (position src, position tgt) of
        (Some a, Some b) \<Rightarrow>
          (let active = node_active s tgt in
           [BeginPath, MoveTo (fst a) (snd a), LineTo (fst b) (snd b),
            StrokeStyle (Solid (Rgba (edgeRgb t) (if active then edgeActiveAlpha t else edgeIdleAlpha t))),
            LineWidth ((if active then 16 / 10 else 1) / vw_scale (gs_view s)), StrokePath])
      | _ \<Rightarrow> [])"

definition ball_colour :: "canvas_theme \<Rightarrow> active_request \<Rightarrow> string" where
  "ball_colour t req =
     (if ar_kind req = ToolCallKind then toolCallColor t
      else if ar_status req = Reported Error then ''#ff5566''
      else if ar_status req = Reported WaitingTool then ''#ffbb44''
      else if ar_status req = Reported Final then ''#66ffaa''
      else ''#66ccff'')"

text \<open>A request's ball, when its node and the client have positions and it has not faded.\<close>

definition ball_of :: "graph_state \<Rightarrow> int \<Rightarrow> active_request \<Rightarrow> ball option" where
  "ball_of s now req =
     (case (Option.bind (clientNode s) (\<lambda>r. position (gs_heap s r)),
            Option.bind (jmap_get (nodeByUrl s) (ar_nodeUrl req)) (\<lambda>r. position (gs_heap s r))) of
        (Some c, Some t) \<Rightarrow>
          (let (p, alpha) = requestProgress req now;
               from = (if ar_kind req = RequestKind then c else t);
               dest = (if ar_kind req = RequestKind then t else c) in
           if alpha \<le> 0 then None
           else Some \<lparr>bl_x = fst from + (fst dest - fst from) * p, bl_y = snd from + (snd dest - snd from) * p,
                      bl_r = 10, bl_req = req, bl_alpha = alpha\<rparr>)
      | _ \<Rightarrow> None)"

definition frame_balls :: "graph_state \<Rightarrow> int \<Rightarrow> ball list" where
  "frame_balls s now = List.map_filter (ball_of s now) (gs_activeRequests s)"

definition draw_ball :: "canvas_theme \<Rightarrow> ball \<Rightarrow> draw_op list" where
  "draw_ball t b =
     (let x = bl_x b; y = bl_y b; colour = ball_colour t (bl_req b) in
      [GlobalAlpha (bl_alpha b * (1 / 2)),
       FillStyle (Radial x y 0 x y 16 [(0, Css colour), (1, Css ''rgba(0,0,0,0)'')]),
       BeginPath, Arc x y 16 0 (pi * 2), FillPath,
       GlobalAlpha (bl_alpha b), BeginPath, Arc x y 5 0 (pi * 2), FillStyle (Solid (Css colour)), FillPath, GlobalAlpha 1])"

definition draw_node :: "graph_state \<Rightarrow> graph_node \<Rightarrow> draw_op list" where
  "draw_node s n =
     (case position n of
        None \<Rightarrow> []
      | Some (x, y) \<Rightarrow>
          (let t = CANVAS_THEMES (gs_theme s);
               isClient = (gn_kind n = ClientKind);
               isActive = node_active s n;
               isSelected = (gs_selectedPubKey s = Some (gn_id n));
               radius = node_radius n;
               glowAlpha = (if isActive then 6 / 10 else if isSelected then 45 / 100 else 22 / 100);
               glowRgb = (if isClient then glowClientRgb t else if isActive then glowActiveRgb t else glowWorkerRgb t) in
           [FillStyle (Radial x y 0 x y (radius * (24 / 10)) [(0, Rgba glowRgb glowAlpha), (1, Rgba glowRgb 0)]),
            BeginPath, Arc x y (radius * (24 / 10)) 0 (pi * 2), FillPath,
            BeginPath, Arc x y radius 0 (pi * 2),
            FillStyle (Solid (Css (if isClient then nodeFillClient t else if isActive then nodeFillActive t else nodeFillWorker t))),
            FillPath,
            StrokeStyle (Solid (Css (if isClient then nodeStrokeClient t else if isActive then nodeStrokeActive t
              else if isSelected then nodeStrokeSelected t else nodeStrokeWorker t))),
            LineWidth ((if isSelected then 25 / 10 else 15 / 10) / vw_scale (gs_view s)), StrokePath,
            FillStyle (Solid (Css (nodeText t))), SetFont (mono_font ''11px''), TextAlign ''center'',
            FillText (gn_label n) x (y + radius + 16)] @
           (case gn_reg n of
              None \<Rightarrow> []
            | Some r \<Rightarrow> [FillStyle (Solid (Css (nodeSubText t))), SetFont (mono_font ''9px''),
                FillText (str_slice 0 8 (publicKey r) @ ellipsis) x (y + radius + 30)])))"

definition to_screen :: "graph_state \<Rightarrow> real \<times> real \<Rightarrow> real \<times> real" where
  "to_screen s w =
     (gs_width s / 2 + vw_tx (gs_view s) + fst w * vw_scale (gs_view s),
      gs_height s / 2 + vw_ty (gs_view s) + snd w * vw_scale (gs_view s))"

definition label_hidden :: "graph_state \<Rightarrow> ball \<Rightarrow> bool" where
  "label_hidden s b =
     (case gs_hoveredBall s of
        None \<Rightarrow> False
      | Some (req, _, _) \<Rightarrow> ar_sessionId req = ar_sessionId (bl_req b) \<and> ar_kind req = ar_kind (bl_req b))"

text \<open>Where a label's box goes, for a text of width \<open>tw\<close>: kept off the canvas' edges.\<close>

definition label_pos :: "graph_state \<Rightarrow> real \<Rightarrow> ball \<Rightarrow> real \<times> real" where
  "label_pos s tw b =
     (let (sx, sy) = to_screen s (bl_x b, bl_y b);
          labelW = tw + 5 * 2; labelH = 16; offsetX = 10;
          lx = sx + offsetX;
          ly = sy - labelH / 2;
          lx = (if lx + labelW > gs_width s - 4 then sx - offsetX - labelW else lx);
          ly = (if ly < 4 then 4 else ly);
          ly = (if ly + labelH > gs_height s - 4 then gs_height s - 4 - labelH else ly) in
      (lx, ly))"

definition draw_label :: "(string \<Rightarrow> string \<Rightarrow> real) \<Rightarrow> graph_state \<Rightarrow> ball \<Rightarrow> draw_op list" where
  "draw_label widths s b =
     (if label_hidden s b then []
      else (let t = CANVAS_THEMES (gs_theme s);
                tw = widths (mono_font ''10px'') (ar_label (bl_req b));
                (lx, ly) = label_pos s tw b in
            [GlobalAlpha (bl_alpha b), FillStyle (Solid (Css (labelBg t))), StrokeStyle (Solid (Css (labelBorder t))), LineWidth 1,
             BeginPath, RectPath lx ly (tw + 5 * 2) 16, FillPath, StrokePath,
             FillStyle (Solid (Css (panelText t))), TextAlign ''left'', TextBaseline ''middle'',
             FillText (ar_label (bl_req b)) (lx + 5) (ly + 16 / 2), GlobalAlpha 1]))"

definition tooltip_lines :: "active_request \<Rightarrow> int \<Rightarrow> string list" where
  "tooltip_lines req now =
     (let elapsed = (case ar_endedAt req of None \<Rightarrow> now | Some e \<Rightarrow> e) - ar_startedAt req in
      [str_slice 0 8 (ar_sessionId req) @ ellipsis,
       source_str (ar_source req) @ '' '' @ middle_dot @ '' '' @ backend_str (ar_backend req),
       statusLabel (ar_status req) @ '' '' @ middle_dot @ '' '' @ humanElapsed elapsed] @
      (case truthy_str (ar_lastToolName req) of None \<Rightarrow> [] | Some n \<Rightarrow> [''tool: '' @ n]))"

definition draw_tooltip :: "(string \<Rightarrow> string \<Rightarrow> real) \<Rightarrow> graph_state \<Rightarrow> int \<Rightarrow> draw_op list" where
  "draw_tooltip widths s now =
     (case gs_hoveredBall s of
        None \<Rightarrow> []
      | Some (req, wx, wy) \<Rightarrow>
          (let t = CANVAS_THEMES (gs_theme s);
               (sx, sy) = to_screen s (wx, wy);
               lines = tooltip_lines req now;
               pad = 6; lineH = 14;
               w = Max (set (map (widths (mono_font ''10px'')) lines)) + pad * 2;
               h = lineH * of_nat (length lines) + pad * 2 - 4;
               tx = (if sx + 12 + w > gs_width s - 6 then sx - w - 12 else sx + 12);
               ty = (if sy - h - 10 < 6 then sy + 16 else sy - h - 10) in
           [SetFont (mono_font ''10px''), FillStyle (Solid (Css (panelBg t))), StrokeStyle (Solid (Css (panelBorder t))), LineWidth 1,
            BeginPath, RectPath tx ty w h, FillPath, StrokePath,
            FillStyle (Solid (Css (panelText t))), TextAlign ''left''] @
           map (\<lambda>(i, l). FillText l (tx + pad) (ty + pad + lineH * (of_nat i + 1) - 4)) (enumerate 0 lines)))"

definition draw_zoom :: "(string \<Rightarrow> string \<Rightarrow> real) \<Rightarrow> graph_state \<Rightarrow> int \<Rightarrow> draw_op list" where
  "draw_zoom widths s now =
     (let t = CANVAS_THEMES (gs_theme s);
          sinceZoom = now - gs_lastZoomAt s;
          total = ZOOM_INDICATOR_HOLD_MS + ZOOM_INDICATOR_FADE_MS in
      if gs_lastZoomAt s > 0 \<and> sinceZoom < total then
        (let alpha = (if sinceZoom < ZOOM_INDICATOR_HOLD_MS then 1
                      else max 0 (1 - of_int (sinceZoom - ZOOM_INDICATOR_HOLD_MS) / of_int ZOOM_INDICATOR_FADE_MS));
             text = to_fixed 2 (vw_scale (gs_view s)) @ times_sign;
             tw = widths (mono_font ''12px'') text;
             boxW = tw + 12 * 2; boxH = 26; boxX = (gs_width s - boxW) / 2; boxY = 12 in
         [SetFont (mono_font ''12px''), GlobalAlpha alpha, FillStyle (Solid (Css (indicatorPanel t))),
          StrokeStyle (Solid (Css (indicatorBorder t))), LineWidth 1,
          BeginPath, RectPath boxX boxY boxW boxH, FillPath, StrokePath,
          FillStyle (Solid (Css (panelText t))), TextAlign ''center'', TextBaseline ''middle'',
          FillText text (boxX + boxW / 2) (boxY + boxH / 2), TextBaseline ''alphabetic'', GlobalAlpha 1])
      else [])"

text \<open>A whole frame: the calls in the order of the code, and the hit rectangles it leaves.\<close>

definition draw :: "(string \<Rightarrow> string \<Rightarrow> real) \<Rightarrow> (graph_link \<Rightarrow> nat \<times> nat) \<Rightarrow> int \<Rightarrow> graph_state \<Rightarrow> draw_op list \<times> graph_state" where
  "draw widths ends now s =
     (let t = CANVAS_THEMES (gs_theme s); v = gs_view s;
          balls = frame_balls s now;
          s' = s\<lparr>gs_ballRects := balls\<rparr> in
      ([ClearRect 0 0 (gs_width s) (gs_height s), SaveCtx,
        Translate (gs_width s / 2 + vw_tx v) (gs_height s / 2 + vw_ty v), ScaleCtx (vw_scale v) (vw_scale v)] @
       concat (map (draw_edge ends s) (gs_links s)) @
       concat (map (draw_ball t) balls) @
       concat (map (\<lambda>r. draw_node s (gs_heap s r)) (gs_graphNodes s)) @
       [RestoreCtx, SetFont (mono_font ''10px'')] @
       concat (map (draw_label widths s) balls) @
       [TextBaseline ''alphabetic''] @
       draw_tooltip widths s now @
       draw_zoom widths s now, s'))"

subsection \<open>Events\<close>

datatype graph_event =
    NodesChanged "node_registration list"
  | RequestsChanged "active_request list"
  | SelectionChanged "string option"
  | ThemeChanged theme
  | Resized real real
  | SimTick "nat \<Rightarrow> real \<times> real"
  | Frame int
  | MouseDown mouse_event
  | MouseMove mouse_event
  | MouseUp mouse_event
  | MouseLeave
  | Wheel mouse_event real int
  | ResetClicked int
  | ZoomTimer

fun graph_step :: "graph_event \<Rightarrow> graph_state \<Rightarrow> graph_state" where
  "graph_step (NodesChanged ns) s = reconcile ns s"
| "graph_step (RequestsChanged rs) s = s\<lparr>gs_activeRequests := rs\<rparr>"
| "graph_step (SelectionChanged k) s = s\<lparr>gs_selectedPubKey := k\<rparr>"
| "graph_step (ThemeChanged t) s = s\<lparr>gs_theme := t\<rparr>"
| "graph_step (Resized w h) s = resize w h s"
| "graph_step (SimTick pos) s = sim_tick pos s"
| "graph_step (Frame now) s = s\<lparr>gs_ballRects := frame_balls s now\<rparr>"
| "graph_step (MouseDown ev) s = onMouseDown ev s"
| "graph_step (MouseMove ev) s = onMouseMove ev s"
| "graph_step (MouseUp ev) s = onMouseUp ev s"
| "graph_step MouseLeave s = onMouseLeave s"
| "graph_step (Wheel ev d now) s = onWheel ev d now s"
| "graph_step (ResetClicked now) s = reset_view now s"
| "graph_step ZoomTimer s = zoomTimerFires s"

definition graph_run :: "graph_event list \<Rightarrow> graph_state \<Rightarrow> graph_state" where
  "graph_run evs s = fold graph_step evs s"

lemma draw_step: "snd (draw widths ends now s) = graph_step (Frame now) s"
  by (simp add: draw_def Let_def)

subsection \<open>Objects keep their identity\<close>

text \<open>What no handler changes of a node object once it is allocated.\<close>

definition keeps_ids :: "nat \<Rightarrow> (nat \<Rightarrow> graph_node) \<Rightarrow> (nat \<Rightarrow> graph_node) \<Rightarrow> bool" where
  "keeps_ids f h h' \<longleftrightarrow> (\<forall>r<f. gn_id (h' r) = gn_id (h r) \<and> gn_kind (h' r) = gn_kind (h r))"

lemma keeps_ids_refl [simp]: "keeps_ids f h h"
  by (simp add: keeps_ids_def)

lemma keeps_ids_trans: "keeps_ids f h h' \<Longrightarrow> keeps_ids f' h' h'' \<Longrightarrow> f \<le> f' \<Longrightarrow> keeps_ids f h h''"
  by (simp add: keeps_ids_def)

lemma position_simps [simp]:
  "position (n\<lparr>gn_reg := r, gn_label := l\<rparr>) = position n"
  "position (n\<lparr>gn_fx := a, gn_fy := b\<rparr>) = position n"
  "position (n\<lparr>gn_x := Some x, gn_y := Some y\<rparr>) = Some (x, y)"
  "position (fresh_node i l k r) = None"
  by (simp_all add: position_def fresh_node_def)

lemma fresh_node_simps [simp]:
  "gn_id (fresh_node i l k r) = i" "gn_label (fresh_node i l k r) = l" "gn_kind (fresh_node i l k r) = k"
  "gn_reg (fresh_node i l k r) = r" "gn_fx (fresh_node i l k r) = None" "gn_fy (fresh_node i l k r) = None"
  by (simp_all add: fresh_node_def)

text \<open>What merging a node list keeps besides: position and pin of every known object.\<close>

definition keeps_place :: "nat \<Rightarrow> (nat \<Rightarrow> graph_node) \<Rightarrow> (nat \<Rightarrow> graph_node) \<Rightarrow> bool" where
  "keeps_place f h h' \<longleftrightarrow> (\<forall>r<f. position (h' r) = position (h r) \<and> gn_fx (h' r) = gn_fx (h r) \<and> gn_fy (h' r) = gn_fy (h r))"

lemma keeps_place_trans: "keeps_place f h h' \<Longrightarrow> keeps_place f' h' h'' \<Longrightarrow> f \<le> f' \<Longrightarrow> keeps_place f h h''"
  by (simp add: keeps_place_def)

text \<open>A key map whose references are allocated objects with that key.\<close>

definition keyed :: "(string, nat) jmap \<Rightarrow> (nat \<Rightarrow> graph_node) \<Rightarrow> nat \<Rightarrow> bool" where
  "keyed prev h f \<longleftrightarrow> (\<forall>k r. jmap_get prev k = Some r \<longrightarrow> r < f \<and> gn_id (h r) = k)"

lemma keyed_mono: "keyed prev h f \<Longrightarrow> keeps_ids f h h' \<Longrightarrow> f \<le> f' \<Longrightarrow> keyed prev h' f'"
  by (fastforce simp: keyed_def keeps_ids_def)

lemma worker_node_keeps:
  assumes "worker_node prev n (h, f) = (r, h', f')" "keyed prev h f"
  shows "f \<le> f' \<and> keeps_ids f h h' \<and> keeps_place f h h' \<and> r < f' \<and> gn_id (h' r) = publicKey n \<and>
    gn_reg (h' r) = Some n \<and> gn_label (h' r) = node_label n \<and> (\<forall>q. q \<noteq> r \<longrightarrow> h' q = h q) \<and>
    (case jmap_get prev (publicKey n) of
       Some q \<Rightarrow> r = q \<and> gn_kind (h' r) = gn_kind (h r)
     | None \<Rightarrow> r = f \<and> gn_kind (h' r) = WorkerKind \<and> position (h' r) = None \<and> gn_fx (h' r) = None \<and> gn_fy (h' r) = None)"
proof (cases "jmap_get prev (publicKey n)")
  case None
  with assms show ?thesis by (auto simp: worker_node_def keeps_ids_def keeps_place_def)
next
  case (Some q)
  moreover from this assms(2) have "q < f" "gn_id (h q) = publicKey n" by (auto simp: keyed_def)
  ultimately show ?thesis using assms(1)
    by (auto simp: worker_node_def keeps_ids_def keeps_place_def)
qed

lemma worker_nodes_keeps:
  "worker_nodes prev ns (h, f) = (rs, h', f') \<Longrightarrow> keyed prev h f \<Longrightarrow>
   f \<le> f' \<and> keeps_ids f h h' \<and> keeps_place f h h' \<and> list_all (\<lambda>r. r < f') rs \<and>
   map (\<lambda>r. gn_id (h' r)) rs = map publicKey ns"
proof (induction ns arbitrary: h f rs)
  case Nil
  then show ?case by (auto simp: keeps_place_def)
next
  case (Cons n ns)
  obtain r h1 f1 where w: "worker_node prev n (h, f) = (r, h1, f1)" by (metis prod_cases3)
  obtain rs' where ws: "worker_nodes prev ns (h1, f1) = (rs', h', f')" and rs: "rs = r # rs'"
    using Cons.prems(1) by (auto simp: w split: prod.splits)
  note k = worker_node_keeps [OF w Cons.prems(2)]
  have "keyed prev h1 f1" using keyed_mono [OF Cons.prems(2)] k by blast
  from Cons.IH [OF ws this] k show ?case
    by (auto simp: rs keeps_ids_def keeps_place_def)
qed

lemma keyed_fold:
  "jmap_get (fold (\<lambda>r m. jmap_set (g r) r m) rs m) k =
     (case filter (\<lambda>r. g r = k) rs of [] \<Rightarrow> jmap_get m k | q # qs \<Rightarrow> Some (last (q # qs)))"
  by (induction rs arbitrary: m) (auto simp: jm.lookup_put split: list.splits)

lemma prevById_get:
  "jmap_get (prevById s) k =
     (case filter (\<lambda>r. gn_id (gs_heap s r) = k) (gs_graphNodes s) of [] \<Rightarrow> None | q # qs \<Rightarrow> Some (last (q # qs)))"
  unfolding prevById_def keyed_fold [where g = "\<lambda>r. gn_id (gs_heap s r)"] by (simp add: jmap_get_def cong: list.case_cong)

lemma prevById_None: "jmap_get (prevById s) k = None \<longleftrightarrow> k \<notin> (\<lambda>r. gn_id (gs_heap s r)) ` set (gs_graphNodes s)"
proof -
  have "jmap_get (prevById s) k = None \<longleftrightarrow> filter (\<lambda>r. gn_id (gs_heap s r) = k) (gs_graphNodes s) = []"
    by (simp add: prevById_get split: list.split)
  then show ?thesis by (auto simp: filter_empty_conv)
qed

lemma prevById_Some:
  assumes "jmap_get (prevById s) k = Some r"
  shows "r \<in> set (gs_graphNodes s) \<and> gn_id (gs_heap s r) = k"
proof -
  obtain q qs where f: "filter (\<lambda>r. gn_id (gs_heap s r) = k) (gs_graphNodes s) = q # qs" and r: "r = last (q # qs)"
    using assms by (auto simp: prevById_get split: list.splits)
  then have "r \<in> set (filter (\<lambda>r. gn_id (gs_heap s r) = k) (gs_graphNodes s))"
    by (metis last_in_set list.distinct(1))
  then show ?thesis by simp
qed

subsection \<open>Invariant\<close>

text \<open>Every reference is allocated, what is dragged is a worker, and the zoom is in range.\<close>

definition drag_ok :: "graph_state \<Rightarrow> bool" where
  "drag_ok s = (case gs_drag s of Some (NodeDrag r _) \<Rightarrow> r < gs_next s \<and> gn_kind (gs_heap s r) = WorkerKind | _ \<Rightarrow> True)"

definition graph_inv :: "graph_state \<Rightarrow> bool" where
  "graph_inv s \<longleftrightarrow> list_all (\<lambda>r. r < gs_next s) (gs_graphNodes s) \<and> drag_ok s \<and>
     MIN_SCALE \<le> vw_scale (gs_view s) \<and> vw_scale (gs_view s) \<le> MAX_SCALE"

lemma clamp_bounds: "lo \<le> hi \<Longrightarrow> lo \<le> clamp v lo hi \<and> clamp v lo hi \<le> hi"
  by (simp add: clamp_def)

lemma scale_pos: "graph_inv s \<Longrightarrow> 0 < vw_scale (gs_view s)"
  by (simp add: graph_inv_def MIN_SCALE_def)

lemma reconcile_raw:
  assumes "list_all (\<lambda>r. r < gs_next s) (gs_graphNodes s)"
  obtains c h1 f1 ws where
    "client_node (prevById s) (gs_heap s, gs_next s) = (c, h1, f1)"
    "worker_nodes (prevById s) ns (h1, f1) = (ws, gs_heap (reconcile ns s), gs_next (reconcile ns s))"
    "gs_graphNodes (reconcile ns s) = c # ws" "keyed (prevById s) h1 f1" "gs_next s \<le> f1" "gn_id (h1 c) = CLIENT_ID"
    "keeps_ids (gs_next s) (gs_heap s) h1" "keeps_place (gs_next s) (gs_heap s) h1" "c < f1" "jmap_get (prevById s) CLIENT_ID \<in> {None, Some c}"
proof -
  let ?prev = "prevById s"
  have k0: "keyed ?prev (gs_heap s) (gs_next s)"
    using assms prevById_Some by (fastforce simp: keyed_def list_all_iff)
  obtain c h1 f1 where c: "client_node ?prev (gs_heap s, gs_next s) = (c, h1, f1)" by (metis prod_cases3)
  obtain ws h f where ws: "worker_nodes ?prev ns (h1, f1) = (ws, h, f)" by (metis prod_cases3)
  have one: "gs_next s \<le> f1 \<and> keeps_ids (gs_next s) (gs_heap s) h1 \<and> keeps_place (gs_next s) (gs_heap s) h1 \<and>
      c < f1 \<and> gn_id (h1 c) = CLIENT_ID \<and> jmap_get ?prev CLIENT_ID \<in> {None, Some c}"
    using c k0 by (auto simp: client_node_def keeps_ids_def keeps_place_def keyed_def split: option.splits)
  have "gs_graphNodes (reconcile ns s) = c # ws" "gs_heap (reconcile ns s) = h" "gs_next (reconcile ns s) = f"
    by (simp_all add: reconcile_def Let_def c ws)
  then show ?thesis using that [OF c] ws one keyed_mono [OF k0] by blast
qed

text \<open>What a merge leaves, in terms of the client's and the workers' references.\<close>

lemma reconcile_shape:
  assumes "list_all (\<lambda>r. r < gs_next s) (gs_graphNodes s)"
  shows "gs_next s \<le> gs_next (reconcile ns s) \<and> keeps_ids (gs_next s) (gs_heap s) (gs_heap (reconcile ns s)) \<and>
    list_all (\<lambda>r. r < gs_next (reconcile ns s)) (gs_graphNodes (reconcile ns s))"
proof -
  obtain c h1 f1 ws where
    ws: "worker_nodes (prevById s) ns (h1, f1) = (ws, gs_heap (reconcile ns s), gs_next (reconcile ns s))" and
    gn: "gs_graphNodes (reconcile ns s) = c # ws" and k1: "keyed (prevById s) h1 f1" and
    c: "gs_next s \<le> f1" "c < f1" "keeps_ids (gs_next s) (gs_heap s) h1"
    by (rule reconcile_raw [OF assms, of ns]) blast
  with worker_nodes_keeps [OF ws k1] show ?thesis
    by (auto simp: gn intro: keeps_ids_trans)
qed

lemma reconcile_view [simp]:
  "gs_view (reconcile ns s) = gs_view s" "gs_drag (reconcile ns s) = gs_drag s" "gs_selects (reconcile ns s) = gs_selects s"
  by (simp_all add: reconcile_def Let_def split: prod.split)

lemma setCursor_simps [simp]:
  "gs_heap (setCursorForHover s) = gs_heap s" "gs_next (setCursorForHover s) = gs_next s"
  "gs_graphNodes (setCursorForHover s) = gs_graphNodes s" "gs_view (setCursorForHover s) = gs_view s"
  "gs_drag (setCursorForHover s) = gs_drag s" "gs_selects (setCursorForHover s) = gs_selects s"
  by (simp_all add: setCursorForHover_def)

lemma sim_log_simps [simp]:
  "gs_heap (sim_log c s) = gs_heap s" "gs_next (sim_log c s) = gs_next s"
  "gs_graphNodes (sim_log c s) = gs_graphNodes s" "gs_view (sim_log c s) = gs_view s"
  "gs_drag (sim_log c s) = gs_drag s" "gs_selects (sim_log c s) = gs_selects s"
  by (simp_all add: sim_log_def)

lemma nodeAtWorld_mem: "nodeAtWorld s w = Some r \<Longrightarrow> r \<in> set (gs_graphNodes s)"
  unfolding nodeAtWorld_def find_Some_iff by (metis length_rev nth_mem set_rev)

text \<open>No event changes the id or kind of an allocated object, or forgets one.\<close>

lemma step_keeps:
  assumes "list_all (\<lambda>r. r < gs_next s) (gs_graphNodes s)"
  shows "gs_next s \<le> gs_next (graph_step e s) \<and> keeps_ids (gs_next s) (gs_heap s) (gs_heap (graph_step e s)) \<and>
    list_all (\<lambda>r. r < gs_next (graph_step e s)) (gs_graphNodes (graph_step e s))"
proof (cases e)
  case (NodesChanged ns)
  with reconcile_shape [OF assms, of ns] show ?thesis by simp
qed (use assms in \<open>auto simp: keeps_ids_def sim_tick_def onMouseDown_def pin_def Let_def onMouseMove_def onMouseUp_def
  onSelect_def onMouseLeave_def onWheel_def markZoomActive_def reset_view_def zoomTimerFires_def resize_def
  split: option.splits drag.splits prod.splits if_splits\<close>)

lemma step_drag_ok:
  assumes "graph_inv s"
  shows "drag_ok (graph_step e s)"
proof -
  have wf: "list_all (\<lambda>r. r < gs_next s) (gs_graphNodes s)" and d: "drag_ok s"
    using assms by (simp_all add: graph_inv_def)
  note k = step_keeps [OF wf, of e]
  show ?thesis
  proof (cases "gs_drag (graph_step e s) = gs_drag s")
    case True
    with k d show ?thesis by (auto simp: drag_ok_def keeps_ids_def split: option.splits drag.splits)
  next
    case False
    then show ?thesis using k d wf
      by (cases e) (auto simp: drag_ok_def keeps_ids_def sim_tick_def onMouseDown_def pin_def Let_def onMouseMove_def
        onMouseUp_def onSelect_def onMouseLeave_def onWheel_def markZoomActive_def reset_view_def zoomTimerFires_def
        resize_def list_all_iff dest!: nodeAtWorld_mem split: option.splits drag.splits prod.splits if_splits)
  qed
qed

lemma step_scale:
  assumes "graph_inv s"
  shows "MIN_SCALE \<le> vw_scale (gs_view (graph_step e s)) \<and> vw_scale (gs_view (graph_step e s)) \<le> MAX_SCALE"
  using assms
proof (cases e)
  case (Wheel ev d now)
  then show ?thesis
    using clamp_bounds [of MIN_SCALE MAX_SCALE "vw_scale (gs_view s) * WHEEL_ZOOM_FACTOR powr (- d)"]
    by (simp add: onWheel_def Let_def split_def MIN_SCALE_def MAX_SCALE_def)
qed (auto simp: graph_inv_def MIN_SCALE_def MAX_SCALE_def sim_tick_def onMouseDown_def pin_def Let_def onMouseMove_def
  onMouseUp_def onSelect_def onMouseLeave_def markZoomActive_def reset_view_def zoomTimerFires_def resize_def
  split: option.splits drag.splits)

interpretation graph: inv_system "\<lambda>s t. \<exists>e. t = graph_step e s"
  "\<lambda>s. \<exists>reqs sel th. s = graph_mount reqs sel th" graph_inv
proof unfold_locales
  show "graph_inv s" if "\<exists>reqs sel th. s = graph_mount reqs sel th" for s
    using that by (auto simp: graph_inv_def graph_mount_def drag_ok_def MIN_SCALE_def MAX_SCALE_def)
  show "graph_inv t" if "graph_inv s" "\<exists>e. t = graph_step e s" for s t
    using that step_keeps step_drag_ok step_scale unfolding graph_inv_def by blast
qed

lemma graph_run_simps [simp]:
  "graph_run [] s = s" "graph_run (e # es) s = graph_run es (graph_step e s)"
  "graph_run (es @ es') s = graph_run es' (graph_run es s)"
  by (simp_all add: graph_run_def)

lemma graph_run_steps: "rtranclp (\<lambda>s t. \<exists>e. t = graph_step e s) s (graph_run evs s)"
proof (induction evs arbitrary: s)
  case (Cons e evs)
  from Cons.IH [of "graph_step e s"] show ?case
    by (auto intro: converse_rtranclp_into_rtranclp)
qed simp

lemma mounted_inv: "graph_inv (graph_run evs (graph_mount reqs sel th))"
  by (rule graph.reachable_inv [OF _ graph_run_steps]) blast

subsection \<open>Merging by key\<close>

lemma worker_nodes_untouched:
  "worker_nodes prev ns (h, f) = (rs, h', f') \<Longrightarrow> keyed prev h f \<Longrightarrow> q \<notin> set rs \<Longrightarrow> h' q = h q"
proof (induction ns arbitrary: h f rs)
  case (Cons n ns)
  obtain r h1 f1 where w: "worker_node prev n (h, f) = (r, h1, f1)" by (metis prod_cases3)
  obtain rs' where ws: "worker_nodes prev ns (h1, f1) = (rs', h', f')" and rs: "rs = r # rs'"
    using Cons.prems(1) by (auto simp: w split: prod.splits)
  note k = worker_node_keeps [OF w Cons.prems(2)]
  have "keyed prev h1 f1" using keyed_mono [OF Cons.prems(2)] k by blast
  with Cons.IH [OF ws] k Cons.prems(3) show ?case by (simp add: rs)
qed auto

lemma worker_nodes_regs:
  "worker_nodes prev ns (h, f) = (rs, h', f') \<Longrightarrow> keyed prev h f \<Longrightarrow> distinct (map publicKey ns) \<Longrightarrow>
   map (\<lambda>r. (gn_reg (h' r), gn_label (h' r))) rs = map (\<lambda>n. (Some n, node_label n)) ns"
proof (induction ns arbitrary: h f rs)
  case (Cons n ns)
  obtain r h1 f1 where w: "worker_node prev n (h, f) = (r, h1, f1)" by (metis prod_cases3)
  obtain rs' where ws: "worker_nodes prev ns (h1, f1) = (rs', h', f')" and rs: "rs = r # rs'"
    using Cons.prems(1) by (auto simp: w split: prod.splits)
  note k = worker_node_keeps [OF w Cons.prems(2)]
  have k1: "keyed prev h1 f1" using keyed_mono [OF Cons.prems(2)] k by blast
  note ids = worker_nodes_keeps [OF ws k1]
  have "gn_id (h' r) = publicKey n" using ids k by (simp add: keeps_ids_def)
  then have "r \<notin> set rs'" using Cons.prems(3) ids by (metis distinct.simps(2) image_eqI list.map(2) list.set_map)
  with worker_nodes_untouched [OF ws k1] have "h' r = h1 r" by blast
  with Cons.IH [OF ws k1] Cons.prems(3) k show ?case by (simp add: rs)
qed simp

text \<open>A known key gives its object, and what is not a known object is new and unplaced.\<close>

lemma worker_nodes_refs:
  "worker_nodes prev ns (h, f) = (rs, h', f') \<Longrightarrow> keyed prev h f \<Longrightarrow>
   (n \<in> set ns \<and> jmap_get prev (publicKey n) = Some q \<longrightarrow> q \<in> set rs) \<and>
   (q \<in> set rs \<longrightarrow> jmap_get prev (gn_id (h' q)) = Some q \<or> f \<le> q \<and> position (h' q) = None)"
proof (induction ns arbitrary: h f rs)
  case (Cons m ns)
  obtain r h1 f1 where w: "worker_node prev m (h, f) = (r, h1, f1)" by (metis prod_cases3)
  obtain rs' where ws: "worker_nodes prev ns (h1, f1) = (rs', h', f')" and rs: "rs = r # rs'"
    using Cons.prems(1) by (auto simp: w split: prod.splits)
  note k = worker_node_keeps [OF w Cons.prems(2)]
  have k1: "keyed prev h1 f1" using keyed_mono [OF Cons.prems(2)] k by blast
  note ids = worker_nodes_keeps [OF ws k1]
  have r: "gn_id (h' r) = publicKey m" "position (h' r) = position (h1 r)"
    using ids k by (simp_all add: keeps_ids_def keeps_place_def)
  from Cons.IH [OF ws k1] r k show ?case by (auto simp: rs split: option.splits)
qed simp

subsection \<open>Zoom\<close>

lemma screen_world: "0 < vw_scale (gs_view s) \<Longrightarrow> canvasToWorld s (to_screen s w) = w"
  by (cases w) (simp add: canvasToWorld_def to_screen_def field_simps)

lemma world_screen: "0 < vw_scale (gs_view s) \<Longrightarrow> to_screen s (canvasToWorld s m) = m"
  by (cases m) (simp add: canvasToWorld_def to_screen_def field_simps)

lemma onWheel_view:
  assumes "m = localPos ev" "z = clamp (vw_scale (gs_view s) * WHEEL_ZOOM_FACTOR powr (- d)) MIN_SCALE MAX_SCALE"
  shows "gs_view (onWheel ev d now s) =
      \<lparr>vw_scale = z, vw_tx = fst m - gs_width s / 2 - fst (canvasToWorld s m) * z,
       vw_ty = snd m - gs_height s / 2 - snd (canvasToWorld s m) * z\<rparr> \<and>
    gs_width (onWheel ev d now s) = gs_width s \<and> gs_height (onWheel ev d now s) = gs_height s"
  using assms by (simp add: onWheel_def Let_def split_def canvasToWorld_def markZoomActive_def)

lemma wheel_anchor:
  assumes "graph_inv s"
  shows "canvasToWorld (onWheel ev d now s) (localPos ev) = canvasToWorld s (localPos ev)"
proof -
  define z where "z = clamp (vw_scale (gs_view s) * WHEEL_ZOOM_FACTOR powr (- d)) MIN_SCALE MAX_SCALE"
  have "0 < z" using clamp_bounds [of MIN_SCALE MAX_SCALE] by (simp add: z_def MIN_SCALE_def MAX_SCALE_def clamp_def)
  with onWheel_view [OF refl z_def] show ?thesis by (simp add: canvasToWorld_def)
qed

subsection \<open>Drags\<close>

fun no_button :: "graph_event \<Rightarrow> bool" where
  "no_button (MouseDown _) = False"
| "no_button (MouseUp _) = False"
| "no_button _ = True"

fun moved :: "graph_event \<Rightarrow> real" where
  "moved (MouseMove ev) = \<bar>me_movementX ev\<bar> + \<bar>me_movementY ev\<bar>"
| "moved _ = 0"

lemmas handler_defs = sim_tick_def onMouseDown_def pin_def Let_def onMouseMove_def onMouseUp_def onSelect_def
  onMouseLeave_def onWheel_def markZoomActive_def reset_view_def zoomTimerFires_def resize_def

lemma node_drag_step:
  "gs_drag s = Some (NodeDrag r m) \<Longrightarrow> no_button e \<Longrightarrow>
   gs_drag (graph_step e s) = Some (NodeDrag r (m + moved e)) \<and> gs_selects (graph_step e s) = gs_selects s"
  by (cases e) (auto simp: handler_defs split: prod.splits)

lemma node_drag_run:
  "gs_drag s = Some (NodeDrag r m) \<Longrightarrow> list_all no_button evs \<Longrightarrow>
   gs_drag (graph_run evs s) = Some (NodeDrag r (m + sum_list (map moved evs))) \<and> gs_selects (graph_run evs s) = gs_selects s"
proof (induction evs arbitrary: s m)
  case (Cons e evs)
  with node_drag_step [OF Cons.prems(1), of e] Cons.IH [of "graph_step e s" "m + moved e"] show ?case
    by (simp add: add.assoc)
qed simp

lemma pan_drag_step:
  "gs_drag s = Some (PanDrag x y tx ty m) \<Longrightarrow> no_button e \<Longrightarrow>
   (\<exists>m'. gs_drag (graph_step e s) = Some (PanDrag x y tx ty m')) \<and> gs_selects (graph_step e s) = gs_selects s"
  by (cases e) (auto simp: handler_defs split: prod.splits)

lemma pan_drag_run:
  "gs_drag s = Some (PanDrag x y tx ty m) \<Longrightarrow> list_all no_button evs \<Longrightarrow>
   (\<exists>m'. gs_drag (graph_run evs s) = Some (PanDrag x y tx ty m')) \<and> gs_selects (graph_run evs s) = gs_selects s"
proof (induction evs arbitrary: s m)
  case (Cons e evs)
  then obtain m' where "gs_drag (graph_step e s) = Some (PanDrag x y tx ty m')" "gs_selects (graph_step e s) = gs_selects s"
    using pan_drag_step [OF Cons.prems(1), of e] by auto
  with Cons.IH [of "graph_step e s" m'] Cons.prems(2) show ?case by simp
qed simp

lemma run_keeps_ids:
  "graph_inv s \<Longrightarrow> keeps_ids (gs_next s) (gs_heap s) (gs_heap (graph_run evs s)) \<and> gs_next s \<le> gs_next (graph_run evs s)"
proof (induction evs arbitrary: s)
  case (Cons e evs)
  have "graph_inv (graph_step e s)" using graph.step_inv [OF Cons.prems] by blast
  from Cons.IH [OF this] step_keeps [of s e] Cons.prems show ?case
    by (auto simp: graph_inv_def intro: keeps_ids_trans)
qed simp

subsection \<open>Progress\<close>

lemma requestProgress_spec:
  assumes "case ar_endedAt req of None \<Rightarrow> True | Some e \<Rightarrow> e \<le> now" "requestProgress req now = (p, alpha)"
  shows "0 \<le> p \<and> p \<le> 1 \<and> alpha \<le> 1 \<and> (p = 1 \<longleftrightarrow> (\<exists>e. ar_endedAt req = Some e \<and> 500 \<le> now - e)) \<and>
    (alpha \<le> 0 \<longleftrightarrow> (\<exists>e. ar_endedAt req = Some e \<and> 1500 \<le> now - e))"
proof -
  define q where "q = exp (- max 0 (real_of_int (now - ar_startedAt req)) / PROGRESS_TAU_MS)"
  have q: "0 < q" "q \<le> 1" by (simp_all add: q_def PROGRESS_TAU_MS_def)
  show ?thesis
  proof (cases "ar_endedAt req")
    case None
    then have "p = 1 - q" "alpha = 1" using assms(2) by (simp_all add: requestProgress_def Let_def q_def)
    with None q show ?thesis by auto
  next
    case (Some e)
    define snap where "snap = min 1 (real_of_int (now - e) / 500)"
    have s: "0 \<le> snap" "snap \<le> 1" "snap = 1 \<longleftrightarrow> 500 \<le> now - e"
      using assms(1) Some by (auto simp: snap_def min_def)
    have p: "p = 1 - q * (1 - snap)"
      using assms(2) Some by (auto simp: requestProgress_def Let_def algebra_simps snap_def q_def)
    have a: "alpha = (if real_of_int (now - e) \<le> 500 then 1 else max 0 (1 - (real_of_int (now - e) - 500) / 1000))"
      using assms(2) Some by (auto simp: requestProgress_def Let_def COMPLETION_FADE_MS_def)
    have "0 \<le> q * (1 - snap)" "q * (1 - snap) \<le> 1" using q s mult_mono [of q 1 "1 - snap" 1] by auto
    moreover have "p = 1 \<longleftrightarrow> 500 \<le> now - e" using p q s by auto
    moreover have "alpha \<le> 1" "alpha \<le> 0 \<longleftrightarrow> 1500 \<le> now - e" by (auto simp: a)
    ultimately show ?thesis using p Some by auto
  qed
qed

subsection \<open>Properties\<close>

text \<open>Zooming: after any events whatsoever the scale is between 0.3 and 4, and a turn of
  the wheel keeps the world point under the cursor where it is on the screen.\<close>

theorem zoom_anchored:
  "let s = graph_run evs (graph_mount reqs sel th) in
     3 / 10 \<le> vw_scale (gs_view s) \<and> vw_scale (gs_view s) \<le> 4 \<and>
     canvasToWorld (graph_step (Wheel ev d now) s) (localPos ev) = canvasToWorld s (localPos ev) \<and>
     to_screen s (canvasToWorld s (localPos ev)) = localPos ev"
  using mounted_inv [of evs reqs sel th] wheel_anchor world_screen scale_pos
  by (simp add: Let_def graph_inv_def MIN_SCALE_def MAX_SCALE_def)

text \<open>Clicking a node: a press of the main button on a worker selects it at the release, and
  selects nothing when the mouse has travelled more than four pixels in between, whatever
  else happens meanwhile (polls that replace the node list, frames, wheel turns, a resize).\<close>

theorem click_selects:
  assumes "s = graph_run hist (graph_mount reqs sel th)"
    and "me_button ev = 0" "nodeAtWorld s (canvasToWorld s (localPos ev)) = Some r" "gn_kind (gs_heap s r) = WorkerKind"
    and "list_all no_button evs"
  shows "gs_selects (graph_run (MouseDown ev # evs @ [MouseUp up]) s) =
    gs_selects s @ (if sum_list (map moved evs) \<le> 4 then [Some (gn_id (gs_heap s r))] else [])"
proof -
  let ?s1 = "graph_step (MouseDown ev) s" and ?s2 = "graph_run evs (graph_step (MouseDown ev) s)"
  have inv: "graph_inv s" using mounted_inv assms(1) by blast
  have inv1: "graph_inv ?s1" using graph.step_inv [OF inv] by blast
  have r: "r < gs_next s" using nodeAtWorld_mem [OF assms(3)] inv by (simp add: graph_inv_def list_all_iff)
  have "gs_drag ?s1 = Some (NodeDrag r 0)" and sel: "gs_selects ?s1 = gs_selects s"
    using assms by (simp_all add: onMouseDown_def Let_def pin_def)
  note d = node_drag_run [OF this(1) assms(5)]
  have "keeps_ids (gs_next s) (gs_heap s) (gs_heap ?s2)"
    using step_keeps [of s "MouseDown ev"] inv run_keeps_ids [OF inv1, of evs] by (auto simp: graph_inv_def intro: keeps_ids_trans)
  then have "gn_id (gs_heap ?s2 r) = gn_id (gs_heap s r)" "gn_kind (gs_heap ?s2 r) = WorkerKind"
    using r assms(4) by (simp_all add: keeps_ids_def)
  with d sel show ?thesis
    by (simp add: onMouseUp_def Let_def onSelect_def DRAG_CLICK_THRESHOLD_PX_def)
qed

text \<open>Clicking the background: a press beside every worker clears the selection at the
  release exactly when the last reported position is within four pixels (summed over both axes) of the
  press and no ball is under the cursor, so a pan that comes back to where it began counts
  as a click however far it went.\<close>

theorem pan_click_is_displacement:
  assumes "me_button ev = 0"
    and "case nodeAtWorld s (canvasToWorld s (localPos ev)) of None \<Rightarrow> True | Some r \<Rightarrow> gn_kind (gs_heap s r) = ClientKind"
    and "list_all no_button evs"
    and "t = graph_run (MouseDown ev # evs @ [MouseMove mv]) s"
  shows "gs_selects (graph_step (MouseUp up) t) =
    gs_selects s @ (if \<bar>me_clientX mv - me_clientX ev\<bar> + \<bar>me_clientY mv - me_clientY ev\<bar> \<le> 4 \<and>
                       ballAtWorld t (canvasToWorld t (localPos up)) = None then [None] else [])"
proof -
  let ?s1 = "graph_step (MouseDown ev) s"
  have "gs_drag ?s1 = Some (PanDrag (me_clientX ev) (me_clientY ev) (vw_tx (gs_view s)) (vw_ty (gs_view s)) 0)"
    and sel: "gs_selects ?s1 = gs_selects s"
    using assms(1,2) by (auto simp: onMouseDown_def Let_def split: option.splits)
  from pan_drag_run [OF this(1) assms(3)] sel obtain m where
    "gs_drag (graph_run evs ?s1) = Some (PanDrag (me_clientX ev) (me_clientY ev) (vw_tx (gs_view s)) (vw_ty (gs_view s)) m)"
    "gs_selects (graph_run evs ?s1) = gs_selects s" by auto
  then have t: "gs_drag t = Some (PanDrag (me_clientX ev) (me_clientY ev) (vw_tx (gs_view s)) (vw_ty (gs_view s))
      (\<bar>me_clientX mv - me_clientX ev\<bar> + \<bar>me_clientY mv - me_clientY ev\<bar>))" "gs_selects t = gs_selects s"
    by (simp_all add: assms(4) onMouseMove_def Let_def)
  have "ballAtWorld (t\<lparr>gs_drag := None\<rparr>) w = ballAtWorld t w" "canvasToWorld (t\<lparr>gs_drag := None\<rparr>) m' = canvasToWorld t m'" for w m'
    by (simp_all add: ballAtWorld_def canvasToWorld_def)
  with t show ?thesis by (simp add: onMouseUp_def Let_def onSelect_def DRAG_CLICK_THRESHOLD_PX_def)
qed


text \<open>The ball of a request with no end in the future: it is drawn until 1.5 s after the end,
  opaque enough to see, on the segment between the client and the node, and it is at its
  destination from half a second after the end and never before.\<close>

theorem ball_spec:
  assumes "Option.bind (clientNode s) (\<lambda>r. position (gs_heap s r)) = Some c"
    and "Option.bind (jmap_get (nodeByUrl s) (ar_nodeUrl req)) (\<lambda>r. position (gs_heap s r)) = Some t"
    and "case ar_endedAt req of None \<Rightarrow> True | Some e \<Rightarrow> e \<le> now"
  shows "case ball_of s now req of
      None \<Rightarrow> (\<exists>e. ar_endedAt req = Some e \<and> 1500 \<le> now - e)
    | Some b \<Rightarrow> \<not> (\<exists>e. ar_endedAt req = Some e \<and> 1500 \<le> now - e) \<and> 0 < bl_alpha b \<and> bl_alpha b \<le> 1 \<and> bl_req b = req \<and>
        (\<exists>p. 0 \<le> p \<and> p \<le> 1 \<and> (p = 1 \<longleftrightarrow> (\<exists>e. ar_endedAt req = Some e \<and> 500 \<le> now - e)) \<and>
          (bl_x b, bl_y b) =
            (if ar_kind req = RequestKind then (fst c + (fst t - fst c) * p, snd c + (snd t - snd c) * p)
             else (fst t + (fst c - fst t) * p, snd t + (snd c - snd t) * p)))"
proof -
  obtain p alpha where pa: "requestProgress req now = (p, alpha)" by (rule prod.exhaust)
  note spec = requestProgress_spec [OF assms(3) pa]
  show ?thesis
  proof (cases "alpha \<le> 0")
    case True
    with spec show ?thesis by (auto simp: ball_of_def assms(1,2) pa)
  next
    case False
    with spec show ?thesis by (auto simp: ball_of_def assms(1,2) pa Let_def intro!: exI [of _ p])
  qed
qed

text \<open>With an end in the future, which a node whose clock is ahead reports, the ball leaves the
  segment: the progress is \<open>1 - exp (- elapsed / 5000) * (1 + ahead / 500)\<close>, undimmed, and negative
  when the request has run for no longer than the clock is ahead (and under five seconds).\<close>

theorem skewed_clock_ball:
  assumes "ar_endedAt req = Some e" "now < e" "elapsed = max 0 (real_of_int (now - ar_startedAt req))"
  shows "requestProgress req now = (1 - exp (- elapsed / 5000) * (1 + real_of_int (e - now) / 500), 1) \<and>
    (elapsed \<le> real_of_int (e - now) \<and> elapsed \<le> 5000 \<longrightarrow> fst (requestProgress req now) < 0)"
proof -
  have eq: "requestProgress req now = (1 - exp (- elapsed / 5000) * (1 + real_of_int (e - now) / 500), 1)"
  proof -
    let ?q = "exp (- elapsed / 5000)" and ?snap = "real_of_int (now - e) / 500"
    have "min 1 ?snap = ?snap" "real_of_int (now - e) \<le> 500" using assms(2) by simp_all
    then have "requestProgress req now = (1 - ?q + (1 - (1 - ?q)) * ?snap, 1)"
      by (simp only: requestProgress_def Let_def PROGRESS_TAU_MS_def assms(1) option.case if_True flip: assms(3))
    also have "1 - ?q + (1 - (1 - ?q)) * ?snap = 1 - ?q * (1 - ?snap)" by (simp add: right_diff_distrib)
    also have "1 - ?snap = 1 + real_of_int (e - now) / 500" by (simp add: field_simps)
    finally show ?thesis .
  qed
  moreover have "1 < exp (- elapsed / 5000) * (1 + real_of_int (e - now) / 500)"
    if "elapsed \<le> real_of_int (e - now)" "elapsed \<le> 5000"
  proof -
    let ?x = "elapsed / 5000"
    have x: "0 \<le> ?x" "?x \<le> 1" using assms(3) that by simp_all
    have "exp ?x \<le> 1 + ?x + ?x\<^sup>2" using exp_bound [OF x] .
    also have "\<dots> \<le> 1 + 2 * ?x" using x mult_left_le [OF x(2,1)] by (simp add: power2_eq_square)
    also have "\<dots> < 1 + real_of_int (e - now) / 500" using assms(2,3) that by (simp add: field_simps)
    finally show ?thesis by (simp add: exp_minus field_simps)
  qed
  ultimately show ?thesis by auto
qed

subsection \<open>Witnesses\<close>

definition demo_reg :: node_registration where
  "demo_reg = \<lparr>identityPubkey = ''02'', publicKey = ''pk'', url = ''http://n'', backends = [MockTee], maxTokens = 10, pricing = [],
     nr_nonce = [], nr_signature = []\<rparr>"

definition demo_request :: "int option \<Rightarrow> active_request" where
  "demo_request e = \<lparr>ar_nodeUrl = ''http://n'', ar_sessionId = ''s'', ar_backend = MockTee, ar_startedAt = 0, ar_endedAt = e,
     ar_status = Reported Running, ar_lastToolName = None, ar_source = LocalSession, ar_kind = RequestKind, ar_label = ''mock-tee''\<rparr>"

text \<open>A client at the origin and one worker at (100, 0).\<close>

definition demo_hist :: "graph_event list" where
  "demo_hist = [NodesChanged [demo_reg], SimTick (\<lambda>r. if r = 0 then (0, 0) else (100, 0))]"

definition demo_graph :: graph_state where
  "demo_graph = graph_run demo_hist (graph_mount [] None Dark)"

definition demo_mouse :: "real \<Rightarrow> mouse_event" where
  "demo_mouse x = \<lparr>me_button = 0, me_clientX = x, me_clientY = 0, me_movementX = 1, me_movementY = 1, me_rectLeft = 0, me_rectTop = 0\<rparr>"

lemma demo_graph_eq:
  "gs_graphNodes demo_graph = [0, Suc 0]" "gs_view demo_graph = \<lparr>vw_scale = 1, vw_tx = 0, vw_ty = 0\<rparr>"
  "gs_width demo_graph = 0" "gs_height demo_graph = 0" "gs_selects demo_graph = []"
  "gs_heap demo_graph 0 = \<lparr>gn_id = CLIENT_ID, gn_label = ''client'', gn_kind = ClientKind, gn_reg = None,
     gn_x = Some 0, gn_y = Some 0, gn_fx = Some 0, gn_fy = Some 0\<rparr>"
  "gs_heap demo_graph (Suc 0) = \<lparr>gn_id = ''pk'', gn_label = ''mock-tee'', gn_kind = WorkerKind, gn_reg = Some demo_reg,
     gn_x = Some 100, gn_y = Some 0, gn_fx = None, gn_fy = None\<rparr>"
  by (simp_all add: demo_graph_def demo_hist_def graph_mount_def reconcile_def prevById_def client_node_def worker_node_def
    jmap_get_def Let_def sim_tick_def demo_reg_def node_label_def str_join_def fresh_node_def)

theorem click_selects_witness:
  "gs_selects (graph_run (MouseDown (demo_mouse 101) # [Frame 5, MouseMove (demo_mouse 102), NodesChanged []] @ [MouseUp (demo_mouse 102)])
     demo_graph) = [Some ''pk'']"
proof -
  have "nodeAtWorld demo_graph (canvasToWorld demo_graph (localPos (demo_mouse 101))) = Some 1"
    by (simp add: nodeAtWorld_def canvasToWorld_def localPos_def demo_mouse_def demo_graph_eq node_hit_def node_radius_def)
  from click_selects [of demo_graph demo_hist "[]" None Dark "demo_mouse 101" 1
      "[Frame 5, MouseMove (demo_mouse 102), NodesChanged []]", OF demo_graph_def _ this]
  show ?thesis by (simp add: demo_graph_eq demo_mouse_def)
qed

theorem pan_click_is_displacement_witness:
  "gs_selects (graph_step (MouseUp (demo_mouse 300))
     (graph_run (MouseDown (demo_mouse 300) # [MouseMove (demo_mouse 900)] @ [MouseMove (demo_mouse 301)]) demo_graph)) = [None]"
proof -
  have "nodeAtWorld demo_graph (canvasToWorld demo_graph (localPos (demo_mouse 300))) = None"
    by (simp add: nodeAtWorld_def canvasToWorld_def localPos_def demo_mouse_def demo_graph_eq node_hit_def node_radius_def)
  moreover have "gs_ballRects (graph_run [MouseDown (demo_mouse 300), MouseMove (demo_mouse 900), MouseMove (demo_mouse 301)] demo_graph) = []"
    using calculation by (simp add: onMouseDown_def onMouseMove_def Let_def demo_mouse_def setCursorForHover_def)
      (simp add: demo_graph_def demo_hist_def graph_mount_def sim_tick_def reconcile_def Let_def split_def)
  ultimately show ?thesis
    using pan_click_is_displacement [where ev = "demo_mouse 300" and s = demo_graph and evs = "[MouseMove (demo_mouse 900)]"
        and mv = "demo_mouse 301" and up = "demo_mouse 300", OF _ _ _ refl]
    by (simp add: demo_graph_eq demo_mouse_def ballAtWorld_def)
qed


theorem ball_spec_witness:
  "\<exists>b. ball_of demo_graph 900 (demo_request (Some 200)) = Some b \<and> bl_x b = 100 \<and> bl_y b = 0"
proof -
  have c: "Option.bind (clientNode demo_graph) (\<lambda>r. position (gs_heap demo_graph r)) = Some (0, 0)"
    "Option.bind (jmap_get (nodeByUrl demo_graph) (ar_nodeUrl (demo_request (Some 200)))) (\<lambda>r. position (gs_heap demo_graph r)) = Some (100, 0)"
    by (simp_all add: clientNode_def demo_graph_eq position_def nodeByUrl_def demo_request_def demo_reg_def jmap_get_def jmap_set_def)
  from ball_spec [OF c, of 900] show ?thesis by (auto simp: demo_request_def split: option.splits)
qed

theorem skewed_clock_ball_witness:
  "fst (requestProgress (demo_request (Some 11000)) 1000) < 0"
  by (rule skewed_clock_ball [of "demo_request (Some 11000)" 11000 1000 1000, THEN conjunct2, THEN mp]) (simp_all add: demo_request_def)

end
