(* ===== verification/Parsing.thy ===== *)
theory Parsing
  imports Eth
begin

section \<open>Numbers from text\<close>

text \<open>
  JavaScript's \<open>parseFloat\<close> and \<open>parseInt(s, 10)\<close>, which the forms and the command line
  apply to what the user typed: both skip leading white space (the ASCII kinds) and read the
  longest numeric prefix. The facts give back what \<open>toFixed\<close> and decimal strings print.
\<close>

definition is_digit :: "char \<Rightarrow> bool" where
  "is_digit c \<longleftrightarrow> char_digit c \<noteq> None"

definition digit_prefix :: "string \<Rightarrow> string \<times> string" where
  "digit_prefix s = (takeWhile is_digit s, dropWhile is_digit s)"

definition dec_val :: "string \<Rightarrow> nat" where
  "dec_val ds = (case digits_val 0 ds of None \<Rightarrow> 0 | Some n \<Rightarrow> n)"

definition split_sign :: "string \<Rightarrow> bool \<times> string" where
  "split_sign s = (case s of c # cs \<Rightarrow> if c = CHR ''-'' then (True, cs) else if c = CHR ''+'' then (False, cs) else (False, s) | [] \<Rightarrow> (False, []))"

definition js_parse_int :: "string \<Rightarrow> jsnum" where
  "js_parse_int s0 =
     (let (neg, s) = split_sign (dropWhile is_space s0); ds = fst (digit_prefix s) in
      if ds = [] then NaN else Fin ((if neg then - 1 else 1) * of_nat (dec_val ds)))"

text \<open>The scale of an exponent part, when one follows the digits.\<close>

definition exponent_scale :: "string \<Rightarrow> rat" where
  "exponent_scale s =
     (case s of
        c # cs \<Rightarrow>
          if c = CHR ''e'' \<or> c = CHR ''E'' then
            (let (neg, t) = split_sign cs; k = dec_val (fst (digit_prefix t)) in
             if fst (digit_prefix t) = [] then 1 else if neg then 1 / 10 ^ k else 10 ^ k)
          else 1
      | [] \<Rightarrow> 1)"

definition js_parse_float :: "string \<Rightarrow> jsnum" where
  "js_parse_float s0 =
     (let (neg, s) = split_sign (dropWhile is_space s0);
          (whole, rest) = digit_prefix s;
          (frac, rest) = (case rest of c # cs \<Rightarrow> if c = CHR ''.'' then digit_prefix cs else ([], rest) | [] \<Rightarrow> ([], []));
          mantissa = (of_nat (dec_val (whole @ frac)) :: rat) / 10 ^ length frac in
      if take 8 s = ''Infinity'' then (if neg then NegInf else PosInf)
      else if whole = [] \<and> frac = [] then NaN
      else Fin ((if neg then - 1 else 1) * mantissa * exponent_scale rest))"

subsection \<open>Facts\<close>

lemma digit_not_space: "is_digit c \<Longrightarrow> \<not> is_space c \<and> c \<noteq> CHR ''-'' \<and> c \<noteq> CHR ''+'' \<and> c \<noteq> CHR ''.'' \<and> c \<noteq> CHR ''I''"
  by (auto simp: is_digit_def char_digit_def is_space_def Let_def split: if_splits)

lemma split_sign_digits: "ds \<noteq> [] \<Longrightarrow> list_all is_digit ds \<Longrightarrow> split_sign (dropWhile is_space (ds @ r)) = (False, ds @ r)"
  using digit_not_space by (cases ds) (auto simp: split_sign_def)

lemma digit_prefix_all: "list_all is_digit ds \<Longrightarrow> r = [] \<or> \<not> is_digit (hd r) \<Longrightarrow> digit_prefix (ds @ r) = (ds, r)"
  by (cases r) (auto simp: digit_prefix_def list_all_iff takeWhile_append takeWhile_eq_all_conv [THEN iffD2] dropWhile_append)

lemma nat_str_is_digit: "list_all is_digit (nat_str n)"
  using nat_str_digit by (auto simp: list_all_iff is_digit_def)

lemma dec_val_nat_str [simp]: "dec_val (nat_str n) = n"
  by (simp add: dec_val_def digits_val_nat_str)

lemma js_parse_int_nat_str: "js_parse_int (nat_str n) = Fin (of_nat n)"
  using split_sign_digits [OF nat_str_nonempty nat_str_is_digit, of n "[]"] digit_prefix_all [OF nat_str_is_digit, of "[]" n]
  by (simp add: js_parse_int_def)

text \<open>A fraction: digits, a point and digits.\<close>

lemma js_parse_float_fixed:
  assumes "a \<noteq> []" "list_all is_digit a" "list_all is_digit b"
  shows "js_parse_float (a @ CHR ''.'' # b) = Fin (of_nat (dec_val (a @ b)) / 10 ^ length b)"
proof -
  have pre: "digit_prefix (a @ CHR ''.'' # b) = (a, CHR ''.'' # b)"
    using assms by (intro digit_prefix_all) (auto simp: is_digit_def)
  have suf: "digit_prefix b = (b, [])" using digit_prefix_all [OF assms(3), of "[]"] by simp
  have "hd (a @ CHR ''.'' # b) \<noteq> CHR ''I''" using assms digit_not_space by (cases a) auto
  then have inf: "take 8 (a @ CHR ''.'' # b) \<noteq> ''Infinity''" using assms(1) by (cases a) auto
  show ?thesis
    using split_sign_digits [OF assms(1,2), of "CHR ''.'' # b"] assms(1) inf
    by (simp add: js_parse_float_def Let_def pre suf exponent_scale_def)
qed

lemma digits_val_zeros [simp]: "digits_val 0 (replicate k (CHR ''0'') @ ds) = digits_val 0 ds"
  by (induction k) (simp_all add: char_digit_def)

text \<open>Printing with \<open>toFixed\<close> and reading back gives the number rounded to those digits.\<close>

lemma js_parse_float_to_fixed:
  assumes "0 < f" "0 \<le> x"
  shows "js_parse_float (to_fixed f x) = Fin (of_nat (fixed_units f x) / 10 ^ f)"
proof -
  let ?m = "pad_start (f + 1) (CHR ''0'') (nat_str (fixed_units f x))"
  let ?a = "take (length ?m - f) ?m" and ?b = "drop (length ?m - f) ?m"
  have len: "f < length ?m" by (simp add: pad_start_def)
  have dig: "list_all is_digit ?m"
    using nat_str_is_digit by (auto simp: pad_start_def list_all_iff is_digit_def char_digit_def)
  have "to_fixed f x = ?a @ CHR ''.'' # ?b" using assms by (simp add: to_fixed_def to_fixed_abs_def Let_def)
  moreover have "list_all is_digit ?a" "list_all is_digit ?b"
    using dig by (auto simp: list_all_iff dest: in_set_takeD in_set_dropD)
  moreover have "dec_val (?a @ ?b) = fixed_units f x"
    unfolding append_take_drop_id by (simp add: dec_val_def pad_start_def digits_val_nat_str)
  moreover have "?a \<noteq> []" "length ?b = f" using len by auto
  ultimately show ?thesis using js_parse_float_fixed [of ?a ?b] by simp
qed

end
