(* ===== verification/Panels.thy ===== *)
theory Panels
  imports Parsing ChannelHook Graph
begin

section \<open>The panels of the dashboard\<close>

text \<open>
  \<open>apps/dashboard/src/components\<close>: \<open>ChannelPanel\<close>, \<open>CostPanel\<close>, \<open>OnChainStatus\<close>,
  \<open>RequestForm\<close>, \<open>SessionDetail\<close> and \<open>Timeline\<close>. Each is what it computes and what it offers:
  the texts of its rows, which controls are there and enabled, and what its handlers do.
  Class names and layout are left out. \<open>locale_fmt\<close> stands for \<open>toLocaleString\<close>.
\<close>

type_synonym row = "string \<times> string"

definition ellipsis_mid :: "string \<Rightarrow> string" where
  "ellipsis_mid a = str_slice 0 6 a @ ellipsis @ str_last 4 a"

subsection \<open>ChannelPanel\<close>

definition CHANNEL_STATUS_LABELS :: "string list" where
  "CHANNEL_STATUS_LABELS = [''none'', ''open'', ''challenged'', ''closed'']"

definition channel_status_label :: "nat \<Rightarrow> string" where
  "channel_status_label n = (if n < length CHANNEL_STATUS_LABELS then CHANNEL_STATUS_LABELS ! n else ''unknown'')"

definition channel_formatUsdc :: "int \<Rightarrow> string" where
  "channel_formatUsdc units = to_fixed 4 (of_int units / 1000000 :: rat) @ '' USDC''"

definition channel_shortAddr :: "string \<Rightarrow> string" where
  "channel_shortAddr a = ellipsis_mid a"

record panel_state =
  cp_deposit :: string
  cp_busy :: bool
  cp_error :: "string option"

definition panel_mount :: panel_state where
  "panel_mount = \<lparr>cp_deposit = ''5'', cp_busy = False, cp_error = None\<rparr>"

text \<open>\<open>setError(null); setBusy(true); try ... catch ... finally\<close> around an awaited call.\<close>

definition panel_begin :: "panel_state \<Rightarrow> panel_state" where
  "panel_begin ps = ps\<lparr>cp_error := None, cp_busy := True\<rparr>"

definition panel_end :: "string + 'r \<Rightarrow> panel_state \<Rightarrow> panel_state" where
  "panel_end r ps = (case r of Inl m \<Rightarrow> ps\<lparr>cp_error := Some m, cp_busy := False\<rparr> | Inr _ \<Rightarrow> ps\<lparr>cp_busy := False\<rparr>)"

definition panel_run :: "('w \<Rightarrow> (string + 'r) \<times> 'w) \<Rightarrow> panel_state \<Rightarrow> 'w \<Rightarrow> panel_state \<times> 'w" where
  "panel_run call ps w = (let (r, w') = call w in (panel_end r (panel_begin ps), w'))"

definition onOpen :: "string option \<Rightarrow> (int \<Rightarrow> 'w \<Rightarrow> (string + 'r) \<times> 'w) \<Rightarrow> panel_state \<Rightarrow> 'w \<Rightarrow> panel_state \<times> 'w" where
  "onOpen nodeAddress opens ps w =
     (case truthy_str nodeAddress of
        None \<Rightarrow> (ps, w)
      | Some _ \<Rightarrow>
          (let dollars = js_parse_float (cp_deposit ps) in
           if \<not> is_finite dollars \<or> jle dollars (Fin 0) then (ps\<lparr>cp_error := Some ''invalid deposit''\<rparr>, w)
           else (case dollars of Fin d \<Rightarrow> panel_run (opens (js_round (d * 1000000))) ps w | _ \<Rightarrow> (ps, w))))"

definition onSignLatest :: "node_signed_receipt option \<Rightarrow> (node_signed_receipt \<Rightarrow> 'w \<Rightarrow> (string + 'r) \<times> 'w) \<Rightarrow> panel_state \<Rightarrow> 'w \<Rightarrow> panel_state \<times> 'w" where
  "onSignLatest latest signs ps w =
     (case latest of
        None \<Rightarrow> (ps\<lparr>cp_error := Some ''no receipt to sign''\<rparr>, w)
      | Some r \<Rightarrow> panel_run (signs r) ps w)"

definition onClose :: "('w \<Rightarrow> (string + 'r) \<times> 'w) \<Rightarrow> panel_state \<Rightarrow> 'w \<Rightarrow> panel_state \<times> 'w" where
  "onClose closes ps w = panel_run closes ps w"

definition channel_status :: "onchain_channel option \<Rightarrow> nat" where
  "channel_status oc = (case oc of None \<Rightarrow> 0 | Some c \<Rightarrow> on_status c)"

definition channel_rows :: "string \<Rightarrow> onchain_channel option \<Rightarrow> channel_state option \<Rightarrow> row list" where
  "channel_rows nodeAddress oc st =
     [(''node addr'', channel_shortAddr nodeAddress), (''status'', channel_status_label (channel_status oc))] @
     (case oc of
        None \<Rightarrow> []
      | Some c \<Rightarrow> [(''deposit'', channel_formatUsdc (on_deposit c)), (''latest nonce'', int_str (on_latestNonce c)),
                   (''cum owed'', channel_formatUsdc (on_latestCumOwed c))]) @
     (case Option.bind st ch_lastAck of
        None \<Rightarrow> []
      | Some a \<Rightarrow> [(''last ack'', ''#'' @ nat_str (cu_nonce (ack_update a)) @ '' / '' @ cu_cumOwed (ack_update a))])"

text \<open>The controls shown, each with whether it is disabled.\<close>

datatype channel_control = OpenControl string bool | SignControl bool | CloseControl bool

definition channel_controls :: "bool \<Rightarrow> onchain_channel option \<Rightarrow> channel_state option \<Rightarrow> node_signed_receipt option \<Rightarrow> panel_state \<Rightarrow> channel_control list" where
  "channel_controls isConnected oc st latest ps =
     (if \<not> isConnected then []
      else (if channel_status oc = 0 then [OpenControl (''open ('' @ cp_deposit ps @ '' USDC)'') (cp_busy ps)] else []) @
           (if channel_status oc = 1
            then [SignControl (cp_busy ps \<or> latest = None), CloseControl (cp_busy ps \<or> Option.bind st ch_lastAck = None)]
            else []))"

record channel_view =
  cv_hint :: bool
  cv_rows :: "row list"
  cv_controls :: "channel_control list"
  cv_error :: "string option"

definition channel_panel ::
  "bool \<Rightarrow> node_registration option \<Rightarrow> string option \<Rightarrow> onchain_channel option \<Rightarrow> channel_state option \<Rightarrow>
   node_signed_receipt option \<Rightarrow> panel_state \<Rightarrow> channel_view" where
  "channel_panel isConnected node nodeAddress oc st latest ps =
     (case (node, truthy_str nodeAddress) of
        (Some _, Some a) \<Rightarrow>
          \<lparr>cv_hint = False, cv_rows = channel_rows a oc st, cv_controls = channel_controls isConnected oc st latest ps,
           cv_error = truthy_str (cp_error ps)\<rparr>
      | _ \<Rightarrow> \<lparr>cv_hint = (node = None), cv_rows = [], cv_controls = [], cv_error = None\<rparr>)"

subsection \<open>CostPanel\<close>

record backend_cost =
  bc_count :: nat
  bc_cost :: jsnum
  bc_real :: bool

record cost_state =
  ct_total :: jsnum
  ct_totalReal :: jsnum
  ct_realCount :: nat
  ct_byBackend :: "(string, backend_cost) jmap"

definition backend_cost_step :: "jsnum \<times> bool \<Rightarrow> backend_cost option \<Rightarrow> backend_cost" where
  "backend_cost_step vr old =
     (let b = (case old of None \<Rightarrow> \<lparr>bc_count = 0, bc_cost = Fin 0, bc_real = True\<rparr> | Some b \<Rightarrow> b);
          b = b\<lparr>bc_count := bc_count b + 1, bc_cost := jadd (bc_cost b) (fst vr)\<rparr> in
      if snd vr then b else b\<lparr>bc_real := False\<rparr>)"

definition cost_step :: "session_record \<Rightarrow> cost_state \<Rightarrow> cost_state" where
  "cost_step s c =
     (let (value, real) = sessionCost s; key = backend_str (ss_backend s) in
      c\<lparr>ct_total := jadd (ct_total c) value,
        ct_totalReal := (if real then jadd (ct_totalReal c) value else ct_totalReal c),
        ct_realCount := (if real then ct_realCount c + 1 else ct_realCount c),
        ct_byBackend := jmap_set key (backend_cost_step (value, real) (jmap_get (ct_byBackend c) key)) (ct_byBackend c)\<rparr>)"

definition cost_panel :: "session_record list \<Rightarrow> cost_state" where
  "cost_panel ss = fold cost_step ss \<lparr>ct_total = Fin 0, ct_totalReal = Fin 0, ct_realCount = 0, ct_byBackend = []\<rparr>"

definition allReal :: "session_record list \<Rightarrow> bool" where
  "allReal ss \<longleftrightarrow> 0 < length ss \<and> ct_realCount (cost_panel ss) = length ss"

definition cost_caption :: "session_record list \<Rightarrow> string" where
  "cost_caption ss =
     (if ss = [] then ''no requests yet''
      else if allReal ss then ''real token usage '' @ times_sign @ '' node price/1K''
      else nat_str (ct_realCount (cost_panel ss)) @ ''/'' @ nat_str (length ss) @ '' sessions on real tokens '' @ em_dash @
        '' others estimated until first response'')"

definition cost_rows :: "session_record list \<Rightarrow> (string \<times> nat \<times> string \<times> bool) list" where
  "cost_rows ss =
     map (\<lambda>(b, a). (b, bc_count a, ''$'' @ jto_fixed 4 (bc_cost a), \<not> bc_real a)) (ct_byBackend (cost_panel ss))"

subsection \<open>OnChainStatus\<close>

definition status_shortAddr :: "string option \<Rightarrow> string" where
  "status_shortAddr a = (case truthy_str a of None \<Rightarrow> em_dash | Some s \<Rightarrow> ellipsis_mid s)"

definition status_formatUsdc :: "int option \<Rightarrow> string" where
  "status_formatUsdc raw =
     (case raw of None \<Rightarrow> em_dash | Some n \<Rightarrow> to_fixed 0 (of_int n / 1000000 :: rat) @ '' USDC'')"

record status_view =
  sv_chain :: string
  sv_rows :: "(string \<times> string \<times> string option) list"
  sv_error :: "string option"

definition onchain_panel :: "int \<Rightarrow> onchain_status \<Rightarrow> chain_error + status_view" where
  "onchain_panel chainId st =
     rbind (getChain chainId) (\<lambda>cfg.
       let a = cc_addresses cfg;
           explorer = (if cc_blockExplorer cfg \<noteq> []
                       then Some (cc_blockExplorer cfg @ ''/address/'' @ (case registry_at a of None \<Rightarrow> [] | Some r \<Rightarrow> r)) else None) in
       Inr \<lparr>sv_chain = chain_name_str (cc_name cfg),
            sv_rows =
              [(''registry'', status_shortAddr (registry_at a), truthy_str explorer),
               (''channel'', status_shortAddr (channel_at a), None), (''usdc'', status_shortAddr (Some (usdc_at a)), None),
               (''registered'',
                if oc_loading st then ellipsis else case oc_nodeCount st of None \<Rightarrow> em_dash | Some n \<Rightarrow> int_str n, None),
               (''min stake'', status_formatUsdc (oc_minStake st), None)],
            sv_error = truthy_str (oc_error st)\<rparr>)"

subsection \<open>RequestForm\<close>

record form_state =
  rf_chosen :: "backend_type option"
  rf_prompt :: string
  rf_tokens :: jsnum
  rf_maxPrice :: jsnum

definition form_mount :: form_state where
  "form_mount = \<lparr>rf_chosen = None, rf_prompt = ''What time is it?'', rf_tokens = Fin 4000, rf_maxPrice = Fin 1\<rparr>"

definition backendOptions :: "node_registration list \<Rightarrow> backend_type list" where
  "backendOptions ns =
     (let available = js_dedup (concat (map backends ns)) in if 0 < length available then available else [MockTee])"

definition form_backend :: "node_registration list \<Rightarrow> form_state \<Rightarrow> backend_type" where
  "form_backend ns f =
     (case rf_chosen f of
        Some b \<Rightarrow> if b \<in> set (backendOptions ns) then b else hd (backendOptions ns)
      | None \<Rightarrow> hd (backendOptions ns))"

datatype form_event = ChooseBackend backend_type | TypePrompt string | TypeTokens string | TypeMaxPrice string

fun form_step :: "form_event \<Rightarrow> form_state \<Rightarrow> form_state" where
  "form_step (ChooseBackend b) f = f\<lparr>rf_chosen := Some b\<rparr>"
| "form_step (TypePrompt p) f = f\<lparr>rf_prompt := p\<rparr>"
| "form_step (TypeTokens t) f = f\<lparr>rf_tokens := js_parse_int t\<rparr>"
| "form_step (TypeMaxPrice t) f = f\<lparr>rf_maxPrice := js_parse_float t\<rparr>"

text \<open>A click on the button: nothing when it is disabled, else what \<open>onSend\<close> is called with.\<close>

definition form_click :: "bool \<Rightarrow> node_registration list \<Rightarrow> form_state \<Rightarrow> send_args option" where
  "form_click dis ns f =
     (if dis \<or> length (js_trim (rf_prompt f)) = 0 then None
      else Some \<lparr>sa_backend = form_backend ns f, sa_prompt = rf_prompt f, sa_estimatedTokens = rf_tokens f,
                 sa_maxPricePer1k = rf_maxPrice f\<rparr>)"

subsection \<open>SessionDetail\<close>

definition humanDuration :: "int \<Rightarrow> string" where
  "humanDuration ms =
     (if ms < 1000 then int_str (max 0 ms) @ ''ms''
      else (let s = of_int ms / 1000 :: rat in
            if s < 60 then to_fixed 2 s @ ''s''
            else int_str \<lfloor>s / 60\<rfloor> @ ''m'' @ pad_start 2 (CHR ''0'') (int_str (js_round (rat_rem s 60))) @ ''s''))"

definition tokens_text :: "(int \<Rightarrow> string) \<Rightarrow> usage \<Rightarrow> string" where
  "tokens_text locale_fmt u =
     locale_fmt (totalTokens u) @ '' (in '' @ locale_fmt (inputTokens u) @ '' / out '' @ locale_fmt (outputTokens u) @
     (case cacheReadInputTokens u of
        Some c \<Rightarrow> if c \<noteq> 0 then '' / cache '' @ locale_fmt c else []
      | None \<Rightarrow> []) @ '')''"

definition detail_rows :: "(int \<Rightarrow> string) \<Rightarrow> int \<Rightarrow> session_record \<Rightarrow> row list" where
  "detail_rows locale_fmt now s =
     [(''id'', str_slice 0 16 (ss_sessionId s) @ ellipsis), (''backend'', backend_str (ss_backend s)),
      (''status'', status_str (ss_status s)),
      (''duration'', humanDuration ((case ss_endedAt s of None \<Rightarrow> now | Some e \<Rightarrow> e) - ss_startedAt s)),
      (''steps'', int_str (ss_stepCount s))] @
     (case truthy_str (ss_nodeUrl s) of None \<Rightarrow> [] | Some u \<Rightarrow> [(''node'', u)]) @
     (case truthy_str (ss_lastToolName s) of None \<Rightarrow> [] | Some t \<Rightarrow> [(''last tool'', t)]) @
     (if jlt (Fin 0) (ss_pricePer1k s)
      then (let (value, real) = sessionCost s in [(if real then ''cost'' else ''est. cost'', ''$'' @ jto_fixed 4 value)])
      else []) @
     (case ss_actualUsage s of None \<Rightarrow> [] | Some u \<Rightarrow> [(''tokens'', tokens_text locale_fmt u)])"

definition tool_rows :: "session_record \<Rightarrow> (string \<times> bool \<times> string) list" where
  "tool_rows s =
     map (\<lambda>tc. (tc_name tc, tc_isError tc,
       case tc_endedAt tc of Some e \<Rightarrow> if e \<noteq> 0 then humanDuration (e - tc_startedAt tc) else ellipsis | None \<Rightarrow> ellipsis)) (ss_toolCalls s)"

record detail_view =
  dv_source :: string
  dv_rows :: "row list"
  dv_tools :: "(string \<times> bool \<times> string) list"
  dv_prompt :: "string option"
  dv_response :: "string option"
  dv_remoteNote :: bool
  dv_error :: "string option"

definition session_detail :: "(int \<Rightarrow> string) \<Rightarrow> int \<Rightarrow> session_record option \<Rightarrow> detail_view option" where
  "session_detail locale_fmt now session =
     map_option (\<lambda>s. \<lparr>dv_source = (if ss_source s = LocalSession then ''dashboard'' else ''remote''),
        dv_rows = detail_rows locale_fmt now s, dv_tools = tool_rows s,
        dv_prompt = (if ss_source s = LocalSession then truthy_str (ss_prompt s) else None),
        dv_response = (if ss_source s = LocalSession then truthy_str (ss_finalContent s) else None),
        dv_remoteNote = (ss_source s = RemoteSession), dv_error = truthy_str (ss_errorMessage s)\<rparr>) session"

subsection \<open>Timeline\<close>

fun statusTint :: "session_status \<Rightarrow> string" where
  "statusTint (Reported Error) = ''bg-holo-red/40 border-holo-red''"
| "statusTint (Reported Final) = ''bg-holo-green/30 border-holo-green''"
| "statusTint (Reported WaitingTool) = ''bg-holo-amber/30 border-holo-amber''"
| "statusTint Matching = ''bg-holo-cyan/10 border-holo-cyan/40''"
| "statusTint Pending = ''bg-holo-cyan/10 border-holo-cyan/40''"
| "statusTint (Reported Running) = ''bg-holo-cyan/20 border-holo-cyan''"

definition hasInFlight :: "session_record list \<Rightarrow> bool" where
  "hasInFlight ss = list_ex (\<lambda>s. ss_endedAt s = None) ss"

definition end_or :: "int \<Rightarrow> session_record \<Rightarrow> int" where
  "end_or now s = (case ss_endedAt s of None \<Rightarrow> now | Some e \<Rightarrow> e)"

definition timeline_sorted :: "session_record list \<Rightarrow> session_record list" where
  "timeline_sorted ss = sort_key ss_startedAt ss"

definition timeline_duration :: "int \<Rightarrow> session_record \<Rightarrow> int" where
  "timeline_duration now s = max (end_or now s - ss_startedAt s) 1"

definition timeline_total :: "int \<Rightarrow> session_record list \<Rightarrow> int" where
  "timeline_total now ss =
     (let t = sum_list (map (timeline_duration now) (timeline_sorted ss)) in if t = 0 then 1 else t)"

definition timeline_span :: "int \<Rightarrow> session_record list \<Rightarrow> int" where
  "timeline_span now ss =
     (case timeline_sorted ss of
        [] \<Rightarrow> 0
      | s # rest \<Rightarrow> fold (\<lambda>t. max (end_or now t)) rest (end_or now s) - ss_startedAt s)"

record segment =
  sg_sessionId :: string
  sg_selected :: bool
  sg_pct :: rat
  sg_title :: string
  sg_tint :: string
  sg_text :: string
  sg_click :: "string option"

definition black_diamond :: string where
  "black_diamond = [char_of (226::nat), char_of (151::nat), char_of (134::nat)]"

definition white_circle :: string where
  "white_circle = [char_of (226::nat), char_of (151::nat), char_of (139::nat)]"

definition segment_of :: "int \<Rightarrow> session_record list \<Rightarrow> string option \<Rightarrow> session_record \<Rightarrow> segment" where
  "segment_of now ss sel s =
     (let selected = (sel = Some (ss_sessionId s)) in
      \<lparr>sg_sessionId = ss_sessionId s, sg_selected = selected,
       sg_pct = of_int (timeline_duration now s) / of_int (timeline_total now ss) * 100,
       sg_title = str_slice 0 8 (ss_sessionId s) @ ellipsis @ '' '' @ middle_dot @ '' '' @ backend_str (ss_backend s) @ '' '' @
         middle_dot @ '' '' @ status_str (ss_status s) @ '' '' @ middle_dot @ '' '' @ humanDuration (timeline_duration now s),
       sg_tint = statusTint (ss_status s),
       sg_text = (if ss_source s = LocalSession then black_diamond else white_circle) @ '' '' @ str_slice 0 6 (ss_sessionId s),
       sg_click = (if selected then None else Some (ss_sessionId s))\<rparr>)"

definition timeline :: "int \<Rightarrow> session_record list \<Rightarrow> string option \<Rightarrow> segment list" where
  "timeline now ss sel = map (segment_of now ss sel) (timeline_sorted ss)"

definition timeline_header :: "int \<Rightarrow> session_record list \<Rightarrow> string" where
  "timeline_header now ss =
     to_fixed 1 (of_int (timeline_span now ss) / 1000 :: rat) @ ''s span '' @ middle_dot @ '' '' @ nat_str (length ss) @ '' session'' @
     (if length ss = 1 then [] else ''s'')"

text \<open>The local clock: an animation frame moves it only while a session is in flight, and a
  change of \<open>hasInFlight\<close> to false stops it at the present.\<close>

definition timeline_clock :: "session_record list \<Rightarrow> bool \<Rightarrow> int \<Rightarrow> int \<Rightarrow> int" where
  "timeline_clock ss flag_changed present now =
     (if hasInFlight ss then (if flag_changed then now else present)
      else if flag_changed then present else now)"

subsection \<open>The cost panel against plain sums\<close>

definition session_backend :: "session_record \<Rightarrow> string" where
  "session_backend s = backend_str (ss_backend s)"

text \<open>The reference: what one backend's row should say of its own sessions.\<close>

definition backend_summary :: "session_record list \<Rightarrow> backend_cost option" where
  "backend_summary own =
     (if own = [] then None
      else Some \<lparr>bc_count = length own, bc_cost = foldl jadd (Fin 0) (map (\<lambda>s. fst (sessionCost s)) own),
                 bc_real = list_all (\<lambda>s. snd (sessionCost s)) own\<rparr>)"

lemma js_dedup_snoc: "js_dedup (xs @ [x]) = (if x \<in> set xs then js_dedup xs else js_dedup xs @ [x])"
  by (simp add: js_dedup_def)

lemma backend_summary_snoc:
  "backend_summary (own @ [s]) = Some (backend_cost_step (sessionCost s) (backend_summary own))"
  by (auto simp: backend_summary_def backend_cost_step_def Let_def)

lemma cost_panel_snoc: "cost_panel (ss @ [s]) = cost_step s (cost_panel ss)"
  by (simp add: cost_panel_def)

lemma cost_step_sel:
  "ct_total (cost_step s c) = jadd (ct_total c) (fst (sessionCost s))"
  "ct_realCount (cost_step s c) = (if snd (sessionCost s) then Suc (ct_realCount c) else ct_realCount c)"
  "ct_byBackend (cost_step s c) =
     jmap_set (session_backend s) (backend_cost_step (sessionCost s) (jmap_get (ct_byBackend c) (session_backend s))) (ct_byBackend c)"
  by (simp_all add: cost_step_def split_def session_backend_def Let_def)

lemma cost_panel_backends:
  "jmap_keys (ct_byBackend (cost_panel ss)) = js_dedup (map session_backend ss) \<and>
   jmap_get (ct_byBackend (cost_panel ss)) b = backend_summary (filter (\<lambda>s. session_backend s = b) ss)"
proof (induction ss arbitrary: b rule: rev_induct)
  case Nil
  show ?case by (simp add: cost_panel_def jmap_keys_def jmap_get_def backend_summary_def)
next
  case (snoc s ss)
  then show ?case
    by (simp add: cost_panel_snoc cost_step_sel jm.keys_put jm.lookup_put js_dedup_snoc backend_summary_snoc)
qed

lemma cost_panel_sums:
  "ct_total (cost_panel ss) = foldl jadd (Fin 0) (map (\<lambda>s. fst (sessionCost s)) ss) \<and>
   ct_realCount (cost_panel ss) = length (filter (\<lambda>s. snd (sessionCost s)) ss)"
proof (induction ss rule: rev_induct)
  case Nil
  show ?case by (simp add: cost_panel_def)
next
  case (snoc s ss)
  then show ?case by (simp add: cost_panel_snoc cost_step_sel)
qed

subsection \<open>The timeline\<close>

lemma timeline_total_pos:
  "0 < timeline_total now ss \<and> (ss \<noteq> [] \<longrightarrow> timeline_total now ss = sum_list (map (timeline_duration now) (timeline_sorted ss)))"
proof -
  have ge: "int (length xs) \<le> sum_list (map (timeline_duration now) xs)" for xs
    by (induction xs) (auto simp: timeline_duration_def)
  from ge [of "timeline_sorted ss"] show ?thesis
    by (auto simp: timeline_total_def Let_def timeline_sorted_def)
qed

lemma sum_scaled: "(\<Sum>x\<leftarrow>xs. of_int (f x) / c * 100 :: rat) = of_int (\<Sum>x\<leftarrow>xs. f x) / c * 100"
  by (induction xs) (simp_all add: add_divide_distrib algebra_simps)

subsection \<open>Opening from the panel\<close>

text \<open>The panel's call into the hook, over the hook's state and the contract's.\<close>

definition hook_call ::
  "crypto \<Rightarrow> jc_config \<Rightarrow> (address \<Rightarrow> bool) \<Rightarrow> tx_env \<Rightarrow> (string \<Rightarrow> string \<Rightarrow> string \<Rightarrow> jc_state \<Rightarrow> string + int) \<Rightarrow>
   (string \<Rightarrow> byte list \<Rightarrow> jc_state \<Rightarrow> string + string) \<Rightarrow> hook_env \<Rightarrow> int \<Rightarrow> hook_state \<times> jc_state \<Rightarrow>
   (string + unit) \<times> hook_state \<times> jc_state" where
  "hook_call cr cfg active env allow sign e d w =
     hook_openChannel (keccak cr) (jc_api cr cfg active env allow sign) e d (fst w) (snd w)"

lemma typed_units:
  "js_parse_float (to_fixed 6 (of_nat u / 1000000 :: rat)) = Fin (of_nat u / 1000000)"
proof -
  have "fixed_units 6 (of_nat u / 1000000 :: rat) = u"
  proof -
    have "\<lfloor>of_nat u + 1 / 2 :: rat\<rfloor> = int u" by (simp add: floor_eq_iff)
    then show ?thesis by (simp add: fixed_units_def)
  qed
  then show ?thesis using js_parse_float_to_fixed [of 6 "of_nat u / 1000000 :: rat"] by simp
qed

lemma onOpen_typed:
  assumes "cp_deposit ps = to_fixed 6 (of_nat u / 1000000 :: rat)" "a \<noteq> []"
  shows "onOpen (Some a) opens ps w =
    (if u = 0 then (ps\<lparr>cp_error := Some ''invalid deposit''\<rparr>, w) else panel_run (opens (int u)) ps w)"
proof -
  have "js_round (of_nat u / 1000000 * 1000000 :: rat) = int u"
    using js_round_int [where ?'a = rat, of "int u"] by simp
  moreover have "js_parse_float (cp_deposit ps) = Fin (of_nat u / 1000000)" by (simp add: assms(1) typed_units)
  moreover have "truthy_str (Some a) = Some a" using assms(2) by (simp add: truthy_str_Some)
  ultimately show ?thesis by (simp add: onOpen_def)
qed

lemma hook_open_fresh:
  assumes "env_for a n e" "he_wallet e" "he_public e"
    and "channel_at (cc_addresses (he_config e)) = Some (address_hex (this_addr cfg))"
    and "usdc_at (cc_addresses (he_config e)) \<noteq> []"
    and "allow (usdc_at (cc_addresses (he_config e))) (address_hex a) (address_hex (this_addr cfg)) s = Inr al"
    and "c_status (channels s (channelIdOf_sol cr a n 0)) = StNone" "active n"
    and "tok_accepts env (TransferFrom a (of_nat u))" "u < 2 ^ 256"
  shows "\<exists>hs' t. hook_openChannel (keccak cr) (jc_api cr cfg active env allow sign) e (int u) hs s = (Inr (), hs', t) \<and>
    c_status (channels t (channelIdOf_sol cr a n 0)) = StOpen \<and> unat (deposit (channels t (channelIdOf_sol cr a n 0))) = u \<and>
    c_client (channels t (channelIdOf_sol cr a n 0)) = a \<and> c_node (channels t (channelIdOf_sol cr a n 0)) = n \<and>
    calls t = calls s @ [TransferFrom a (of_nat u)] \<and>
    map_option (\<lambda>oc. (on_status oc, on_deposit oc)) (hs_onchain hs') = Some (1, int u)"
proof -
  let ?id = "channelIdOf_sol cr a n 0"
  have ct: "he_contract e = Some (address_hex (this_addr cfg))"
    using assms(4) by (simp add: he_contract_def truthy_str_Some address_hex_def)
  define t where "t = emit (ChannelOpened ?id a n 0 (of_nat u)) (put_channel ?id ((channels s ?id)\<lparr>c_client := a, c_node := n,
      deposit := of_nat u, openedAt := ucast (block_timestamp env), c_status := StOpen\<rparr>) (s\<lparr>calls := calls s @ [TransferFrom a (of_nat u)]\<rparr>))"
  have u: "unat (of_nat u :: u256) = u" using assms(10) by (simp add: unsigned_of_nat take_bit_nat_eq_self)
  then have ui: "uint (of_nat u :: u256) = int u" by (metis uint_nat)
  have "openChannel cr active (env\<lparr>msg_sender := a\<rparr>) n 0 (of_nat u) s = Inr t"
    using assms(7-9) by (simp add: openChannel_def Let_def pay_def t_def)
  then have send: "api_send (jc_api cr cfg active env allow sign) (address_hex a) (address_hex (this_addr cfg))
      (OpenChannelCall (address_hex n) 0 (int u)) s = Inr t"
    using assms(10) by (simp add: jc_api_def jc_send_def Let_def)
  have approve: "api_send (jc_api cr cfg active env allow sign) (address_hex a) v (Approve sp x) s = Inr s" for v sp x
    by (simp add: jc_api_def jc_send_def)
  have al: "api_allowance (jc_api cr cfg active env allow sign) = allow" by (simp add: jc_api_def)
  have id: "lift_eth (channelIdOf (keccak cr) (address_hex a) (address_hex n) 0) = Inr (''0x'' @ bytes_hex ?id)"
    using channel_id_is_contracts [of cr a n 0] by (simp add: lift_eth_def)
  let ?st = "\<lparr>ch_channelId = ''0x'' @ bytes_hex ?id, ch_client = address_hex a, ch_nodeAddress = address_hex n,
    ch_lastReceipt = None, ch_lastAck = None\<rparr>"
  let ?hs' = "refreshOnchain (keccak cr) (jc_api cr cfg active env allow sign) e t (persist e ?st hs)"
  have "hook_openChannel (keccak cr) (jc_api cr cfg active env allow sign) e (int u) hs s = (Inr (), ?hs', t)"
    using env_for_truthy [OF assms(1)] assms(2,3,5,6) ct send approve al id
    by (simp add: hook_openChannel_def CHANNEL_NONCE_def Let_def)
  moreover have "c_status (channels t ?id) = StOpen" "unat (deposit (channels t ?id)) = u" "c_client (channels t ?id) = a"
      "c_node (channels t ?id) = n" "calls t = calls s @ [TransferFrom a (of_nat u)]" "uint (deposit (channels t ?id)) = int u"
    by (simp_all add: t_def emit_def put_channel_def u ui)
  moreover from this have "map_option (\<lambda>oc. (on_status oc, on_deposit oc)) (hs_onchain ?hs') = Some (1, int u)"
    using env_for_id [OF assms(1), of cr] ct assms(3)
    by (simp add: refreshOnchain_def jc_api_def jc_view_def)
  ultimately show ?thesis by blast
qed

subsection \<open>Properties\<close>


text \<open>The cost panel: its total is the sum over all sessions in their order, its count of
  real costs is that of the sessions with reported usage, and it has one row per backend in
  use, in order of first use, each the summary of that backend's own sessions.\<close>

theorem cost_panel_spec:
  "ct_total (cost_panel ss) = foldl jadd (Fin 0) (map (\<lambda>s. fst (sessionCost s)) ss) \<and>
   ct_realCount (cost_panel ss) = length (filter (\<lambda>s. snd (sessionCost s)) ss) \<and>
   jmap_keys (ct_byBackend (cost_panel ss)) = js_dedup (map (\<lambda>s. backend_str (ss_backend s)) ss) \<and>
   jmap_get (ct_byBackend (cost_panel ss)) b = backend_summary (filter (\<lambda>s. backend_str (ss_backend s) = b) ss)"
  using cost_panel_sums [of ss] cost_panel_backends [of ss b] by (simp add: session_backend_def [abs_def])

text \<open>The timeline: one segment per session in order of start, every one of them visible, and
  their widths fill the bar exactly.\<close>

theorem timeline_fills:
  assumes "ss \<noteq> []"
  shows "(\<Sum>g\<leftarrow>timeline now ss sel. sg_pct g) = 100 \<and> list_all (\<lambda>g. 0 < sg_pct g) (timeline now ss sel) \<and>
    map sg_sessionId (timeline now ss sel) = map ss_sessionId (sort_key ss_startedAt ss)"
proof (intro conjI)
  let ?d = "timeline_duration now" and ?t = "timeline_total now ss"
  have t: "0 < ?t" "?t = sum_list (map ?d (timeline_sorted ss))" using timeline_total_pos assms by blast+
  have "(\<Sum>g\<leftarrow>timeline now ss sel. sg_pct g) = (\<Sum>s\<leftarrow>timeline_sorted ss. of_int (?d s) / of_int ?t * 100)"
    by (simp add: timeline_def segment_of_def Let_def comp_def)
  also have "\<dots> = of_int ?t / of_int ?t * 100" by (subst sum_scaled) (simp flip: t(2))
  also have "\<dots> = 100" using t(1) by simp
  finally show "(\<Sum>g\<leftarrow>timeline now ss sel. sg_pct g) = 100" .
  show "list_all (\<lambda>g. 0 < sg_pct g) (timeline now ss sel)"
    using t(1) by (simp add: timeline_def segment_of_def Let_def list_all_iff timeline_duration_def)
  show "map sg_sessionId (timeline now ss sel) = map ss_sessionId (sort_key ss_startedAt ss)"
    by (simp add: timeline_def segment_of_def Let_def comp_def timeline_sorted_def)
qed

text \<open>The form never offers or sends a backend no registered node has, unless there is none.\<close>

lemma form_backend_offered: "form_backend ns f \<in> set (backendOptions ns)"
proof -
  have "backendOptions ns \<noteq> []" by (simp add: backendOptions_def Let_def)
  then show ?thesis by (simp add: form_backend_def split: option.split)
qed

text \<open>Clearing the token field leaves NaN, and the request is sent with it.\<close>

lemma cleared_tokens_are_sent:
  "form_click False ns (form_step (TypeTokens []) form_mount) =
     Some \<lparr>sa_backend = hd (backendOptions ns), sa_prompt = ''What time is it?'', sa_estimatedTokens = NaN, sa_maxPricePer1k = Fin 1\<rparr>"
proof -
  have "js_parse_int [] = NaN" by (simp add: js_parse_int_def split_sign_def digit_prefix_def)
  then show ?thesis
    by (simp add: form_click_def form_mount_def form_backend_def js_trim_def is_space_def Let_def)
qed

text \<open>Seconds are rounded after the minutes were cut off: 119.6 s reads "1m60s" in both formats.\<close>

lemma sixty_seconds: "humanDuration 119600 = ''1m60s'' \<and> humanElapsed 119600 = ''1m60s''"
proof -
  have f: "\<lfloor>299 / 150 :: rat\<rfloor> = 1" by (simp add: floor_eq_iff)
  then have m: "\<lfloor>119600 / 1000 / 60 :: rat\<rfloor> = 1" by simp
  have r: "js_round (rat_rem (119600 / 1000) 60) = 60" by (simp add: rat_rem_def js_round_def f floor_eq_iff)
  have "int_str 1 = ''1''" "int_str 60 = ''60''"
    by code_simp+
  with m r show ?thesis
    by (simp add: humanDuration_def humanElapsed_def Let_def pad_start_def)
qed

subsection \<open>Witnesses\<close>


theorem timeline_fills_witness:
  "(\<Sum>g\<leftarrow>timeline 9 [makeLocalSession 0 ''s'' MockTee ''p'' (Fin 1) (Fin 1), makeLocalSession 5 ''t'' MockTee ''p'' (Fin 1) (Fin 1)] None. sg_pct g) = 100"
  by (rule timeline_fills [THEN conjunct1]) simp

end
