(* ===== verification/Cli.thy ===== *)
theory Cli
  imports AgentLoop Parsing
begin

section \<open>The command line client (apps/client/src/index.ts)\<close>

text \<open>
  \<open>fldx info\<close> and \<open>fldx send <prompt>\<close>: the options, the node they resolve to, the tool table
  with its one tool \<open>read_local_file\<close>, the agent loop they run (theory \<open>AgentLoop\<close>) and what they
  print. The file system is the parameter \<open>read\<close>, the pretty printer of \<open>info\<close> the parameter
  \<open>pretty\<close>, and \<open>inherited\<close> stands for the members every JavaScript object inherits, which the
  lookup \<open>tools[name]\<close> finds too. \<open>GlobalOpts\<close> is what commander hands over: the backend is one
  of the four of its type (commander itself does not check it).

  The properties: what a \<open>send\<close> prints and how it ends on every path, and that the tool answers
  every call of the node, with the content of whatever file the node names.
\<close>

record global_opts =
  go_node :: string
  go_backend :: backend_type
  go_coordinator :: "string option"
  go_maxTokens :: string
  go_maxPrice :: string

text \<open>The defaults of the options.\<close>

definition cli_defaults :: global_opts where
  "cli_defaults = \<lparr>go_node = ''http://127.0.0.1:7777'', go_backend = MockTee, go_coordinator = None,
     go_maxTokens = ''4000'', go_maxPrice = ''1.0''\<rparr>"

text \<open>The one tool: its input is an untyped JSON value.\<close>

definition read_local_file ::
  "('w \<Rightarrow> string \<Rightarrow> string + string) \<Rightarrow> json \<Rightarrow> 'w \<Rightarrow> (string + (string \<times> bool)) \<times> 'w" where
  "read_local_file read input w =
     (case jget input ''path'' of
        Some (JStr path) \<Rightarrow>
          (case read w path of
             Inr content \<Rightarrow> (Inr (content, False), w)
           | Inl e \<Rightarrow> (Inr (''read_local_file('' @ path @ ''): '' @ e, True), w))
      | _ \<Rightarrow> (Inr (''read_local_file: `path` must be a string'', True), w))"

type_synonym 'w tool_table = "string \<Rightarrow> (json \<Rightarrow> 'w \<Rightarrow> (string + (string \<times> bool)) \<times> 'w) option"

definition clientTools :: "('w \<Rightarrow> string \<Rightarrow> string + string) \<Rightarrow> 'w tool_table \<Rightarrow> 'w tool_table" where
  "clientTools read inherited name = (if name = ''read_local_file'' then Some (read_local_file read) else inherited name)"

definition resolveNode :: "prims \<Rightarrow> server \<Rightarrow> global_opts \<Rightarrow> string + job_match" where
  "resolveNode p srv opts =
     (case truthy_str (go_coordinator opts) of
        None \<Rightarrow> rbind (fetchNodeInfo p srv (go_node opts)) (\<lambda>info.
          Inr \<lparr>jm_url = go_node opts, jm_publicKey = ni_publicKey info\<rparr>)
      | Some coordinator \<Rightarrow>
          matchJob p srv coordinator
            \<lparr>js_backend = go_backend opts, js_estimatedTokens = js_parse_int (go_maxTokens opts),
             js_maxPricePer1k = js_parse_float (go_maxPrice opts)\<rparr>)"

text \<open>What \<open>onEvent\<close> prints to standard error.\<close>

definition cli_line :: "prims \<Rightarrow> agent_event \<Rightarrow> string list" where
  "cli_line p ev =
     (case ev of
        ToolCallStart _ name input \<Rightarrow> [''[tool call] '' @ name @ ''('' @ json_stringify p input @ '')'']
      | ToolCallEnd _ name isError \<Rightarrow> (if isError then [''[tool error] '' @ name] else [])
      | _ \<Rightarrow> [])"

text \<open>How a command ends: it returns, its promise is rejected, or it is still running.\<close>

datatype cli_end = Done | Rejected string | Busy

record cli_out =
  cl_end :: cli_end
  cl_stderr :: "string list"
  cl_stdout :: "string list"

definition cli_info :: "prims \<Rightarrow> server \<Rightarrow> (node_info \<Rightarrow> string) \<Rightarrow> global_opts \<Rightarrow> cli_out" where
  "cli_info p srv pretty opts =
     (case fetchNodeInfo p srv (go_node opts) of
        Inl m \<Rightarrow> \<lparr>cl_end = Rejected m, cl_stderr = [], cl_stdout = []\<rparr>
      | Inr info \<Rightarrow> \<lparr>cl_end = Done, cl_stderr = [], cl_stdout = [pretty info]\<rparr>)"

definition cli_env ::
  "(send_opts \<Rightarrow> 'w \<Rightarrow> (string + step_result) \<times> 'w) \<Rightarrow> ('w \<Rightarrow> string \<Rightarrow> string + string) \<Rightarrow> 'w tool_table \<Rightarrow> 'w loop_env" where
  "cli_env send read inherited = \<lparr>env_send = send, env_signAck = None, env_tools = clientTools read inherited\<rparr>"

definition cli_args :: "global_opts \<Rightarrow> job_match \<Rightarrow> bytes \<Rightarrow> string \<Rightarrow> string \<Rightarrow> loop_args" where
  "cli_args opts target nodePub sessionId prompt =
     \<lparr>la_nodeUrl = jm_url target, la_nodePub = nodePub, la_backend = go_backend opts, la_sessionId = sessionId,
      la_prompt = prompt, la_channelId = None\<rparr>"

text \<open>\<open>send\<close>: \<open>n\<close> is the fuel of the loop, \<open>sessionId\<close> the fresh UUID.\<close>

definition cli_send ::
  "nat \<Rightarrow> prims \<Rightarrow> server \<Rightarrow> 'w loop_env \<Rightarrow> global_opts \<Rightarrow> string \<Rightarrow> string \<Rightarrow> 'w \<Rightarrow> cli_out" where
  "cli_send n p srv env opts sessionId prompt w =
     (case resolveNode p srv opts of
        Inl m \<Rightarrow> \<lparr>cl_end = Rejected m, cl_stderr = [], cl_stdout = []\<rparr>
      | Inr target \<Rightarrow>
          let line = ''[target] '' @ jm_url target in
          (case b64_decode p (jm_publicKey target) of
             Inl m \<Rightarrow> \<lparr>cl_end = Rejected m, cl_stderr = [line], cl_stdout = []\<rparr>
           | Inr nodePub \<Rightarrow>
               let (out, st) = runAgentLoop n env (cli_args opts target nodePub sessionId prompt) w;
                   err = line # concat (map (cli_line p) (lp_events st)) in
               (case out of
                  Returned result \<Rightarrow> \<lparr>cl_end = Done, cl_stderr = err, cl_stdout = [result]\<rparr>
                | Threw m \<Rightarrow> \<lparr>cl_end = Rejected m, cl_stderr = err, cl_stdout = []\<rparr>
                | Looping \<Rightarrow> \<lparr>cl_end = Busy, cl_stderr = err, cl_stdout = []\<rparr>)))"

subsection \<open>Facts\<close>

lemma read_local_file_answers: "\<exists>c e. read_local_file read input w = (Inr (c, e), w)"
  by (auto simp: read_local_file_def split: option.splits json.splits sum.splits)

text \<open>An exception of a run is an exception of the transport or of a tool.\<close>

lemma loop_round_threw:
  "loop_round env a st = (Threw m, st') \<Longrightarrow>
   (\<exists>q v v'. env_send env q v = (Inl m, v')) \<or> (\<exists>name h input v v'. env_tools env name = Some h \<and> h input v = (Inl m, v'))"
  by (auto simp: loop_round_def call_tool_def run_tool_def Let_def split: prod.splits sum.splits agent_response.splits option.splits)

lemma loop_run_threw:
  "loop_run n env a st = (Threw m, st') \<Longrightarrow>
   (\<exists>q v v'. env_send env q v = (Inl m, v')) \<or> (\<exists>name h input v v'. env_tools env name = Some h \<and> h input v = (Inl m, v'))"
proof (induction n arbitrary: st)
  case 0
  then show ?case by simp
next
  case (Suc n)
  obtain o' s where rd: "loop_round env a st = (o', s)" by (rule prod.exhaust)
  with Suc show ?case
    by (cases o') (auto dest: loop_round_threw)
qed

text \<open>What a send does, by the node it resolves to.\<close>

lemma cli_send_core:
  fixes n w send read p srv opts sid prompt
  defines "r \<equiv> cli_send n p srv (cli_env send read (\<lambda>name. None)) opts sid prompt w"
  shows "case resolveNode p srv opts of
      Inl m \<Rightarrow> cl_end r = Rejected m \<and> cl_stderr r = [] \<and> cl_stdout r = []
    | Inr target \<Rightarrow>
        (if truthy_str (go_coordinator opts) = None then jm_url target = go_node opts \<and>
           (\<exists>info. fetchNodeInfo p srv (go_node opts) = Inr info \<and> jm_publicKey target = ni_publicKey info)
         else \<exists>spec. matchJob p srv (the (go_coordinator opts)) spec = Inr target \<and> js_backend spec = go_backend opts) \<and>
        hd (cl_stderr r) = ''[target] '' @ jm_url target \<and>
        (case b64_decode p (jm_publicKey target) of
           Inl m \<Rightarrow> cl_end r = Rejected m \<and> cl_stdout r = []
         | Inr pub \<Rightarrow>
             (case runAgentLoop n (cli_env send read (\<lambda>name. None)) (cli_args opts target pub sid prompt) w of
                (out, st) \<Rightarrow>
                  (case cl_end r of
                     Done \<Rightarrow> \<exists>c u. cl_stdout r = [c] \<and> last_some response_of (lp_events st) = Some (FinalAnswer c u)
                   | Rejected m \<Rightarrow> cl_stdout r = [] \<and> (\<exists>q v v'. send q v = (Inl m, v'))
                   | Busy \<Rightarrow> cl_stdout r = [] \<and> lp_attempt st = n)))"
proof (cases "resolveNode p srv opts")
  case (Inl m)
  then show ?thesis by (simp add: r_def cli_send_def)
next
  case (Inr target)
  have t: "if truthy_str (go_coordinator opts) = None then jm_url target = go_node opts \<and>
           (\<exists>info. fetchNodeInfo p srv (go_node opts) = Inr info \<and> jm_publicKey target = ni_publicKey info)
         else \<exists>spec. matchJob p srv (the (go_coordinator opts)) spec = Inr target \<and> js_backend spec = go_backend opts"
    using Inr by (auto simp: resolveNode_def truthy_str_def split: option.splits sum.splits if_splits list.splits)
  show ?thesis
  proof (cases "b64_decode p (jm_publicKey target)")
    case (Inl m)
    with Inr t show ?thesis by (simp add: r_def cli_send_def Let_def)
  next
    case pub: (Inr pub)
    let ?env = "cli_env send read (\<lambda>name. None)" and ?a = "cli_args opts target pub sid prompt"
    obtain out st where run: "runAgentLoop n ?env ?a w = (out, st)" by (rule prod.exhaust)
    have threw: "\<exists>q v v'. send q v = (Inl m, v')" if o: "out = Threw m" for m
    proof -
      from loop_run_threw [OF run [unfolded runAgentLoop_def o]]
      show ?thesis
      proof
        assume "\<exists>q v v'. env_send ?env q v = (Inl m, v')"
        then show ?thesis by (simp add: cli_env_def)
      next
        assume "\<exists>name h input v v'. env_tools ?env name = Some h \<and> h input v = (Inl m, v')"
        then obtain input v v' where "read_local_file read input v = (Inl m, v')"
          by (auto simp: cli_env_def clientTools_def split: if_splits)
        moreover obtain c e where "read_local_file read input v = (Inr (c, e), v)" using read_local_file_answers [of read input v] by blast
        ultimately show ?thesis by simp
      qed
    qed
    have e: "cl_end r = (case out of Returned c \<Rightarrow> Done | Threw m \<Rightarrow> Rejected m | Looping \<Rightarrow> Busy)"
      "cl_stdout r = (case out of Returned c \<Rightarrow> [c] | _ \<Rightarrow> [])" "hd (cl_stderr r) = ''[target] '' @ jm_url target"
      using Inr pub run by (cases out; simp add: r_def cli_send_def Let_def)+
    show ?thesis using Inr pub run t e threw runAgentLoop_ends [OF run] by (cases out) auto
  qed
qed

subsection \<open>Properties\<close>

text \<open>What a send does on every path: with no coordinator it goes to the given node under the
  key the node reports, otherwise to the node the coordinator names; without an answer or with
  a key that is not base64 nothing is sent or printed on standard output; a run that ends
  prints exactly the content of the node's final answer, and it fails only with the message of
  a failed request, the tool never being the reason; one that goes on has used its fuel.\<close>

theorem cli_send_outcome:
  "let r = cli_send n p srv (cli_env send read (\<lambda>name. None)) opts sid prompt w in
   case resolveNode p srv opts of
      Inl m \<Rightarrow> cl_end r = Rejected m \<and> cl_stderr r = [] \<and> cl_stdout r = []
    | Inr target \<Rightarrow>
        (if truthy_str (go_coordinator opts) = None then jm_url target = go_node opts \<and>
           (\<exists>info. fetchNodeInfo p srv (go_node opts) = Inr info \<and> jm_publicKey target = ni_publicKey info)
         else \<exists>spec. matchJob p srv (the (go_coordinator opts)) spec = Inr target \<and> js_backend spec = go_backend opts) \<and>
        hd (cl_stderr r) = ''[target] '' @ jm_url target \<and>
        (case b64_decode p (jm_publicKey target) of
           Inl m \<Rightarrow> cl_end r = Rejected m \<and> cl_stdout r = []
         | Inr pub \<Rightarrow>
             (case runAgentLoop n (cli_env send read (\<lambda>name. None)) (cli_args opts target pub sid prompt) w of
                (out, st) \<Rightarrow>
                  (case cl_end r of
                     Done \<Rightarrow> \<exists>c u. cl_stdout r = [c] \<and> last_some response_of (lp_events st) = Some (FinalAnswer c u)
                   | Rejected m \<Rightarrow> cl_stdout r = [] \<and> (\<exists>q v v'. send q v = (Inl m, v'))
                   | Busy \<Rightarrow> cl_stdout r = [] \<and> lp_attempt st = n)))"
  unfolding Let_def by (rule cli_send_core)

text \<open>C30. The tool answers every call of the node: whatever the node's answer asks of
  \<open>read_local_file\<close>, the run goes on and the next request carries, under the id of the call, the
  content of the file named, or the reason why it could not be read, marked as an error. No
  path is refused, so the node obtains the content of every file the user can read.\<close>

theorem cli_tool_round:
  assumes "send (request_of a (st\<lparr>lp_attempt := Suc (lp_attempt st)\<rparr>)) (lp_world st) = (Inr res, w)"
    and "sr_response res = ToolCall useId ''read_local_file'' input u"
  shows "\<exists>st' c e. loop_round (cli_env send read inherited) a st = (Looping, st') \<and>
    so_step (request_of a st') = ToolResult useId c e \<and> so_prevAck (request_of a st') = so_prevAck (request_of a st) \<and> lp_world st' = w \<and>
    (case jget input ''path'' of
       Some (JStr path) \<Rightarrow>
         (case read w path of Inr content \<Rightarrow> c = content \<and> \<not> e | Inl m \<Rightarrow> c = ''read_local_file('' @ path @ ''): '' @ m \<and> e)
     | _ \<Rightarrow> c = ''read_local_file: `path` must be a string'' \<and> e)"
proof -
  have req: "request_of a (onEvent ev (st\<lparr>lp_attempt := k\<rparr>)) = request_of a (st\<lparr>lp_attempt := k\<rparr>)" for ev k
    by (simp add: request_of_def)
  obtain c e where t: "read_local_file read input w = (Inr (c, e), w)" using read_local_file_answers [of read input w] by blast
  then have ce: "case jget input ''path'' of
       Some (JStr path) \<Rightarrow>
         (case read w path of Inr content \<Rightarrow> c = content \<and> \<not> e | Inl m \<Rightarrow> c = ''read_local_file('' @ path @ ''): '' @ m \<and> e)
     | _ \<Rightarrow> c = ''read_local_file: `path` must be a string'' \<and> e"
    by (auto simp: read_local_file_def split: option.splits json.splits sum.splits)
  show ?thesis
    using assms t ce
    by (cases "sr_receipt res")
      (auto simp: loop_round_def call_tool_def run_tool_def cli_env_def clientTools_def take_receipt_def Let_def req, simp_all add: request_of_def)
qed

subsection \<open>Witness\<close>

definition demo_read :: "nat \<Rightarrow> string \<Rightarrow> string + string" where
  "demo_read w path = (if path = ''/etc/passwd'' then Inr ''root'' else Inl ''Error: ENOENT'')"

definition demo_cli_send :: "send_opts \<Rightarrow> nat \<Rightarrow> (string + step_result) \<times> nat" where
  "demo_cli_send q w =
     (Inr \<lparr>sr_response = ToolCall ''t1'' ''read_local_file'' (JObj [(''path'', JStr ''/etc/passwd'')]) demo_usage, sr_receipt = None\<rparr>, w)"

theorem cli_tool_round_witness:
  "\<exists>st'. loop_round (cli_env demo_cli_send demo_read (\<lambda>name. None)) demo_loop_args (loop_init demo_loop_args 0) = (Looping, st') \<and>
    so_step (request_of demo_loop_args st') = ToolResult ''t1'' ''root'' False"
proof -
  have "lp_world (loop_init demo_loop_args (0 :: nat)) = 0" by (simp add: loop_init_def)
  then show ?thesis
    using cli_tool_round [of demo_cli_send demo_loop_args "loop_init demo_loop_args 0" _ 0 "''t1''" "JObj [(''path'', JStr ''/etc/passwd'')]" demo_usage
        demo_read "\<lambda>name. None"]
    by (auto simp: demo_cli_send_def demo_read_def)
qed

end
