(* ===== verification/RustProtocol.thy ===== *)
theory RustProtocol
  imports ChannelHook Parsing
begin

section \<open>Channel updates in Rust (crates/protocol, crates/crypto)\<close>

text \<open>
  What the Rust node shares with the dashboard and the contract: the bytes of a channel
  update (\<open>crates/protocol/src/lib.rs\<close>), EIP-191 signatures over them
  (\<open>crates/crypto/src/lib.rs\<close>), the chain table (\<open>apps/node/src/chains.rs\<close>) and the deposit
  read with \<open>eth_call\<close> (\<open>apps/node/src/eth/abi.rs\<close>). The crates \<open>hex\<close>, \<open>sha3\<close> and \<open>k256\<close>
  are the fields of \<open>rust_prims\<close>. \<open>[u8; N]\<close> is a byte list, \<open>u64\<close> and \<open>u128\<close> are words.

  The properties say that the bytes are the contract's, that the two chain tables agree, and
  that the deposit read back is the contract's.
\<close>

type_synonym u128 = "128 word"

text \<open>
  \<open>k_sign seed digest\<close> is \<open>sign_prehash_recoverable\<close> (64 bytes and the recovery id),
  \<open>k_recid\<close> is \<open>RecoveryId::from_byte\<close>, \<open>k_sig\<close> is \<open>Signature::from_slice\<close>, \<open>k_recover\<close> is
  \<open>VerifyingKey::recover_from_prehash\<close> followed by \<open>to_encoded_point(false)\<close>, and \<open>k_public\<close>
  the encoded point of a seed's own key.
\<close>

record rust_prims =
  hex_decode :: "string \<Rightarrow> string + byte list"
  hex_encode :: "byte list \<Rightarrow> string"
  sha3_keccak :: "byte list \<Rightarrow> byte list"
  k_sign :: "byte list \<Rightarrow> byte list \<Rightarrow> byte list \<times> nat"
  k_public :: "byte list \<Rightarrow> byte list"
  k_recid :: "nat \<Rightarrow> nat option"
  k_sig :: "byte list \<Rightarrow> string + byte list"
  k_recover :: "byte list \<Rightarrow> byte list \<Rightarrow> nat \<Rightarrow> string + byte list"

subsection \<open>Strings and arrays\<close>

definition strip_prefix_0x :: "string \<Rightarrow> string" where
  "strip_prefix_0x s = (if take 2 s = ''0x'' then drop 2 s else s)"

fun trim_start_0x :: "string \<Rightarrow> string" where
  "trim_start_0x (a # b # s) = (if a = CHR ''0'' \<and> b = CHR ''x'' then trim_start_0x s else a # b # s)"
| "trim_start_0x s = s"

text \<open>\<open>s.parse::<u128>()\<close>: an optional plus sign, then at least one digit, and no overflow.\<close>

definition parse_u128 :: "string \<Rightarrow> u128 option" where
  "parse_u128 s =
     (let body = (case s of c # cs \<Rightarrow> if c = CHR ''+'' then cs else s | [] \<Rightarrow> []) in
      if body = [] then None
      else case digits_val 0 body of
             None \<Rightarrow> None
           | Some n \<Rightarrow> if n < 2 ^ 128 then Some (of_nat n) else None)"

text \<open>\<open>out[off..off + n].copy_from_slice(src)\<close>; the lengths are fixed by the types.\<close>

definition splice :: "byte list \<Rightarrow> nat \<Rightarrow> byte list \<Rightarrow> byte list" where
  "splice src off out = take off out @ src @ drop (off + length src) out"

subsection \<open>The canonical bytes\<close>

definition channel_update_domain_hash :: "rust_prims \<Rightarrow> byte list" where
  "channel_update_domain_hash p = sha3_keccak p (utf8 ''fldx-v0-channel-update'')"

definition canonical_channel_update_bytes ::
  "rust_prims \<Rightarrow> u64 \<Rightarrow> byte list \<Rightarrow> byte list \<Rightarrow> u64 \<Rightarrow> byte list \<Rightarrow> byte list" where
  "canonical_channel_update_bytes p chain_id contract channel_id nonce cum_owed =
     (let out = replicate 192 0;
          out = splice (channel_update_domain_hash p) 0 out;
          out = splice (be_spec 8 (uint chain_id)) (32 + 24) out;
          out = splice contract (64 + 12) out;
          out = splice channel_id 96 out;
          out = splice (be_spec 8 (uint nonce)) (128 + 24) out
      in splice cum_owed 160 out)"

definition bytes_from_hex :: "rust_prims \<Rightarrow> string \<Rightarrow> string \<Rightarrow> nat \<Rightarrow> string \<Rightarrow> string + byte list" where
  "bytes_from_hex p bad what n s =
     (case hex_decode p (strip_prefix_0x s) of
        Inl e \<Rightarrow> Inl (bad @ e)
      | Inr bytes \<Rightarrow>
          if length bytes \<noteq> n
          then Inl (what @ '' must be '' @ nat_str n @ '' bytes, got '' @ nat_str (length bytes))
          else Inr bytes)"

definition channel_id_from_hex :: "rust_prims \<Rightarrow> string \<Rightarrow> string + byte list" where
  "channel_id_from_hex p = bytes_from_hex p ''invalid channel id hex: '' ''channel id'' 32"

definition u256_be_from_decimal :: "string \<Rightarrow> string + byte list" where
  "u256_be_from_decimal s =
     (case parse_u128 s of
        None \<Rightarrow> Inl (''invalid decimal u256: '' @ s)
      | Some n \<Rightarrow> Inr (splice (be_spec 16 (uint n)) 16 (replicate 32 0)))"

text \<open>\<open>serde\<close> reads the wire's nonce into a \<open>u64\<close>.\<close>

definition channel_update_canonical_for ::
  "rust_prims \<Rightarrow> channel_update \<Rightarrow> u64 \<Rightarrow> byte list \<Rightarrow> string + byte list" where
  "channel_update_canonical_for p u chain_id contract =
     rbind (channel_id_from_hex p (cu_channelId u)) (\<lambda>channel_id.
     rbind (u256_be_from_decimal (cu_cumOwed u)) (\<lambda>cum_owed.
     Inr (canonical_channel_update_bytes p chain_id contract channel_id (of_nat (cu_nonce u)) cum_owed)))"

subsection \<open>EIP-191 signatures\<close>

definition EIP191_PREFIX :: "byte list" where
  "EIP191_PREFIX = 25 # utf8 ''Ethereum Signed Message:'' @ 10 # utf8 ''32''"

definition EIP191_SIG_SIZE :: nat where
  "EIP191_SIG_SIZE = 65"

definition IDENTITY_SIG_SIZE :: nat where
  "IDENTITY_SIG_SIZE = 64"

definition eip191_digest :: "rust_prims \<Rightarrow> byte list \<Rightarrow> byte list" where
  "eip191_digest p message = sha3_keccak p (EIP191_PREFIX @ sha3_keccak p message)"

definition sign_eip191 :: "rust_prims \<Rightarrow> byte list \<Rightarrow> byte list \<Rightarrow> byte list" where
  "sign_eip191 p seed message =
     (let (sig, recid) = k_sign p seed (eip191_digest p message) in sig @ [of_nat recid + 27])"

definition eth_address_from_point :: "rust_prims \<Rightarrow> byte list \<Rightarrow> byte list" where
  "eth_address_from_point p point = drop 12 (sha3_keccak p (drop 1 point))"

definition recover_eip191 :: "rust_prims \<Rightarrow> byte list \<Rightarrow> byte list \<Rightarrow> string + byte list" where
  "recover_eip191 p message sig =
     (let v = sig ! IDENTITY_SIG_SIZE in
      if v < 27 then Inl (''invalid v: '' @ nat_str (unat v))
      else case k_recid p (unat (v - 27)) of
             None \<Rightarrow> Inl (''invalid recovery id: '' @ nat_str (unat (v - 27)))
           | Some recid \<Rightarrow>
               (case k_sig p (take IDENTITY_SIG_SIZE sig) of
                  Inl e \<Rightarrow> Inl (''invalid signature bytes: '' @ e)
                | Inr rs \<Rightarrow>
                    (case k_recover p (eip191_digest p message) rs recid of
                       Inl e \<Rightarrow> Inl (''recovery failed: '' @ e)
                     | Inr point \<Rightarrow> Inr (eth_address_from_point p point))))"

definition eth_address :: "rust_prims \<Rightarrow> byte list \<Rightarrow> byte list" where
  "eth_address p seed = eth_address_from_point p (k_public p seed)"

subsection \<open>The chain table and the deposit\<close>

record rust_chain =
  rc_chain_id :: u64
  rc_name :: string
  rc_rpc_url :: string
  rc_usdc :: string
  rc_registry :: "string option"
  rc_channel :: "string option"

definition ANVIL :: rust_chain where
  "ANVIL = \<lparr>rc_chain_id = 31337, rc_name = ''anvil'', rc_rpc_url = ''http://127.0.0.1:8545'',
     rc_usdc = ''0x5FbDB2315678afecb367f032d93F642f64180aa3'',
     rc_registry = Some ''0xe7f1725E7734CE288F8367e1Bb143E90bb3F0512'',
     rc_channel = Some ''0x9fE46736679d2D9a65F0992F2272dE9f3c7fa6e0''\<rparr>"

definition BASE_SEPOLIA :: rust_chain where
  "BASE_SEPOLIA = \<lparr>rc_chain_id = 84532, rc_name = ''baseSepolia'', rc_rpc_url = ''https://sepolia.base.org'',
     rc_usdc = ''0x036CbD53842c5426634e7929541eC2318f3dCF7e'',
     rc_registry = Some ''0xf52b8f75eed06E61801D5251022FD052aa97A51C'',
     rc_channel = Some ''0x8afaE8DF7E2b9f28c2e0A7655BF2Df57506Fb58a''\<rparr>"

definition BASE :: rust_chain where
  "BASE = \<lparr>rc_chain_id = 8453, rc_name = ''base'', rc_rpc_url = ''https://mainnet.base.org'',
     rc_usdc = ''0x833589fCD6eDb6E08f4c7C32D4f71b54bdA02913'',
     rc_registry = None, rc_channel = None\<rparr>"

text \<open>\<open>from_env\<close>, of the text of \<open>FLDX_CHAIN_ID\<close> when it is set.\<close>

definition parse_u64 :: "string \<Rightarrow> u64 option" where
  "parse_u64 s =
     (case parse_u128 s of None \<Rightarrow> None | Some n \<Rightarrow> if unat n < 2 ^ 64 then Some (ucast n) else None)"

definition chain_from_env :: "string option \<Rightarrow> rust_chain option" where
  "chain_from_env raw =
     Option.bind (Option.bind raw parse_u64) (\<lambda>i.
       if i = 31337 then Some ANVIL else if i = 84532 then Some BASE_SEPOLIA else if i = 8453 then Some BASE else None)"

definition selector :: "rust_prims \<Rightarrow> string \<Rightarrow> byte list" where
  "selector p signature = take 4 (sha3_keccak p (utf8 signature))"

definition encode_channels_call :: "rust_prims \<Rightarrow> byte list \<Rightarrow> byte list" where
  "encode_channels_call p channel_id = selector p ''channels(bytes32)'' @ channel_id"

text \<open>Debug output of a byte slice, for the message.\<close>

fun comma_join :: "string list \<Rightarrow> string" where
  "comma_join [] = []"
| "comma_join [x] = x"
| "comma_join (x # y # xs) = x @ '', '' @ comma_join (y # xs)"

definition debug_bytes :: "byte list \<Rightarrow> string" where
  "debug_bytes bs = ''['' @ comma_join (map (\<lambda>b. nat_str (unat b)) bs) @ '']''"

definition at_least_sign :: string where
  "at_least_sign = [char_of (226::nat), char_of (137::nat), char_of (165::nat)]"

definition decode_channel_deposit :: "byte list \<Rightarrow> string + u128" where
  "decode_channel_deposit returndata =
     (if length returndata < 96
      then Inl (''channels() return too short: got '' @ nat_str (length returndata) @ '' bytes, want '' @ at_least_sign @ '' 96'')
      else let slot = take 32 (drop 64 returndata) in
           if list_ex (\<lambda>b. b \<noteq> 0) (take 16 slot) then Inl (''channels.deposit > u128::MAX (high bytes nonzero): '' @ debug_bytes (take 16 slot))
           else Inr (word_of_int (be_val (drop 16 slot))))"

text \<open>What the getter \<open>channels\<close> of \<open>JobChannel.sol\<close> returns: the struct's members, a slot each.\<close>

definition channels_getter :: "jc_state \<Rightarrow> byte list \<Rightarrow> byte list" where
  "channels_getter s cid =
     (let c = channels s cid in
      abi_address (c_client c) @ abi_address (c_node c) @ abi_u256 (deposit c) @ abi_u256 (latestCumOwed c)
        @ abi_u64 (latestNonce c) @ abi_u64 (challengeDeadline c) @ abi_u64 (openedAt c)
        @ be_spec 32 (int (status_code (c_status c))))"

subsection \<open>What the crates promise\<close>

text \<open>
  \<open>rust_ok\<close>: the crates' documented behaviour, on one side of the wire and on the chain:
  Keccak is one function of 32 bytes, \<open>hex\<close> decodes what it encodes in lower case, and
  \<open>MessageHashUtils\<close> prefixes a hash the way EIP-191 says. \<open>ecrecover_ok\<close>: a 65-byte
  signature from which the chain recovers an address is one from which \<open>k256\<close> recovers the
  point of that address. \<open>identity_ok\<close>: what a seed signs recovers to the seed's address.
\<close>

definition rust_ok :: "rust_prims \<Rightarrow> crypto \<Rightarrow> bool" where
  "rust_ok p cr \<longleftrightarrow>
     sha3_keccak p = keccak cr \<and> (\<forall>b. length (keccak cr b) = 32) \<and>
     (\<forall>bs. hex_decode p (bytes_hex bs) = Inr bs) \<and> (\<forall>bs. hex_encode p bs = bytes_hex bs) \<and>
     (\<forall>h. toEthSignedMessageHash cr h = keccak cr (EIP191_PREFIX @ h))"

definition ecrecover_ok :: "rust_prims \<Rightarrow> crypto \<Rightarrow> bool" where
  "ecrecover_ok p cr \<longleftrightarrow>
     (\<forall>d rs v a. length rs = 64 \<longrightarrow> recover cr d (rs @ [v]) = Some a \<longrightarrow>
        27 \<le> v \<and> (\<exists>recid sg pt. k_recid p (unat (v - 27)) = Some recid \<and> k_sig p rs = Inr sg \<and>
          k_recover p d sg recid = Inr pt \<and> eth_address_from_point p pt = address_bytes a))"

definition identity_ok :: "rust_prims \<Rightarrow> crypto \<Rightarrow> byte list \<Rightarrow> address \<Rightarrow> bool" where
  "identity_ok p cr seed a \<longleftrightarrow>
     eth_address p seed = address_bytes a \<and>
     (\<forall>d. length (fst (k_sign p seed d)) = 64 \<and>
        recover cr d (fst (k_sign p seed d) @ [of_nat (snd (k_sign p seed d)) + 27]) = Some a)"

subsection \<open>Facts\<close>

lemma take2_0x: "take 2 (CHR ''0'' # CHR ''x'' # s) = ''0x''"
  by simp

lemma strip_0x_bytes [simp]: "strip_prefix_0x (CHR ''0'' # CHR ''x'' # s) = s"
  by (simp add: strip_prefix_0x_def)

lemma parse_u128_nat_str: "n < 2 ^ 128 \<Longrightarrow> parse_u128 (nat_str n) = Some (of_nat n)"
proof -
  assume n: "n < 2 ^ 128"
  obtain c cs where c: "nat_str n = c # cs" using nat_str_nonempty list.exhaust by blast
  then have "c \<noteq> CHR ''+''" using nat_str_digit [of c n] char_digit_signs by auto
  then have "(case nat_str n of c # cs \<Rightarrow> if c = CHR ''+'' then cs else nat_str n | [] \<Rightarrow> []) = nat_str n"
    by (simp add: c)
  with n show ?thesis by (simp add: parse_u128_def digits_val_nat_str)
qed

lemma parse_u128_unat: "parse_u128 (nat_str (unat (w :: u128))) = Some w"
proof -
  have "unat w < 2 ^ 128" using unsigned_less [of w] by simp
  then show ?thesis by (simp add: parse_u128_nat_str)
qed

lemma splice_fits: "length pre = off \<Longrightarrow> length mid = length src \<Longrightarrow> splice src off (pre @ mid @ post) = pre @ src @ post"
  by (simp add: splice_def)

lemma abi_u256_small:
  assumes "0 \<le> v" "v < 256 ^ m" "m \<le> 32"
  shows "be_spec 32 v = replicate (32 - m) 0 @ be_spec m v"
  using be_spec_pad [OF assms(1,2), of "32 - m"] assms(3) by simp

lemma u256_be_of_u128: "u256_be_from_decimal (nat_str (unat (w :: u128))) = Inr (abi_u256 (ucast w))"
proof -
  have "uint w < 2 ^ 128" using unsigned_less [of w] by simp
  then have "be_spec 32 (uint w) = replicate 16 0 @ be_spec 16 (uint w)" using abi_u256_small [of "uint w" 16] by simp
  moreover have "uint (ucast w :: u256) = uint w" by (rule uint_up_ucast) (simp add: is_up)
  ultimately show ?thesis
    by (simp add: u256_be_from_decimal_def parse_u128_unat splice_def abi_u256_def)
qed

lemma canonical_bytes_layout:
  assumes "length (channel_update_domain_hash p) = 32" "length contract = 20" "length cid = 32" "length owed = 32"
  shows "canonical_channel_update_bytes p chain_id contract cid nonce owed =
    channel_update_domain_hash p @ (replicate 24 0 @ be_spec 8 (uint chain_id)) @ (replicate 12 0 @ contract) @ cid
      @ (replicate 24 0 @ be_spec 8 (uint nonce)) @ owed"
proof -
  define h c n where "h = channel_update_domain_hash p" "c = be_spec 8 (uint chain_id)" "n = be_spec 8 (uint nonce)"
  have l: "length h = 32" "length c = 8" "length n = 8" using assms(1) by (simp_all add: h_c_n_def)
  have 1: "splice h 0 (replicate 192 0) = h @ replicate 160 0" using l by (simp add: splice_def)
  have 2: "splice c 56 (h @ replicate 160 0) = h @ (replicate 24 0 @ c) @ replicate 128 0" using l by (simp add: splice_def)
  have 3: "splice contract 76 (h @ (replicate 24 0 @ c) @ replicate 128 0)
      = h @ (replicate 24 0 @ c) @ (replicate 12 0 @ contract) @ replicate 96 0" using l assms(2) by (simp add: splice_def)
  have 4: "splice cid 96 (h @ (replicate 24 0 @ c) @ (replicate 12 0 @ contract) @ replicate 96 0)
      = h @ (replicate 24 0 @ c) @ (replicate 12 0 @ contract) @ cid @ replicate 64 0" using l assms(2,3) by (simp add: splice_def)
  have 5: "splice n 152 (h @ (replicate 24 0 @ c) @ (replicate 12 0 @ contract) @ cid @ replicate 64 0)
      = h @ (replicate 24 0 @ c) @ (replicate 12 0 @ contract) @ cid @ (replicate 24 0 @ n) @ replicate 32 0"
    using l assms(2,3) by (simp add: splice_def)
  have 6: "splice owed 160 (h @ (replicate 24 0 @ c) @ (replicate 12 0 @ contract) @ cid @ (replicate 24 0 @ n) @ replicate 32 0)
      = h @ (replicate 24 0 @ c) @ (replicate 12 0 @ contract) @ cid @ (replicate 24 0 @ n) @ owed"
    using l assms(2-4) by (simp add: splice_def)
  have off: "32 + 24 = (56::nat)" "64 + 12 = (76::nat)" "128 + 24 = (152::nat)" by simp_all
  show ?thesis
    unfolding canonical_channel_update_bytes_def Let_def off h_c_n_def [symmetric] 1 2 3 4 5 6 ..
qed

lemma rust_ok_facts:
  assumes "rust_ok p cr"
  shows "sha3_keccak p = keccak cr" "length (keccak cr b) = 32" "hex_decode p (bytes_hex bs) = Inr bs"
    "hex_encode p bs = bytes_hex bs" "toEthSignedMessageHash cr h = keccak cr (EIP191_PREFIX @ h)"
  using assms by (auto simp: rust_ok_def)

lemma channel_id_from_hex_bytes:
  "rust_ok p cr \<Longrightarrow> length cid = 32 \<Longrightarrow> channel_id_from_hex p (CHR ''0'' # CHR ''x'' # bytes_hex cid) = Inr cid"
  by (simp add: channel_id_from_hex_def bytes_from_hex_def rust_ok_facts)

lemma rust_canonical_is_message:
  assumes "rust_ok p cr" "length cid = 32" "uint (rc_chain_id ch) = uint (chainid cfg)"
    and "cu_channelId u = ''0x'' @ bytes_hex cid" "cu_cumOwed u = nat_str (unat (owed :: u128))"
  shows "channel_update_canonical_for p u (rc_chain_id ch) (address_bytes (this_addr cfg))
    = Inr (update_message cr cfg cid (of_nat (cu_nonce u)) (ucast owed))"
proof -
  have dom: "channel_update_domain_hash p = keccak cr update_domain"
    using rust_ok_facts(1) [OF assms(1)] by (simp add: channel_update_domain_hash_def update_domain_def utf8_def)
  have "uint (rc_chain_id ch) < 256 ^ 8" using unsigned_less [of "rc_chain_id ch", where ?'a = int] by simp
  then have "uint (chainid cfg) < 256 ^ 8" by (simp only: assms(3))
  then have "replicate 24 0 @ be_spec 8 (uint (rc_chain_id ch)) = abi_u256 (chainid cfg)"
    using abi_u256_small [of "uint (chainid cfg)" 8] by (simp add: abi_u256_def assms(3))
  moreover have "replicate 24 0 @ be_spec 8 (uint (of_nat (cu_nonce u) :: u64)) = abi_u64 (of_nat (cu_nonce u))"
    by (simp only: abi_u64_split)
  ultimately show ?thesis
    using canonical_bytes_layout [of p "address_bytes (this_addr cfg)" cid "abi_u256 (ucast owed)" "rc_chain_id ch" "of_nat (cu_nonce u)"]
      assms(2) rust_ok_facts(2) [OF assms(1)] channel_id_from_hex_bytes [OF assms(1,2)]
    by (simp add: channel_update_canonical_for_def assms(4,5) u256_be_of_u128 dom update_message_def update_domain_agrees abi_address_split)
qed

lemma eip191_digest_is_contracts:
  "rust_ok p cr \<Longrightarrow> eip191_digest p m = toEthSignedMessageHash cr (keccak cr m)"
  by (simp add: eip191_digest_def rust_ok_facts)

lemma recover_agrees:
  assumes "rust_ok p cr" "ecrecover_ok p cr" "length sig = 65"
    and "recover cr (toEthSignedMessageHash cr (keccak cr m)) sig = Some a"
  shows "recover_eip191 p m sig = Inr (address_bytes a)"
proof -
  have sig: "sig = take 64 sig @ [sig ! 64]" "length (take 64 sig) = 64"
    using assms(3) by (simp_all flip: take_Suc_conv_app_nth)
  have rec: "recover cr (eip191_digest p m) (take 64 sig @ [sig ! 64]) = Some a"
    using assms(1,4) sig(1) by (simp add: eip191_digest_is_contracts)
  from assms(2) [unfolded ecrecover_ok_def, rule_format, OF sig(2) rec] show ?thesis
    by (auto simp: recover_eip191_def IDENTITY_SIG_SIZE_def Let_def)
qed

lemma signature_recovers:
  assumes "rust_ok p cr" "identity_ok p cr seed a"
  shows "recover cr (toEthSignedMessageHash cr (keccak cr m)) (sign_eip191 p seed m) = Some a"
    and "length (sign_eip191 p seed m) = 65"
  using assms by (simp_all add: sign_eip191_def identity_ok_def case_prod_beta eip191_digest_is_contracts)

text \<open>The deposit slot of the getter.\<close>

lemma getter_slot: "take 32 (drop 64 (channels_getter s cid)) = abi_u256 (deposit (channels s cid))"
  by (simp add: channels_getter_def Let_def)

lemma be_spec_high: "take k (be_spec (k + m) v) = be_spec k (v div 256 ^ m)"
proof (rule nth_equalityI)
  fix i assume "i < length (take k (be_spec (k + m) v))"
  then have i: "i < k" by simp
  have "v div 256 ^ (k + m - 1 - i) = v div 256 ^ m div 256 ^ (k - 1 - i)"
  proof -
    have "k + m - 1 - i = m + (k - 1 - i)" using i by simp
    then show ?thesis by (simp add: power_add zdiv_zmult2_eq)
  qed
  with i show "take k (be_spec (k + m) v) ! i = be_spec k (v div 256 ^ m) ! i" by (simp add: be_spec_def)
qed simp

lemma be_spec_low: "drop k (be_spec (k + m) v) = be_spec m v"
proof (rule nth_equalityI)
  fix i assume "i < length (drop k (be_spec (k + m) v))"
  then have i: "i < m" by simp
  then have "k + m - 1 - (k + i) = m - 1 - i" by simp
  with i show "drop k (be_spec (k + m) v) ! i = be_spec m v ! i" by (simp add: be_spec_def)
qed simp

lemma be_spec_0: "be_spec k 0 = replicate k 0"
  by (rule replicate_eqI) (auto simp: be_spec_def)

lemma be_spec_nonzero:
  assumes "v mod 256 ^ k \<noteq> 0"
  shows "list_ex (\<lambda>b. b \<noteq> 0) (be_spec k v)"
proof (rule ccontr)
  assume "\<not> list_ex (\<lambda>b. b \<noteq> 0) (be_spec k v)"
  then have "be_spec k v = replicate k 0" by (intro replicate_eqI) (auto simp: list_ex_iff)
  then have "be_spec k v = be_spec k 0" by (simp add: be_spec_0)
  then have "be_val (be_spec k v) = be_val (be_spec k 0)" by (rule arg_cong)
  with assms show False by (simp add: be_val_be_spec)
qed

lemma deposit_slot:
  "decode_channel_deposit (channels_getter s cid) =
     (if unat (deposit (channels s cid)) < 2 ^ 128
      then Inr (ucast (deposit (channels s cid)))
      else Inl (''channels.deposit > u128::MAX (high bytes nonzero): '' @ debug_bytes (take 16 (abi_u256 (deposit (channels s cid))))))"
proof -
  let ?d = "uint (deposit (channels s cid))"
  have len: "\<not> length (channels_getter s cid) < 96" by (simp add: channels_getter_def Let_def)
  have hi: "take 16 (abi_u256 (deposit (channels s cid))) = be_spec 16 (?d div 256 ^ 16)"
    unfolding abi_u256_def using be_spec_high [of 16 16 ?d] by simp
  have lo: "drop 16 (abi_u256 (deposit (channels s cid))) = be_spec 16 ?d"
    unfolding abi_u256_def using be_spec_low [of 16 16 ?d] by simp
  have d: "0 \<le> ?d" "?d < 2 ^ 256" using unsigned_less [of "deposit (channels s cid)", where ?'a = int] by simp_all
  have small: "unat (deposit (channels s cid)) < 2 ^ 128 \<longleftrightarrow> ?d < 2 ^ 128"
  proof -
    have "int (unat (deposit (channels s cid))) = ?d" by (rule uint_nat [symmetric])
    moreover have "unat (deposit (channels s cid)) < 2 ^ 128 \<longleftrightarrow> int (unat (deposit (channels s cid))) < int (2 ^ 128)"
      by (rule of_nat_less_iff [symmetric])
    ultimately show ?thesis by (simp only: of_nat_power of_nat_numeral)
  qed
  show ?thesis
  proof (cases "?d < 2 ^ 128")
    case True
    then have "?d div 256 ^ 16 = 0" using d by (intro div_pos_pos_trivial) simp_all
    then have "\<not> list_ex (\<lambda>b. b \<noteq> 0) (be_spec 16 (?d div 256 ^ 16))" by (simp add: be_spec_0 list_ex_iff)
    moreover have "?d mod 256 ^ 16 = ?d" using True d by (intro mod_pos_pos_trivial) simp_all
    moreover have "word_of_int ?d = (ucast (deposit (channels s cid)) :: u128)" by (rule ucast_eq [symmetric])
    ultimately show ?thesis
      using True small unfolding decode_channel_deposit_def Let_def getter_slot hi lo be_val_be_spec
      by (simp only: len if_False if_True)
  next
    case False
    then have "0 < ?d div 256 ^ 16" using d by (simp add: pos_imp_zdiv_pos_iff)
    moreover have "?d div 256 ^ 16 < 256 ^ 16" using d by (simp add: div_less_iff_less_mult)
    ultimately have "?d div 256 ^ 16 mod 256 ^ 16 \<noteq> 0" using mod_pos_pos_trivial by simp
    then have "list_ex (\<lambda>b. b \<noteq> 0) (be_spec 16 (?d div 256 ^ 16))" by (rule be_spec_nonzero)
    with False small show ?thesis
      unfolding decode_channel_deposit_def Let_def getter_slot hi by (simp only: len if_False if_True)
  qed
qed

subsection \<open>Properties\<close>

text \<open>C4. Node, dashboard and contract sign the same bytes: for a well-formed update of fewer
  than 2^128 units, the bytes the Rust node builds are those of the dashboard's
  \<open>channelUpdateCanonical\<close> and of the contract's message, and the digest it signs is
  \<open>JobChannel.updateDigest\<close>.\<close>

theorem three_sides_sign_same_bytes:
  assumes "rust_ok p cr" "length cid = 32" "uint (rc_chain_id ch) = uint (chainid cfg)"
    and "cu_channelId u = ''0x'' @ bytes_hex cid" "cu_cumOwed u = nat_str (unat (owed :: u128))" "cu_nonce u = unat n"
  shows "channel_update_canonical_for p u (rc_chain_id ch) (address_bytes (this_addr cfg))
      = Inr (update_message cr cfg cid n (ucast owed)) \<and>
    channelUpdateCanonical (keccak cr) (uint (chainid cfg)) (address_hex (this_addr cfg)) (cu_channelId u)
      (int (cu_nonce u)) (int (unat owed)) = Inr (update_message cr cfg cid n (ucast owed)) \<and>
    eip191_digest p (update_message cr cfg cid n (ucast owed)) = updateDigest cr cfg cid n (ucast owed)"
proof -
  have "int (unat owed) = uint (ucast owed :: u256)"
    by (subst uint_up_ucast) (simp_all add: is_up)
  then show ?thesis
    using rust_canonical_is_message [OF assms(1-5)] canonical_is_message [of cr cid cfg n "ucast owed"]
      rust_ok_facts(2) [OF assms(1)] eip191_digest_is_contracts [OF assms(1)] assms(2,4,6)
    by (simp add: updateDigest_def)
qed

text \<open>The chain table of the node and that of the TypeScript packages: for every chain of the
  latter, \<open>FLDX_CHAIN_ID\<close> set to its id selects an entry with the same id, name, RPC URL and
  contract addresses.\<close>

theorem chain_tables_agree:
  "map (\<lambda>(i, c). map_option (\<lambda>r. (uint (rc_chain_id r), rc_name r, rc_rpc_url r, rc_usdc r, rc_registry r, rc_channel r))
       (chain_from_env (Some (int_str i)))) chains
   = map (\<lambda>(i, c). Some (cc_chainId c, chain_name_str (cc_name c), cc_rpcUrl c, usdc_at (cc_addresses c),
       registry_at (cc_addresses c), channel_at (cc_addresses c))) chains"
proof -
  have "int_str 31337 = ''31337''" "int_str 84532 = ''84532''" "int_str 8453 = ''8453''"
    by (simp_all add: int_str_def nat_str.simps digit_char_def char_of_def bit_Suc_0_iff)
  moreover have "parse_u64 ''31337'' = Some 31337" "parse_u64 ''84532'' = Some 84532" "parse_u64 ''8453'' = Some 8453"
    by (simp_all add: parse_u64_def parse_u128_def char_digit_def Let_def)
  ultimately show ?thesis
    by (simp add: chains_def chain_from_env_def ANVIL_def BASE_SEPOLIA_def BASE_def)
qed

subsection \<open>Witnesses\<close>

text \<open>Toy primitives that keep the crates' promises: Keccak pads to 32 bytes, and a signature by
  a key begins with the key's address.\<close>

definition pad32 :: "byte list \<Rightarrow> byte list" where
  "pad32 b = take 32 (b @ replicate 32 0)"

definition demo_point :: "byte \<Rightarrow> byte list" where
  "demo_point a = 0 # replicate 12 0 @ address_bytes (ucast a)"

definition demo_hex :: "string \<Rightarrow> string + byte list" where
  "demo_hex s = (if to_lower s = s \<and> list_all (\<lambda>c. hex_digit c \<noteq> None) s
     then (case hexToBytes s of Inl e \<Rightarrow> Inl ''Odd number of digits'' | Inr b \<Rightarrow> Inr b) else Inl ''Invalid character'')"

definition demo_rp :: rust_prims where
  "demo_rp = \<lparr>hex_decode = demo_hex, hex_encode = bytes_hex, sha3_keccak = pad32,
     k_sign = (\<lambda>seed d. (hd seed # replicate 63 0, 0)), k_public = (\<lambda>seed. demo_point (hd seed)),
     k_recid = (\<lambda>n. if n \<le> 3 then Some n else None), k_sig = Inr, k_recover = (\<lambda>d sg r. Inr (demo_point (hd sg)))\<rparr>"

definition demo_evm :: crypto where
  "demo_evm = \<lparr>keccak = pad32, toEthSignedMessageHash = (\<lambda>h. pad32 (EIP191_PREFIX @ h)),
     recover = (\<lambda>d sig. if length sig = 65 \<and> sig ! 64 \<in> {27, 28} then Some (ucast (hd sig)) else None)\<rparr>"

lemma hex_digits_of_bytes: "list_all (\<lambda>c. hex_digit c \<noteq> None) (bytes_hex bs)"
proof -
  have "unat b div 16 < 16" "unat b mod 16 < 16" for b :: byte
    using unsigned_less [of b, where ?'a = nat] by auto
  then have "list_all (\<lambda>c. hex_digit c \<noteq> None) (byte_hex b)" for b
    by (simp add: byte_hex_def hex_char_simps)
  then show ?thesis by (induction bs) (simp_all add: bytes_hex_def)
qed

lemma demo_rust_ok: "rust_ok demo_rp demo_evm"
proof -
  have "length (pad32 b) = 32" for b by (simp add: pad32_def min_def)
  moreover have "demo_hex (bytes_hex bs) = Inr bs" for bs
    unfolding demo_hex_def if_P [OF conjI [OF to_lower_bytes_hex hex_digits_of_bytes]] by simp
  ultimately show ?thesis by (simp add: rust_ok_def demo_rp_def demo_evm_def)
qed

lemma demo_address: "eth_address_from_point demo_rp (demo_point a) = address_bytes (ucast a)"
  by (simp add: eth_address_from_point_def demo_point_def demo_rp_def pad32_def)

lemma demo_ecrecover_ok: "ecrecover_ok demo_rp demo_evm"
proof -
  have "27 \<le> v \<and> (\<exists>recid sg pt. k_recid demo_rp (unat (v - 27)) = Some recid \<and> k_sig demo_rp rs = Inr sg \<and>
      k_recover demo_rp d sg recid = Inr pt \<and> eth_address_from_point demo_rp pt = address_bytes a)"
    if "length rs = 64" "recover demo_evm d (rs @ [v]) = Some a" for d rs v a
  proof -
    from that have v: "v = 27 \<or> v = 28" and a: "a = ucast (hd rs)"
      by (auto simp: demo_evm_def nth_append hd_append split: if_splits)
    have "k_recover demo_rp d rs r = Inr (demo_point (hd rs))" "k_sig demo_rp rs = Inr rs" for r
      by (simp_all add: demo_rp_def)
    moreover have "27 \<le> v \<and> (\<exists>recid. k_recid demo_rp (unat (v - 27)) = Some recid)" using v by (auto simp: demo_rp_def)
    ultimately show ?thesis using demo_address a by blast
  qed
  then show ?thesis unfolding ecrecover_ok_def by blast
qed

lemma demo_identity_ok: "identity_ok demo_rp demo_evm (x # xs) (ucast x)"
  by (simp add: identity_ok_def eth_address_def demo_address [symmetric]) (simp add: demo_rp_def demo_evm_def nth_append)

definition demo_rust_chain :: rust_chain where
  "demo_rust_chain = BASE_SEPOLIA\<lparr>rc_channel := Some (address_hex 9)\<rparr>"

theorem three_sides_sign_same_bytes_witness:
  "channel_update_canonical_for demo_rp \<lparr>cu_channelId = ''0x'' @ bytes_hex demo_cid, cu_nonce = 3, cu_cumOwed = nat_str 20\<rparr>
     84532 (address_bytes 9) = Inr (update_message demo_evm demo_cfg demo_cid 3 20)"
proof -
  let ?u = "\<lparr>cu_channelId = ''0x'' @ bytes_hex demo_cid, cu_nonce = 3, cu_cumOwed = nat_str 20\<rparr>"
  have h: "length demo_cid = 32" "uint (rc_chain_id demo_rust_chain) = uint (chainid demo_cfg)" "cu_channelId ?u = ''0x'' @ bytes_hex demo_cid"
    "cu_cumOwed ?u = nat_str (unat (20 :: u128))" "cu_nonce ?u = unat (3 :: u64)"
    by (simp_all add: demo_cid_def demo_rust_chain_def BASE_SEPOLIA_def demo_cfg_def)
  from three_sides_sign_same_bytes [OF demo_rust_ok h] show ?thesis
    by (simp add: demo_rust_chain_def BASE_SEPOLIA_def demo_cfg_def)
qed

end
