(* ===== verification/NodeChannel.thy ===== *)
theory NodeChannel
  imports RustProtocol
begin

section \<open>The node's channel accounting (apps/node/src/main.rs)\<close>

text \<open>
  What the node keeps per payment channel (\<open>ChannelState\<close>), the solvency gate in front of the
  backend, the receipt it signs after every round trip, and the acknowledgements it takes
  with a request or over \<open>POST /ack\<close>. The map of channels sits behind a mutex that is released
  around the \<open>eth_call\<close> and around the backend, so the handlers are modelled by their critical
  sections: \<open>solvent_read\<close>, \<open>solvent_store\<close>, \<open>build_receipt\<close> and \<open>ack\<close>. \<open>execute_step\<close> runs them in
  the order of one request that nothing interrupts; \<open>node_step\<close> lets those of any number of
  requests interleave.

  The properties: the ledger's nonce and amount are the number and the sum of the receipts
  issued, a recorded acknowledgement is always signed by the channel's recorded client, and
  what the node does not guard against (a stale acknowledgement, a client that never
  acknowledges, a deposit cached too early, a first acknowledgement from a stranger).
\<close>

subsection \<open>State and errors\<close>

record channel_entry =
  ce_nonce :: u64
  ce_cum_owed :: u128
  ce_last_acked :: "client_ack option"
  ce_client_address :: "byte list option"
  ce_deposit :: "u128 option"

datatype api_error = BadRequest string | PaymentRequired string | NotImplemented string | Internal string

text \<open>A handler fails with an \<open>ApiError\<close>, or panics on an arithmetic overflow.\<close>

datatype node_failure = Api api_error | Panic

type_synonym ledger = "byte list \<Rightarrow> channel_entry option"

text \<open>
  What does not change while the node runs. \<open>nc_overflow_checks\<close> is the build profile: debug
  builds panic on overflow, release builds wrap.
\<close>

record node_conf =
  nc_seed :: "byte list"
  nc_pricing :: "backend_price list"
  nc_chain :: "rust_chain option"
  nc_overflow_checks :: bool

definition new_entry :: channel_entry where
  "new_entry = \<lparr>ce_nonce = 0, ce_cum_owed = 0, ce_last_acked = None, ce_client_address = None, ce_deposit = None\<rparr>"

definition entry_or_new :: "byte list \<Rightarrow> ledger \<Rightarrow> channel_entry" where
  "entry_or_new cid m = (case m cid of None \<Rightarrow> new_entry | Some e \<Rightarrow> e)"

definition parse_addr :: "rust_prims \<Rightarrow> string \<Rightarrow> string + byte list" where
  "parse_addr p = bytes_from_hex p [] ''address'' 20"

definition map_err :: "(string \<Rightarrow> api_error) \<Rightarrow> string + 'a \<Rightarrow> node_failure + 'a" where
  "map_err f r = (case r of Inl m \<Rightarrow> Inl (Api (f m)) | Inr a \<Rightarrow> Inr a)"

text \<open>The common start of the handlers: the chain, the channel contract and the channel id.\<close>

definition channel_target ::
  "rust_prims \<Rightarrow> node_conf \<Rightarrow> string \<Rightarrow> string \<Rightarrow> string \<Rightarrow> string \<Rightarrow> node_failure + (rust_chain \<times> byte list \<times> byte list)" where
  "channel_target p cf no_chain no_contract bad_addr channel_id_hex =
     (case nc_chain cf of
        None \<Rightarrow> Inl (Api (BadRequest no_chain))
      | Some chain \<Rightarrow>
          (case rc_channel chain of
             None \<Rightarrow> Inl (Api (BadRequest no_contract))
           | Some addr_hex \<Rightarrow>
               rbind (map_err (\<lambda>e. Internal (bad_addr @ e)) (parse_addr p addr_hex)) (\<lambda>addr.
               rbind (map_err (\<lambda>e. BadRequest (''invalid channel_id: '' @ e)) (channel_id_from_hex p channel_id_hex)) (\<lambda>cid.
               Inr (chain, addr, cid)))))"

definition no_chain_text :: string where
  "no_chain_text = ''channel_id supplied but FLDX_CHAIN_ID is unset''"

definition no_contract_text :: string where
  "no_contract_text = ''channel_id supplied but no channel contract on this chain''"

subsection \<open>The solvency gate\<close>

text \<open>The cached deposit and the amount owed, read under a brief lock.\<close>

definition solvent_read :: "byte list \<Rightarrow> ledger \<Rightarrow> u128 option \<times> u128" where
  "solvent_read cid m = (case m cid of None \<Rightarrow> (None, 0) | Some e \<Rightarrow> (ce_deposit e, ce_cum_owed e))"

text \<open>The \<open>eth_call\<close> for an uncached deposit; \<open>rpc\<close> is the node's JSON-RPC endpoint.\<close>

definition solvent_fetch ::
  "rust_prims \<Rightarrow> (byte list \<Rightarrow> byte list \<Rightarrow> string + byte list) \<Rightarrow> byte list \<Rightarrow> byte list \<Rightarrow> node_failure + u128" where
  "solvent_fetch p rpc addr cid =
     rbind (map_err (\<lambda>e. Internal (''channels() eth_call: '' @ e)) (rpc addr (encode_channels_call p cid))) (\<lambda>returndata.
     map_err (\<lambda>e. Internal (''decode channels(): '' @ e)) (decode_channel_deposit returndata))"

definition solvent_store :: "byte list \<Rightarrow> u128 \<Rightarrow> ledger \<Rightarrow> ledger" where
  "solvent_store cid d m = m(cid \<mapsto> (entry_or_new cid m)\<lparr>ce_deposit := Some d\<rparr>)"

definition solvent_decide :: "string \<Rightarrow> u128 \<Rightarrow> u128 \<Rightarrow> node_failure + unit" where
  "solvent_decide channel_id_hex dep cum_owed =
     (if dep = 0
      then Inl (Api (PaymentRequired (''channel '' @ channel_id_hex @ '' has zero deposit (or doesn't exist on-chain)'')))
      else if dep \<le> cum_owed
      then Inl (Api (PaymentRequired (''channel '' @ channel_id_hex @ '' exhausted: cum_owed '' @ nat_str (unat cum_owed)
             @ '' '' @ at_least_sign @ '' deposit '' @ nat_str (unat dep))))
      else Inr ())"

definition check_channel_solvent ::
  "rust_prims \<Rightarrow> node_conf \<Rightarrow> (byte list \<Rightarrow> byte list \<Rightarrow> string + byte list) \<Rightarrow> string \<Rightarrow> ledger \<Rightarrow>
   (node_failure + unit) \<times> ledger" where
  "check_channel_solvent p cf rpc channel_id_hex m =
     (case channel_target p cf no_chain_text no_contract_text ''invalid channel address: '' channel_id_hex of
        Inl e \<Rightarrow> (Inl e, m)
      | Inr (chain, addr, cid) \<Rightarrow>
          (case solvent_read cid m of
             (Some d, owed) \<Rightarrow> (solvent_decide channel_id_hex d owed, m)
           | (None, owed) \<Rightarrow>
               (case solvent_fetch p rpc addr cid of
                  Inl e \<Rightarrow> (Inl e, m)
                | Inr d \<Rightarrow> (solvent_decide channel_id_hex d owed, solvent_store cid d m))))"

subsection \<open>Acknowledgements\<close>

definition verify_and_record_ack ::
  "rust_prims \<Rightarrow> channel_entry \<Rightarrow> client_ack \<Rightarrow> string \<Rightarrow> u64 \<Rightarrow> byte list \<Rightarrow> string + channel_entry" where
  "verify_and_record_ack p entry ack expected_channel_id_hex chain_id channel_addr =
     (if trim_start_0x (to_lower (cu_channelId (ack_update ack))) \<noteq> trim_start_0x (to_lower expected_channel_id_hex)
      then Inl ''ack channel_id mismatch''
      else rbind (channel_update_canonical_for p (ack_update ack) chain_id channel_addr) (\<lambda>canonical.
           rbind (hex_decode p (trim_start_0x (clientSig ack))) (\<lambda>sig.
           if length sig \<noteq> EIP191_SIG_SIZE
           then Inl (''client_sig must be '' @ nat_str EIP191_SIG_SIZE @ '' bytes, got '' @ nat_str (length sig))
           else rbind (recover_eip191 p canonical sig) (\<lambda>recovered.
             case ce_client_address entry of
               Some known \<Rightarrow>
                 if known \<noteq> recovered then Inl ''ack signer address differs from channel client''
                 else Inr (entry\<lparr>ce_client_address := Some recovered, ce_last_acked := Some ack\<rparr>)
             | None \<Rightarrow> Inr (entry\<lparr>ce_client_address := Some recovered, ce_last_acked := Some ack\<rparr>)))))"

text \<open>\<open>POST /ack\<close>. The entry is made before the acknowledgement is looked at.\<close>

definition ack_handler :: "rust_prims \<Rightarrow> node_conf \<Rightarrow> client_ack \<Rightarrow> ledger \<Rightarrow> (node_failure + unit) \<times> ledger" where
  "ack_handler p cf a m =
     (case channel_target p cf (''FLDX_CHAIN_ID unset '' @ em_dash @ '' channels disabled'') ''no channel contract on this chain''
             ''invalid channel address: '' (cu_channelId (ack_update a)) of
        Inl e \<Rightarrow> (Inl e, m)
      | Inr (chain, addr, cid) \<Rightarrow>
          (case verify_and_record_ack p (entry_or_new cid m) a (cu_channelId (ack_update a)) (rc_chain_id chain) addr of
             Inl e \<Rightarrow> (Inl (Api (BadRequest (''invalid ack: '' @ e))), m(cid \<mapsto> entry_or_new cid m))
           | Inr entry \<Rightarrow> (Inr (), m(cid \<mapsto> entry))))"

subsection \<open>Receipts\<close>

definition price_for :: "backend_price list \<Rightarrow> backend_type \<Rightarrow> u128" where
  "price_for prices backend =
     (case find (\<lambda>b. bp_backend b = backend) prices of
        None \<Rightarrow> 0
      | Some b \<Rightarrow> (case parse_u128 (bp_pricePer1k b) of None \<Rightarrow> 0 | Some n \<Rightarrow> n))"

text \<open>The usage fields are \<open>u32\<close>s, an absent one counts 0.\<close>

definition total_tokens :: "usage \<Rightarrow> u64" where
  "total_tokens u =
     word_of_int (inputTokens u) + word_of_int (outputTokens u)
       + word_of_int (case cacheCreationInputTokens u of None \<Rightarrow> 0 | Some n \<Rightarrow> n)
       + word_of_int (case cacheReadInputTokens u of None \<Rightarrow> 0 | Some n \<Rightarrow> n)"

definition checked_mul :: "bool \<Rightarrow> u128 \<Rightarrow> u128 \<Rightarrow> node_failure + u128" where
  "checked_mul checks a b = (if checks \<and> 2 ^ 128 \<le> unat a * unat b then Inl Panic else Inr (a * b))"

definition saturating_add :: "'a::len word \<Rightarrow> 'a word \<Rightarrow> 'a word" where
  "saturating_add a b = (if unat a + unat b < 2 ^ LENGTH('a) then a + b else - 1)"

definition build_receipt ::
  "rust_prims \<Rightarrow> node_conf \<Rightarrow> string \<Rightarrow> backend_type \<Rightarrow> string \<Rightarrow> usage \<Rightarrow> client_ack option \<Rightarrow> ledger \<Rightarrow>
   (node_failure + node_signed_receipt) \<times> ledger" where
  "build_receipt p cf channel_id_hex backend session_id usage prev_ack m =
     (case channel_target p cf no_chain_text no_contract_text ''invalid channel address in chain config: '' channel_id_hex of
        Inl e \<Rightarrow> (Inl e, m)
      | Inr (chain, addr, cid) \<Rightarrow>
          let price_units = price_for (nc_pricing cf) backend in
          (case checked_mul (nc_overflow_checks cf) (ucast (total_tokens usage)) price_units of
             Inl e \<Rightarrow> (Inl e, m)
           | Inr product \<Rightarrow>
               let round_trip_cost = product div 1000; e0 = entry_or_new cid m in
               (case (case prev_ack of None \<Rightarrow> Inr e0
                      | Some a \<Rightarrow> map_err (\<lambda>e. BadRequest (''invalid prev_ack: '' @ e))
                                    (verify_and_record_ack p e0 a channel_id_hex (rc_chain_id chain) addr)) of
                  Inl e \<Rightarrow> (Inl e, m(cid \<mapsto> e0))
                | Inr e1 \<Rightarrow>
                    let new_nonce = saturating_add (ce_nonce e1) 1;
                        new_cum_owed = saturating_add (ce_cum_owed e1) round_trip_cost;
                        update = \<lparr>cu_channelId = channel_id_hex, cu_nonce = unat new_nonce, cu_cumOwed = nat_str (unat new_cum_owed)\<rparr> in
                    (case map_err (\<lambda>e. Internal (''canonical bytes: '' @ e))
                            (channel_update_canonical_for p update (rc_chain_id chain) addr) of
                       Inl e \<Rightarrow> (Inl e, m(cid \<mapsto> e1))
                     | Inr canonical \<Rightarrow>
                         (Inr \<lparr>rc_update = update,
                               rc_breakdown = \<lparr>rb_sessionId = session_id, rb_backend = backend, rb_usage = usage,
                                 rb_pricePer1k = nat_str (unat price_units), rb_roundTripCost = nat_str (unat round_trip_cost)\<rparr>,
                               nodeSig = ''0x'' @ hex_encode p (sign_eip191 p (nc_seed cf) canonical)\<rparr>,
                          m(cid \<mapsto> e1\<lparr>ce_nonce := new_nonce, ce_cum_owed := new_cum_owed\<rparr>))))))"

subsection \<open>One request\<close>

text \<open>
  The middle of \<open>execute\<close>, between decryption and encryption, for a request nothing interrupts:
  the backend is chosen, the gate passed, the step run (\<open>run\<close> is the backend) and the receipt
  built.
\<close>

definition node_usage_of :: "agent_response \<Rightarrow> usage" where
  "node_usage_of r = (case r of FinalAnswer c u \<Rightarrow> u | ToolCall i n j u \<Rightarrow> u)"

definition choose_backend :: "bool \<Rightarrow> bool \<Rightarrow> backend_type \<Rightarrow> node_failure + unit" where
  "choose_backend mock_tee local_llm b =
     (case b of
        MockTee \<Rightarrow> if mock_tee then Inr ()
          else Inl (Api (NotImplemented (''mock-tee not configured '' @ em_dash @ '' set ANTHROPIC_API_KEY to enable'')))
      | Local \<Rightarrow> if local_llm then Inr ()
          else Inl (Api (NotImplemented (''local not configured '' @ em_dash @ '' set FLDX_LLAMA_MODEL to enable'')))
      | Fhe \<Rightarrow> Inl (Api (NotImplemented ''backend Fhe not wired yet''))
      | Mcp \<Rightarrow> Inl (Api (NotImplemented ''backend Mcp not wired yet'')))"

definition execute_step ::
  "rust_prims \<Rightarrow> node_conf \<Rightarrow> bool \<times> bool \<Rightarrow> (byte list \<Rightarrow> byte list \<Rightarrow> string + byte list) \<Rightarrow>
   (backend_type \<Rightarrow> string \<Rightarrow> agent_step \<Rightarrow> string + agent_response) \<Rightarrow> encrypted_request \<Rightarrow> agent_step \<Rightarrow> ledger \<Rightarrow>
   (node_failure + (agent_response \<times> node_signed_receipt option)) \<times> ledger" where
  "execute_step p cf backs rpc run req step m =
     (case choose_backend (fst backs) (snd backs) (er_backend req) of
        Inl e \<Rightarrow> (Inl e, m)
      | Inr _ \<Rightarrow>
          let (gate, m1) = (case er_channelId req of None \<Rightarrow> (Inr (), m)
                            | Some id_hex \<Rightarrow> check_channel_solvent p cf rpc id_hex m) in
          (case gate of
             Inl e \<Rightarrow> (Inl e, m1)
           | Inr _ \<Rightarrow>
               (case map_err (\<lambda>e. Internal (''backend step: '' @ e)) (run (er_backend req) (er_sessionId req) step) of
                  Inl e \<Rightarrow> (Inl e, m1)
                | Inr resp \<Rightarrow>
                    (case er_channelId req of
                       None \<Rightarrow> (Inr (resp, None), m1)
                     | Some id_hex \<Rightarrow>
                         (case build_receipt p cf id_hex (er_backend req) (er_sessionId req) (node_usage_of resp) (er_prevAck req) m1 of
                            (Inl e, m2) \<Rightarrow> (Inl e, m2)
                          | (Inr r, m2) \<Rightarrow> (Inr (resp, Some r), m2))))))"

text \<open>\<open>ApiError::into_response\<close>.\<close>

fun into_response :: "api_error \<Rightarrow> nat \<times> string" where
  "into_response (BadRequest msg) = (400, msg)"
| "into_response (PaymentRequired msg) = (402, msg)"
| "into_response (NotImplemented msg) = (501, msg)"
| "into_response (Internal msg) = (500, msg)"

subsection \<open>Facts\<close>

lemma unat_saturating_add:
  "unat (saturating_add (a :: 'a::len word) b) = min (2 ^ LENGTH('a) - 1) (unat a + unat b)"
  by (auto simp: saturating_add_def unat_word_ariths unsigned_minus_1_eq_mask mask_eq_exp_minus_1)

lemma sat_nest: "min (M :: nat) (min M x + c) = min M (x + c)"
  by simp

lemma sat_add_ref:
  "unat (a :: 'a::len word) = min (2 ^ LENGTH('a) - 1) x \<Longrightarrow> unat (saturating_add a b) = min (2 ^ LENGTH('a) - 1) (x + unat b)"
  by (simp only: unat_saturating_add sat_nest)

lemma sat_add_u128:
  "unat (a :: u128) = min (2 ^ 128 - 1) x \<Longrightarrow> unat (saturating_add a b) = min (2 ^ 128 - 1) (x + unat b)"
  using sat_add_ref [of a x b] by simp

text \<open>A usage as the wire types allow it: four \<open>u32\<close>s.\<close>

definition usage_nats :: "usage \<Rightarrow> nat list" where
  "usage_nats u = map nat [inputTokens u, outputTokens u,
     case cacheCreationInputTokens u of None \<Rightarrow> 0 | Some n \<Rightarrow> n, case cacheReadInputTokens u of None \<Rightarrow> 0 | Some n \<Rightarrow> n]"

definition usage_u32 :: "usage \<Rightarrow> bool" where
  "usage_u32 u \<longleftrightarrow> (let ok = \<lambda>n. 0 \<le> n \<and> n < 2 ^ 32 in
     ok (inputTokens u) \<and> ok (outputTokens u) \<and> pred_option ok (cacheCreationInputTokens u) \<and> pred_option ok (cacheReadInputTokens u))"

lemma unat_add4:
  assumes "a < 2 ^ 32" "b < 2 ^ 32" "c < 2 ^ 32" "d < 2 ^ 32"
  shows "unat (of_nat a + of_nat b + of_nat c + of_nat d :: u64) = a + b + c + d"
proof -
  have "a + b + c + d < 2 ^ 64" using assms by simp
  then have "unat (of_nat (a + b + c + d) :: u64) = a + b + c + d"
    by (simp add: unsigned_of_nat take_bit_nat_eq_self del: of_nat_add)
  then show ?thesis by simp
qed

lemma word_of_nonneg: "0 \<le> n \<Longrightarrow> (word_of_int n :: u64) = of_nat (nat n)"
  by (cases n) auto

lemma total_tokens_exact:
  assumes "usage_u32 u"
  shows "unat (total_tokens u) = sum_list (usage_nats u)"
proof -
  define c where "c = (case cacheCreationInputTokens u of None \<Rightarrow> 0 | Some n \<Rightarrow> n)"
  define r where "r = (case cacheReadInputTokens u of None \<Rightarrow> 0 | Some n \<Rightarrow> n)"
  have b: "0 \<le> inputTokens u" "0 \<le> outputTokens u" "0 \<le> c" "0 \<le> r"
    "inputTokens u < 2 ^ 32" "outputTokens u < 2 ^ 32" "c < 2 ^ 32" "r < 2 ^ 32"
    using assms by (auto simp: usage_u32_def c_def r_def Let_def split: option.splits)
  then have n: "nat (inputTokens u) < 2 ^ 32" "nat (outputTokens u) < 2 ^ 32" "nat c < 2 ^ 32" "nat r < 2 ^ 32"
    by (simp_all add: nat_less_iff)
  show ?thesis
    unfolding total_tokens_def usage_nats_def c_def [symmetric] r_def [symmetric]
    by (simp only: word_of_nonneg [OF b(1)] word_of_nonneg [OF b(2)] word_of_nonneg [OF b(3)] word_of_nonneg [OF b(4)] unat_add4 [OF n]) simp
qed

text \<open>An acknowledgement the node takes: signed by \<open>client\<close> over the canonical bytes of its update.\<close>

definition acked_by :: "rust_prims \<Rightarrow> u64 \<Rightarrow> byte list \<Rightarrow> byte list \<Rightarrow> client_ack \<Rightarrow> bool" where
  "acked_by p chain_id addr client a \<longleftrightarrow>
     (\<exists>canonical sig. channel_update_canonical_for p (ack_update a) chain_id addr = Inr canonical \<and>
        hex_decode p (trim_start_0x (clientSig a)) = Inr sig \<and> length sig = EIP191_SIG_SIZE \<and>
        recover_eip191 p canonical sig = Inr client)"

lemma verify_and_record_ack_Inr:
  "verify_and_record_ack p e a hex chain_id addr = Inr e' \<longleftrightarrow>
     trim_start_0x (to_lower (cu_channelId (ack_update a))) = trim_start_0x (to_lower hex) \<and>
     (\<exists>client. acked_by p chain_id addr client a \<and> ce_client_address e \<in> {None, Some client} \<and>
        e' = e\<lparr>ce_client_address := Some client, ce_last_acked := Some a\<rparr>)"
proof (cases "channel_update_canonical_for p (ack_update a) chain_id addr")
  case c: (Inr canonical)
  show ?thesis
  proof (cases "hex_decode p (trim_start_0x (clientSig a))")
    case h: (Inr sig)
    show ?thesis
    proof (cases "recover_eip191 p canonical sig")
      case (Inr client)
      then show ?thesis using c h
        by (cases "ce_client_address e") (auto simp: verify_and_record_ack_def acked_by_def)
    qed (use c h in \<open>auto simp: verify_and_record_ack_def acked_by_def\<close>)
  qed (use c in \<open>auto simp: verify_and_record_ack_def acked_by_def\<close>)
qed (auto simp: verify_and_record_ack_def acked_by_def)

lemma channel_target_cases:
  assumes "channel_target p cf t1 t2 t3 hex = Inr (chain, addr, cid)"
  shows "nc_chain cf = Some chain" "\<exists>a. rc_channel chain = Some a \<and> parse_addr p a = Inr addr" "channel_id_from_hex p hex = Inr cid"
  using assms unfolding channel_target_def map_err_def by (auto split: option.splits sum.splits)

lemma channel_target_texts:
  "channel_target p cf t1 t2 t3 hex = Inr r \<Longrightarrow> channel_target p cf u1 u2 u3 hex = Inr r"
  unfolding channel_target_def map_err_def by (auto split: option.splits sum.splits)

lemma bytes_from_hex_length: "bytes_from_hex p b w n s = Inr bs \<Longrightarrow> length bs = n"
  by (auto simp: bytes_from_hex_def split: sum.splits if_splits)

lemma own_update_canonical:
  assumes "channel_id_from_hex p hex = Inr cid"
  shows "\<exists>bs. channel_update_canonical_for p \<lparr>cu_channelId = hex, cu_nonce = n, cu_cumOwed = nat_str (unat (w :: u128))\<rparr> ch addr = Inr bs"
  using assms by (simp add: channel_update_canonical_for_def u256_be_of_u128)

text \<open>What a receipt is, and what a failed attempt leaves.\<close>

definition acked_entry ::
  "rust_prims \<Rightarrow> string \<Rightarrow> rust_chain \<Rightarrow> byte list \<Rightarrow> client_ack option \<Rightarrow> channel_entry \<Rightarrow> string + channel_entry" where
  "acked_entry p hex chain addr prev e =
     (case prev of None \<Rightarrow> Inr e | Some a \<Rightarrow> verify_and_record_ack p e a hex (rc_chain_id chain) addr)"

lemma build_receipt_Inr:
  assumes "build_receipt p cf hex b sid u prev m = (Inr r, m')"
  obtains chain addr cid e1 product where
    "channel_target p cf no_chain_text no_contract_text ''invalid channel address in chain config: '' hex = Inr (chain, addr, cid)"
    "checked_mul (nc_overflow_checks cf) (ucast (total_tokens u)) (price_for (nc_pricing cf) b) = Inr product"
    "acked_entry p hex chain addr prev (entry_or_new cid m) = Inr e1"
    "m' = m(cid \<mapsto> e1\<lparr>ce_nonce := saturating_add (ce_nonce e1) 1, ce_cum_owed := saturating_add (ce_cum_owed e1) (product div 1000)\<rparr>)"
    "rc_update r = \<lparr>cu_channelId = hex, cu_nonce = unat (saturating_add (ce_nonce e1) 1),
       cu_cumOwed = nat_str (unat (saturating_add (ce_cum_owed e1) (product div 1000)))\<rparr>"
    "rb_roundTripCost (rc_breakdown r) = nat_str (unat (product div 1000))"
    "\<exists>bs. channel_update_canonical_for p (rc_update r) (rc_chain_id chain) addr = Inr bs \<and>
       nodeSig r = ''0x'' @ hex_encode p (sign_eip191 p (nc_seed cf) bs)"
proof -
  obtain chain addr cid where t:
    "channel_target p cf no_chain_text no_contract_text ''invalid channel address in chain config: '' hex = Inr (chain, addr, cid)"
    using assms by (auto simp: build_receipt_def split: sum.splits)
  obtain product where q: "checked_mul (nc_overflow_checks cf) (ucast (total_tokens u)) (price_for (nc_pricing cf) b) = Inr product"
    using assms t by (auto simp: build_receipt_def Let_def split: sum.splits)
  obtain e1 where e1: "acked_entry p hex chain addr prev (entry_or_new cid m) = Inr e1"
    using assms t q by (auto simp: build_receipt_def acked_entry_def map_err_def Let_def split: sum.splits option.splits)
  then have e1': "(case prev of None \<Rightarrow> Inr (entry_or_new cid m)
      | Some a \<Rightarrow> map_err (\<lambda>e. BadRequest (''invalid prev_ack: '' @ e))
          (verify_and_record_ack p (entry_or_new cid m) a hex (rc_chain_id chain) addr)) = Inr e1"
    by (auto simp: acked_entry_def map_err_def split: option.splits)
  let ?u = "\<lparr>cu_channelId = hex, cu_nonce = unat (saturating_add (ce_nonce e1) 1),
       cu_cumOwed = nat_str (unat (saturating_add (ce_cum_owed e1) (product div 1000)))\<rparr>"
  obtain bs where bs: "channel_update_canonical_for p ?u (rc_chain_id chain) addr = Inr bs"
    using own_update_canonical [OF channel_target_cases(3) [OF t]] by blast
  from assms have "r = \<lparr>rc_update = ?u,
        rc_breakdown = \<lparr>rb_sessionId = sid, rb_backend = b, rb_usage = u,
          rb_pricePer1k = nat_str (unat (price_for (nc_pricing cf) b)), rb_roundTripCost = nat_str (unat (product div 1000))\<rparr>,
        nodeSig = ''0x'' @ hex_encode p (sign_eip191 p (nc_seed cf) bs)\<rparr> \<and>
      m' = m(cid \<mapsto> e1\<lparr>ce_nonce := saturating_add (ce_nonce e1) 1, ce_cum_owed := saturating_add (ce_cum_owed e1) (product div 1000)\<rparr>)"
    unfolding build_receipt_def t q Let_def by (simp add: e1' bs map_err_def)
  with that [OF t q e1] bs show thesis by simp
qed

lemma build_receipt_Inl:
  assumes "build_receipt p cf hex b sid u prev m = (Inl e, m')"
  shows "m' = m \<or> (\<exists>cid. m' = m(cid \<mapsto> entry_or_new cid m))"
proof (cases "channel_target p cf no_chain_text no_contract_text ''invalid channel address in chain config: '' hex")
  case (Inr t)
  obtain chain addr cid where t: "t = (chain, addr, cid)" by (cases t)
  have "channel_id_from_hex p hex = Inr cid" using channel_target_cases(3) Inr t by blast
  then have ok: "\<exists>bs. channel_update_canonical_for p \<lparr>cu_channelId = hex, cu_nonce = n, cu_cumOwed = nat_str (unat (w :: u128))\<rparr> ch addr = Inr bs" for n w ch
    by (rule own_update_canonical)
  show ?thesis
    using assms ok unfolding build_receipt_def Inr t Let_def
    by (auto simp: map_err_def split: sum.splits) (metis Inr_Inl_False)+
qed (use assms in \<open>simp add: build_receipt_def\<close>)

subsection \<open>Any interleaving of requests\<close>

text \<open>
  The critical sections of all requests, in any order. \<open>nd_fetching\<close> and \<open>nd_issued\<close> are not in
  the code: the channels whose deposit some request is fetching at the moment, and every
  receipt that has left the node.
\<close>

record node_state =
  nd_ledger :: ledger
  nd_fetching :: "byte list list"
  nd_issued :: "(byte list \<times> node_signed_receipt) list"

definition node_init :: node_state where
  "node_init = \<lparr>nd_ledger = (\<lambda>_. None), nd_fetching = [], nd_issued = []\<rparr>"

inductive node_step :: "rust_prims \<Rightarrow> node_conf \<Rightarrow> node_state \<Rightarrow> node_state \<Rightarrow> bool" for p cf where
  step_miss: "fst (solvent_read cid (nd_ledger s)) = None \<Longrightarrow>
    node_step p cf s (s\<lparr>nd_fetching := cid # nd_fetching s\<rparr>)"
| step_store: "cid \<in> set (nd_fetching s) \<Longrightarrow>
    node_step p cf s (s\<lparr>nd_ledger := solvent_store cid d (nd_ledger s), nd_fetching := remove1 cid (nd_fetching s)\<rparr>)"
| step_failed: "node_step p cf s (s\<lparr>nd_fetching := remove1 cid (nd_fetching s)\<rparr>)"
| step_receipt: "build_receipt p cf hex b sid u prev (nd_ledger s) = (Inr r, m) \<Longrightarrow> channel_id_from_hex p hex = Inr cid \<Longrightarrow>
    node_step p cf s (s\<lparr>nd_ledger := m, nd_issued := nd_issued s @ [(cid, r)]\<rparr>)"
| step_no_receipt: "build_receipt p cf hex b sid u prev (nd_ledger s) = (Inl e, m) \<Longrightarrow>
    node_step p cf s (s\<lparr>nd_ledger := m\<rparr>)"
| step_ack: "ack_handler p cf a (nd_ledger s) = (r', m) \<Longrightarrow>
    node_step p cf s (s\<lparr>nd_ledger := m\<rparr>)"

inductive_cases node_stepE: "node_step p cf s t"

definition receipts :: "byte list \<Rightarrow> node_state \<Rightarrow> node_signed_receipt list" where
  "receipts cid s = map snd (filter (\<lambda>x. fst x = cid) (nd_issued s))"

definition receipt_cost :: "node_signed_receipt \<Rightarrow> nat" where
  "receipt_cost r = dec_val (rb_roundTripCost (rc_breakdown r))"

text \<open>The reference ledger: the number and the sum of the receipts, each held at its maximum.\<close>

definition ref_nonce :: "node_signed_receipt list \<Rightarrow> nat" where
  "ref_nonce rs = min (2 ^ 64 - 1) (length rs)"

definition ref_owed :: "node_signed_receipt list \<Rightarrow> nat" where
  "ref_owed rs = min (2 ^ 128 - 1) (sum_list (map receipt_cost rs))"

definition conf_chain :: "rust_prims \<Rightarrow> node_conf \<Rightarrow> rust_chain \<Rightarrow> byte list \<Rightarrow> bool" where
  "conf_chain p cf chain addr \<longleftrightarrow>
     nc_chain cf = Some chain \<and> (\<exists>a. rc_channel chain = Some a \<and> parse_addr p a = Inr addr)"

text \<open>\<open>hex\<close> takes both cases, and digits only.\<close>

definition hex_ok :: "rust_prims \<Rightarrow> bool" where
  "hex_ok p \<longleftrightarrow> (\<forall>s bs. hex_decode p s = Inr bs \<longrightarrow>
     hex_decode p (to_lower s) = Inr bs \<and> list_all (\<lambda>c. hex_digit c \<noteq> None) s)"

definition ack_recorded :: "rust_prims \<Rightarrow> node_conf \<Rightarrow> byte list \<Rightarrow> channel_entry \<Rightarrow> bool" where
  "ack_recorded p cf cid e \<longleftrightarrow>
     (\<forall>a. ce_last_acked e = Some a \<longrightarrow>
        (\<exists>client chain addr. ce_client_address e = Some client \<and> conf_chain p cf chain addr \<and>
           acked_by p (rc_chain_id chain) addr client a \<and>
           (hex_ok p \<longrightarrow> channel_id_from_hex p (cu_channelId (ack_update a)) = Inr cid)))"

definition entry_ok :: "rust_prims \<Rightarrow> node_conf \<Rightarrow> byte list \<Rightarrow> channel_entry \<Rightarrow> node_signed_receipt list \<Rightarrow> bool" where
  "entry_ok p cf cid e rs \<longleftrightarrow>
     unat (ce_nonce e) = ref_nonce rs \<and> unat (ce_cum_owed e) = ref_owed rs \<and> ack_recorded p cf cid e"

definition receipts_ok :: "node_signed_receipt list \<Rightarrow> bool" where
  "receipts_ok rs \<longleftrightarrow>
     (\<forall>i<length rs. cu_nonce (rc_update (rs ! i)) = ref_nonce (take (Suc i) rs) \<and>
        cu_cumOwed (rc_update (rs ! i)) = nat_str (ref_owed (take (Suc i) rs)))"

definition node_inv :: "rust_prims \<Rightarrow> node_conf \<Rightarrow> node_state \<Rightarrow> bool" where
  "node_inv p cf s \<longleftrightarrow>
     (\<forall>cid. entry_ok p cf cid (entry_or_new cid (nd_ledger s)) (receipts cid s) \<and> receipts_ok (receipts cid s))"

lemma entry_or_new_upd [simp]: "entry_or_new c (m(cid \<mapsto> e)) = (if c = cid then e else entry_or_new c m)"
  by (simp add: entry_or_new_def)

lemma receipts_snoc [simp]:
  "receipts c (s\<lparr>nd_ledger := m, nd_issued := nd_issued s @ [(cid, r)]\<rparr>) = receipts c s @ (if cid = c then [r] else [])"
  by (simp add: receipts_def)

lemma receipts_other [simp]:
  "receipts c (s\<lparr>nd_ledger := m\<rparr>) = receipts c s" "receipts c (s\<lparr>nd_fetching := f\<rparr>) = receipts c s"
  "receipts c (s\<lparr>nd_ledger := m, nd_fetching := f\<rparr>) = receipts c s"
  by (simp_all add: receipts_def)

lemma receipts_ok_snoc:
  assumes "receipts_ok rs" "cu_nonce (rc_update r) = ref_nonce (rs @ [r])" "cu_cumOwed (rc_update r) = nat_str (ref_owed (rs @ [r]))"
  shows "receipts_ok (rs @ [r])"
  using assms by (auto simp: receipts_ok_def nth_append less_Suc_eq)

lemma node_inv_entry:
  assumes "node_inv p cf s" "nd_ledger s cid = Some e"
  shows "entry_ok p cf cid e (receipts cid s)" "receipts_ok (receipts cid s)"
proof -
  have "entry_or_new cid (nd_ledger s) = e" by (simp add: entry_or_new_def assms(2))
  with assms(1) show "entry_ok p cf cid e (receipts cid s)" "receipts_ok (receipts cid s)"
    unfolding node_inv_def by metis+
qed

lemma node_inv_init: "node_inv p cf node_init"
  by (simp add: node_inv_def node_init_def entry_or_new_def new_entry_def receipts_def entry_ok_def receipts_ok_def
      ref_nonce_def ref_owed_def ack_recorded_def)

text \<open>Two spellings of an id that agree in lower case without prefixes are the same channel.\<close>

lemma trim_digits: "list_all (\<lambda>c. hex_digit c \<noteq> None) s \<Longrightarrow> trim_start_0x s = s"
  by (cases s rule: trim_start_0x.cases) (auto simp: hex_digit_def)

lemma trim_strip: "trim_start_0x (strip_prefix_0x s) = trim_start_0x s"
  by (cases s rule: trim_start_0x.cases) (auto simp: strip_prefix_0x_def)

lemma lower_digit: "hex_digit c \<noteq> None \<Longrightarrow> hex_digit (to_lower_char c) \<noteq> None"
  by (auto simp: hex_digit_def to_lower_char_def Let_def split: if_splits)

lemma lower_strip: "take 2 s = ''0x'' \<Longrightarrow> to_lower s = ''0x'' @ to_lower (drop 2 s)"
  by (cases s rule: trim_start_0x.cases) (auto simp: to_lower_def to_lower_char_def)

lemma trim_lower:
  assumes "list_all (\<lambda>c. hex_digit c \<noteq> None) (strip_prefix_0x s)"
  shows "trim_start_0x (to_lower s) = to_lower (strip_prefix_0x s)"
proof -
  have d: "list_all (\<lambda>c. hex_digit c \<noteq> None) (to_lower (strip_prefix_0x s))"
    using assms lower_digit by (simp add: to_lower_def list_all_iff)
  show ?thesis
  proof (cases "take 2 s = ''0x''")
    case True
    then have "to_lower s = CHR ''0'' # CHR ''x'' # to_lower (strip_prefix_0x s)"
      using lower_strip by (simp add: strip_prefix_0x_def)
    then show ?thesis using trim_digits [OF d] by simp
  next
    case False
    then show ?thesis using trim_digits [OF d] by (simp add: strip_prefix_0x_def)
  qed
qed

lemma same_channel:
  assumes "hex_ok p" "trim_start_0x (to_lower a) = trim_start_0x (to_lower b)"
    and "channel_id_from_hex p a = Inr ca" "channel_id_from_hex p b = Inr cb"
  shows "ca = cb"
proof -
  have "hex_decode p (strip_prefix_0x a) = Inr ca" "hex_decode p (strip_prefix_0x b) = Inr cb"
    using assms(3,4) by (auto simp: channel_id_from_hex_def bytes_from_hex_def split: sum.splits if_splits)
  moreover from this have "trim_start_0x (to_lower a) = to_lower (strip_prefix_0x a)" "trim_start_0x (to_lower b) = to_lower (strip_prefix_0x b)"
    using assms(1) by (auto simp: hex_ok_def intro!: trim_lower)
  ultimately show ?thesis using assms(1,2) unfolding hex_ok_def by (metis sum.inject(2))
qed

lemma ack_recorded_verify:
  assumes "ack_recorded p cf cid e" "conf_chain p cf chain addr" "channel_id_from_hex p hex = Inr cid"
    and "verify_and_record_ack p e a hex (rc_chain_id chain) addr = Inr e'"
  shows "ack_recorded p cf cid e' \<and> ce_nonce e' = ce_nonce e \<and> ce_cum_owed e' = ce_cum_owed e \<and> ce_deposit e' = ce_deposit e"
proof -
  obtain client where c: "trim_start_0x (to_lower (cu_channelId (ack_update a))) = trim_start_0x (to_lower hex)"
    "acked_by p (rc_chain_id chain) addr client a" "e' = e\<lparr>ce_client_address := Some client, ce_last_acked := Some a\<rparr>"
    using assms(4) by (auto simp: verify_and_record_ack_Inr)
  have "\<exists>x. channel_id_from_hex p (cu_channelId (ack_update a)) = Inr x"
    using c(2) by (auto simp: acked_by_def channel_update_canonical_for_def)
  then have "hex_ok p \<Longrightarrow> channel_id_from_hex p (cu_channelId (ack_update a)) = Inr cid"
    using same_channel [OF _ c(1) _ assms(3)] by auto
  with c assms(2) show ?thesis by (auto simp: ack_recorded_def)
qed

lemma ack_handler_effect:
  assumes "ack_handler p cf a m = (r, m')"
  shows "m' = m \<or> (\<exists>cid. m' = m(cid \<mapsto> entry_or_new cid m)) \<or>
    (\<exists>chain addr cid e. conf_chain p cf chain addr \<and> channel_id_from_hex p (cu_channelId (ack_update a)) = Inr cid \<and>
       verify_and_record_ack p (entry_or_new cid m) a (cu_channelId (ack_update a)) (rc_chain_id chain) addr = Inr e \<and> m' = m(cid \<mapsto> e))"
proof (cases "channel_target p cf (''FLDX_CHAIN_ID unset '' @ em_dash @ '' channels disabled'') ''no channel contract on this chain''
    ''invalid channel address: '' (cu_channelId (ack_update a))")
  case (Inr t)
  obtain chain addr cid where t: "t = (chain, addr, cid)" by (cases t)
  have "conf_chain p cf chain addr" "channel_id_from_hex p (cu_channelId (ack_update a)) = Inr cid"
    using channel_target_cases [OF Inr [unfolded t]] by (simp_all add: conf_chain_def)
  then show ?thesis
    using assms unfolding ack_handler_def Inr t
    by (cases "verify_and_record_ack p (entry_or_new cid m) a (cu_channelId (ack_update a)) (rc_chain_id chain) addr") auto
qed (use assms in \<open>simp add: ack_handler_def\<close>)

lemma node_inv_step: "node_inv p cf s \<Longrightarrow> node_step p cf s t \<Longrightarrow> node_inv p cf t"
proof (erule node_stepE)
  fix hex b sid u prev r m cid
  assume inv: "node_inv p cf s" and t: "t = s\<lparr>nd_ledger := m, nd_issued := nd_issued s @ [(cid, r)]\<rparr>"
    and br: "build_receipt p cf hex b sid u prev (nd_ledger s) = (Inr r, m)" and cid: "channel_id_from_hex p hex = Inr cid"
  show "node_inv p cf t"
    using br
  proof (rule build_receipt_Inr)
    fix chain addr cid' e1 product
    assume tgt: "channel_target p cf no_chain_text no_contract_text ''invalid channel address in chain config: '' hex = Inr (chain, addr, cid')"
      and e1: "acked_entry p hex chain addr prev (entry_or_new cid' (nd_ledger s)) = Inr e1"
      and m: "m = (nd_ledger s)(cid' \<mapsto> e1\<lparr>ce_nonce := saturating_add (ce_nonce e1) 1, ce_cum_owed := saturating_add (ce_cum_owed e1) (product div 1000)\<rparr>)"
      and u: "rc_update r = \<lparr>cu_channelId = hex, cu_nonce = unat (saturating_add (ce_nonce e1) 1),
        cu_cumOwed = nat_str (unat (saturating_add (ce_cum_owed e1) (product div 1000)))\<rparr>"
      and c: "rb_roundTripCost (rc_breakdown r) = nat_str (unat (product div 1000))"
    have same: "cid' = cid" using channel_target_cases(3) [OF tgt] cid by simp
    let ?e0 = "entry_or_new cid (nd_ledger s)"
    have e0: "entry_ok p cf cid ?e0 (receipts cid s)" using inv by (simp add: node_inv_def)
    have cc: "conf_chain p cf chain addr" using channel_target_cases [OF tgt] by (simp add: conf_chain_def)
    have keep: "ack_recorded p cf cid e1 \<and> ce_nonce e1 = ce_nonce ?e0 \<and> ce_cum_owed e1 = ce_cum_owed ?e0"
      using e1 e0 ack_recorded_verify [OF _ cc cid] unfolding same
      by (auto simp: acked_entry_def entry_ok_def split: option.splits)
    have rc: "receipt_cost r = unat (product div 1000)" by (simp add: receipt_cost_def c)
    have nonce: "unat (saturating_add (ce_nonce e1) 1) = ref_nonce (receipts cid s @ [r])"
      using e0 keep unat_saturating_add [of "ce_nonce e1" 1] by (simp add: entry_ok_def ref_nonce_def)
    have owed: "unat (saturating_add (ce_cum_owed e1) (product div 1000)) = ref_owed (receipts cid s @ [r])"
      using e0 keep unat_saturating_add [of "ce_cum_owed e1" "product div 1000"] by (simp add: entry_ok_def ref_owed_def rc)
    have ack: "ack_recorded p cf cid (e1\<lparr>ce_nonce := x, ce_cum_owed := y\<rparr>)" for x y
      using keep by (simp add: ack_recorded_def)
    have rok: "receipts_ok (receipts cid s @ [r])"
      using inv u nonce owed by (intro receipts_ok_snoc) (simp_all add: node_inv_def)
    show "node_inv p cf t"
      using inv nonce owed ack rok by (simp add: node_inv_def t m same entry_ok_def)
  qed
next
  fix hex b sid u prev e m
  assume inv: "node_inv p cf s" and t: "t = s\<lparr>nd_ledger := m\<rparr>"
    and br: "build_receipt p cf hex b sid u prev (nd_ledger s) = (Inl e, m)"
  show "node_inv p cf t"
    using inv build_receipt_Inl [OF br] by (auto simp: node_inv_def t)
next
  fix a r' m
  assume inv: "node_inv p cf s" and t: "t = s\<lparr>nd_ledger := m\<rparr>" and ah: "ack_handler p cf a (nd_ledger s) = (r', m)"
  from ack_handler_effect [OF ah] show "node_inv p cf t"
  proof (elim disjE exE conjE)
    fix chain addr cid e
    assume "conf_chain p cf chain addr" "channel_id_from_hex p (cu_channelId (ack_update a)) = Inr cid"
      "verify_and_record_ack p (entry_or_new cid (nd_ledger s)) a (cu_channelId (ack_update a)) (rc_chain_id chain) addr = Inr e"
      and m: "m = (nd_ledger s)(cid \<mapsto> e)"
    from ack_recorded_verify [OF _ this(1-3)] show ?thesis using inv by (auto simp: node_inv_def t m entry_ok_def)
  qed (use inv in \<open>auto simp: node_inv_def t\<close>)
qed (auto simp: node_inv_def solvent_store_def entry_ok_def ack_recorded_def)

interpretation node: inv_system "node_step p cf" "\<lambda>s. s = node_init" "node_inv p cf" for p cf
  by unfold_locales (auto intro: node_inv_init node_inv_step)

subsection \<open>Facts about one channel\<close>

lemma target_from:
  assumes "conf_chain p cf chain addr" "channel_id_from_hex p hex = Inr cid"
  shows "channel_target p cf t1 t2 t3 hex = Inr (chain, addr, cid)"
  using assms by (auto simp: channel_target_def conf_chain_def map_err_def)

lemma saturating_add_mono: "unat a \<le> unat (saturating_add a (b :: 'a::len word))"
proof -
  have "unat a < 2 ^ LENGTH('a)" by (rule unsigned_less)
  then have "unat a \<le> 2 ^ LENGTH('a) - 1" by linarith
  then show ?thesis by (simp add: unat_saturating_add)
qed

text \<open>A channel whose cached deposit is used up stays so: no step lowers the amount owed, and the
  deposit of a channel that nobody is fetching is never written again.\<close>

definition used_up :: "byte list \<Rightarrow> node_state \<Rightarrow> bool" where
  "used_up cid s \<longleftrightarrow>
     cid \<notin> set (nd_fetching s) \<and>
     (\<exists>e d. nd_ledger s cid = Some e \<and> ce_deposit e = Some d \<and> d \<le> ce_cum_owed e)"

lemma used_up_step:
  assumes "used_up cid s" "node_step p cf s t"
  shows "used_up cid t"
proof -
  obtain e d where e: "nd_ledger s cid = Some e" "ce_deposit e = Some d" "d \<le> ce_cum_owed e" "cid \<notin> set (nd_fetching s)"
    using assms(1) by (auto simp: used_up_def)
  have eo: "entry_or_new cid (nd_ledger s) = e" by (simp add: entry_or_new_def e)
  from assms(2) show ?thesis
  proof (rule node_stepE)
    fix c assume "fst (solvent_read c (nd_ledger s)) = None" and t: "t = s\<lparr>nd_fetching := c # nd_fetching s\<rparr>"
    then have "c \<noteq> cid" using e by (auto simp: solvent_read_def)
    with e t show ?thesis by (auto simp: used_up_def)
  next
    fix c dd assume "c \<in> set (nd_fetching s)" and t: "t = s\<lparr>nd_ledger := solvent_store c dd (nd_ledger s), nd_fetching := remove1 c (nd_fetching s)\<rparr>"
    then have "c \<noteq> cid" using e by auto
    with e t show ?thesis by (auto simp: used_up_def solvent_store_def dest: notin_set_remove1 [rotated])
  next
    fix c assume t: "t = s\<lparr>nd_fetching := remove1 c (nd_fetching s)\<rparr>"
    with e show ?thesis by (auto simp: used_up_def dest: notin_set_remove1 [rotated])
  next
    fix hex b sid u prev r m c
    assume br: "build_receipt p cf hex b sid u prev (nd_ledger s) = (Inr r, m)" and t: "t = s\<lparr>nd_ledger := m, nd_issued := nd_issued s @ [(c, r)]\<rparr>"
    from br show ?thesis
    proof (rule build_receipt_Inr)
      fix chain addr c' e1 product
      assume e1: "acked_entry p hex chain addr prev (entry_or_new c' (nd_ledger s)) = Inr e1"
        and m: "m = (nd_ledger s)(c' \<mapsto> e1\<lparr>ce_nonce := saturating_add (ce_nonce e1) 1, ce_cum_owed := saturating_add (ce_cum_owed e1) (product div 1000)\<rparr>)"
      have "ce_deposit e1 = ce_deposit (entry_or_new c' (nd_ledger s)) \<and> ce_cum_owed e1 = ce_cum_owed (entry_or_new c' (nd_ledger s))"
        using e1 by (auto simp: acked_entry_def verify_and_record_ack_Inr split: option.splits)
      with e eo t m saturating_add_mono [of "ce_cum_owed e1" "product div 1000"] show ?thesis
        by (cases "c' = cid") (auto simp: used_up_def word_le_nat_alt)
    qed
  next
    fix hex b sid u prev er m
    assume "build_receipt p cf hex b sid u prev (nd_ledger s) = (Inl er, m)" and t: "t = s\<lparr>nd_ledger := m\<rparr>"
    from build_receipt_Inl [OF this(1)] e eo t show ?thesis by (auto simp: used_up_def)
  next
    fix a r' m
    assume "ack_handler p cf a (nd_ledger s) = (r', m)" and t: "t = s\<lparr>nd_ledger := m\<rparr>"
    from ack_handler_effect [OF this(1)] e eo t show ?thesis
      by (auto simp: used_up_def verify_and_record_ack_Inr)
  qed
qed

text \<open>Once a client's address is recorded for a channel it stays.\<close>

definition client_is :: "byte list \<Rightarrow> byte list \<Rightarrow> node_state \<Rightarrow> bool" where
  "client_is cid client s \<longleftrightarrow> (\<exists>e. nd_ledger s cid = Some e \<and> ce_client_address e = Some client)"

lemma client_is_step:
  assumes "client_is cid client s" "node_step p cf s t"
  shows "client_is cid client t"
proof -
  obtain e where e: "nd_ledger s cid = Some e" "ce_client_address e = Some client"
    using assms(1) by (auto simp: client_is_def)
  have eo: "entry_or_new cid (nd_ledger s) = e" by (simp add: entry_or_new_def e)
  from assms(2) show ?thesis
  proof (rule node_stepE)
    fix c dd assume t: "t = s\<lparr>nd_ledger := solvent_store c dd (nd_ledger s), nd_fetching := remove1 c (nd_fetching s)\<rparr>"
    with e eo show ?thesis by (cases "c = cid") (auto simp: client_is_def solvent_store_def)
  next
    fix hex b sid u prev r m c
    assume br: "build_receipt p cf hex b sid u prev (nd_ledger s) = (Inr r, m)" and t: "t = s\<lparr>nd_ledger := m, nd_issued := nd_issued s @ [(c, r)]\<rparr>"
    from br show ?thesis
    proof (rule build_receipt_Inr)
      fix chain addr c' e1 product
      assume e1: "acked_entry p hex chain addr prev (entry_or_new c' (nd_ledger s)) = Inr e1"
        and m: "m = (nd_ledger s)(c' \<mapsto> e1\<lparr>ce_nonce := saturating_add (ce_nonce e1) 1, ce_cum_owed := saturating_add (ce_cum_owed e1) (product div 1000)\<rparr>)"
      have "c' = cid \<Longrightarrow> ce_client_address e1 = Some client"
        using e1 e eo by (auto simp: acked_entry_def verify_and_record_ack_Inr split: option.splits)
      with e t m show ?thesis by (cases "c' = cid") (auto simp: client_is_def)
    qed
  next
    fix hex b sid u prev er m
    assume "build_receipt p cf hex b sid u prev (nd_ledger s) = (Inl er, m)" and t: "t = s\<lparr>nd_ledger := m\<rparr>"
    from build_receipt_Inl [OF this(1)] e eo t show ?thesis by (auto simp: client_is_def)
  next
    fix a r' m
    assume "ack_handler p cf a (nd_ledger s) = (r', m)" and t: "t = s\<lparr>nd_ledger := m\<rparr>"
    from ack_handler_effect [OF this(1)] e eo t show ?thesis
      by (auto simp: client_is_def verify_and_record_ack_Inr)
  qed (use e in \<open>auto simp: client_is_def\<close>)
qed

text \<open>An uninterrupted request without an acknowledgement, on a channel with something left.\<close>

lemma served_without_ack:
  assumes "conf_chain p cf chain addr" "channel_id_from_hex p hex = Inr cid"
    and "m cid = Some e" "ce_deposit e = Some d" "ce_cum_owed e < d"
    and "er_channelId req = Some hex" "er_prevAck req = None" "choose_backend (fst backs) (snd backs) (er_backend req) = Inr ()"
    and "run (er_backend req) (er_sessionId req) step = Inr resp"
    and "checked_mul (nc_overflow_checks cf) (ucast (total_tokens (node_usage_of resp))) (price_for (nc_pricing cf) (er_backend req)) = Inr product"
  shows "\<exists>r. execute_step p cf backs rpc run req step m = (Inr (resp, Some r),
     m(cid \<mapsto> e\<lparr>ce_nonce := saturating_add (ce_nonce e) 1, ce_cum_owed := saturating_add (ce_cum_owed e) (product div 1000)\<rparr>)) \<and>
     rc_update r = \<lparr>cu_channelId = hex, cu_nonce = unat (saturating_add (ce_nonce e) 1),
       cu_cumOwed = nat_str (unat (saturating_add (ce_cum_owed e) (product div 1000)))\<rparr>"
proof -
  have d: "d \<noteq> 0" "\<not> d \<le> ce_cum_owed e" using assms(5) by auto
  have gate: "check_channel_solvent p cf rpc hex m = (Inr (), m)"
    using assms(3,4) d target_from [OF assms(1,2)] by (simp add: check_channel_solvent_def solvent_read_def solvent_decide_def)
  have eo: "entry_or_new cid m = e" by (simp add: entry_or_new_def assms(3))
  obtain bs where bs: "channel_update_canonical_for p \<lparr>cu_channelId = hex, cu_nonce = unat (saturating_add (ce_nonce e) 1),
      cu_cumOwed = nat_str (unat (saturating_add (ce_cum_owed e) (product div 1000)))\<rparr> (rc_chain_id chain) addr = Inr bs"
    using own_update_canonical [OF assms(2)] by blast
  show ?thesis
    using assms(6-10) by (simp add: execute_step_def gate build_receipt_def target_from [OF assms(1,2)] eo bs map_err_def Let_def)
qed

lemma solvent_refuses:
  assumes "used_up cid s" "conf_chain p cf chain addr" "channel_id_from_hex p hex = Inr cid"
  shows "\<exists>t. check_channel_solvent p cf rpc hex (nd_ledger s) = (Inl (Api (PaymentRequired t)), nd_ledger s)"
  using assms(1) by (auto simp: used_up_def check_channel_solvent_def target_from [OF assms(2,3)] solvent_read_def solvent_decide_def)

text \<open>Requests without acknowledgement, one after the other.\<close>

definition serve_many ::
  "rust_prims \<Rightarrow> node_conf \<Rightarrow> bool \<times> bool \<Rightarrow> (byte list \<Rightarrow> byte list \<Rightarrow> string + byte list) \<Rightarrow>
   (backend_type \<Rightarrow> string \<Rightarrow> agent_step \<Rightarrow> string + agent_response) \<Rightarrow> encrypted_request \<Rightarrow> agent_step \<Rightarrow> nat \<Rightarrow> ledger \<Rightarrow> ledger" where
  "serve_many p cf backs rpc run req step n m = ((\<lambda>m. snd (execute_step p cf backs rpc run req step m)) ^^ n) m"

lemma serve_many_owes:
  assumes "conf_chain p cf chain addr" "channel_id_from_hex p hex = Inr cid"
    and "m cid = Some e" "ce_deposit e = Some d"
    and "er_channelId req = Some hex" "er_prevAck req = None" "choose_backend (fst backs) (snd backs) (er_backend req) = Inr ()"
    and "run (er_backend req) (er_sessionId req) step = Inr resp"
    and "checked_mul (nc_overflow_checks cf) (ucast (total_tokens (node_usage_of resp))) (price_for (nc_pricing cf) (er_backend req)) = Inr product"
    and "unat (ce_cum_owed e) + (n - 1) * unat (product div 1000) < unat d"
  shows "\<exists>e'. serve_many p cf backs rpc run req step n m cid = Some e' \<and> ce_last_acked e' = ce_last_acked e \<and> ce_deposit e' = Some d \<and>
    unat (ce_nonce e') = min (2 ^ 64 - 1) (unat (ce_nonce e) + n) \<and>
    unat (ce_cum_owed e') = min (2 ^ 128 - 1) (unat (ce_cum_owed e) + n * unat (product div 1000))"
  using assms(10)
proof (induction n)
  case 0
  have "unat (ce_nonce e) < 2 ^ 64" "unat (ce_cum_owed e) < 2 ^ 128"
    using unsigned_less [of "ce_nonce e", where ?'a = nat] unsigned_less [of "ce_cum_owed e", where ?'a = nat] by simp_all
  with assms(3,4) show ?case by (simp add: serve_many_def)
next
  case (Suc n)
  let ?c = "unat (product div 1000)"
  have less: "unat (ce_cum_owed e) + n * ?c < unat d" using Suc.prems by simp
  have "(n - 1) * ?c \<le> n * ?c" by (intro mult_le_mono1) simp
  with less have "unat (ce_cum_owed e) + (n - 1) * ?c < unat d" by linarith
  from Suc.IH [OF this] obtain e' where e': "serve_many p cf backs rpc run req step n m cid = Some e'"
    "ce_last_acked e' = ce_last_acked e" "ce_deposit e' = Some d" "unat (ce_nonce e') = min (2 ^ 64 - 1) (unat (ce_nonce e) + n)"
    "unat (ce_cum_owed e') = min (2 ^ 128 - 1) (unat (ce_cum_owed e) + n * ?c)" by blast
  have "unat (ce_cum_owed e') < unat d" using Suc.prems e'(5) by simp
  then have "ce_cum_owed e' < d" by (simp add: word_less_nat_alt)
  from served_without_ack [where m = "serve_many p cf backs rpc run req step n m" and run = run and step = step and resp = resp and rpc = rpc,
      OF assms(1,2) e'(1) e'(3) this assms(5-9)] obtain r where
    "execute_step p cf backs rpc run req step (serve_many p cf backs rpc run req step n m) = (Inr (resp, Some r),
     (serve_many p cf backs rpc run req step n m)(cid \<mapsto> e'\<lparr>ce_nonce := saturating_add (ce_nonce e') 1,
        ce_cum_owed := saturating_add (ce_cum_owed e') (product div 1000)\<rparr>))" by blast
  then have "serve_many p cf backs rpc run req step (Suc n) m cid = Some (e'\<lparr>ce_nonce := saturating_add (ce_nonce e') 1,
        ce_cum_owed := saturating_add (ce_cum_owed e') (product div 1000)\<rparr>)"
    by (simp add: serve_many_def)
  moreover have "unat (saturating_add (ce_nonce e') 1) = min (2 ^ 64 - 1) (unat (ce_nonce e) + Suc n)"
    using sat_add_ref [of "ce_nonce e'" "unat (ce_nonce e) + n" 1] e'(4) by simp
  moreover have "unat (saturating_add (ce_cum_owed e') (product div 1000)) = min (2 ^ 128 - 1) (unat (ce_cum_owed e) + Suc n * ?c)"
  proof -
    have "unat (ce_cum_owed e) + Suc n * ?c = unat (ce_cum_owed e) + n * ?c + ?c" by simp
    then show ?thesis using sat_add_u128 [OF e'(5), of "product div 1000"] by (simp only:)
  qed
  ultimately show ?case using e'(2,3) by simp
qed

text \<open>Taking an acknowledgement.\<close>

lemma trim_bytes_hex [simp]: "trim_start_0x (CHR ''0'' # CHR ''x'' # bytes_hex bs) = bytes_hex bs"
  "trim_start_0x (bytes_hex bs) = bytes_hex bs"
  using trim_digits [OF hex_digits_of_bytes] by simp_all

lemma ack_taken:
  assumes "conf_chain p cf chain addr" "channel_id_from_hex p (cu_channelId (ack_update a)) = Inr cid"
    and "acked_by p (rc_chain_id chain) addr client a"
    and "ce_client_address (entry_or_new cid m) \<in> {None, Some client}"
  shows "ack_handler p cf a m =
    (Inr (), m(cid \<mapsto> (entry_or_new cid m)\<lparr>ce_client_address := Some client, ce_last_acked := Some a\<rparr>))"
proof -
  have "verify_and_record_ack p (entry_or_new cid m) a (cu_channelId (ack_update a)) (rc_chain_id chain) addr =
      Inr ((entry_or_new cid m)\<lparr>ce_client_address := Some client, ce_last_acked := Some a\<rparr>)"
    using assms(3,4) by (auto simp: verify_and_record_ack_Inr)
  then show ?thesis by (simp add: ack_handler_def target_from [OF assms(1,2)])
qed

lemma acked_by_unique: "acked_by p ch addr c a \<Longrightarrow> acked_by p ch addr c' a \<Longrightarrow> c = c'"
  by (auto simp: acked_by_def)

lemma ack_refused:
  assumes "acked_by p ch addr client a" "ce_client_address e = Some other" "other \<noteq> client"
  shows "\<exists>t. verify_and_record_ack p e a hex ch addr = Inl t"
proof (cases "verify_and_record_ack p e a hex ch addr")
  case (Inr e')
  then show ?thesis using assms acked_by_unique by (auto simp: verify_and_record_ack_Inr)
qed simp

text \<open>The wallet's acknowledgement of a receipt is one the node takes.\<close>

lemma hook_ack_shape:
  assumes "hook_signReceipt kec api e captured r hs w = (Inr a, hs')" "env_for client node e"
    and "he_contract e = Some ct" "receipt_canonical kec e ct (rc_update r) = Inr canonical"
  shows "ack_update a = rc_update r \<and> api_sign api (address_hex client) (kec canonical) w = Inr (clientSig a)"
  using assms env_for_truthy [OF assms(2)]
  by (auto simp: hook_signReceipt_def Let_def split: if_splits sum.splits)

text \<open>A receipt for a well-formed channel: its fields, the bytes it is signed over, and the signer.\<close>

lemma entry_bounds: "unat (ce_nonce e) < 2 ^ 64" "unat (ce_cum_owed e) < 2 ^ 256"
proof -
  have "unat (ce_cum_owed e) < 2 ^ 128" using unsigned_less [of "ce_cum_owed e", where ?'a = nat] by simp
  then show "unat (ce_cum_owed e) < 2 ^ 256" by (rule less_trans) simp
  show "unat (ce_nonce e) < 2 ^ 64" using unsigned_less [of "ce_nonce e", where ?'a = nat] by simp
qed

lemma receipt_facts:
  assumes "rust_ok p cr" "identity_ok p cr (nc_seed cf) node"
    and "conf_chain p cf chain (address_bytes (this_addr cfg))" "uint (rc_chain_id chain) = uint (chainid cfg)" "length cid = 32"
    and "build_receipt p cf (''0x'' @ bytes_hex cid) b sid u prev m = (Inr r, m')" "m' cid = Some entry"
  shows "rc_update r = \<lparr>cu_channelId = ''0x'' @ bytes_hex cid, cu_nonce = unat (ce_nonce entry), cu_cumOwed = nat_str (unat (ce_cum_owed entry))\<rparr>"
    and "channel_update_canonical_for p (rc_update r) (rc_chain_id chain) (address_bytes (this_addr cfg))
      = Inr (update_message cr cfg cid (ce_nonce entry) (ucast (ce_cum_owed entry)))"
    and "parse_bytes (nodeSig r) = Some (sign_eip191 p (nc_seed cf) (update_message cr cfg cid (ce_nonce entry) (ucast (ce_cum_owed entry))))"
    and "recover cr (updateDigest cr cfg cid (of_nat (unat (ce_nonce entry))) (of_nat (unat (ce_cum_owed entry))))
      (sign_eip191 p (nc_seed cf) (update_message cr cfg cid (ce_nonce entry) (ucast (ce_cum_owed entry)))) = Some node"
proof -
  let ?hex = "''0x'' @ bytes_hex cid" and ?msg = "update_message cr cfg cid (ce_nonce entry) (ucast (ce_cum_owed entry))"
  obtain chain' addr cid' e1 product where
    tgt: "channel_target p cf no_chain_text no_contract_text ''invalid channel address in chain config: '' ?hex = Inr (chain', addr, cid')"
    and m': "m' = m(cid' \<mapsto> e1\<lparr>ce_nonce := saturating_add (ce_nonce e1) 1, ce_cum_owed := saturating_add (ce_cum_owed e1) (product div 1000)\<rparr>)"
    and ru: "rc_update r = \<lparr>cu_channelId = ?hex, cu_nonce = unat (saturating_add (ce_nonce e1) 1),
       cu_cumOwed = nat_str (unat (saturating_add (ce_cum_owed e1) (product div 1000)))\<rparr>"
    and ns: "\<exists>bs. channel_update_canonical_for p (rc_update r) (rc_chain_id chain') addr = Inr bs \<and>
       nodeSig r = ''0x'' @ hex_encode p (sign_eip191 p (nc_seed cf) bs)"
    by (rule build_receipt_Inr [OF assms(6)])
  have same: "chain' = chain" "addr = address_bytes (this_addr cfg)" "cid' = cid"
    using tgt target_from [OF assms(3), of ?hex cid] channel_id_from_hex_bytes [OF assms(1,5)] by auto
  have entry: "entry = e1\<lparr>ce_nonce := saturating_add (ce_nonce e1) 1, ce_cum_owed := saturating_add (ce_cum_owed e1) (product div 1000)\<rparr>"
    using m' assms(7) same by simp
  show upd: "rc_update r = \<lparr>cu_channelId = ?hex, cu_nonce = unat (ce_nonce entry), cu_cumOwed = nat_str (unat (ce_cum_owed entry))\<rparr>"
    by (simp add: ru entry)
  show canon: "channel_update_canonical_for p (rc_update r) (rc_chain_id chain) (address_bytes (this_addr cfg)) = Inr ?msg"
    using rust_canonical_is_message [OF assms(1,5,4), of "rc_update r" "ce_cum_owed entry"] by (simp add: upd)
  have "nodeSig r = ''0x'' @ bytes_hex (sign_eip191 p (nc_seed cf) ?msg)"
    using ns canon unfolding same by (auto simp: rust_ok_facts(4) [OF assms(1)])
  then show "parse_bytes (nodeSig r) = Some (sign_eip191 p (nc_seed cf) ?msg)" by simp
  have w: "(of_nat (unat (ce_cum_owed entry)) :: u256) = ucast (ce_cum_owed entry)" "(of_nat (unat (ce_nonce entry)) :: u64) = ce_nonce entry"
    by simp_all
  show "recover cr (updateDigest cr cfg cid (of_nat (unat (ce_nonce entry))) (of_nat (unat (ce_cum_owed entry)))) (sign_eip191 p (nc_seed cf) ?msg) = Some node"
    unfolding w updateDigest_def by (rule signature_recovers(1) [OF assms(1,2)])
qed

subsection \<open>Properties\<close>

text \<open>C6. The node's ledger counts its receipts: after any interleaving of requests, a channel's
  nonce is the number of receipts issued for it and its amount owed their total cost, each held
  at its maximum; the k-th receipt was signed over nonce k and the cost of the first k.\<close>

theorem ledger_counts_receipts:
  assumes "rtranclp (node_step p cf) node_init s" and "nd_ledger s cid = Some e"
  shows "unat (ce_nonce e) = min (2 ^ 64 - 1) (length (receipts cid s)) \<and>
    unat (ce_cum_owed e) = min (2 ^ 128 - 1) (sum_list (map receipt_cost (receipts cid s))) \<and>
    (\<forall>k<length (receipts cid s). rc_update (receipts cid s ! k) = (rc_update (receipts cid s ! k))
      \<lparr>cu_nonce := min (2 ^ 64 - 1) (k + 1),
       cu_cumOwed := nat_str (min (2 ^ 128 - 1) (sum_list (map receipt_cost (take (k + 1) (receipts cid s)))))\<rparr>)"
proof -
  have inv: "node_inv p cf s" using node.reachable_inv [OF refl assms(1)] .
  note e = node_inv_entry(1) [OF inv assms(2)] and r = node_inv_entry(2) [OF inv assms(2)]
  have "rc_update (receipts cid s ! k) = (rc_update (receipts cid s ! k))
      \<lparr>cu_nonce := min (2 ^ 64 - 1) (k + 1),
       cu_cumOwed := nat_str (min (2 ^ 128 - 1) (sum_list (map receipt_cost (take (k + 1) (receipts cid s)))))\<rparr>"
    if "k < length (receipts cid s)" for k
    using r that unfolding receipts_ok_def ref_nonce_def ref_owed_def by (intro channel_update.equality) auto
  with e show ?thesis by (simp add: entry_ok_def ref_nonce_def ref_owed_def)
qed

text \<open>C7. What the node holds for settling: an acknowledgement on record was signed, over the
  contract's bytes for the channel it is recorded under, by the address recorded as the
  channel's client, and that address never changes.\<close>

theorem recorded_ack_is_clients:
  assumes "rtranclp (node_step p cf) node_init s" and "nd_ledger s cid = Some e" and "ce_last_acked e = Some a" and "hex_ok p"
    and "rtranclp (node_step p cf) s t"
  shows "\<exists>client chain addr e'. ce_client_address e = Some client \<and> conf_chain p cf chain addr \<and>
    acked_by p (rc_chain_id chain) addr client a \<and> channel_id_from_hex p (cu_channelId (ack_update a)) = Inr cid \<and>
    nd_ledger t cid = Some e' \<and> ce_client_address e' = Some client"
proof -
  have inv: "node_inv p cf s" using node.reachable_inv [OF refl assms(1)] .
  have "ack_recorded p cf cid e" using node_inv_entry(1) [OF inv assms(2)] by (simp add: entry_ok_def)
  then obtain client chain addr where c: "ce_client_address e = Some client" "conf_chain p cf chain addr"
    "acked_by p (rc_chain_id chain) addr client a" "channel_id_from_hex p (cu_channelId (ack_update a)) = Inr cid"
    using assms(3,4) by (auto simp: ack_recorded_def)
  have "client_is cid client s" using c(1) assms(2) by (simp add: client_is_def)
  then have "client_is cid client t"
    using node.run_stable [OF assms(5) inv, of "client_is cid client"] client_is_step by blast
  with c show ?thesis by (auto simp: client_is_def)
qed

text \<open>A deposit is read once: a channel whose cached deposit is used up, or was zero when the
  node first looked, is refused with 402 by every later request, whatever the chain says by
  then: opening or topping it up does not help until the node restarts.\<close>

theorem refused_for_ever:
  assumes "rtranclp (node_step p cf) node_init s" and "used_up cid s" and "rtranclp (node_step p cf) s t"
    and "conf_chain p cf chain addr" and "channel_id_from_hex p hex = Inr cid"
  shows "\<exists>msg. check_channel_solvent p cf rpc hex (nd_ledger t) = (Inl (Api (PaymentRequired msg)), nd_ledger t)"
proof -
  have "node_inv p cf s" using node.reachable_inv [OF refl assms(1)] .
  from node.run_stable [OF assms(3) this, of "used_up cid"] assms(2) used_up_step have "used_up cid t" by blast
  then show ?thesis by (rule solvent_refuses [OF _ assms(4,5)])
qed


text \<open>A stale acknowledgement replaces a newer one: whatever nonce is on record, \<open>/ack\<close> with
  an older state the client once signed is accepted, and what the node would settle on is the
  older state.\<close>

theorem stale_ack_replaces:
  assumes "conf_chain p cf chain addr" and "channel_id_from_hex p (cu_channelId (ack_update old)) = Inr cid"
    and "m cid = Some e" and "ce_client_address e = Some client" and "ce_last_acked e = Some new"
    and "acked_by p (rc_chain_id chain) addr client old"
    and "cu_nonce (ack_update old) < cu_nonce (ack_update new)"
  shows "\<exists>m' e'. ack_handler p cf old m = (Inr (), m') \<and> m' cid = Some e' \<and> ce_last_acked e' = Some old \<and>
    cu_nonce (ack_update old) < cu_nonce (ack_update new) \<and> ce_nonce e' = ce_nonce e"
proof -
  have "entry_or_new cid m = e" by (simp add: entry_or_new_def assms(3))
  with ack_taken [OF assms(1,2,6), of m] assms(4,7) show ?thesis by simp
qed

text \<open>The first acknowledgement decides who the client is: on a channel without one, a valid
  acknowledgement by anybody is taken; from then on every request that carries an
  acknowledgement signed by the real client fails with 400 after the backend has run, and
  nothing is charged for it.\<close>

theorem first_ack_captures:
  assumes "conf_chain p cf chain addr" and "channel_id_from_hex p (cu_channelId (ack_update bad)) = Inr cid"
    and "ce_client_address (entry_or_new cid m) = None"
    and "acked_by p (rc_chain_id chain) addr stranger bad"
    and "channel_id_from_hex p hex = Inr cid" and "acked_by p (rc_chain_id chain) addr client good" and "stranger \<noteq> client"
    and "checked_mul (nc_overflow_checks cf) (ucast (total_tokens u)) (price_for (nc_pricing cf) b) = Inr product"
  shows "\<exists>m' t. ack_handler p cf bad m = (Inr (), m') \<and>
    build_receipt p cf hex b sid u (Some good) m' = (Inl (Api (BadRequest t)), m')"
proof -
  let ?e = "(entry_or_new cid m)\<lparr>ce_client_address := Some stranger, ce_last_acked := Some bad\<rparr>"
  let ?m = "m(cid \<mapsto> ?e)"
  have a: "ack_handler p cf bad m = (Inr (), ?m)" using ack_taken [OF assms(1,2,4)] assms(3) by simp
  obtain t where t: "verify_and_record_ack p ?e good hex (rc_chain_id chain) addr = Inl t"
    using ack_refused [OF assms(6), of ?e stranger] assms(7) by auto
  have "build_receipt p cf hex b sid u (Some good) ?m = (Inl (Api (BadRequest (''invalid prev_ack: '' @ t))), ?m(cid \<mapsto> ?e))"
    by (simp add: build_receipt_def target_from [OF assms(1,5)] assms(8) t map_err_def Let_def)
  with a show ?thesis by simp
qed

text \<open>C3. The whole path of a payment: a receipt the node built for a well-formed channel is
  co-signed by the wallet through \<open>signReceipt\<close>, the acknowledgement is one the node takes and
  keeps for settling, and \<open>cooperativeClose\<close> then pays the node exactly what its ledger says is
  owed, capped at the deposit, and returns the rest to the client.\<close>

theorem node_receipt_settles:
  assumes "rust_ok p cr" and "identity_ok p cr (nc_seed cf) node" and "ecrecover_ok p cr"
    and "conf_chain p cf chain (address_bytes (this_addr cfg))" and "uint (rc_chain_id chain) = uint (chainid cfg)"
    and "env_for client node e" and "he_wallet e" and "he_public e"
    and "channel_at (cc_addresses (he_config e)) = Some (address_hex (this_addr cfg))"
    and "cc_chainId (he_config e) = uint (chainid cfg)" and "length cid = 32"
    and "build_receipt p cf (''0x'' @ bytes_hex cid) b sid u prev m = (Inr r, m')" and "m' cid = Some entry"
    and "ce_client_address entry \<in> {None, Some (address_bytes client)}"
    and "c_status (channels s cid) \<in> {StOpen, StChallenged}" and "latestNonce (channels s cid) \<le> ce_nonce entry"
    and "c_client (channels s cid) = client" and "c_node (channels s cid) = node"
    and "\<And>d. \<exists>bs. sign (address_hex client) d s = Inr (''0x'' @ bytes_hex bs) \<and> length bs = 65 \<and>
           recover cr (toEthSignedMessageHash cr d) bs = Some client"
    and "\<And>call. tok_accepts env call"
  shows "\<exists>a hs1 hs2 t.
    hook_signReceipt (keccak cr) (jc_api cr cfg active env allow sign) e (Some st) r hs s = (Inr a, hs1) \<and>
    ack_handler p cf a m' = (Inr (), m'(cid \<mapsto> entry\<lparr>ce_client_address := Some (address_bytes client), ce_last_acked := Some a\<rparr>)) \<and>
    hook_cooperativeClose (keccak cr) (jc_api cr cfg active env allow sign) e (hs_state hs1) hs1 s = (Inr (), hs2, t) \<and>
    c_status (channels t cid) = StClosed \<and>
    (let owed = unat (ce_cum_owed entry); dep = unat (deposit (channels s cid)) in
     calls t = calls s @ (if 0 < min owed dep then [Transfer node (of_nat (min owed dep))] else [])
       @ (if owed < dep then [Transfer client (of_nat (dep - owed))] else []))"
proof -
  let ?n = "ce_nonce entry" and ?w = "ce_cum_owed entry"
  let ?msg = "update_message cr cfg cid ?n (ucast ?w)"
  note f = receipt_facts [OF assms(1,2,4,5,11,12,13)]
  have len: "length (keccak cr update_domain) = 32" by (rule rust_ok_facts(2) [OF assms(1)])
  have nw: "unat ?n < 2 ^ 64" "unat ?w < 2 ^ 256" "unat (latestNonce (channels s cid)) \<le> unat ?n"
    using entry_bounds assms(16) by (simp_all add: word_le_nat_alt)
  have sign: "\<exists>sig bs. sign (address_hex client) (keccak cr q) s = Inr sig \<and> parse_bytes sig = Some bs \<and>
      recover cr (toEthSignedMessageHash cr (keccak cr q)) bs = Some client" for q
    using assms(19) [of "keccak cr q"] by auto
  obtain a hs1 hs2 t where res:
    "hook_signReceipt (keccak cr) (jc_api cr cfg active env allow sign) e (Some st) r hs s = (Inr a, hs1)"
    "ack_update a = rc_update r"
    "hook_cooperativeClose (keccak cr) (jc_api cr cfg active env allow sign) e (hs_state hs1) hs1 s = (Inr (), hs2, t)"
    "c_status (channels t cid) = StClosed"
    "calls t = calls s @ (if 0 < min (unat ?w) (unat (deposit (channels s cid))) then [Transfer node (of_nat (min (unat ?w) (unat (deposit (channels s cid)))))] else [])
       @ (if unat ?w < unat (deposit (channels s cid)) then [Transfer client (of_nat (unat (deposit (channels s cid)) - unat ?w))] else [])"
    using sign_then_close_core [where active = active and allow = allow and sign = sign and st = st and hs = hs,
        OF assms(6-10) len assms(11) f(1) nw(1,2) assms(15) nw(3) assms(17,18) sign f(3,4) assms(20)] by blast
  have ct: "he_contract e = Some (address_hex (this_addr cfg))"
    using assms(9) by (simp add: he_contract_def truthy_str_Some address_hex_def)
  have "receipt_canonical (keccak cr) e (address_hex (this_addr cfg)) (rc_update r) = Inr ?msg"
    using receipt_canonical_for [OF assms(10) len assms(11) f(1) nw(1,2)] by (simp add: jc_canonical_def)
  then have "sign (address_hex client) (keccak cr ?msg) s = Inr (clientSig a)"
    using hook_ack_shape [OF res(1) assms(6) ct] by (simp add: jc_api_def)
  then obtain bs where bs: "clientSig a = ''0x'' @ bytes_hex bs" "length bs = 65"
    "recover cr (toEthSignedMessageHash cr (keccak cr ?msg)) bs = Some client"
    using assms(19) [of "keccak cr ?msg"] by auto
  have "acked_by p (rc_chain_id chain) (address_bytes (this_addr cfg)) (address_bytes client) a"
    using f(2) recover_agrees [OF assms(1,3) bs(2,3)] bs(1,2) rust_ok_facts(3) [OF assms(1)]
    by (simp add: acked_by_def res(2) EIP191_SIG_SIZE_def)
  from ack_taken [OF assms(4) _ this, of cid m'] assms(13,14) res(2) f(1) channel_id_from_hex_bytes [OF assms(1,11)]
  have "ack_handler p cf a m' = (Inr (), m'(cid \<mapsto> entry\<lparr>ce_client_address := Some (address_bytes client), ce_last_acked := Some a\<rparr>))"
    by (simp add: entry_or_new_def)
  with res show ?thesis unfolding Let_def by blast
qed

subsection \<open>Witnesses\<close>

definition demo_nc :: node_conf where
  "demo_nc = \<lparr>nc_seed = [2], nc_pricing = [\<lparr>bp_backend = MockTee, bp_pricePer1k = nat_str 1\<rparr>],
     nc_chain = Some demo_rust_chain, nc_overflow_checks = True\<rparr>"

definition demo_hexid :: string where
  "demo_hexid = ''0x'' @ bytes_hex demo_cid"

definition demo_tokens :: usage where
  "demo_tokens = \<lparr>inputTokens = 2000, outputTokens = 0, cacheCreationInputTokens = None, cacheReadInputTokens = None\<rparr>"

text \<open>A state of nonce \<open>n\<close> acknowledged by the key \<open>x\<close>.\<close>

definition demo_signed_ack :: "byte \<Rightarrow> nat \<Rightarrow> client_ack" where
  "demo_signed_ack x n = \<lparr>ack_update = \<lparr>cu_channelId = demo_hexid, cu_nonce = n, cu_cumOwed = nat_str (unat (2 :: u128))\<rparr>,
     clientSig = ''0x'' @ bytes_hex (x # replicate 63 0 @ [27])\<rparr>"

definition demo_entry :: channel_entry where
  "demo_entry = new_entry\<lparr>ce_deposit := Some 5\<rparr>"

lemma demo_conf: "conf_chain demo_rp demo_nc demo_rust_chain (address_bytes 9)"
  using rust_ok_facts(3) [OF demo_rust_ok, of "address_bytes 9"]
  by (simp add: conf_chain_def demo_nc_def demo_rust_chain_def parse_addr_def bytes_from_hex_def address_hex_def)

lemma demo_cid_parse: "channel_id_from_hex demo_rp demo_hexid = Inr demo_cid"
  using channel_id_from_hex_bytes [OF demo_rust_ok, of demo_cid] by (simp add: demo_hexid_def demo_cid_def)

lemma demo_hex_ok: "hex_ok demo_rp"
  by (auto simp: hex_ok_def demo_rp_def demo_hex_def split: if_splits)

lemma demo_price: "checked_mul (nc_overflow_checks demo_nc) (ucast (total_tokens demo_tokens)) (price_for (nc_pricing demo_nc) MockTee) = Inr 2000"
proof -
  have "parse_u128 (nat_str 1) = Some 1" using parse_u128_nat_str [of 1] by simp
  then show ?thesis by (simp add: demo_nc_def price_for_def total_tokens_def demo_tokens_def checked_mul_def)
qed

lemma demo_acked: "acked_by demo_rp (rc_chain_id demo_rust_chain) (address_bytes 9) (address_bytes (ucast x)) (demo_signed_ack x n)"
proof -
  let ?sig = "x # replicate 63 0 @ [27]" and ?msg = "update_message demo_evm demo_cfg demo_cid (of_nat n) (ucast (2 :: u128))"
  have len: "length ?sig = 65" by simp
  have "channel_update_canonical_for demo_rp (ack_update (demo_signed_ack x n)) (rc_chain_id demo_rust_chain) (address_bytes 9) = Inr ?msg"
    using rust_canonical_is_message [OF demo_rust_ok, of demo_cid demo_rust_chain demo_cfg "ack_update (demo_signed_ack x n)" 2]
    by (simp add: demo_signed_ack_def demo_hexid_def demo_cid_def demo_rust_chain_def BASE_SEPOLIA_def demo_cfg_def)
  moreover have "recover demo_evm d ?sig = Some (ucast x)" for d by (simp add: demo_evm_def nth_append)
  moreover note recover_agrees [OF demo_rust_ok demo_ecrecover_ok len this, of ?msg]
  moreover have "hex_decode demo_rp (trim_start_0x (clientSig (demo_signed_ack x n))) = Inr ?sig"
    using rust_ok_facts(3) [OF demo_rust_ok, of ?sig] by (simp add: demo_signed_ack_def)
  ultimately show ?thesis by (simp add: acked_by_def EIP191_SIG_SIZE_def)
qed

lemma demo_ack_id: "channel_id_from_hex demo_rp (cu_channelId (ack_update (demo_signed_ack x n))) = Inr demo_cid"
  using demo_cid_parse by (simp add: demo_signed_ack_def)

lemma address_bytes_neq: "a \<noteq> b \<Longrightarrow> address_bytes a \<noteq> address_bytes b"
  using address_bytes_inject by blast

lemma build_receipt_runs:
  assumes "conf_chain p cf chain addr" "channel_id_from_hex p hex = Inr cid"
    and "checked_mul (nc_overflow_checks cf) (ucast (total_tokens u)) (price_for (nc_pricing cf) b) = Inr product"
  shows "\<exists>r. build_receipt p cf hex b sid u None m = (Inr r, m(cid \<mapsto> (entry_or_new cid m)
      \<lparr>ce_nonce := saturating_add (ce_nonce (entry_or_new cid m)) 1,
       ce_cum_owed := saturating_add (ce_cum_owed (entry_or_new cid m)) (product div 1000)\<rparr>))"
proof -
  obtain bs where "channel_update_canonical_for p \<lparr>cu_channelId = hex, cu_nonce = unat (saturating_add (ce_nonce (entry_or_new cid m)) 1),
      cu_cumOwed = nat_str (unat (saturating_add (ce_cum_owed (entry_or_new cid m)) (product div 1000)))\<rparr> (rc_chain_id chain) addr = Inr bs"
    using own_update_canonical [OF assms(2)] by blast
  then show ?thesis
    by (simp add: build_receipt_def target_from [OF assms(1,2)] assms(3) map_err_def Let_def)
qed

theorem ledger_counts_receipts_witness:
  "\<exists>s e. rtranclp (node_step demo_rp demo_nc) node_init s \<and> nd_ledger s demo_cid = Some e \<and>
     length (receipts demo_cid s) = 1 \<and> unat (ce_nonce e) = 1"
proof -
  obtain r m where br: "build_receipt demo_rp demo_nc demo_hexid MockTee [] demo_tokens None (nd_ledger node_init) = (Inr r, m)"
    and m: "\<exists>e. m demo_cid = Some e"
    using build_receipt_runs [OF demo_conf demo_cid_parse demo_price, of "[]" "nd_ledger node_init"] by auto
  let ?s = "node_init\<lparr>nd_ledger := m, nd_issued := nd_issued node_init @ [(demo_cid, r)]\<rparr>"
  have run: "rtranclp (node_step demo_rp demo_nc) node_init ?s" using step_receipt [OF br demo_cid_parse] by blast
  obtain e where e: "nd_ledger ?s demo_cid = Some e" using m by auto
  have "length (receipts demo_cid ?s) = 1" by (simp add: receipts_def node_init_def)
  with ledger_counts_receipts [OF run e] run e show ?thesis by (intro exI [of _ ?s] exI [of _ e]) simp
qed

theorem recorded_ack_is_clients_witness:
  "\<exists>s e. rtranclp (node_step demo_rp demo_nc) node_init s \<and> nd_ledger s demo_cid = Some e \<and>
     ce_last_acked e = Some (demo_signed_ack 1 7) \<and> (\<exists>c. ce_client_address e = Some c)"
proof -
  have ah: "ack_handler demo_rp demo_nc (demo_signed_ack 1 7) (nd_ledger node_init) = (Inr (), (nd_ledger node_init)
      (demo_cid \<mapsto> new_entry\<lparr>ce_client_address := Some (address_bytes (ucast (1 :: byte))), ce_last_acked := Some (demo_signed_ack 1 7)\<rparr>))"
    using ack_taken [OF demo_conf demo_ack_id demo_acked, of "nd_ledger node_init"]
    by (simp add: node_init_def entry_or_new_def new_entry_def)
  let ?e = "new_entry\<lparr>ce_client_address := Some (address_bytes (ucast (1 :: byte))), ce_last_acked := Some (demo_signed_ack 1 7)\<rparr>"
  let ?s = "node_init\<lparr>nd_ledger := (nd_ledger node_init)(demo_cid \<mapsto> ?e)\<rparr>"
  have run: "rtranclp (node_step demo_rp demo_nc) node_init ?s" using step_ack [OF ah] by blast
  have e: "nd_ledger ?s demo_cid = Some ?e" "ce_last_acked ?e = Some (demo_signed_ack 1 7)" by simp_all
  from recorded_ack_is_clients [OF run e demo_hex_ok rtranclp.rtrancl_refl] run e show ?thesis by blast
qed

theorem refused_for_ever_witness:
  "\<exists>s msg. rtranclp (node_step demo_rp demo_nc) node_init s \<and>
     check_channel_solvent demo_rp demo_nc (\<lambda>_ _. Inr (channels_getter demo_open demo_cid)) demo_hexid (nd_ledger s)
       = (Inl (Api (PaymentRequired msg)), nd_ledger s)"
proof -
  let ?s = "node_init\<lparr>nd_fetching := demo_cid # nd_fetching node_init\<rparr>"
  let ?t = "?s\<lparr>nd_ledger := solvent_store demo_cid 0 (nd_ledger ?s), nd_fetching := remove1 demo_cid (nd_fetching ?s)\<rparr>"
  have miss: "node_step demo_rp demo_nc node_init ?s" by (rule step_miss) (simp add: node_init_def solvent_read_def)
  have store: "node_step demo_rp demo_nc ?s ?t" by (rule step_store) simp
  have run: "rtranclp (node_step demo_rp demo_nc) node_init ?t"
    by (rule converse_rtranclp_into_rtranclp, rule miss, rule r_into_rtranclp, rule store)
  have "used_up demo_cid ?t" by (simp add: used_up_def node_init_def solvent_store_def entry_or_new_def new_entry_def)
  from refused_for_ever [OF run this rtranclp.rtrancl_refl demo_conf demo_cid_parse] run show ?thesis by blast
qed

definition demo_chan_req :: encrypted_request where
  "demo_chan_req = \<lparr>er_sessionId = [], clientPublicKey = [], er_nonce = [], er_ciphertext = [], er_backend = MockTee,
     er_channelId = Some demo_hexid, er_prevAck = None\<rparr>"


theorem stale_ack_replaces_witness:
  "\<exists>m e. ack_handler demo_rp demo_nc (demo_signed_ack 1 3)
     [demo_cid \<mapsto> demo_entry\<lparr>ce_client_address := Some (address_bytes (ucast (1 :: byte))), ce_last_acked := Some (demo_signed_ack 1 7)\<rparr>] = (Inr (), m) \<and>
     m demo_cid = Some e \<and> ce_last_acked e = Some (demo_signed_ack 1 3)"
proof -
  let ?e = "demo_entry\<lparr>ce_client_address := Some (address_bytes (ucast (1 :: byte))), ce_last_acked := Some (demo_signed_ack 1 7)\<rparr>"
  have h: "[demo_cid \<mapsto> ?e] demo_cid = Some ?e" "ce_client_address ?e = Some (address_bytes (ucast (1 :: byte)))"
    "ce_last_acked ?e = Some (demo_signed_ack 1 7)" by simp_all
  have n: "cu_nonce (ack_update (demo_signed_ack 1 3)) < cu_nonce (ack_update (demo_signed_ack 1 7))"
    by (simp add: demo_signed_ack_def)
  from stale_ack_replaces [where m = "[demo_cid \<mapsto> ?e]", OF demo_conf demo_ack_id h demo_acked n] show ?thesis by blast
qed

theorem first_ack_captures_witness:
  "\<exists>m t. ack_handler demo_rp demo_nc (demo_signed_ack 5 1) (\<lambda>_. None) = (Inr (), m) \<and>
     build_receipt demo_rp demo_nc demo_hexid MockTee [] demo_tokens (Some (demo_signed_ack 1 7)) m = (Inl (Api (BadRequest t)), m)"
proof -
  have free: "ce_client_address (entry_or_new demo_cid (\<lambda>_. None)) = None" by (simp add: entry_or_new_def new_entry_def)
  have neq: "address_bytes (ucast (5 :: byte)) \<noteq> address_bytes (ucast (1 :: byte))" by (rule address_bytes_neq) simp
  show ?thesis by (rule first_ack_captures [OF demo_conf demo_ack_id free demo_acked demo_cid_parse demo_acked neq demo_price])
qed

definition demo_wallet :: "string \<Rightarrow> byte list \<Rightarrow> jc_state \<Rightarrow> string + string" where
  "demo_wallet a d s = Inr (''0x'' @ bytes_hex (1 # replicate 63 0 @ [27]))"

theorem node_receipt_settles_witness:
  "\<exists>r m a hs1 hs2 t.
    build_receipt demo_rp demo_nc demo_hexid MockTee [] demo_tokens None [demo_cid \<mapsto> demo_entry] = (Inr r, m) \<and>
    hook_signReceipt (keccak demo_evm) (jc_api demo_evm demo_cfg (\<lambda>_. True) (demo_env 1 300) (\<lambda>_ _ _ _. Inr 0) demo_wallet) demo_hook_env
      (Some demo_ch) r demo_hook demo_open = (Inr a, hs1) \<and>
    hook_cooperativeClose (keccak demo_evm) (jc_api demo_evm demo_cfg (\<lambda>_. True) (demo_env 1 300) (\<lambda>_ _ _ _. Inr 0) demo_wallet) demo_hook_env
      (hs_state hs1) hs1 demo_open = (Inr (), hs2, t) \<and>
    calls t = [TransferFrom 1 50, Transfer 2 2, Transfer 1 48]"
proof -
  let ?entry = "demo_entry\<lparr>ce_nonce := 1, ce_cum_owed := 2\<rparr>"
  have sat: "saturating_add (0 :: u64) 1 = 1" "saturating_add (0 :: u128) (2000 div 1000) = 2" by (simp_all add: saturating_add_def)
  obtain r where br: "build_receipt demo_rp demo_nc (''0x'' @ bytes_hex demo_cid) MockTee [] demo_tokens None [demo_cid \<mapsto> demo_entry]
      = (Inr r, [demo_cid \<mapsto> ?entry])"
    using build_receipt_runs [OF demo_conf demo_cid_parse demo_price, of "[]" "[demo_cid \<mapsto> demo_entry]"] sat
    by (auto simp: entry_or_new_def demo_entry_def new_entry_def demo_hexid_def)
  have id: "identity_ok demo_rp demo_evm (nc_seed demo_nc) 2" using demo_identity_ok [of 2 "[]"] by (simp add: demo_nc_def)
  have conf: "conf_chain demo_rp demo_nc demo_rust_chain (address_bytes (this_addr demo_cfg))"
    using demo_conf by (simp add: demo_cfg_def)
  have h: "uint (rc_chain_id demo_rust_chain) = uint (chainid demo_cfg)" "env_for 1 2 demo_hook_env" "he_wallet demo_hook_env" "he_public demo_hook_env"
    "channel_at (cc_addresses (he_config demo_hook_env)) = Some (address_hex (this_addr demo_cfg))"
    "cc_chainId (he_config demo_hook_env) = uint (chainid demo_cfg)" "length demo_cid = 32"
    using demo_env_for by (simp_all add: demo_rust_chain_def BASE_SEPOLIA_def demo_cfg_def demo_hook_env_def demo_cid_def)
  have e: "[demo_cid \<mapsto> ?entry] demo_cid = Some ?entry" "ce_client_address ?entry \<in> {None, Some (address_bytes 1)}"
    "c_status (channels demo_open demo_cid) \<in> {StOpen, StChallenged}" "latestNonce (channels demo_open demo_cid) \<le> ce_nonce ?entry"
    "c_client (channels demo_open demo_cid) = 1" "c_node (channels demo_open demo_cid) = 2"
    by (simp_all add: demo_open_eq demo_entry_def new_entry_def)
  have sign: "\<exists>bs. demo_wallet (address_hex 1) d demo_open = Inr (''0x'' @ bytes_hex bs) \<and> length bs = 65 \<and>
      recover demo_evm (toEthSignedMessageHash demo_evm d) bs = Some 1" for d
    by (intro exI [of _ "1 # replicate 63 0 @ [27]"]) (simp add: demo_wallet_def demo_evm_def nth_append)
  have tok: "tok_accepts (demo_env 1 300) call" for call by (simp add: demo_env_def)
  from node_receipt_settles [where active = "\<lambda>_. True" and allow = "\<lambda>_ _ _ _. Inr 0" and hs = demo_hook and st = demo_ch and sign = demo_wallet,
      OF demo_rust_ok id demo_ecrecover_ok conf h br e sign tok]
  obtain a hs1 hs2 t where
    "hook_signReceipt (keccak demo_evm) (jc_api demo_evm demo_cfg (\<lambda>_. True) (demo_env 1 300) (\<lambda>_ _ _ _. Inr 0) demo_wallet) demo_hook_env
      (Some demo_ch) r demo_hook demo_open = (Inr a, hs1)"
    "hook_cooperativeClose (keccak demo_evm) (jc_api demo_evm demo_cfg (\<lambda>_. True) (demo_env 1 300) (\<lambda>_ _ _ _. Inr 0) demo_wallet) demo_hook_env
      (hs_state hs1) hs1 demo_open = (Inr (), hs2, t)"
    "calls t = [TransferFrom 1 50, Transfer 2 2, Transfer 1 48]"
    by (auto simp: demo_open_eq Let_def demo_entry_def)
  with br show ?thesis unfolding demo_hexid_def by blast
qed

end
