(* ===== verification/Coordinator.thy ===== *)
theory Coordinator
  imports RustProtocol
begin

section \<open>The coordinator (apps/coordinator/src/main.rs)\<close>

text \<open>
  The in-memory registry that nodes register with and clients ask for a node: registrations
  and heartbeats signed with the node's identity key, a bid book, the garbage collection of
  both, and the matching of a job. The canonical bytes of the three signed messages are those
  of \<open>crates/protocol/src/lib.rs\<close>, the node's side of them is in \<open>apps/node/src/main.rs\<close>. The
  crates \<open>hex\<close>, \<open>sha2\<close>, \<open>k256\<close> and \<open>serde_json\<close> are the fields of \<open>id_prims\<close>; instants are
  milliseconds, Unix times seconds, and both are arguments. A \<open>DashMap\<close> iterates in no
  particular order: the order is an argument too, as the list of the keys.

  The properties: matching returns a cheapest admissible offer, everything stored is signed by
  the key it is stored under, the node's own messages are accepted, a signature for one kind
  of message or content is none for another, and what is published can be replayed.
\<close>

record id_prims =
  ip_hex_decode :: "string \<Rightarrow> byte list option"
  ip_hex_encode :: "byte list \<Rightarrow> string"
  ip_sha256 :: "byte list \<Rightarrow> byte list"
  ip_key :: "byte list \<Rightarrow> byte list option"
  ip_sig :: "byte list \<Rightarrow> byte list option"
  ip_verify :: "byte list \<Rightarrow> byte list \<Rightarrow> byte list \<Rightarrow> bool"
  ip_sign :: "byte list \<Rightarrow> byte list \<Rightarrow> byte list"
  ip_to_vec :: "json \<Rightarrow> byte list"

subsection \<open>Signed messages\<close>

definition price_json :: "backend_price \<Rightarrow> json" where
  "price_json b = JObj [(''backend'', backend_json (bp_backend b)), (''pricePer1k'', JStr (bp_pricePer1k b))]"

definition canonical_register_bytes :: "id_prims \<Rightarrow> node_registration \<Rightarrow> byte list" where
  "canonical_register_bytes p r = ip_to_vec p (JObj
     [(''domain'', JStr ''fldx-v0-register''), (''identity_pubkey'', JStr (identityPubkey r)), (''public_key'', JStr (publicKey r)),
      (''url'', JStr (url r)), (''backends'', JArr (map backend_json (backends r))), (''max_tokens'', jint (maxTokens r)),
      (''pricing'', JArr (map price_json (pricing r))), (''nonce'', JStr (nr_nonce r))])"

definition canonical_heartbeat_bytes :: "id_prims \<Rightarrow> node_heartbeat \<Rightarrow> byte list" where
  "canonical_heartbeat_bytes p h = ip_to_vec p (JObj
     [(''domain'', JStr ''fldx-v0-heartbeat''), (''identity_pubkey'', JStr (hb_identityPubkey h)), (''nonce'', JStr (hb_nonce h))])"

definition canonical_bid_bytes :: "id_prims \<Rightarrow> bid \<Rightarrow> byte list" where
  "canonical_bid_bytes p b = ip_to_vec p (JObj
     [(''domain'', JStr ''fldx-v0-bid''), (''identity_pubkey'', JStr (bid_identityPubkey b)), (''backend'', backend_json (bid_backend b)),
      (''price_per_1k'', JStr (bid_pricePer1k b)), (''max_tokens'', jint (bid_maxTokens b)), (''valid_until'', jint (bid_validUntil b)),
      (''nonce'', JStr (bid_nonce b))])"

definition verify_identity_signature :: "id_prims \<Rightarrow> byte list \<Rightarrow> byte list \<Rightarrow> byte list \<Rightarrow> bool" where
  "verify_identity_signature p pubkey message sig \<longleftrightarrow>
     length pubkey = 33 \<and> length sig = 64 \<and>
     (case (ip_key p pubkey, ip_sig p sig) of
        (Some key, Some sg) \<Rightarrow> ip_verify p key (ip_sha256 p message) sg
      | _ \<Rightarrow> False)"

definition verify_signed :: "id_prims \<Rightarrow> string \<Rightarrow> string \<Rightarrow> byte list \<Rightarrow> (nat \<times> string) + byte list" where
  "verify_signed p identity_pubkey_hex signature_hex canonical =
     (case ip_hex_decode p identity_pubkey_hex of
        None \<Rightarrow> Inl (400, ''identity_pubkey not hex'')
      | Some pubkey \<Rightarrow>
          (case ip_hex_decode p signature_hex of
             None \<Rightarrow> Inl (400, ''signature not hex'')
           | Some sig \<Rightarrow>
               if \<not> verify_identity_signature p pubkey canonical sig then Inl (401, ''invalid signature'') else Inr pubkey))"

subsection \<open>State and handlers\<close>

definition HEARTBEAT_TIMEOUT :: int where
  "HEARTBEAT_TIMEOUT = 30000"

record coord_entry =
  co_reg :: node_registration
  co_last_seen :: int

record coord_state =
  co_nodes :: "string \<Rightarrow> coord_entry option"
  co_bids :: "string \<times> backend_type \<Rightarrow> bid option"

definition coord_init :: coord_state where
  "coord_init = \<lparr>co_nodes = (\<lambda>_. None), co_bids = (\<lambda>_. None)\<rparr>"

definition coord_register :: "id_prims \<Rightarrow> int \<Rightarrow> node_registration \<Rightarrow> coord_state \<Rightarrow> (nat \<times> string) + coord_state" where
  "coord_register p now reg s =
     rbind (verify_signed p (identityPubkey reg) (nr_signature reg) (canonical_register_bytes p reg)) (\<lambda>_.
     Inr (s\<lparr>co_nodes := (co_nodes s)(identityPubkey reg \<mapsto> \<lparr>co_reg = reg, co_last_seen = now\<rparr>)\<rparr>))"

definition coord_heartbeat :: "id_prims \<Rightarrow> int \<Rightarrow> node_heartbeat \<Rightarrow> coord_state \<Rightarrow> (nat \<times> string) + coord_state" where
  "coord_heartbeat p now hb s =
     rbind (verify_signed p (hb_identityPubkey hb) (hb_signature hb) (canonical_heartbeat_bytes p hb)) (\<lambda>_.
     case co_nodes s (hb_identityPubkey hb) of
       Some entry \<Rightarrow> Inr (s\<lparr>co_nodes := (co_nodes s)(hb_identityPubkey hb \<mapsto> entry\<lparr>co_last_seen := now\<rparr>)\<rparr>)
     | None \<Rightarrow> Inl (404, ''unknown identity_pubkey''))"

definition post_bid :: "id_prims \<Rightarrow> int \<Rightarrow> bid \<Rightarrow> coord_state \<Rightarrow> (nat \<times> string) + coord_state" where
  "post_bid p unix_now b s =
     rbind (verify_signed p (bid_identityPubkey b) (bid_signature b) (canonical_bid_bytes p b)) (\<lambda>_.
     if bid_validUntil b \<le> unix_now then Inl (400, ''bid already expired'')
     else Inr (s\<lparr>co_bids := (co_bids s)((bid_identityPubkey b, bid_backend b) \<mapsto> b)\<rparr>))"

text \<open>One turn of the background task.\<close>

definition coord_gc :: "int \<Rightarrow> int \<Rightarrow> coord_state \<Rightarrow> coord_state" where
  "coord_gc now unix_now s =
     s\<lparr>co_nodes := (\<lambda>k. case co_nodes s k of None \<Rightarrow> None
                     | Some e \<Rightarrow> if now - co_last_seen e < HEARTBEAT_TIMEOUT then Some e else None),
       co_bids := (\<lambda>k. case co_bids s k of None \<Rightarrow> None
                     | Some b \<Rightarrow> if unix_now < bid_validUntil b then Some b else None)\<rparr>"

definition list_nodes :: "string list \<Rightarrow> coord_state \<Rightarrow> node_registration list" where
  "list_nodes order s = List.map_filter (\<lambda>k. map_option co_reg (co_nodes s k)) order"

definition list_bids :: "int \<Rightarrow> (string \<times> backend_type) list \<Rightarrow> coord_state \<Rightarrow> bid list" where
  "list_bids unix_now order s = filter (\<lambda>b. unix_now < bid_validUntil b) (List.map_filter (co_bids s) order)"

subsection \<open>Matching\<close>

text \<open>The job as \<open>serde\<close> reads it: \<open>u32\<close> tokens, an \<open>f64\<close> price; JavaScript's NaN arrives as
  \<open>null\<close> and is refused.\<close>

record rust_spec =
  rs_backend :: backend_type
  rs_estimated_tokens :: int
  rs_max_price_per_1k :: rat

fun as_num :: "json \<Rightarrow> rat option" where
  "as_num (JNum r) = Some r"
| "as_num _ = None"

definition spec_of_json :: "json \<Rightarrow> rust_spec option" where
  "spec_of_json j = do {
     b \<leftarrow> field backend_of_json j ''backend'';
     t \<leftarrow> field as_int j ''estimatedTokens'';
     m \<leftarrow> field as_num j ''maxPricePer1k'';
     if 0 \<le> t \<and> t < 2 ^ 32 then Some \<lparr>rs_backend = b, rs_estimated_tokens = t, rs_max_price_per_1k = m\<rparr> else None }"

text \<open>\<open>x as u128\<close> for a finite float: towards zero, held at both ends.\<close>

definition float_as_u128 :: "rat \<Rightarrow> nat" where
  "float_as_u128 x = min (2 ^ 128 - 1) (nat \<lfloor>x\<rfloor>)"

text \<open>The price that counts for a node and the token cap of its bid; nothing skips the node.\<close>

definition effective_price :: "int \<Rightarrow> rust_spec \<Rightarrow> coord_state \<Rightarrow> node_registration \<Rightarrow> (nat \<times> int option) option" where
  "effective_price now_secs spec s reg =
     (case (case co_bids s (identityPubkey reg, rs_backend spec) of None \<Rightarrow> None
            | Some b \<Rightarrow> if now_secs < bid_validUntil b then Some b else None) of
        Some b \<Rightarrow> map_option (\<lambda>w. (unat w, Some (bid_maxTokens b))) (parse_u128 (bid_pricePer1k b))
      | None \<Rightarrow>
          (case find (\<lambda>q. bp_backend q = rs_backend spec) (pricing reg) of
             None \<Rightarrow> None
           | Some q \<Rightarrow> map_option (\<lambda>w. (unat w, None)) (parse_u128 (bp_pricePer1k q))))"

definition match_step ::
  "int \<Rightarrow> rust_spec \<Rightarrow> coord_state \<Rightarrow> (nat \<times> node_registration) option \<Rightarrow> node_registration \<Rightarrow> (nat \<times> node_registration) option" where
  "match_step now_secs spec s best reg =
     (if rs_backend spec \<notin> set (backends reg) then best
      else case effective_price now_secs spec s reg of
             None \<Rightarrow> best
           | Some (price_units, bid_max_tokens) \<Rightarrow>
               let cap = (case bid_max_tokens of None \<Rightarrow> maxTokens reg | Some t \<Rightarrow> t) in
               if cap < rs_estimated_tokens spec then best
               else if float_as_u128 (rs_max_price_per_1k spec * 1000000) < price_units then best
               else if (case best of None \<Rightarrow> True | Some (cur, _) \<Rightarrow> price_units < cur) then Some (price_units, reg)
               else best)"

definition no_match_text :: "(rat \<Rightarrow> string) \<Rightarrow> rust_spec \<Rightarrow> string" where
  "no_match_text show_f64 spec =
     ''no node matching spec (backend='' @
     (case rs_backend spec of MockTee \<Rightarrow> ''MockTee'' | Fhe \<Rightarrow> ''Fhe'' | Mcp \<Rightarrow> ''Mcp'' | Local \<Rightarrow> ''Local'') @
     '', estimated_tokens='' @ int_str (rs_estimated_tokens spec) @ '', max_price_per_1k='' @ show_f64 (rs_max_price_per_1k spec) @ '')''"

definition match_job ::
  "(rat \<Rightarrow> string) \<Rightarrow> int \<Rightarrow> string list \<Rightarrow> rust_spec \<Rightarrow> coord_state \<Rightarrow> (nat \<times> string) + job_match" where
  "match_job show_f64 now_secs order spec s =
     (case foldl (match_step now_secs spec s) None (list_nodes order s) of
        Some (price, reg) \<Rightarrow> Inr \<lparr>jm_url = url reg, jm_publicKey = publicKey reg\<rparr>
      | None \<Rightarrow> Inl (404, no_match_text show_f64 spec))"

subsection \<open>The node's side\<close>

definition identity_sign :: "id_prims \<Rightarrow> byte list \<Rightarrow> byte list \<Rightarrow> byte list" where
  "identity_sign p seed message = ip_sign p seed (ip_sha256 p message)"

text \<open>\<open>nonce\<close> is the fresh \<open>random_nonce_hex()\<close>; the fields of \<open>cfg\<close> are those of the registration.\<close>

definition signed_registration :: "id_prims \<Rightarrow> byte list \<Rightarrow> string \<Rightarrow> node_registration \<Rightarrow> node_registration" where
  "signed_registration p seed nonce cfg =
     (let reg = cfg\<lparr>nr_nonce := nonce, nr_signature := []\<rparr> in
      reg\<lparr>nr_signature := ip_hex_encode p (identity_sign p seed (canonical_register_bytes p reg))\<rparr>)"

definition signed_heartbeat :: "id_prims \<Rightarrow> byte list \<Rightarrow> string \<Rightarrow> string \<Rightarrow> node_heartbeat" where
  "signed_heartbeat p seed nonce identity_pubkey =
     (let hb = \<lparr>hb_identityPubkey = identity_pubkey, hb_nonce = nonce, hb_signature = []\<rparr> in
      hb\<lparr>hb_signature := ip_hex_encode p (identity_sign p seed (canonical_heartbeat_bytes p hb))\<rparr>)"

definition signed_bid ::
  "id_prims \<Rightarrow> byte list \<Rightarrow> string \<Rightarrow> int \<Rightarrow> string \<Rightarrow> backend_type \<Rightarrow> backend_price list \<Rightarrow> int \<Rightarrow> int \<Rightarrow> bid option" where
  "signed_bid p seed nonce unix_now identity_pubkey backend prices max_tokens valid_for_secs =
     (case find (\<lambda>q. bp_backend q = backend) prices of
        None \<Rightarrow> None
      | Some q \<Rightarrow>
          let b = \<lparr>bid_identityPubkey = identity_pubkey, bid_backend = backend, bid_pricePer1k = bp_pricePer1k q, bid_maxTokens = max_tokens,
                bid_validUntil = min (2 ^ 64 - 1) (unix_now + valid_for_secs), bid_nonce = nonce, bid_signature = []\<rparr> in
          Some (b\<lparr>bid_signature := ip_hex_encode p (identity_sign p seed (canonical_bid_bytes p b))\<rparr>))"

text \<open>\<open>read_pricing\<close>: dollars per thousand tokens, from the environment, to base units.\<close>

definition read_pricing :: "(backend_type \<Rightarrow> rat option) \<Rightarrow> backend_type list \<Rightarrow> backend_price list" where
  "read_pricing env bs =
     map (\<lambda>b. \<lparr>bp_backend = b, bp_pricePer1k = nat_str (float_as_u128 ((case env b of None \<Rightarrow> 0 | Some d \<Rightarrow> d) * 1000000))\<rparr>) bs"

text \<open>The coordinator behind HTTP, for the call the clients make; \<open>refuse\<close> is what the web
  framework answers to anything else, a body that is no \<open>JobSpec\<close> included.\<close>

definition coord_server ::
  "prims \<Rightarrow> server \<Rightarrow> (rat \<Rightarrow> string) \<Rightarrow> string \<Rightarrow> int \<Rightarrow> string list \<Rightarrow> coord_state \<Rightarrow> server" where
  "coord_server p refuse show_f64 base now_secs order s q =
     (case (if rq_method q = ''POST'' \<and> rq_url q = base @ ''/jobs/match'' then rq_body q else None) of
        None \<Rightarrow> refuse q
      | Some t \<Rightarrow>
          (case rbind (serde_read p t) (read_as spec_of_json) of
             Inl m \<Rightarrow> refuse q
           | Inr spec \<Rightarrow> Inr
               (case match_job show_f64 now_secs order spec s of
                  Inl (st, m) \<Rightarrow> \<lparr>rs_status = st, rs_body = m\<rparr>
                | Inr jm \<Rightarrow> \<lparr>rs_status = 200, rs_body = serde_write p (match_json jm)\<rparr>)))"

subsection \<open>Matching against its specification\<close>

text \<open>What a node asks for a job it can take: it serves the backend, its live bid (or else its
  listed price) parses, its cap covers the tokens and the price is within the client's limit.\<close>

definition offer :: "int \<Rightarrow> rust_spec \<Rightarrow> coord_state \<Rightarrow> node_registration \<Rightarrow> nat option" where
  "offer now_secs spec s reg =
     (case effective_price now_secs spec s reg of
        None \<Rightarrow> None
      | Some (price, cap) \<Rightarrow>
          if rs_backend spec \<in> set (backends reg) \<and>
             rs_estimated_tokens spec \<le> (case cap of None \<Rightarrow> maxTokens reg | Some t \<Rightarrow> t) \<and>
             price \<le> float_as_u128 (rs_max_price_per_1k spec * 1000000)
          then Some price else None)"

lemma match_step_offer:
  "match_step now spec s best reg =
     (case offer now spec s reg of
        None \<Rightarrow> best
      | Some p \<Rightarrow> (case best of None \<Rightarrow> Some (p, reg) | Some (cur, r) \<Rightarrow> if p < cur then Some (p, reg) else best))"
  by (auto simp: match_step_def offer_def Let_def split: option.splits prod.splits)

definition best_so_far :: "int \<Rightarrow> rust_spec \<Rightarrow> coord_state \<Rightarrow> node_registration set \<Rightarrow> (nat \<times> node_registration) option \<Rightarrow> bool" where
  "best_so_far now spec s seen best \<longleftrightarrow>
     (case best of
        None \<Rightarrow> \<forall>r\<in>seen. offer now spec s r = None
      | Some (p, r) \<Rightarrow> r \<in> seen \<and> offer now spec s r = Some p \<and> (\<forall>r'\<in>seen. \<forall>p'. offer now spec s r' = Some p' \<longrightarrow> p \<le> p'))"

lemma best_so_far_step:
  "best_so_far now spec s seen best \<Longrightarrow> best_so_far now spec s (insert reg seen) (match_step now spec s best reg)"
  by (cases "offer now spec s reg"; cases best) (force simp: best_so_far_def match_step_offer)+

lemma best_of_list:
  "best_so_far now spec s seen best \<Longrightarrow> best_so_far now spec s (seen \<union> set regs) (foldl (match_step now spec s) best regs)"
proof (induction regs arbitrary: seen best)
  case (Cons reg regs)
  from Cons.IH [OF best_so_far_step [OF Cons.prems], of reg] show ?case by (simp add: insert_commute Un_commute)
qed simp

lemma list_nodes_set: "set (list_nodes order s) = {co_reg e | e k. k \<in> set order \<and> co_nodes s k = Some e}"
proof (induction order)
  case (Cons k order)
  then show ?case by (cases "co_nodes s k") (auto simp: list_nodes_def map_filter_simps)
qed (simp add: list_nodes_def map_filter_simps)

lemma match_job_spec:
  assumes "\<And>k. k \<in> set order \<longleftrightarrow> co_nodes s k \<noteq> None"
  shows "case match_job fmt now order spec s of
      Inr jm \<Rightarrow> \<exists>k e price. co_nodes s k = Some e \<and> offer now spec s (co_reg e) = Some price \<and>
        jm = \<lparr>jm_url = url (co_reg e), jm_publicKey = publicKey (co_reg e)\<rparr> \<and>
        (\<forall>k' e' price'. co_nodes s k' = Some e' \<longrightarrow> offer now spec s (co_reg e') = Some price' \<longrightarrow> price \<le> price')
    | Inl err \<Rightarrow> err = (404, no_match_text fmt spec) \<and> (\<forall>k e. co_nodes s k = Some e \<longrightarrow> offer now spec s (co_reg e) = None)"
proof -
  have all: "co_nodes s k = Some e \<Longrightarrow> co_reg e \<in> set (list_nodes order s)" for k e
    using assms [of k] by (auto simp: list_nodes_set)
  have best: "best_so_far now spec s (set (list_nodes order s)) (foldl (match_step now spec s) None (list_nodes order s))"
    using best_of_list [of now spec s "{}" None] by (simp add: best_so_far_def)
  show ?thesis
  proof (cases "foldl (match_step now spec s) None (list_nodes order s)")
    case None
    with best have "\<forall>r\<in>set (list_nodes order s). offer now spec s r = None" by (simp add: best_so_far_def)
    with None all show ?thesis by (simp add: match_job_def)
  next
    case (Some pr)
    obtain price reg where pr: "pr = (price, reg)" by (cases pr)
    from best have b: "reg \<in> set (list_nodes order s)" "offer now spec s reg = Some price"
      "\<And>r' p'. r' \<in> set (list_nodes order s) \<Longrightarrow> offer now spec s r' = Some p' \<Longrightarrow> price \<le> p'"
      by (auto simp: best_so_far_def Some pr)
    obtain k e where k: "co_nodes s k = Some e" "reg = co_reg e" using b(1) by (auto simp: list_nodes_set)
    have job: "match_job fmt now order spec s = Inr \<lparr>jm_url = url (co_reg e), jm_publicKey = publicKey (co_reg e)\<rparr>"
      by (simp add: match_job_def Some pr k(2))
    show ?thesis unfolding job using b(2,3) k all by auto blast
  qed
qed

subsection \<open>Who is stored\<close>

inductive coord_step :: "id_prims \<Rightarrow> coord_state \<Rightarrow> coord_state \<Rightarrow> bool" for p where
  co_step_register: "coord_register p now reg s = Inr t \<Longrightarrow> coord_step p s t"
| co_step_heartbeat: "coord_heartbeat p now hb s = Inr t \<Longrightarrow> coord_step p s t"
| co_step_bid: "post_bid p unix_now b s = Inr t \<Longrightarrow> coord_step p s t"
| co_step_gc: "coord_step p s (coord_gc now unix_now s)"

inductive_cases coord_stepE: "coord_step p s t"

definition reg_signed :: "id_prims \<Rightarrow> node_registration \<Rightarrow> bool" where
  "reg_signed p r \<longleftrightarrow> (\<exists>pk. verify_signed p (identityPubkey r) (nr_signature r) (canonical_register_bytes p r) = Inr pk)"

definition bid_signed :: "id_prims \<Rightarrow> bid \<Rightarrow> bool" where
  "bid_signed p b \<longleftrightarrow> (\<exists>pk. verify_signed p (bid_identityPubkey b) (bid_signature b) (canonical_bid_bytes p b) = Inr pk)"

definition coord_inv :: "id_prims \<Rightarrow> coord_state \<Rightarrow> bool" where
  "coord_inv p s \<longleftrightarrow>
     (\<forall>k e. co_nodes s k = Some e \<longrightarrow> identityPubkey (co_reg e) = k \<and> reg_signed p (co_reg e)) \<and>
     (\<forall>k b. co_bids s k = Some b \<longrightarrow> (bid_identityPubkey b, bid_backend b) = k \<and> bid_signed p b)"

lemma coord_register_Inr:
  "coord_register p now reg s = Inr t \<longleftrightarrow>
     reg_signed p reg \<and> t = s\<lparr>co_nodes := (co_nodes s)(identityPubkey reg \<mapsto> \<lparr>co_reg = reg, co_last_seen = now\<rparr>)\<rparr>"
  by (auto simp: coord_register_def reg_signed_def)

lemma post_bid_Inr:
  "post_bid p unix_now b s = Inr t \<longleftrightarrow> bid_signed p b \<and> unix_now < bid_validUntil b \<and>
     t = s\<lparr>co_bids := (co_bids s)((bid_identityPubkey b, bid_backend b) \<mapsto> b)\<rparr>"
  by (auto simp: post_bid_def bid_signed_def)

lemma coord_inv_step: "coord_inv p s \<Longrightarrow> coord_step p s t \<Longrightarrow> coord_inv p t"
proof (erule coord_stepE)
  assume inv: "coord_inv p s"
  show "coord_inv p t" if "coord_register p now reg s = Inr t" for now reg
    using that inv by (auto simp: coord_register_Inr coord_inv_def split: if_splits)
  show "coord_inv p t" if "coord_heartbeat p now hb s = Inr t" for now hb
    using that inv by (auto simp: coord_heartbeat_def coord_inv_def split: option.splits if_splits)
  show "coord_inv p t" if "post_bid p unix_now b s = Inr t" for unix_now b
    using that inv by (auto simp: post_bid_Inr coord_inv_def split: if_splits)
  show "coord_inv p t" if "t = coord_gc now unix_now s" for now unix_now
    using that inv by (auto simp: coord_gc_def coord_inv_def split: option.splits if_splits)
qed

lemma coord_inv_init: "coord_inv p coord_init"
  by (simp add: coord_inv_def coord_init_def)

interpretation coord: inv_system "coord_step p" "\<lambda>s. s = coord_init" "coord_inv p" for p
  by unfold_locales (auto intro: coord_inv_init coord_inv_step)

lemma heartbeat_replays:
  assumes "coord_heartbeat p now hb s = Inr t" "co_nodes s' (hb_identityPubkey hb) = Some e"
  shows "coord_heartbeat p later hb s' = Inr (s'\<lparr>co_nodes := (co_nodes s')(hb_identityPubkey hb \<mapsto> e\<lparr>co_last_seen := later\<rparr>)\<rparr>)"
  using assms by (auto simp: coord_heartbeat_def)

lemma gc_keeps:
  "co_nodes (coord_gc now u s) k = (case co_nodes s k of None \<Rightarrow> None
     | Some e \<Rightarrow> if now - co_last_seen e < HEARTBEAT_TIMEOUT then Some e else None)"
  by (simp add: coord_gc_def)

subsection \<open>The node's own messages\<close>

text \<open>\<open>hex\<close> decodes what it encodes, and what a seed signs verifies under its public key.\<close>

definition seed_key :: "id_prims \<Rightarrow> byte list \<Rightarrow> string \<Rightarrow> bool" where
  "seed_key p seed pubkey_hex \<longleftrightarrow>
     (\<forall>bs. ip_hex_decode p (ip_hex_encode p bs) = Some bs) \<and>
     (\<exists>pub key. ip_hex_decode p pubkey_hex = Some pub \<and> length pub = 33 \<and> ip_key p pub = Some key \<and>
        (\<forall>h. length (ip_sign p seed h) = 64 \<and> (\<exists>sg. ip_sig p (ip_sign p seed h) = Some sg \<and> ip_verify p key h sg)))"

lemma own_signature:
  assumes "seed_key p seed pk"
  shows "\<exists>pub. verify_signed p pk (ip_hex_encode p (identity_sign p seed msg)) msg = Inr pub"
proof -
  obtain pub key where k: "ip_hex_decode p pk = Some pub" "length pub = 33" "ip_key p pub = Some key"
    "\<And>h. length (ip_sign p seed h) = 64" "\<And>h. \<exists>sg. ip_sig p (ip_sign p seed h) = Some sg \<and> ip_verify p key h sg"
    and hex: "\<And>bs. ip_hex_decode p (ip_hex_encode p bs) = Some bs"
    using assms by (auto simp: seed_key_def)
  from k(5) [of "ip_sha256 p msg"] obtain sg where "ip_sig p (identity_sign p seed msg) = Some sg" "ip_verify p key (ip_sha256 p msg) sg"
    by (auto simp: identity_sign_def)
  with k hex show ?thesis by (simp add: verify_signed_def verify_identity_signature_def identity_sign_def)
qed

text \<open>The signature is not part of what is signed.\<close>

lemma register_bytes_signature [simp]: "canonical_register_bytes p (r\<lparr>nr_signature := x\<rparr>) = canonical_register_bytes p r"
  by (simp add: canonical_register_bytes_def)

lemma signed_registration_signed:
  assumes "seed_key p seed (identityPubkey cfg)"
  shows "reg_signed p (signed_registration p seed nonce cfg)"
  using own_signature [OF assms] by (simp add: reg_signed_def signed_registration_def Let_def)

lemma signed_heartbeat_signed:
  assumes "seed_key p seed pk"
  shows "\<exists>pub. verify_signed p pk (hb_signature (signed_heartbeat p seed nonce pk))
     (canonical_heartbeat_bytes p (signed_heartbeat p seed nonce pk)) = Inr pub"
  using own_signature [OF assms] by (simp add: signed_heartbeat_def Let_def canonical_heartbeat_bytes_def)

lemma signed_bid_signed:
  assumes "seed_key p seed pk" "signed_bid p seed nonce now pk b prices cap secs = Some bd"
  shows "bid_signed p bd \<and> bid_identityPubkey bd = pk \<and> bid_backend bd = b \<and> bid_validUntil bd = min (2 ^ 64 - 1) (now + secs)"
  using own_signature [OF assms(1)] assms(2)
  by (auto simp: bid_signed_def signed_bid_def Let_def canonical_bid_bytes_def split: option.splits)

text \<open>Canonical bytes determine the message.\<close>

lemma jint_inject [simp]: "jint a = jint b \<longleftrightarrow> a = b"
  by (simp add: jint_def)

lemma backend_json_inject [simp]: "backend_json a = backend_json b \<longleftrightarrow> a = b"
  by (simp add: backend_json_def)

lemma price_json_inject [simp]: "price_json a = price_json b \<longleftrightarrow> a = b"
  by (auto simp: price_json_def)

lemma map_inject: "(\<And>a b. f a = f b \<longleftrightarrow> a = b) \<Longrightarrow> map f xs = map f ys \<longleftrightarrow> xs = ys"
  by (simp add: inj_map_eq_map inj_def)

lemma backends_inject [simp]: "map backend_json a = map backend_json b \<longleftrightarrow> a = b"
  by (rule map_inject) simp

lemma pricing_inject [simp]: "map price_json a = map price_json b \<longleftrightarrow> a = b"
  by (rule map_inject) simp

subsection \<open>Properties\<close>


text \<open>C19. Only the owner of a key is listed under it: in every reachable state a registration or a
  bid is stored under the identity (and backend) it names and carries a valid signature of that
  identity over its own canonical bytes.\<close>

theorem stored_messages_are_signed:
  assumes "rtranclp (coord_step p) coord_init s"
  shows "(co_nodes s k = Some e \<longrightarrow> identityPubkey (co_reg e) = k \<and> reg_signed p (co_reg e)) \<and>
    (co_bids s kb = Some b \<longrightarrow> (bid_identityPubkey b, bid_backend b) = kb \<and> bid_signed p b)"
  using coord.reachable_inv [OF refl assms] unfolding coord_inv_def by blast

text \<open>C21. What is published can be replayed: a registration that \<open>GET /nodes\<close> ever returned is
  accepted again at any later time from anybody, in place of a newer one, and keeps the node
  listed for another heartbeat timeout; the nonce is never compared.\<close>

theorem published_registration_replays:
  assumes "rtranclp (coord_step p) coord_init s" and "reg \<in> set (list_nodes order s)"
  shows "\<exists>t. coord_register p now reg s' = Inr t \<and>
    co_nodes (coord_gc (now + HEARTBEAT_TIMEOUT - 1) u t) (identityPubkey reg) = Some \<lparr>co_reg = reg, co_last_seen = now\<rparr>"
proof -
  obtain k e where "co_nodes s k = Some e" "reg = co_reg e" using assms(2) by (auto simp: list_nodes_set)
  then have "reg_signed p reg" using coord.reachable_inv [OF refl assms(1)] by (auto simp: coord_inv_def)
  then show ?thesis by (simp add: coord_register_Inr gc_keeps)
qed

text \<open>A node that follows its loop stays listed: the registration it signs is accepted, every
  heartbeat it signs within the timeout renews it, and so does the bid it signs for a priced
  backend, which is stored as the offer that counts for that backend until it expires.\<close>

theorem node_stays_listed:
  assumes "seed_key p seed (identityPubkey cfg)" and "b - a < HEARTBEAT_TIMEOUT" and "c - b < HEARTBEAT_TIMEOUT"
    and "signed_bid p seed n3 unow (identityPubkey cfg) backend (pricing cfg) cap secs = Some bd" and "unow < bid_validUntil bd"
  shows "\<exists>s1 s2 s3. coord_register p a (signed_registration p seed n1 cfg) s = Inr s1 \<and>
    coord_heartbeat p b (signed_heartbeat p seed n2 (identityPubkey cfg)) (coord_gc b u1 s1) = Inr s2 \<and>
    post_bid p unow bd s2 = Inr s3 \<and>
    co_nodes (coord_gc c u2 s3) (identityPubkey cfg) = Some \<lparr>co_reg = signed_registration p seed n1 cfg, co_last_seen = b\<rparr> \<and>
    co_bids s3 (identityPubkey cfg, backend) = Some bd"
proof -
  let ?r = "signed_registration p seed n1 cfg" and ?id = "identityPubkey cfg"
  have id: "identityPubkey ?r = ?id" by (simp add: signed_registration_def Let_def)
  let ?s1 = "s\<lparr>co_nodes := (co_nodes s)(?id \<mapsto> \<lparr>co_reg = ?r, co_last_seen = a\<rparr>)\<rparr>"
  have r: "coord_register p a ?r s = Inr ?s1"
    using signed_registration_signed [OF assms(1)] id by (simp add: coord_register_Inr)
  have live: "co_nodes (coord_gc b u1 ?s1) ?id = Some \<lparr>co_reg = ?r, co_last_seen = a\<rparr>"
    using assms(2) by (simp add: gc_keeps)
  have hid: "hb_identityPubkey (signed_heartbeat p seed n2 ?id) = ?id" by (simp add: signed_heartbeat_def Let_def)
  let ?s2 = "(coord_gc b u1 ?s1)\<lparr>co_nodes := (co_nodes (coord_gc b u1 ?s1))(?id \<mapsto> \<lparr>co_reg = ?r, co_last_seen = b\<rparr>)\<rparr>"
  have h: "coord_heartbeat p b (signed_heartbeat p seed n2 ?id) (coord_gc b u1 ?s1) = Inr ?s2"
    using signed_heartbeat_signed [OF assms(1)] live hid by (auto simp: coord_heartbeat_def)
  have bd: "bid_signed p bd" "bid_identityPubkey bd = ?id" "bid_backend bd = backend"
    using signed_bid_signed [OF assms(1,4)] by auto
  let ?s3 = "?s2\<lparr>co_bids := (co_bids ?s2)((?id, backend) \<mapsto> bd)\<rparr>"
  have pb: "post_bid p unow bd ?s2 = Inr ?s3"
    using bd assms(5) by (simp add: post_bid_Inr)
  have "co_nodes (coord_gc c u2 ?s3) ?id = Some \<lparr>co_reg = ?r, co_last_seen = b\<rparr>"
    using assms(3) by (simp add: gc_keeps)
  with r h pb show ?thesis by (intro exI conjI) (assumption | simp)+
qed

text \<open>A signature fits one message: if the JSON writer maps distinct values to distinct bytes,
  the canonical bytes of a registration, a heartbeat and a bid are never the same, and two
  registrations (or bids) with the same bytes differ in their signature field at most.\<close>

theorem canonical_messages_distinct:
  assumes "inj (ip_to_vec p)"
  shows "canonical_register_bytes p r \<noteq> canonical_heartbeat_bytes p h \<and> canonical_register_bytes p r \<noteq> canonical_bid_bytes p b \<and>
    canonical_heartbeat_bytes p h \<noteq> canonical_bid_bytes p b \<and>
    (canonical_register_bytes p r = canonical_register_bytes p r' \<longleftrightarrow> r\<lparr>nr_signature := []\<rparr> = r'\<lparr>nr_signature := []\<rparr>) \<and>
    (canonical_bid_bytes p b = canonical_bid_bytes p b' \<longleftrightarrow> b\<lparr>bid_signature := []\<rparr> = b'\<lparr>bid_signature := []\<rparr>)"
  using assms
  by (cases r; cases r'; cases b; cases b')
    (auto simp: canonical_register_bytes_def canonical_heartbeat_bytes_def canonical_bid_bytes_def inj_eq)

subsection \<open>Witnesses\<close>

text \<open>Toy primitives: a signature is the key followed by the message, cut to 64 bytes.\<close>

definition demo_mark :: "byte list \<Rightarrow> byte list \<Rightarrow> byte list" where
  "demo_mark k h = take 64 (k @ h @ replicate 64 0)"

definition demo_ip :: id_prims where
  "demo_ip = \<lparr>ip_hex_decode = (\<lambda>s. Some (utf8 s)), ip_hex_encode = utf8_decode, ip_sha256 = (\<lambda>m. m), ip_key = Some, ip_sig = Some,
     ip_verify = (\<lambda>k h sg. sg = demo_mark k h), ip_sign = demo_mark, ip_to_vec = (\<lambda>j. utf8 (json_stringify demo_prims j))\<rparr>"

definition demo_seed :: "byte list" where
  "demo_seed = replicate 33 7"

definition demo_cfg_reg :: "string \<Rightarrow> nat \<Rightarrow> node_registration" where
  "demo_cfg_reg k price = \<lparr>identityPubkey = k, publicKey = ''pk'', url = ''http://n'', backends = [MockTee], maxTokens = 10,
     pricing = [\<lparr>bp_backend = MockTee, bp_pricePer1k = nat_str price\<rparr>], nr_nonce = [], nr_signature = []\<rparr>"

lemma demo_seed_key: "seed_key demo_ip demo_seed (utf8_decode demo_seed)"
proof -
  have "length (demo_mark k h) = 64" for k h by (simp add: demo_mark_def min_def)
  then show ?thesis by (simp add: seed_key_def demo_ip_def demo_seed_def utf8_of_decode)
qed

lemma demo_to_vec_inj: "inj (ip_to_vec demo_ip)"
proof (rule injI)
  fix a b assume "ip_to_vec demo_ip a = ip_to_vec demo_ip b"
  then have "length (ip_to_vec demo_ip a) = length (ip_to_vec demo_ip b)" by simp
  then show "a = b" by (simp add: demo_ip_def utf8_def demo_prims_def)
qed

text \<open>Two nodes; the one listed at 9 asks 5 in its live bid, the other 7.\<close>

definition demo_coord :: coord_state where
  "demo_coord = \<lparr>co_nodes = [''a'' \<mapsto> \<lparr>co_reg = demo_cfg_reg ''a'' 9, co_last_seen = 0\<rparr>,
       ''b'' \<mapsto> \<lparr>co_reg = (demo_cfg_reg ''b'' 7)\<lparr>url := ''http://b''\<rparr>, co_last_seen = 0\<rparr>],
     co_bids = [(''a'', MockTee) \<mapsto> \<lparr>bid_identityPubkey = ''a'', bid_backend = MockTee, bid_pricePer1k = nat_str 5, bid_maxTokens = 8,
       bid_validUntil = 100, bid_nonce = [], bid_signature = []\<rparr>]\<rparr>"


definition demo_registered :: coord_state where
  "demo_registered = coord_init\<lparr>co_nodes := [utf8_decode demo_seed \<mapsto>
     \<lparr>co_reg = signed_registration demo_ip demo_seed ''n1'' (demo_cfg_reg (utf8_decode demo_seed) 9), co_last_seen = 3\<rparr>]\<rparr>"

lemma demo_registered_run: "rtranclp (coord_step demo_ip) coord_init demo_registered"
proof -
  have "reg_signed demo_ip (signed_registration demo_ip demo_seed ''n1'' (demo_cfg_reg (utf8_decode demo_seed) 9))"
    using signed_registration_signed [of demo_ip demo_seed "demo_cfg_reg (utf8_decode demo_seed) 9"] demo_seed_key
    by (simp add: demo_cfg_reg_def)
  then have "coord_register demo_ip 3 (signed_registration demo_ip demo_seed ''n1'' (demo_cfg_reg (utf8_decode demo_seed) 9)) coord_init = Inr demo_registered"
    by (simp add: coord_register_Inr demo_registered_def coord_init_def signed_registration_def Let_def demo_cfg_reg_def)
  then show ?thesis by (blast intro: co_step_register)
qed

theorem stored_messages_are_signed_witness:
  "\<exists>e. co_nodes demo_registered (utf8_decode demo_seed) = Some e \<and> reg_signed demo_ip (co_reg e)"
proof -
  obtain e where e: "co_nodes demo_registered (utf8_decode demo_seed) = Some e" by (simp add: demo_registered_def)
  with stored_messages_are_signed [OF demo_registered_run] show ?thesis by blast
qed

theorem published_registration_replays_witness:
  "\<exists>t. coord_register demo_ip 999 (signed_registration demo_ip demo_seed ''n1'' (demo_cfg_reg (utf8_decode demo_seed) 9)) coord_init = Inr t"
proof -
  have "signed_registration demo_ip demo_seed ''n1'' (demo_cfg_reg (utf8_decode demo_seed) 9) \<in> set (list_nodes [utf8_decode demo_seed] demo_registered)"
    by (auto simp: list_nodes_set demo_registered_def)
  from published_registration_replays [OF demo_registered_run this] show ?thesis by blast
qed

theorem node_stays_listed_witness:
  "\<exists>bd s1 s2 s3. signed_bid demo_ip demo_seed ''n3'' 10 (utf8_decode demo_seed) MockTee (pricing (demo_cfg_reg (utf8_decode demo_seed) 9)) 8 180 = Some bd \<and>
    coord_register demo_ip 0 (signed_registration demo_ip demo_seed ''n1'' (demo_cfg_reg (utf8_decode demo_seed) 9)) coord_init = Inr s1 \<and>
    coord_heartbeat demo_ip 10000 (signed_heartbeat demo_ip demo_seed ''n2'' (utf8_decode demo_seed)) (coord_gc 10000 10 s1) = Inr s2 \<and>
    post_bid demo_ip 10 bd s2 = Inr s3 \<and> co_bids s3 (utf8_decode demo_seed, MockTee) = Some bd"
proof -
  let ?cfg = "demo_cfg_reg (utf8_decode demo_seed) 9"
  have id: "identityPubkey ?cfg = utf8_decode demo_seed" by (simp add: demo_cfg_reg_def)
  obtain bd where bd: "signed_bid demo_ip demo_seed ''n3'' 10 (identityPubkey ?cfg) MockTee (pricing ?cfg) 8 180 = Some bd"
    by (simp add: signed_bid_def demo_cfg_reg_def Let_def)
  have v: "10 < bid_validUntil bd" using bd by (auto simp: signed_bid_def demo_cfg_reg_def Let_def)
  have t: "(10000::int) - 0 < HEARTBEAT_TIMEOUT" "(20000::int) - 10000 < HEARTBEAT_TIMEOUT" by (simp_all add: HEARTBEAT_TIMEOUT_def)
  from node_stays_listed [where s = coord_init and ?u1.0 = 10 and ?u2.0 = 20 and ?n1.0 = "''n1''" and ?n2.0 = "''n2''", OF _ t bd v] demo_seed_key bd
  show ?thesis unfolding id by blast
qed

theorem canonical_messages_distinct_witness:
  "canonical_register_bytes demo_ip (demo_cfg_reg ''a'' 9) \<noteq> canonical_register_bytes demo_ip (demo_cfg_reg ''a'' 7)"
proof -
  have "nat_str 9 \<noteq> nat_str 7" using nat_str_inject by fastforce
  then have "(demo_cfg_reg ''a'' 9)\<lparr>nr_signature := []\<rparr> \<noteq> (demo_cfg_reg ''a'' 7)\<lparr>nr_signature := []\<rparr>" by (simp add: demo_cfg_reg_def)
  with canonical_messages_distinct [OF demo_to_vec_inj] show ?thesis by blast
qed

end
