(* ===== verification/NodeAgent.thy ===== *)
theory NodeAgent
  imports AgentLoop "HOL-Library.List_Lexorder" "HOL-Library.Char_ord"
begin

section \<open>The node's agent (crates/agent, crates/execution)\<close>

text \<open>
  The other end of the agent loop: \<open>AgentLoop::step\<close> drives a chat provider over the messages of
  a session, runs the tools the node owns and hands a single client tool to the caller; the
  runtime of \<open>crates/execution\<close> keeps the sessions. A message is the JSON the code builds, its
  keys in the order of \<open>serde_json\<close>'s sorted map. The provider, the clock, the HTTP client and
  the URL parser are parameters over a world state. The loop has no bound on its turns, so it
  runs on fuel: one unit per turn, \<open>None\<close> when it is used up. Holding the session's mutex over
  the whole step makes a step atomic for its session.

  The facts: the transcript discipline the API requires (every \<open>tool_use\<close> of an assistant
  message is answered, in order, by the next user message and by nothing else) is kept by any
  conversation with the client's loop, and is lost for good by one refused mixture of calls.
\<close>

subsection \<open>Tools (tools.rs)\<close>

record tool_def =
  td_name :: string
  td_description :: string
  td_input_schema :: json

definition to_api_value :: "tool_def \<Rightarrow> json" where
  "to_api_value d = JObj [(''description'', JStr (td_description d)), (''input_schema'', td_input_schema d), (''name'', JStr (td_name d))]"

datatype 'w tool = NodeTool tool_def "json \<Rightarrow> 'w \<Rightarrow> (string + string) \<times> 'w" | ClientTool tool_def

fun tool_def_of :: "'w tool \<Rightarrow> tool_def" where
  "tool_def_of (NodeTool d ex) = d"
| "tool_def_of (ClientTool d) = d"

definition registry_new :: "'w tool list \<Rightarrow> 'w tool list" where
  "registry_new ts = sort_key (\<lambda>t. td_name (tool_def_of t)) ts"

definition registry_find :: "'w tool list \<Rightarrow> string \<Rightarrow> 'w tool option" where
  "registry_find ts name = find (\<lambda>t. td_name (tool_def_of t) = name) ts"

definition api_definitions :: "'w tool list \<Rightarrow> json list" where
  "api_definitions ts = map (to_api_value \<circ> tool_def_of) ts"

text \<open>\<open>web_fetch\<close>: \<open>parse\<close> is the URL parser (scheme and host), \<open>get\<close> the HTTP client: a failure to
  send, or the status, the content type and the body (or a failure to read it).\<close>

definition is_loopback_host :: "string \<Rightarrow> bool" where
  "is_loopback_host host \<longleftrightarrow> host \<in> {''localhost'', ''127.0.0.1'', ''::1'', ''0.0.0.0''}"

definition MAX_BYTES :: nat where "MAX_BYTES = 100000"

definition fetch_text :: "(byte list \<Rightarrow> string) \<Rightarrow> nat \<Rightarrow> string option \<Rightarrow> byte list \<Rightarrow> string" where
  "fetch_text lossy status content_type bytes =
     ''HTTP '' @ nat_str status @ '' ('' @ (case content_type of None \<Rightarrow> ''unknown'' | Some c \<Rightarrow> c) @ '')'' @
     [CHR 0x0A, CHR 0x0A] @ lossy (take MAX_BYTES bytes) @
     (if MAX_BYTES < length bytes
      then [CHR 0x0A, CHR 0x0A] @ ''[truncated at '' @ nat_str MAX_BYTES @ '' bytes of '' @ nat_str (length bytes) @ '']''
      else [])"

definition web_fetch ::
  "(string \<Rightarrow> string + (string \<times> string option)) \<Rightarrow>
   (string \<Rightarrow> 'w \<Rightarrow> (string + (nat \<times> string option \<times> (string + byte list))) \<times> 'w) \<Rightarrow>
   (byte list \<Rightarrow> string) \<Rightarrow> json \<Rightarrow> 'w \<Rightarrow> (string + string) \<times> 'w" where
  "web_fetch parse get lossy input w =
     (case jget input ''url'' of
        Some (JStr url_str) \<Rightarrow>
          (case parse url_str of
             Inl e \<Rightarrow> (Inl (''invalid URL: '' @ e), w)
           | Inr (scheme, host) \<Rightarrow>
               if scheme \<notin> {''http'', ''https''}
               then (Inl (''scheme `'' @ scheme @ ''` not allowed; use http or https''), w)
               else (case host of
                  None \<Rightarrow> (Inl ''URL has no host'', w)
                | Some h \<Rightarrow>
                    if is_loopback_host h then (Inl ''loopback hosts not allowed'', w)
                    else (case get url_str w of
                       (Inl e, w) \<Rightarrow> (Inl (''request failed: '' @ e), w)
                     | (Inr (status, ctype, Inl e), w) \<Rightarrow> (Inl (''read body: '' @ e), w)
                     | (Inr (status, ctype, Inr bytes), w) \<Rightarrow> (Inr (fetch_text lossy status ctype bytes), w))))
      | _ \<Rightarrow> (Inl ''web_fetch: `url` must be a string'', w))"

subsection \<open>Messages (lib.rs)\<close>

record chat_request =
  cq_system :: string
  cq_messages :: "json list"
  cq_tools :: "json list"
  cq_max_tokens :: int

record chat_result =
  cs_content :: "json list"
  cs_stop_reason :: string
  cs_usage :: usage

type_synonym 'w provider = "chat_request \<Rightarrow> 'w \<Rightarrow> (string + chat_result) \<times> 'w"

record 'w agent =
  ag_provider :: "'w provider"
  ag_max_tokens :: int
  ag_system_prompt :: string
  ag_registry :: "'w tool list"

definition DEFAULT_MAX_TOKENS :: int where "DEFAULT_MAX_TOKENS = 16000"

definition agent_new :: "'w provider \<Rightarrow> string \<Rightarrow> 'w tool list \<Rightarrow> 'w agent" where
  "agent_new provider system_prompt tools =
     \<lparr>ag_provider = provider, ag_max_tokens = DEFAULT_MAX_TOKENS, ag_system_prompt = system_prompt, ag_registry = registry_new tools\<rparr>"

definition tool_result_block :: "string \<Rightarrow> string \<Rightarrow> bool \<Rightarrow> json" where
  "tool_result_block tool_use_id content is_error =
     JObj ([(''content'', JStr content)] @ (if is_error then [(''is_error'', JBool True)] else []) @
       [(''tool_use_id'', JStr tool_use_id), (''type'', JStr ''tool_result'')])"

definition chat_message :: "string \<Rightarrow> json list \<Rightarrow> json" where
  "chat_message role content = JObj [(''content'', JArr content), (''role'', JStr role)]"

definition input_to_user_message :: "agent_step \<Rightarrow> json" where
  "input_to_user_message input =
     (case input of
        Prompt t \<Rightarrow> chat_message ''user'' [JObj [(''text'', JStr t), (''type'', JStr ''text'')]]
      | ToolResult i c e \<Rightarrow> chat_message ''user'' [tool_result_block i c e])"

definition str_at :: "json \<Rightarrow> string \<Rightarrow> string option" where
  "str_at j k = (case jget j k of Some (JStr s) \<Rightarrow> Some s | _ \<Rightarrow> None)"

definition collect_tool_uses :: "json list \<Rightarrow> (string \<times> string \<times> json) list" where
  "collect_tool_uses content =
     List.map_filter (\<lambda>b.
       case (str_at b ''id'', str_at b ''name'') of
         (Some i, Some n) \<Rightarrow> Some (i, n, case jget b ''input'' of None \<Rightarrow> JNull | Some v \<Rightarrow> v)
       | _ \<Rightarrow> None)
       (filter (\<lambda>b. str_at b ''type'' = Some ''tool_use'') content)"

fun join_lines :: "string list \<Rightarrow> string" where
  "join_lines [] = []"
| "join_lines [x] = x"
| "join_lines (x # y # xs) = x @ CHR 0x0A # join_lines (y # xs)"

definition extract_text :: "json list \<Rightarrow> string" where
  "extract_text content =
     join_lines (List.map_filter (\<lambda>b. if str_at b ''type'' = Some ''text'' then str_at b ''text'' else None) content)"

text \<open>\<open>Usage::add\<close>, in \<open>u32\<close>.\<close>

definition sat_u32 :: "int \<Rightarrow> int \<Rightarrow> int" where
  "sat_u32 a b = min (2 ^ 32 - 1) (a + b)"

definition sum_opt_u32 :: "int option \<Rightarrow> int option \<Rightarrow> int option" where
  "sum_opt_u32 a b = (case (a, b) of (None, None) \<Rightarrow> None | (Some x, None) \<Rightarrow> Some x | (None, Some x) \<Rightarrow> Some x
     | (Some x, Some y) \<Rightarrow> Some (sat_u32 x y))"

definition usage_zero :: usage where
  "usage_zero = \<lparr>inputTokens = 0, outputTokens = 0, cacheCreationInputTokens = None, cacheReadInputTokens = None\<rparr>"

definition usage_plus :: "usage \<Rightarrow> usage \<Rightarrow> usage" where
  "usage_plus a b = \<lparr>inputTokens = sat_u32 (inputTokens a) (inputTokens b), outputTokens = sat_u32 (outputTokens a) (outputTokens b),
     cacheCreationInputTokens = sum_opt_u32 (cacheCreationInputTokens a) (cacheCreationInputTokens b),
     cacheReadInputTokens = sum_opt_u32 (cacheReadInputTokens a) (cacheReadInputTokens b)\<rparr>"

subsection \<open>One step\<close>

record 'w turn_state =
  ts_messages :: "json list"
  ts_total :: usage
  ts_world :: 'w

text \<open>The calls of one assistant message that the node executes, in order.\<close>

definition run_node_tool :: "'w tool list \<Rightarrow> string \<Rightarrow> json \<Rightarrow> 'w \<Rightarrow> (string \<times> bool) \<times> 'w" where
  "run_node_tool reg name input w =
     (case registry_find reg name of
        Some (NodeTool d ex) \<Rightarrow>
          (case ex input w of (Inr s, w1) \<Rightarrow> ((s, False), w1) | (Inl e, w1) \<Rightarrow> ((''tool error: '' @ e, True), w1))
      | _ \<Rightarrow> ((''unknown tool `'' @ name @ ''`'', True), w))"

fun run_node_tools :: "'w tool list \<Rightarrow> (string \<times> string \<times> json) list \<Rightarrow> 'w \<Rightarrow> json list \<times> 'w" where
  "run_node_tools reg [] w = ([], w)"
| "run_node_tools reg ((i, name, input) # uses) w =
     (case run_node_tool reg name input w of
        ((content, is_error), w1) \<Rightarrow>
          (case run_node_tools reg uses w1 of
             (blocks, w2) \<Rightarrow> (tool_result_block i content is_error # blocks, w2)))"

definition is_client :: "'w tool list \<Rightarrow> string \<Rightarrow> bool" where
  "is_client reg name \<longleftrightarrow> (case registry_find reg name of Some (ClientTool d) \<Rightarrow> True | _ \<Rightarrow> False)"

text \<open>The arm for \<open>tool_use\<close>, on the state after the response: \<open>None\<close> continues the loop.\<close>

definition dispatch_tools ::
  "'w tool list \<Rightarrow> (string \<times> string \<times> json) list \<Rightarrow> 'w turn_state \<Rightarrow> (string + agent_response) option \<times> 'w turn_state" where
  "dispatch_tools reg tool_uses st =
     (let client_count = length (filter (\<lambda>(i, n, j). is_client reg n) tool_uses);
          has_node = list_ex (\<lambda>(i, n, j). \<not> is_client reg n) tool_uses in
      if tool_uses = [] then (Some (Inl ''stop_reason=tool_use but no tool_use blocks in content''), st)
      else if 0 < client_count \<and> (has_node \<or> 1 < client_count) then
        (Some (Inl (''model returned mixed node/client or multiple client tool calls in one turn; '' @
           ''not supported by the current wire protocol'')), st)
      else if client_count = 1 then
        (case find (\<lambda>(i, n, j). is_client reg n) tool_uses of
           Some (i, n, j) \<Rightarrow> (Some (Inr (ToolCall i n j (ts_total st))), st)
         | None \<Rightarrow> (Some (Inl ''client tool present''), st))
      else
        (case run_node_tools reg tool_uses (ts_world st) of
           (blocks, w) \<Rightarrow> (None, st\<lparr>ts_messages := ts_messages st @ [chat_message ''user'' blocks], ts_world := w\<rparr>)))"

text \<open>What follows a response.\<close>

definition after_response ::
  "'w agent \<Rightarrow> chat_result \<Rightarrow> 'w turn_state \<Rightarrow> (string + agent_response) option \<times> 'w turn_state" where
  "after_response ag resp st0 =
     (let st = st0\<lparr>ts_messages := ts_messages st0 @ [chat_message ''assistant'' (cs_content resp)],
                    ts_total := usage_plus (ts_total st0) (cs_usage resp)\<rparr> in
      if cs_stop_reason resp = ''end_turn'' then (Some (Inr (FinalAnswer (extract_text (cs_content resp)) (ts_total st))), st)
      else if cs_stop_reason resp = ''tool_use'' then dispatch_tools (ag_registry ag) (collect_tool_uses (cs_content resp)) st
      else if cs_stop_reason resp = ''pause_turn'' then (None, st)
      else (Some (Inl (''unexpected stop_reason: '' @ cs_stop_reason resp)), st))"

text \<open>One turn of the loop.\<close>

definition turn_request :: "'w agent \<Rightarrow> json list \<Rightarrow> chat_request" where
  "turn_request ag messages = \<lparr>cq_system = ag_system_prompt ag, cq_messages = messages,
     cq_tools = api_definitions (ag_registry ag), cq_max_tokens = ag_max_tokens ag\<rparr>"

definition agent_turn :: "'w agent \<Rightarrow> 'w turn_state \<Rightarrow> (string + agent_response) option \<times> 'w turn_state" where
  "agent_turn ag st =
     (case ag_provider ag (turn_request ag (ts_messages st)) (ts_world st) of
        (Inl e, w) \<Rightarrow> (Some (Inl e), st\<lparr>ts_world := w\<rparr>)
      | (Inr resp, w) \<Rightarrow> after_response ag resp (st\<lparr>ts_world := w\<rparr>))"

fun agent_turns :: "nat \<Rightarrow> 'w agent \<Rightarrow> 'w turn_state \<Rightarrow> (string + agent_response) option \<times> 'w turn_state" where
  "agent_turns 0 ag st = (None, st)"
| "agent_turns (Suc n) ag st =
     (case agent_turn ag st of (None, st') \<Rightarrow> agent_turns n ag st' | (Some r, st') \<Rightarrow> (Some r, st'))"

text \<open>\<open>AgentLoop::step\<close> on the messages of a session.\<close>

definition agent_step_fn ::
  "nat \<Rightarrow> 'w agent \<Rightarrow> json list \<Rightarrow> agent_step \<Rightarrow> 'w \<Rightarrow> (string + agent_response) option \<times> json list \<times> 'w" where
  "agent_step_fn n ag messages input w =
     (let (r, st) = agent_turns n ag \<lparr>ts_messages = messages @ [input_to_user_message input], ts_total = usage_zero, ts_world = w\<rparr>
      in (r, ts_messages st, ts_world st))"

subsection \<open>Sessions (crates/execution)\<close>

type_synonym sessions = "string \<Rightarrow> json list option"

definition agent_session :: "sessions \<Rightarrow> string \<Rightarrow> json list" where
  "agent_session ss sid = (case ss sid of None \<Rightarrow> [] | Some ms \<Rightarrow> ms)"

definition runtime_step ::
  "nat \<Rightarrow> 'w agent \<Rightarrow> string \<Rightarrow> agent_step \<Rightarrow> sessions \<times> 'w \<Rightarrow> (string + agent_response) option \<times> (sessions \<times> 'w)" where
  "runtime_step n ag sid input s =
     (let (r, ms, w) = agent_step_fn n ag (agent_session (fst s) sid) input (snd s)
      in (r, ((fst s)(sid \<mapsto> ms), w)))"

subsection \<open>The discipline of a transcript\<close>

text \<open>The ids an assistant message calls for and those a user message answers.\<close>

definition content_of :: "json \<Rightarrow> json list" where
  "content_of m = (case jget m ''content'' of Some (JArr bs) \<Rightarrow> bs | _ \<Rightarrow> [])"

definition called_ids :: "json \<Rightarrow> string list" where
  "called_ids m = (if str_at m ''role'' = Some ''assistant'' then map fst (collect_tool_uses (content_of m)) else [])"

definition answered_ids :: "json \<Rightarrow> string list" where
  "answered_ids m =
     (if str_at m ''role'' = Some ''user''
      then List.map_filter (\<lambda>b. str_at b ''tool_use_id'') (filter (\<lambda>b. str_at b ''type'' = Some ''tool_result'') (content_of m))
      else [])"

text \<open>The ids a transcript still owes an answer for; \<open>None\<close>: an answer was missed, or answers nothing.\<close>

definition owed_step :: "string list option \<Rightarrow> json \<Rightarrow> string list option" where
  "owed_step owed m = (case owed of None \<Rightarrow> None | Some ids \<Rightarrow> if answered_ids m = ids then Some (called_ids m) else None)"

definition owed_ids :: "json list \<Rightarrow> string list option" where
  "owed_ids ms = foldl owed_step (Some []) ms"

definition transcript_ok :: "json list \<Rightarrow> bool" where
  "transcript_ok ms \<longleftrightarrow> owed_ids ms = Some []"

text \<open>What the client may send next on a session: an answer to the one open call, else a prompt.\<close>

definition fits_session :: "json list \<Rightarrow> agent_step \<Rightarrow> bool" where
  "fits_session ms input \<longleftrightarrow>
     (case input of Prompt t \<Rightarrow> owed_ids ms = Some [] | ToolResult i c e \<Rightarrow> owed_ids ms = Some [i])"

text \<open>The API in front of the model: it refuses a transcript with unanswered calls.\<close>

definition strict_api :: "'w provider \<Rightarrow> 'w provider" where
  "strict_api P q w = (if transcript_ok (cq_messages q) then P q w else (Inl ''invalid_request_error'', w))"

definition strict :: "'w agent \<Rightarrow> 'w agent" where
  "strict ag = ag\<lparr>ag_provider := strict_api (ag_provider ag)\<rparr>"

text \<open>A provider calls tools only in answers that say so.\<close>

definition provider_ok :: "'w provider \<Rightarrow> bool" where
  "provider_ok P \<longleftrightarrow> (\<forall>q w r w'. P q w = (Inr r, w') \<longrightarrow> cs_stop_reason r \<noteq> ''tool_use'' \<longrightarrow> collect_tool_uses (cs_content r) = [])"

lemma owed_ids_snoc [simp]: "owed_ids (ms @ [m]) = owed_step (owed_ids ms) m"
  by (simp add: owed_ids_def)

lemma owed_step_None [simp]: "owed_step None m = None"
  by (simp add: owed_step_def)

lemma owed_lost: "owed_ids ms = None \<Longrightarrow> owed_ids (ms @ xs) = None"
  by (induction xs rule: rev_induct) (simp_all flip: append_assoc)

lemma message_facts [simp]:
  "content_of (chat_message r bs) = bs" "str_at (chat_message r bs) ''role'' = Some r"
  by (simp_all add: content_of_def chat_message_def str_at_def)

lemma called_ids_message [simp]:
  "called_ids (chat_message ''assistant'' bs) = map fst (collect_tool_uses bs)" "called_ids (chat_message ''user'' bs) = []"
  by (simp_all add: called_ids_def)

lemma answered_ids_assistant [simp]: "answered_ids (chat_message ''assistant'' bs) = []"
  by (simp add: answered_ids_def)

lemma block_facts [simp]:
  "str_at (tool_result_block i c e) ''type'' = Some ''tool_result''" "str_at (tool_result_block i c e) ''tool_use_id'' = Some i"
  by (cases e; simp add: tool_result_block_def str_at_def)+

lemma answered_ids_input [simp]:
  "answered_ids (input_to_user_message input) = (case input of Prompt t \<Rightarrow> [] | ToolResult i c e \<Rightarrow> [i])"
proof (cases input)
  case (Prompt t)
  have "str_at (JObj [(''text'', JStr t), (''type'', JStr ''text'')]) ''type'' \<noteq> Some ''tool_result''" by (simp add: str_at_def)
  then show ?thesis by (simp add: Prompt answered_ids_def input_to_user_message_def List.map_filter_def)
qed (simp add: answered_ids_def input_to_user_message_def List.map_filter_def)

lemma called_ids_input [simp]: "called_ids (input_to_user_message input) = []"
  by (cases input) (simp_all add: input_to_user_message_def)

lemma fits_session_owed: "fits_session ms input \<longleftrightarrow> owed_ids (ms @ [input_to_user_message input]) = Some []"
  by (cases input) (auto simp: fits_session_def owed_step_def split: option.split)

lemma answered_ids_blocks:
  "answered_ids (chat_message ''user'' (fst (run_node_tools reg uses w))) = map fst uses"
proof (induction reg uses w rule: run_node_tools.induct)
  case (1 reg w)
  show ?case by (simp add: answered_ids_def List.map_filter_def)
next
  case (2 reg i n j uses w)
  obtain c e v where t: "run_node_tool reg n j w = ((c, e), v)" by (metis surj_pair)
  show ?case using 2 [OF t [symmetric] refl] by (simp add: t answered_ids_def List.map_filter_def case_prod_beta)
qed

text \<open>One turn on a good transcript: the API's check does not fire, and what it leaves open.\<close>

lemma strict_sel [simp]:
  "ag_registry (strict ag) = ag_registry ag" "turn_request (strict ag) ms = turn_request ag ms"
  "ag_provider (strict ag) = strict_api (ag_provider ag)" "after_response (strict ag) = after_response ag"
  by (simp_all add: strict_def turn_request_def after_response_def fun_eq_iff Let_def)

lemma strict_turn:
  assumes "transcript_ok (ts_messages st)"
  shows "agent_turn (strict ag) st = agent_turn ag st"
proof -
  have "cq_messages (turn_request ag (ts_messages st)) = ts_messages st" by (simp add: turn_request_def)
  with assms show ?thesis by (simp add: agent_turn_def strict_api_def split: prod.split sum.split)
qed

definition open_after :: "(string + agent_response) option \<Rightarrow> json list \<Rightarrow> bool" where
  "open_after r ms \<longleftrightarrow>
     (case r of
        None \<Rightarrow> owed_ids ms = Some []
      | Some (Inl e) \<Rightarrow> owed_ids ms \<noteq> None
      | Some (Inr (FinalAnswer c u)) \<Rightarrow> owed_ids ms = Some []
      | Some (Inr (ToolCall i n j u)) \<Rightarrow> owed_ids ms = Some [i])"

lemma find_single:
  assumes "length (filter P xs) = 1" "\<not> list_ex (\<lambda>x. \<not> P x) xs"
  shows "\<exists>x. xs = [x] \<and> find P xs = Some x"
proof -
  have "filter P xs = xs" using assms(2) by (auto simp: list_ex_iff intro: filter_True)
  with assms(1) obtain x where "xs = [x]" by (auto simp: length_Suc_conv)
  with assms(2) show ?thesis by simp
qed

lemma client_pred: "(\<lambda>(i, n, j). \<not> is_client reg n) = (\<lambda>x. \<not> (case x of (i, n, j) \<Rightarrow> is_client reg n))"
  by (simp add: fun_eq_iff)

lemma dispatch_opens:
  assumes "owed_ids (ts_messages st) = Some (map fst uses)" "dispatch_tools reg uses st = (r, st')"
  shows "open_after r (ts_messages st')"
proof -
  let ?P = "\<lambda>(i, n, j). is_client reg n"
  let ?n = "length (filter ?P uses)" and ?mixed = "list_ex (\<lambda>x. \<not> ?P x) uses"
  consider "uses = []" | "uses \<noteq> []" "0 < ?n \<and> (?mixed \<or> 1 < ?n)" | "?n = 1" "\<not> ?mixed" | "uses \<noteq> []" "?n = 0" by linarith
  then show ?thesis
  proof cases
    case 1
    then show ?thesis using assms by (auto simp: dispatch_tools_def open_after_def Let_def)
  next
    case mixed: 2
    then have "r = Some (Inl (''model returned mixed node/client or multiple client tool calls in one turn; '' @
           ''not supported by the current wire protocol''))" "st' = st"
      using assms(2) unfolding dispatch_tools_def Let_def client_pred by (simp_all only: if_False if_True) auto
    with assms(1) show ?thesis by (simp add: open_after_def)
  next
    case 3
    then obtain i n j where "uses = [(i, n, j)]" "find ?P uses = Some (i, n, j)"
      using find_single [of ?P uses] by (metis prod_cases3)
    then show ?thesis using 3 assms by (auto simp: dispatch_tools_def open_after_def Let_def)
  next
    case 4
    obtain bs w where b: "run_node_tools reg uses (ts_world st) = (bs, w)" by (rule prod.exhaust)
    then have "answered_ids (chat_message ''user'' bs) = map fst uses"
      using answered_ids_blocks [of reg uses "ts_world st"] by simp
    then show ?thesis using 4 assms b by (auto simp: dispatch_tools_def open_after_def Let_def owed_step_def)
  qed
qed

lemma turn_opens:
  assumes "transcript_ok (ts_messages st)" "provider_ok (ag_provider ag)" "agent_turn ag st = (r, st')"
  shows "open_after r (ts_messages st')"
proof -
  obtain x w where q: "ag_provider ag (turn_request ag (ts_messages st)) (ts_world st) = (x, w)"
    by (rule prod.exhaust)
  show ?thesis
  proof (cases x)
    case (Inl e)
    then show ?thesis using assms q by (auto simp: agent_turn_def open_after_def transcript_ok_def)
  next
    case (Inr resp)
    let ?uses = "collect_tool_uses (cs_content resp)"
    let ?st = "st\<lparr>ts_world := w, ts_messages := ts_messages st @ [chat_message ''assistant'' (cs_content resp)],
      ts_total := usage_plus (ts_total st) (cs_usage resp)\<rparr>"
    have owed: "owed_ids (ts_messages ?st) = Some (map fst ?uses)"
      using assms(1) by (simp add: transcript_ok_def owed_step_def)
    have r: "after_response ag resp (st\<lparr>ts_world := w\<rparr>) = (r, st')" using assms(3) q Inr by (simp add: agent_turn_def)
    show ?thesis
    proof (cases "cs_stop_reason resp = ''tool_use''")
      case False
      then have "?uses = []" using assms(2) q Inr unfolding provider_ok_def by blast
      then show ?thesis using False r owed by (auto simp: after_response_def open_after_def Let_def split: if_splits)
    next
      case True
      then have "dispatch_tools (ag_registry ag) ?uses ?st = (r, st')" using r by (simp add: after_response_def Let_def)
      with owed show ?thesis by (rule dispatch_opens)
    qed
  qed
qed

text \<open>The same over a whole step, and over what the client sends next.\<close>

lemma turns_open:
  assumes "provider_ok (ag_provider ag)"
  shows "transcript_ok (ts_messages st) \<Longrightarrow> agent_turns n ag st = (r, st') \<Longrightarrow>
    agent_turns n (strict ag) st = (r, st') \<and> open_after r (ts_messages st')"
proof (induction n arbitrary: st)
  case 0
  then show ?case by (simp add: open_after_def transcript_ok_def)
next
  case (Suc n)
  obtain x st1 where t: "agent_turn ag st = (x, st1)" by (rule prod.exhaust)
  have o: "open_after x (ts_messages st1)" by (rule turn_opens [OF Suc.prems(1) assms t])
  show ?case
  proof (cases x)
    case None
    then have "transcript_ok (ts_messages st1)" using o by (simp add: open_after_def transcript_ok_def)
    from Suc.IH [OF this] Suc.prems t None show ?thesis by (simp add: strict_turn)
  next
    case (Some y)
    then show ?thesis using Suc.prems t o by (auto simp: strict_turn)
  qed
qed

lemma step_opens:
  assumes "provider_ok (ag_provider ag)" "fits_session ms input" "agent_step_fn n ag ms input w = (r, ms', w')"
  shows "agent_step_fn n (strict ag) ms input w = (r, ms', w') \<and> open_after r ms'"
proof -
  obtain x st where t: "agent_turns n ag \<lparr>ts_messages = ms @ [input_to_user_message input], ts_total = usage_zero, ts_world = w\<rparr> = (x, st)"
    by (rule prod.exhaust)
  have "transcript_ok (ms @ [input_to_user_message input])" using assms(2) by (simp only: fits_session_owed transcript_ok_def)
  then show ?thesis using turns_open [OF assms(1) _ t] assms(3) t by (auto simp: agent_step_fn_def)
qed

text \<open>A transcript that cannot be answered: the strict API refuses whatever comes next.\<close>

lemma strict_refuses:
  assumes "\<not> transcript_ok (ts_messages st)"
  shows "agent_turn (strict ag) st = (Some (Inl ''invalid_request_error''), st)"
  using assms by (simp add: agent_turn_def strict_api_def turn_request_def)

definition stuck :: "json list \<Rightarrow> bool" where
  "stuck ms \<longleftrightarrow> owed_ids ms = None \<or> (\<exists>ids. owed_ids ms = Some ids \<and> 2 \<le> length ids)"

lemma stuck_step:
  assumes "stuck ms" "0 < n"
  shows "agent_step_fn n (strict ag) ms input w = (Some (Inl ''invalid_request_error''), ms @ [input_to_user_message input], w) \<and>
    stuck (ms @ [input_to_user_message input])"
proof -
  have none: "owed_ids (ms @ [input_to_user_message input]) = None"
    using assms(1) by (cases input) (auto simp: stuck_def owed_step_def)
  obtain k where "n = Suc k" using assms(2) by (cases n) auto
  with none show ?thesis
    by (simp add: agent_step_fn_def strict_refuses transcript_ok_def stuck_def)
qed

subsection \<open>The client's loop against the node's agent\<close>

text \<open>The loop of the client over a node: \<open>send\<close> runs a step of the session (a step that uses up its
  fuel counts as a failed request), the client's tools work on the shared world.\<close>

definition node_env :: "nat \<Rightarrow> 'w agent \<Rightarrow> (string \<Rightarrow> (json \<Rightarrow> 'w \<Rightarrow> (string + (string \<times> bool)) \<times> 'w) option) \<Rightarrow> (sessions \<times> 'w) loop_env" where
  "node_env n ag tools =
     \<lparr>env_send = (\<lambda>q s. case runtime_step n ag (so_sessionId q) (so_step q) s of
          (None, s') \<Rightarrow> (Inl ''no answer'', s')
        | (Some (Inl e), s') \<Rightarrow> (Inl e, s')
        | (Some (Inr resp), s') \<Rightarrow> (Inr \<lparr>sr_response = resp, sr_receipt = None\<rparr>, s')),
      env_signAck = None,
      env_tools = (\<lambda>name. map_option (\<lambda>h j (ss, w). case h j w of (r, w') \<Rightarrow> (r, (ss, w'))) (tools name))\<rparr>"

definition loop_fits :: "loop_args \<Rightarrow> (sessions \<times> 'w) loop_state \<Rightarrow> bool" where
  "loop_fits a st \<longleftrightarrow> fits_session (agent_session (fst (lp_world st)) (la_sessionId a)) (lp_step st)"

lemma node_tool_keeps:
  assumes "run_tool (node_env n ag tools) name input s = (x, s')"
  shows "fst s' = fst s"
  using assms by (cases s) (auto simp: run_tool_def node_env_def split: option.splits prod.splits)

lemma call_tool_fits:
  assumes "owed_ids (agent_session (fst (lp_world st)) (la_sessionId a)) = Some [useId]"
    and "call_tool (node_env n ag tools) a useId name input st = (Looping, st')"
  shows "loop_fits a st'"
proof -
  obtain x s where t: "run_tool (node_env n ag tools) name input (lp_world st) = (x, s)" by (rule prod.exhaust)
  from node_tool_keeps [OF t] assms t show ?thesis
    by (cases x) (auto simp: call_tool_def Let_def loop_fits_def fits_session_def onEvent_def)
qed

lemma runtime_step_open:
  assumes "provider_ok (ag_provider ag)" "fits_session (agent_session (fst s) sid) input" "runtime_step n ag sid input s = (r, s')"
  shows "runtime_step n (strict ag) sid input s = (r, s') \<and> open_after r (agent_session (fst s') sid)"
proof -
  obtain x ms w where t: "agent_step_fn n ag (agent_session (fst s) sid) input (snd s) = (x, ms, w)" by (metis prod_cases3)
  from step_opens [OF assms(1,2) t] assms(3) t show ?thesis
    by (auto simp: runtime_step_def agent_session_def)
qed

lemma node_env_sel [simp]:
  "env_signAck (node_env n ag tools) = None" "run_tool (node_env n (strict ag) tools) = run_tool (node_env n ag tools)"
  by (simp_all add: node_env_def run_tool_def fun_eq_iff)

lemma call_tool_env:
  "call_tool (node_env n (strict ag) tools) a i name j st = call_tool (node_env n ag tools) a i name j st"
  by (simp add: call_tool_def)

lemma node_round:
  assumes "provider_ok (ag_provider ag)" "loop_fits a st" "loop_round (node_env n ag tools) a st = (out, st')"
  shows "loop_round (node_env n (strict ag) tools) a st = (out, st') \<and> (out = Looping \<longrightarrow> loop_fits a st')"
proof -
  let ?st = "onEvent (RequestStart (la_sessionId a) (lp_attempt st + 1)) (st\<lparr>lp_attempt := lp_attempt st + 1\<rparr>)"
  obtain r s where rt: "runtime_step n ag (la_sessionId a) (lp_step st) (lp_world st) = (r, s)" by (rule prod.exhaust)
  have fit: "fits_session (agent_session (fst (lp_world st)) (la_sessionId a)) (lp_step st)" using assms(2) by (simp add: loop_fits_def)
  note rs = runtime_step_open [OF assms(1) fit rt]
  have send: "env_send (node_env n ag' tools) (request_of a ?st) (lp_world ?st) =
      (case r of None \<Rightarrow> (Inl ''no answer'', s) | Some (Inl e) \<Rightarrow> (Inl e, s)
       | Some (Inr resp) \<Rightarrow> (Inr \<lparr>sr_response = resp, sr_receipt = None\<rparr>, s))" if "ag' = ag \<or> ag' = strict ag" for ag'
    using that rt rs by (auto simp: node_env_def request_of_def split: option.splits sum.splits)
  have same: "loop_round (node_env n (strict ag) tools) a st = loop_round (node_env n ag tools) a st"
    unfolding loop_round_def Let_def
    by (simp only: send simp_thms take_receipt_def node_env_sel call_tool_env cong: sum.case_cong prod.case_cong option.case_cong agent_response.case_cong)
  have "loop_fits a st'" if "out = Looping"
  proof -
    have "loop_round (node_env n ag tools) a st = (Looping, st')" using assms(3) that by simp
    then obtain i name j u where r: "r = Some (Inr (ToolCall i name j u))"
      and c: "call_tool (node_env n ag tools) a i name j (onEvent (Response (la_sessionId a) (ToolCall i name j u)) (?st\<lparr>lp_world := s\<rparr>)) = (Looping, st')"
      unfolding loop_round_def Let_def send [OF disjI1 [OF refl]]
      by (auto simp: take_receipt_def split: option.splits sum.splits agent_response.splits)
    from rs r have "owed_ids (agent_session (fst s) (la_sessionId a)) = Some [i]" by (simp add: open_after_def)
    with c show ?thesis by (intro call_tool_fits) (simp_all add: onEvent_def)
  qed
  with same assms(3) show ?thesis by simp
qed

lemma node_run:
  "provider_ok (ag_provider ag) \<Longrightarrow> loop_fits a st \<Longrightarrow>
   loop_run m (node_env n (strict ag) tools) a st = loop_run m (node_env n ag tools) a st"
proof (induction m arbitrary: st)
  case (Suc m)
  obtain out st' where rd: "loop_round (node_env n ag tools) a st = (out, st')" by (rule prod.exhaust)
  from node_round [OF Suc.prems rd] Suc rd show ?case by (cases out) auto
qed simp

subsection \<open>What is charged\<close>

text \<open>The agent with a log of the provider's answers.\<close>

fun lift_tool :: "'w tool \<Rightarrow> ('w \<times> 'l) tool" where
  "lift_tool (NodeTool d ex) = NodeTool d (\<lambda>j (w, l). case ex j w of (r, w') \<Rightarrow> (r, (w', l)))"
| "lift_tool (ClientTool d) = ClientTool d"

definition logged :: "'w agent \<Rightarrow> ('w \<times> chat_result list) agent" where
  "logged ag =
     \<lparr>ag_provider = (\<lambda>q (w, l). case ag_provider ag q w of (Inr r, w') \<Rightarrow> (Inr r, (w', l @ [r])) | (Inl e, w') \<Rightarrow> (Inl e, (w', l))),
      ag_max_tokens = ag_max_tokens ag, ag_system_prompt = ag_system_prompt ag, ag_registry = map lift_tool (ag_registry ag)\<rparr>"

lemma registry_find_in: "registry_find reg n = Some t \<Longrightarrow> t \<in> set reg"
  by (induction reg) (auto simp: registry_find_def split: if_splits)

lemma lifted_keeps: "NodeTool d ex \<in> set (map lift_tool reg) \<Longrightarrow> ex j w = (r, w') \<Longrightarrow> snd w' = snd w"
proof -
  assume "NodeTool d ex \<in> set (map lift_tool reg)" "ex j w = (r, w')"
  moreover then obtain t where "NodeTool d ex = lift_tool t" by auto
  ultimately show ?thesis by (cases t; cases w) (auto split: prod.splits)
qed

lemma lifted_tools_keep: "snd (snd (run_node_tools (map lift_tool reg) uses w)) = snd w"
proof (induction uses arbitrary: w)
  case (Cons u uses)
  obtain i n j where u: "u = (i, n, j)" by (rule prod_cases3)
  obtain c e v where t: "run_node_tool (map lift_tool reg) n j w = ((c, e), v)" by (metis surj_pair)
  then have "snd v = snd w"
    by (auto simp: run_node_tool_def split: option.splits tool.splits prod.splits sum.splits dest: registry_find_in lifted_keeps)
  then show ?case using Cons [of v] by (simp add: u t case_prod_beta)
qed simp

lemma turn_charges:
  assumes "agent_turn (logged ag) st = (r, st')"
  shows "\<exists>rs. snd (ts_world st') = snd (ts_world st) @ rs \<and> ts_total st' = foldl usage_plus (ts_total st) (map cs_usage rs) \<and>
    (\<forall>resp. r = Some (Inr resp) \<longrightarrow> ar_usage resp = ts_total st')"
proof -
  obtain w l where w: "ts_world st = (w, l)" by (rule prod.exhaust)
  obtain x w' where q: "ag_provider ag (turn_request (logged ag) (ts_messages st)) w = (x, w')" by (rule prod.exhaust)
  have reg: "ag_registry (logged ag) = map lift_tool (ag_registry ag)" by (simp add: logged_def)
  show ?thesis
  proof (cases x)
    case (Inl e)
    then show ?thesis using assms q w by (auto simp: agent_turn_def logged_def intro!: exI [of _ "[]"])
  next
    case (Inr resp)
    let ?st = "st\<lparr>ts_world := (w', l @ [resp])\<rparr>"
    have a: "after_response (logged ag) resp ?st = (r, st')" using assms q w Inr by (simp add: agent_turn_def) (simp add: logged_def)
    have "snd (ts_world st') = l @ [resp] \<and> ts_total st' = usage_plus (ts_total st) (cs_usage resp) \<and>
      (\<forall>resp. r = Some (Inr resp) \<longrightarrow> ar_usage resp = ts_total st')"
      using a lifted_tools_keep [of "ag_registry ag" "collect_tool_uses (cs_content resp)" "(w', l @ [resp])"]
      by (auto simp: after_response_def dispatch_tools_def reg Let_def split: if_splits option.splits prod.splits)
    then show ?thesis using w by (intro exI [of _ "[resp]"]) simp
  qed
qed

lemma turns_charge:
  "agent_turns n (logged ag) st = (r, st') \<Longrightarrow>
   \<exists>rs. snd (ts_world st') = snd (ts_world st) @ rs \<and> ts_total st' = foldl usage_plus (ts_total st) (map cs_usage rs) \<and>
    (\<forall>resp. r = Some (Inr resp) \<longrightarrow> ar_usage resp = ts_total st')"
proof (induction n arbitrary: st)
  case 0
  then show ?case by (auto intro: exI [of _ "[]"])
next
  case (Suc n)
  obtain x st1 where t: "agent_turn (logged ag) st = (x, st1)" by (rule prod.exhaust)
  from turn_charges [OF t] obtain rs where rs: "snd (ts_world st1) = snd (ts_world st) @ rs"
    "ts_total st1 = foldl usage_plus (ts_total st) (map cs_usage rs)" "\<forall>resp. x = Some (Inr resp) \<longrightarrow> ar_usage resp = ts_total st1" by blast
  show ?case
  proof (cases x)
    case None
    then have "agent_turns n (logged ag) st1 = (r, st')" using Suc.prems t by simp
    from Suc.IH [OF this] rs obtain rs' where "snd (ts_world st') = snd (ts_world st) @ (rs @ rs')"
      "ts_total st' = foldl usage_plus (ts_total st) (map cs_usage (rs @ rs'))" "\<forall>resp. r = Some (Inr resp) \<longrightarrow> ar_usage resp = ts_total st'"
      by auto
    then show ?thesis by blast
  next
    case (Some y)
    then show ?thesis using Suc.prems t rs by auto
  qed
qed

lemma sat_u32_fold:
  assumes "0 \<le> a" "\<forall>x\<in>set xs. 0 \<le> f x"
  shows "foldl (\<lambda>s x. sat_u32 s (f x)) (min (2 ^ 32 - 1) a) xs = min (2 ^ 32 - 1) (a + sum_list (map f xs))"
  using assms
proof (induction xs arbitrary: a)
  case (Cons x xs)
  have "sat_u32 (min (2 ^ 32 - 1) a) (f x) = min (2 ^ 32 - 1) (a + f x)" using Cons.prems by (simp add: sat_u32_def min_def)
  then show ?case using Cons.IH [of "a + f x"] Cons.prems by (simp add: add.assoc)
qed simp

lemma usage_fold_sel:
  "inputTokens (foldl usage_plus u us) = foldl (\<lambda>s x. sat_u32 s (inputTokens x)) (inputTokens u) us"
  "outputTokens (foldl usage_plus u us) = foldl (\<lambda>s x. sat_u32 s (outputTokens x)) (outputTokens u) us"
  by (induction us arbitrary: u) (simp_all add: usage_plus_def)

subsection \<open>Termination\<close>

text \<open>A quantity that no tool of the node raises, and every answer that goes on lowers.\<close>

definition agent_winds_down :: "('w \<Rightarrow> nat) \<Rightarrow> 'w agent \<Rightarrow> bool" where
  "agent_winds_down m ag \<longleftrightarrow>
     (\<forall>q w r w'. ag_provider ag q w = (Inr r, w') \<longrightarrow> cs_stop_reason r \<in> {''tool_use'', ''pause_turn''} \<longrightarrow> m w' < m w) \<and>
     (\<forall>d ex j w r w'. NodeTool d ex \<in> set (ag_registry ag) \<longrightarrow> ex j w = (r, w') \<longrightarrow> m w' \<le> m w)"

lemma tools_wind:
  assumes "agent_winds_down m ag"
  shows "m (snd (run_node_tools (ag_registry ag) uses w)) \<le> m w"
proof (induction uses arbitrary: w)
  case (Cons u uses)
  obtain i n j where u: "u = (i, n, j)" by (rule prod_cases3)
  obtain c e v where t: "run_node_tool (ag_registry ag) n j w = ((c, e), v)" by (metis surj_pair)
  have "m v \<le> m w"
    using t assms by (auto simp: run_node_tool_def agent_winds_down_def split: option.splits tool.splits prod.splits sum.splits dest!: registry_find_in)
  then show ?case using Cons [of v] by (simp add: u t case_prod_beta)
qed simp

lemma turn_winds:
  assumes "agent_winds_down m ag" "agent_turn ag st = (None, st')"
  shows "m (ts_world st') < m (ts_world st)"
proof -
  obtain x w where q: "ag_provider ag (turn_request ag (ts_messages st)) (ts_world st) = (x, w)" by (rule prod.exhaust)
  with assms(2) obtain resp where x: "x = Inr resp" by (cases x) (auto simp: agent_turn_def)
  with assms(2) q have a: "after_response ag resp (st\<lparr>ts_world := w\<rparr>) = (None, st')" by (simp add: agent_turn_def)
  then have r: "cs_stop_reason resp \<in> {''tool_use'', ''pause_turn''}"
    by (auto simp: after_response_def Let_def split: if_splits)
  then have "m w < m (ts_world st)" using assms(1) q x by (auto simp: agent_winds_down_def)
  moreover have "m (ts_world st') \<le> m w"
    using a tools_wind [OF assms(1), of "collect_tool_uses (cs_content resp)" w]
    by (auto simp: after_response_def dispatch_tools_def Let_def split: if_splits option.splits prod.splits)
  ultimately show ?thesis by simp
qed

lemma turns_end:
  "agent_winds_down m ag \<Longrightarrow> m (ts_world st) < n \<Longrightarrow> fst (agent_turns n ag st) \<noteq> None"
proof (induction n arbitrary: st)
  case (Suc n)
  obtain x st1 where t: "agent_turn ag st = (x, st1)" by (rule prod.exhaust)
  show ?case
  proof (cases x)
    case None
    with turn_winds [OF Suc.prems(1)] t Suc.prems(2) have "m (ts_world st1) < n" by fastforce
    with Suc t None show ?thesis by simp
  qed (simp add: t)
qed simp

subsection \<open>Properties\<close>

text \<open>The steps of a session, one after the other.\<close>

fun session_run :: "nat \<Rightarrow> 'w agent \<Rightarrow> json list \<Rightarrow> agent_step list \<Rightarrow> 'w \<Rightarrow> (string + agent_response) option list" where
  "session_run n ag ms [] w = []"
| "session_run n ag ms (i # is) w = (case agent_step_fn n ag ms i w of (r, ms', w') \<Rightarrow> r # session_run n ag ms' is w')"

lemma stuck_run: "stuck ms \<Longrightarrow> 0 < n \<Longrightarrow> session_run n (strict ag) ms inputs w = replicate (length inputs) (Some (Inl ''invalid_request_error''))"
proof (induction inputs arbitrary: ms)
  case (Cons i inputs)
  from stuck_step [OF Cons.prems, of ag i w] Cons.IH Cons.prems(2) show ?case by simp
qed simp


text \<open>C23. A refused mixture of calls ends a session for good: when the model answers with a client
  call and another call in one message, the step fails, the unanswered message stays in the
  session, and the API then refuses every later step, whatever the client sends.\<close>

theorem mixed_calls_poison:
  assumes "fits_session ms input"
    and "ag_provider ag (turn_request ag (ms @ [input_to_user_message input])) w = (Inr resp, w1)"
    and "cs_stop_reason resp = ''tool_use''" and "2 \<le> length (collect_tool_uses (cs_content resp))"
    and "\<exists>u\<in>set (collect_tool_uses (cs_content resp)). is_client (ag_registry ag) (fst (snd u))"
  shows "\<exists>e ms'. agent_step_fn (Suc n) ag ms input w = (Some (Inl e), ms', w1) \<and>
    session_run (Suc k) (strict ag) ms' inputs v = replicate (length inputs) (Some (Inl ''invalid_request_error''))"
proof -
  let ?uses = "collect_tool_uses (cs_content resp)" and ?P = "\<lambda>(i, n, j). is_client (ag_registry ag) n"
  let ?ms = "(ms @ [input_to_user_message input]) @ [chat_message ''assistant'' (cs_content resp)]"
  let ?st = "\<lparr>ts_messages = ?ms, ts_total = usage_plus usage_zero (cs_usage resp), ts_world = w1\<rparr>"
  have pos: "0 < length (filter ?P ?uses)" using assms(5) by (fastforce simp: filter_empty_conv)
  have mixed: "list_ex (\<lambda>x. \<not> ?P x) ?uses \<or> 1 < length (filter ?P ?uses)"
  proof (cases "list_ex (\<lambda>x. \<not> ?P x) ?uses")
    case False
    then have "filter ?P ?uses = ?uses" by (auto simp: list_ex_iff intro: filter_True)
    then show ?thesis using assms(4) by simp
  qed simp
  have ne: "?uses \<noteq> []" using assms(4) by auto
  have "\<exists>e. dispatch_tools (ag_registry ag) ?uses ?st = (Some (Inl e), ?st)"
    using pos mixed ne unfolding dispatch_tools_def Let_def client_pred by simp
  then obtain e where "dispatch_tools (ag_registry ag) ?uses ?st = (Some (Inl e), ?st)" by blast
  then have step: "agent_step_fn (Suc n) ag ms input w = (Some (Inl e), ?ms, w1)"
    using assms(2,3) by (simp add: agent_step_fn_def agent_turn_def after_response_def Let_def)
  have "owed_ids (ms @ [input_to_user_message input]) = Some []" using assms(1) by (simp only: fits_session_owed)
  then have "owed_ids ?ms = Some (map fst ?uses)" by (simp only: owed_ids_snoc) (simp add: owed_step_def)
  then have "stuck ?ms" using assms(4) by (simp add: stuck_def)
  from stuck_run [OF this, of "Suc k" ag inputs v] step show ?thesis by (intro exI conjI) simp_all
qed


text \<open>A step ends when the model's calls run out: if every answer that goes on lowers a quantity
  that no tool of the node raises, that quantity plus one is enough fuel.\<close>

theorem agent_step_ends:
  assumes "agent_winds_down m ag" and "m w < n"
  shows "\<exists>r ms' w'. agent_step_fn n ag ms input w = (Some r, ms', w')"
proof -
  let ?st = "\<lparr>ts_messages = ms @ [input_to_user_message input], ts_total = usage_zero, ts_world = w\<rparr>"
  obtain r st where t: "agent_turns n ag ?st = (r, st)" by (rule prod.exhaust)
  from turns_end [of m ag ?st n] assms t have "r \<noteq> None" by simp
  with t show ?thesis by (auto simp: agent_step_fn_def)
qed

text \<open>The guard of \<open>web_fetch\<close>: a request leaves the node only for \<open>http\<close> or \<open>https\<close> and a
  host outside the list of loopback names, and is then made for the URL as given. The list has
  \<open>::1\<close> without brackets, so a parser that, as URLs do, gives an IPv6 host in brackets lets the
  loopback address through.\<close>

theorem web_fetch_guard:
  assumes "jget input ''url'' = Some (JStr u)" and "parse u = Inr (scheme, host)"
  shows "(if scheme \<in> {''http'', ''https''} \<and> (\<exists>h. host = Some h \<and> h \<notin> {''localhost'', ''127.0.0.1'', ''::1'', ''0.0.0.0''})
     then web_fetch parse get lossy input w =
       (case get u w of (Inl e, w') \<Rightarrow> (Inl (''request failed: '' @ e), w')
        | (Inr (status, ctype, Inl e), w') \<Rightarrow> (Inl (''read body: '' @ e), w')
        | (Inr (status, ctype, Inr bytes), w') \<Rightarrow> (Inr (fetch_text lossy status ctype bytes), w'))
     else \<exists>e. web_fetch parse get lossy input w = (Inl e, w)) \<and>
    (scheme = ''http'' \<and> host = Some ''[::1]'' \<and> get u w = (Inr (200, None, Inr bs), w1) \<longrightarrow>
       web_fetch parse get lossy input w = (Inr (fetch_text lossy 200 None bs), w1))"
  using assms by (auto simp: web_fetch_def is_loopback_host_def split: option.splits)

subsection \<open>Witnesses\<close>

text \<open>A model that asks \<open>w\<close> times for the file, then answers.\<close>

definition demo_call :: "string \<Rightarrow> string \<Rightarrow> json" where
  "demo_call i n = JObj [(''id'', JStr i), (''input'', JNull), (''name'', JStr n), (''type'', JStr ''tool_use'')]"

definition demo_model :: "nat provider" where
  "demo_model q w =
     (if w = 0 then (Inr \<lparr>cs_content = [JObj [(''text'', JStr ''done''), (''type'', JStr ''text'')]], cs_stop_reason = ''end_turn'', cs_usage = demo_usage\<rparr>, 0)
      else (Inr \<lparr>cs_content = [demo_call ''t1'' ''read_local_file''], cs_stop_reason = ''tool_use'', cs_usage = demo_usage\<rparr>, w - 1))"

definition demo_read_tool :: tool_def where
  "demo_read_tool = \<lparr>td_name = ''read_local_file'', td_description = [], td_input_schema = JNull\<rparr>"

definition demo_agent :: "nat provider \<Rightarrow> nat agent" where
  "demo_agent P = \<lparr>ag_provider = P, ag_max_tokens = DEFAULT_MAX_TOKENS, ag_system_prompt = [], ag_registry = [ClientTool demo_read_tool]\<rparr>"

lemma demo_model_ok: "provider_ok (ag_provider (demo_agent demo_model))"
  by (auto simp: provider_ok_def demo_agent_def demo_model_def collect_tool_uses_def str_at_def List.map_filter_def split: if_splits)


definition demo_mixed :: "nat provider" where
  "demo_mixed q w = (Inr \<lparr>cs_content = [demo_call ''t1'' ''read_local_file'', demo_call ''t2'' ''current_time''],
     cs_stop_reason = ''tool_use'', cs_usage = demo_usage\<rparr>, w)"

lemma demo_mixed_uses:
  "collect_tool_uses [demo_call ''t1'' ''read_local_file'', demo_call ''t2'' ''current_time''] =
   [(''t1'', ''read_local_file'', JNull), (''t2'', ''current_time'', JNull)]"
  by (simp add: collect_tool_uses_def demo_call_def str_at_def List.map_filter_def)

theorem mixed_calls_poison_witness:
  "\<exists>e ms'. agent_step_fn (Suc 0) (demo_agent demo_mixed) [] (Prompt ''hi'') 0 = (Some (Inl e), ms', 0) \<and>
    session_run (Suc 0) (strict (demo_agent demo_mixed)) ms' [Prompt ''again'', ToolResult ''t1'' ''x'' False] 0 =
      replicate 2 (Some (Inl ''invalid_request_error''))"
proof -
  have "is_client (ag_registry (demo_agent demo_mixed)) ''read_local_file''"
    by (simp add: is_client_def registry_find_def demo_agent_def demo_read_tool_def)
  moreover have "fits_session [] (Prompt ''hi'')" by (simp add: fits_session_def owed_ids_def)
  ultimately show ?thesis
    using mixed_calls_poison [of "[]" "Prompt ''hi''" "demo_agent demo_mixed" 0 _ 0 0 0 "[Prompt ''again'', ToolResult ''t1'' ''x'' False]" 0]
    by (simp add: demo_agent_def demo_mixed_def demo_mixed_uses numeral_2_eq_2)
qed


theorem agent_step_ends_witness:
  "\<exists>r ms' w'. agent_step_fn 3 (demo_agent demo_model) [] (Prompt ''hi'') 2 = (Some r, ms', w')"
  by (rule agent_step_ends [where m = "\<lambda>w. w"])
    (auto simp: agent_winds_down_def demo_agent_def demo_model_def split: if_splits)

theorem web_fetch_guard_witness:
  "web_fetch (\<lambda>u. Inr (''http'', Some ''[::1]'')) (\<lambda>u w. (Inr (200, None, Inr []), w)) (\<lambda>b. []) (JObj [(''url'', JStr ''http://[::1]/'')]) (0 :: nat) =
   (Inr (fetch_text (\<lambda>b. []) 200 None []), 0)"
  using web_fetch_guard [of "JObj [(''url'', JStr ''http://[::1]/'')]" "''http://[::1]/''" "\<lambda>u. Inr (''http'', Some ''[::1]'')" "''http''" "Some ''[::1]''"
      "\<lambda>u w. (Inr (200, None, Inr []), w)" "\<lambda>b. []" "0 :: nat" "[]" 0]
  by simp

end
