(* ===== verification/NodeActivity.thy ===== *)
theory NodeActivity
  imports Protocol Prelude
begin

section \<open>The node's activity log (apps/node/src/main.rs)\<close>

text \<open>
  \<open>ActivityLog\<close> and the \<open>StepGuard\<close> that \<open>execute\<close> holds over a step: one record per session id,
  published by \<open>GET /activity\<close> and polled by the dashboard. Every operation takes the log's lock,
  so the log moves by whole operations; the clock is an argument of each and need not be
  monotone. The map is walked in an order that is an argument.

  The facts: what every record looks like, how long exactly a record is kept, and what a
  request for somebody else's session does to its record.
\<close>

definition ACTIVITY_RETENTION_MS :: int where "ACTIVITY_RETENTION_MS = 30000"

type_synonym activity_log = "string \<Rightarrow> request_record option"

definition fresh_record :: "int \<Rightarrow> string \<Rightarrow> backend_type \<Rightarrow> request_record" where
  "fresh_record now session_id backend =
     \<lparr>rr_sessionId = session_id, rr_backend = backend, startedAtMs = now, lastUpdateMs = now, endedAtMs = None,
      rr_status = Running, rr_stepCount = 0, rr_lastToolName = None\<rparr>"

definition begin_step :: "int \<Rightarrow> string \<Rightarrow> backend_type \<Rightarrow> activity_log \<Rightarrow> activity_log" where
  "begin_step now session_id backend m =
     (let entry = (case m session_id of None \<Rightarrow> fresh_record now session_id backend | Some r \<Rightarrow> r) in
      m(session_id \<mapsto> entry\<lparr>rr_stepCount := min (2 ^ 32 - 1) (rr_stepCount entry + 1), lastUpdateMs := now,
          rr_status := Running, endedAtMs := None\<rparr>))"

definition end_step :: "int \<Rightarrow> string \<Rightarrow> request_status \<Rightarrow> string option \<Rightarrow> activity_log \<Rightarrow> activity_log" where
  "end_step now session_id status tool_name m =
     (case m session_id of
        None \<Rightarrow> m
      | Some entry \<Rightarrow>
          m(session_id \<mapsto> entry\<lparr>lastUpdateMs := now, rr_status := status,
              rr_lastToolName := (case tool_name of None \<Rightarrow> rr_lastToolName entry | Some t \<Rightarrow> Some t),
              endedAtMs := (if status \<in> {Final, Error} then Some now else None)\<rparr>))"

definition kept :: "int \<Rightarrow> request_record \<Rightarrow> bool" where
  "kept now r \<longleftrightarrow> (case endedAtMs r of None \<Rightarrow> True | Some e \<Rightarrow> now - e < ACTIVITY_RETENTION_MS)"

definition retain :: "int \<Rightarrow> activity_log \<Rightarrow> activity_log" where
  "retain now m = (\<lambda>sid. case m sid of None \<Rightarrow> None | Some r \<Rightarrow> if kept now r then Some r else None)"

text \<open>\<open>snapshot\<close> drops the expired records and returns the rest; \<open>order\<close> are the keys as the map walks them.\<close>

definition snapshot :: "int \<Rightarrow> string list \<Rightarrow> activity_log \<Rightarrow> request_record list \<times> activity_log" where
  "snapshot now order m = (let m' = retain now m in (List.map_filter m' order, m'))"

text \<open>How a step leaves its guard: resolved with a response, or dropped on an early return.\<close>

definition guard_end :: "int \<Rightarrow> string \<Rightarrow> (string + agent_response) \<Rightarrow> activity_log \<Rightarrow> activity_log" where
  "guard_end now session_id result m =
     (case result of
        Inl e \<Rightarrow> end_step now session_id Error None m
      | Inr (FinalAnswer c u) \<Rightarrow> end_step now session_id Final None m
      | Inr (ToolCall i name j u) \<Rightarrow> end_step now session_id WaitingTool (Some name) m)"

subsection \<open>The log as a transition system\<close>

datatype log_event =
    Begin int string backend_type
  | End int string "string + agent_response"
  | Report int

definition log_step :: "log_event \<Rightarrow> activity_log \<Rightarrow> activity_log" where
  "log_step ev m =
     (case ev of
        Begin t sid b \<Rightarrow> begin_step t sid b m
      | End t sid r \<Rightarrow> guard_end t sid r m
      | Report t \<Rightarrow> retain t m)"

fun event_session :: "log_event \<Rightarrow> string option" where
  "event_session (Begin t sid b) = Some sid"
| "event_session (End t sid r) = Some sid"
| "event_session (Report t) = None"

definition record_ok :: "string \<Rightarrow> request_record \<Rightarrow> bool" where
  "record_ok sid r \<longleftrightarrow> rr_sessionId r = sid \<and>
     (endedAtMs r = None \<longleftrightarrow> rr_status r \<in> {Running, WaitingTool}) \<and>
     (\<forall>e. endedAtMs r = Some e \<longrightarrow> e = lastUpdateMs r) \<and>
     (rr_status r = WaitingTool \<longrightarrow> rr_lastToolName r \<noteq> None) \<and>
     1 \<le> rr_stepCount r \<and> rr_stepCount r < 2 ^ 32"

definition log_inv :: "activity_log \<Rightarrow> bool" where
  "log_inv m \<longleftrightarrow> (\<forall>sid r. m sid = Some r \<longrightarrow> record_ok sid r)"

lemma begin_inv: "log_inv m \<Longrightarrow> log_inv (begin_step t sid b m)"
proof -
  assume inv: "log_inv m"
  let ?e = "case m sid of None \<Rightarrow> fresh_record t sid b | Some r \<Rightarrow> r"
  have "rr_sessionId ?e = sid \<and> 0 \<le> rr_stepCount ?e \<and> rr_stepCount ?e < 2 ^ 32"
  proof (cases "m sid")
    case (Some r)
    with inv have "record_ok sid r" by (simp add: log_inv_def)
    with Some show ?thesis by (simp add: record_ok_def)
  qed (simp add: fresh_record_def)
  then have "record_ok sid (?e\<lparr>rr_stepCount := min (2 ^ 32 - 1) (rr_stepCount ?e + 1), lastUpdateMs := t, rr_status := Running, endedAtMs := None\<rparr>)"
    by (simp add: record_ok_def)
  with inv show "log_inv (begin_step t sid b m)" by (simp add: log_inv_def begin_step_def Let_def)
qed

lemma guard_end_inv: "log_inv m \<Longrightarrow> log_inv (guard_end t sid r m)"
  by (auto simp: log_inv_def guard_end_def end_step_def record_ok_def split: option.splits sum.splits agent_response.splits)

lemma retain_Some: "retain t m sid = Some r \<longleftrightarrow> m sid = Some r \<and> kept t r"
  by (auto simp: retain_def split: option.splits)

lemma retain_inv: "log_inv m \<Longrightarrow> log_inv (retain t m)"
  by (auto simp: log_inv_def retain_Some)

interpretation activity_log: inv_system "\<lambda>m m'. \<exists>ev. m' = log_step ev m" "\<lambda>m. m = Map.empty" log_inv
proof unfold_locales
  show "log_inv m" if "m = Map.empty" for m :: activity_log using that by (simp add: log_inv_def)
  show "log_inv m'" if "log_inv m" "\<exists>ev. m' = log_step ev m" for m m'
    using that by (auto simp: log_step_def begin_inv guard_end_inv retain_inv split: log_event.split)
qed

lemma log_run_reaches: "(\<lambda>m m'. \<exists>ev. m' = log_step ev m)\<^sup>*\<^sup>* m (foldl (\<lambda>m ev. log_step ev m) m evs)"
proof (induction evs rule: rev_induct)
  case (snoc ev evs)
  then show ?case by (auto intro: rtranclp.rtrancl_into_rtrancl)
qed simp

text \<open>Events of other sessions leave a record alone; a report drops it when it is due.\<close>

lemma log_step_other:
  assumes "event_session ev \<noteq> Some sid"
  shows "log_step ev m sid = (case ev of Report t \<Rightarrow> (case m sid of None \<Rightarrow> None | Some r \<Rightarrow> if kept t r then Some r else None) | _ \<Rightarrow> m sid)"
  using assms
  by (cases ev) (auto simp: log_step_def begin_step_def guard_end_def end_step_def retain_def Let_def split: option.splits sum.splits agent_response.splits)

lemma log_run_other:
  assumes "\<forall>ev\<in>set evs. event_session ev \<noteq> Some sid"
  shows "foldl (\<lambda>m ev. log_step ev m) m evs sid =
    (case m sid of None \<Rightarrow> None | Some r \<Rightarrow> if \<forall>t. Report t \<in> set evs \<longrightarrow> kept t r then Some r else None)"
  using assms
proof (induction evs rule: rev_induct)
  case Nil
  show ?case by (simp split: option.split)
next
  case (snoc ev evs)
  then have other: "event_session ev \<noteq> Some sid" and IH: "foldl (\<lambda>m ev. log_step ev m) m evs sid =
    (case m sid of None \<Rightarrow> None | Some r \<Rightarrow> if \<forall>t. Report t \<in> set evs \<longrightarrow> kept t r then Some r else None)" by auto
  show ?case
    by (cases ev) (use IH log_step_other [OF other, of "foldl (\<lambda>m ev. log_step ev m) m evs"] in \<open>auto split: option.splits if_splits\<close>)
qed

subsection \<open>Properties\<close>

text \<open>Every record of every report is well formed: after any operations on an empty log, each is
  filed under its own session, has an end exactly when its status is final or an error, that end
  being its last update, names a tool while it waits for one, and counts at least one step,
  within a \<open>u32\<close>.\<close>

theorem activity_reports_wf:
  assumes "m = foldl (\<lambda>m ev. log_step ev m) Map.empty evs" and "r \<in> set (fst (snapshot now order m))"
  shows "record_ok (rr_sessionId r) r \<and> m (rr_sessionId r) = Some r \<and> kept now r"
proof -
  have inv: "log_inv m" using activity_log.reachable_inv [OF refl log_run_reaches] assms(1) by blast
  from assms(2) obtain sid where "retain now m sid = Some r"
    by (auto simp: snapshot_def List.map_filter_def Let_def)
  then have "m sid = Some r" "kept now r" by (simp_all add: retain_Some)
  moreover from this(1) inv have "record_ok sid r" by (simp add: log_inv_def)
  ultimately show ?thesis by (auto simp: record_ok_def)
qed

text \<open>C26. How long a record is kept: without another step of its session it stays as it is until the
  first report made thirty seconds or more after its end, whatever other sessions do; a record
  that waits for a tool has no end and is never dropped.\<close>

theorem activity_retention_exact:
  assumes "m sid = Some r" and "list_all (\<lambda>ev. event_session ev \<noteq> Some sid) evs"
  shows "foldl (\<lambda>m ev. log_step ev m) m evs sid =
      (if \<exists>e t. endedAtMs r = Some e \<and> Report t \<in> set evs \<and> ACTIVITY_RETENTION_MS \<le> t - e then None else Some r) \<and>
    (record_ok sid r \<and> rr_status r = WaitingTool \<longrightarrow> foldl (\<lambda>m ev. log_step ev m) m evs sid = Some r)"
proof -
  have run: "foldl (\<lambda>m ev. log_step ev m) m evs sid = (if \<forall>t. Report t \<in> set evs \<longrightarrow> kept t r then Some r else None)"
    using log_run_other [of evs sid m] assms by (simp add: list_all_iff)
  show ?thesis
  proof (cases "endedAtMs r")
    case None
    then show ?thesis unfolding run by (simp add: kept_def)
  next
    case (Some e)
    then have "kept t r \<longleftrightarrow> \<not> ACTIVITY_RETENTION_MS \<le> t - e" for t by (auto simp: kept_def)
    moreover have "record_ok sid r \<Longrightarrow> rr_status r \<noteq> WaitingTool" using Some by (auto simp: record_ok_def)
    ultimately show ?thesis unfolding run using Some by auto
  qed
qed

text \<open>A request that cannot be decrypted marks somebody else's session as failed: the guard opens
  the record before the request is looked at, so one request with the session's id reopens a
  finished record, counts as a step of it, and leaves it ended with an error, though the session
  itself goes on.\<close>

theorem stranger_fails_session:
  assumes "m sid = Some r" and "rr_stepCount r < 2 ^ 32 - 1"
  shows "log_step (Begin t1 sid b) m sid = Some (r\<lparr>rr_stepCount := rr_stepCount r + 1, lastUpdateMs := t1, rr_status := Running, endedAtMs := None\<rparr>) \<and>
    log_step (End t2 sid (Inl e)) (log_step (Begin t1 sid b) m) sid =
      Some (r\<lparr>rr_stepCount := rr_stepCount r + 1, lastUpdateMs := t2, rr_status := Error, endedAtMs := Some t2\<rparr>)"
  using assms by (simp add: log_step_def begin_step_def guard_end_def end_step_def Let_def)

subsection \<open>Witnesses\<close>

definition demo_log :: "log_event list" where
  "demo_log = [Begin 0 ''s'' MockTee, Begin 5 ''t'' Local, End 9 ''s'' (Inl ''decrypt''), Report 20000]"

definition demo_usage0 :: usage where
  "demo_usage0 = \<lparr>inputTokens = 1, outputTokens = 1, cacheCreationInputTokens = None, cacheReadInputTokens = None\<rparr>"

lemma demo_log_s: "foldl (\<lambda>m ev. log_step ev m) Map.empty demo_log ''s'' =
  Some \<lparr>rr_sessionId = ''s'', rr_backend = MockTee, startedAtMs = 0, lastUpdateMs = 9, endedAtMs = Some 9, rr_status = Error,
    rr_stepCount = 1, rr_lastToolName = None\<rparr>"
  by (simp add: demo_log_def log_step_def begin_step_def guard_end_def end_step_def retain_def kept_def fresh_record_def
      ACTIVITY_RETENTION_MS_def Let_def)

theorem activity_reports_wf_witness:
  "\<exists>r. set (fst (snapshot 20000 [''s''] (foldl (\<lambda>m ev. log_step ev m) Map.empty demo_log))) = {r} \<and> record_ok ''s'' r \<and> rr_status r = Error"
proof -
  let ?m = "foldl (\<lambda>m ev. log_step ev m) Map.empty demo_log"
  let ?r = "the (?m ''s'')"
  have s: "set (fst (snapshot 20000 [''s''] ?m)) = {?r}"
    by (simp add: snapshot_def retain_def demo_log_s kept_def ACTIVITY_RETENTION_MS_def List.map_filter_def)
  then have "record_ok (rr_sessionId ?r) ?r" using activity_reports_wf [OF refl, of ?r 20000 "[''s'']" demo_log] by simp
  with s show ?thesis by (intro exI [of _ ?r]) (simp add: demo_log_s)
qed

theorem activity_retention_exact_witness:
  "foldl (\<lambda>m ev. log_step ev m) (foldl (\<lambda>m ev. log_step ev m) Map.empty demo_log) [Report 30008] ''s'' \<noteq> None \<and>
   foldl (\<lambda>m ev. log_step ev m) (foldl (\<lambda>m ev. log_step ev m) Map.empty demo_log) [Report 30009] ''s'' = None"
  using activity_retention_exact [where m = "foldl (\<lambda>m ev. log_step ev m) Map.empty demo_log" and sid = "''s''", OF demo_log_s, of "[Report 30008]"] activity_retention_exact [where m = "foldl (\<lambda>m ev. log_step ev m) Map.empty demo_log" and sid = "''s''", OF demo_log_s, of "[Report 30009]"]
  by (auto simp: ACTIVITY_RETENTION_MS_def)

theorem stranger_fails_session_witness:
  "\<exists>r. log_step (End 60 ''s'' (Inl ''decrypt'')) (log_step (Begin 50 ''s'' Fhe) (foldl (\<lambda>m ev. log_step ev m) Map.empty demo_log)) ''s'' = Some r \<and>
    rr_status r = Error \<and> rr_stepCount r = 2"
  using stranger_fails_session [where m = "foldl (\<lambda>m ev. log_step ev m) Map.empty demo_log" and sid = "''s''", OF demo_log_s, of 50 Fhe 60 "''decrypt''"] by auto

end
