(* ===== verification/Rlp.thy ===== *)
theory Rlp
  imports Evm
begin

section \<open>RLP (apps/node/src/eth/rlp.rs)\<close>

text \<open>
  The encoder behind the node's transactions: byte strings, integers without leading zeros and
  lists of encoded items; lengths are \<open>u64\<close>. The reference is a reader of RLP items, on fuel
  (twice the length of its input plus one is enough, for each level of nesting and each item
  takes a byte): every item the encoder writes is read back, and the rest of the input is left
  as it was, so no encoding is a prefix of another.
\<close>

definition strip_zeros :: "byte list \<Rightarrow> byte list" where
  "strip_zeros bs = dropWhile (\<lambda>b. b = 0) bs"

definition encode_length :: "nat \<Rightarrow> byte \<Rightarrow> byte list" where
  "encode_length len offset =
     (if len < 56 then [offset + of_nat len]
      else let len_be = strip_zeros (be_spec 8 (int len)) in
           (offset + 55 + of_nat (length len_be)) # len_be)"

definition encode_bytes :: "byte list \<Rightarrow> byte list" where
  "encode_bytes bytes =
     (if length bytes = 1 \<and> unat (hd bytes) < 0x80 then [hd bytes]
      else encode_length (length bytes) 0x80 @ bytes)"

definition encode_list :: "byte list list \<Rightarrow> byte list" where
  "encode_list items = encode_length (sum_list (map length items)) 0xc0 @ concat items"

definition encode_uint :: "128 word \<Rightarrow> byte list" where
  "encode_uint value =
     (if value = 0 then encode_bytes [] else encode_bytes (strip_zeros (be_spec 16 (uint value))))"

subsection \<open>The reader\<close>

datatype rlp = RBytes "byte list" | RList "rlp list"

fun rlp_enc :: "rlp \<Rightarrow> byte list" where
  "rlp_enc (RBytes b) = encode_bytes b"
| "rlp_enc (RList xs) = encode_list (map rlp_enc xs)"

text \<open>The header of an item: is it a list, how long is its payload, and what follows.\<close>

fun rlp_header :: "byte list \<Rightarrow> (bool \<times> nat \<times> byte list) option" where
  "rlp_header [] = None"
| "rlp_header (b # bs) =
     (let k = unat b in
      if k < 0xb8 then Some (False, k - 0x80, bs)
      else if k < 0xc0 then Some (False, nat (be_val (take (k - 0xb7) bs)), drop (k - 0xb7) bs)
      else if k < 0xf8 then Some (True, k - 0xc0, bs)
      else Some (True, nat (be_val (take (k - 0xf7) bs)), drop (k - 0xf7) bs))"

fun rlp_item :: "nat \<Rightarrow> byte list \<Rightarrow> (rlp \<times> byte list) option"
and rlp_items :: "nat \<Rightarrow> byte list \<Rightarrow> rlp list option" where
  "rlp_item 0 bs = None"
| "rlp_item (Suc n) bs =
     (case bs of
        [] \<Rightarrow> None
      | b # r \<Rightarrow>
          if unat b < 0x80 then Some (RBytes [b], r)
          else (case rlp_header bs of
             None \<Rightarrow> None
           | Some (is_list, len, rest) \<Rightarrow>
               if length rest < len then None
               else if is_list then map_option (\<lambda>xs. (RList xs, drop len rest)) (rlp_items n (take len rest))
               else Some (RBytes (take len rest), drop len rest)))"
| "rlp_items 0 bs = None"
| "rlp_items (Suc n) bs =
     (if bs = [] then Some []
      else (case rlp_item n bs of
         None \<Rightarrow> None
       | Some (x, rest) \<Rightarrow> map_option (\<lambda>xs. x # xs) (rlp_items n rest)))"

definition rlp_decode :: "byte list \<Rightarrow> rlp option" where
  "rlp_decode bs = (case rlp_item (2 * length bs) bs of Some (x, []) \<Rightarrow> Some x | _ \<Rightarrow> None)"

fun rlp_fits :: "rlp \<Rightarrow> bool" where
  "rlp_fits (RBytes b) \<longleftrightarrow> length b < 2 ^ 64"
| "rlp_fits (RList xs) \<longleftrightarrow> list_all rlp_fits xs \<and> length (concat (map rlp_enc xs)) < 2 ^ 64"

subsection \<open>Big-endian numbers without leading zeros\<close>

lemma be_val_zero [simp]: "be_val (0 # bs) = be_val bs"
  by (simp add: be_val_def)

lemma be_val_strip [simp]: "be_val (strip_zeros bs) = be_val bs"
  unfolding strip_zeros_def by (induction bs) auto

lemma be_val_stripped: "0 \<le> v \<Longrightarrow> v < 256 ^ n \<Longrightarrow> be_val (strip_zeros (be_spec n v)) = v"
  by (simp add: be_val_be_spec)

lemma length_strip: "length (strip_zeros bs) \<le> length bs"
  by (simp add: strip_zeros_def length_dropWhile_le)

lemma strip_pos: "be_val bs \<noteq> 0 \<Longrightarrow> strip_zeros bs \<noteq> []"
  by (metis be_val_strip be_val_def foldl_Nil)

subsection \<open>Reading back\<close>

lemma unat_byte: "n < 256 \<Longrightarrow> unat (of_nat n :: byte) = n"
  by (simp add: unat_of_nat)

lemma header_roundtrip:
  assumes "len < 2 ^ 64" "off = 0x80 \<or> off = 0xc0"
  shows "rlp_header (encode_length len off @ r) = Some (off = 0xc0, len, r)"
proof (cases "len < 56")
  case True
  have "off + of_nat len = (of_nat (unat off + len) :: byte)" by simp
  moreover have "unat off + len < 256" using assms(2) True by auto
  ultimately have "unat (off + of_nat len) = unat off + len" by (simp only: unat_byte)
  with True assms(2) show ?thesis by (auto simp: encode_length_def)
next
  case False
  let ?be = "strip_zeros (be_spec 8 (int len))"
  have v: "be_val ?be = int len" using assms(1) by (intro be_val_stripped) auto
  then have "?be \<noteq> []" using False by (auto simp: be_val_def)
  then have l: "1 \<le> length ?be" "length ?be \<le> 8"
    using length_strip [of "be_spec 8 (int len)"] by (simp_all add: Suc_le_eq)
  have "off + 55 + of_nat (length ?be) = (of_nat (unat off + 55 + length ?be) :: byte)" by simp
  moreover have "unat off + 55 + length ?be < 256" using assms(2) l by auto
  ultimately have "unat (off + 55 + of_nat (length ?be)) = unat off + 55 + length ?be" by (simp only: unat_byte)
  with False assms(2) l v show ?thesis by (auto simp: encode_length_def Let_def)
qed

lemma encode_length_big: "off = 0x80 \<or> off = 0xc0 \<Longrightarrow> len < 2 ^ 64 \<Longrightarrow> \<exists>b bs. encode_length len off = b # bs \<and> 0x80 \<le> unat b"
proof -
  assume o: "off = 0x80 \<or> off = 0xc0" and len: "len < 2 ^ 64"
  obtain b bs where e: "encode_length len off = b # bs" by (cases "encode_length len off") (auto simp: encode_length_def Let_def split: if_splits)
  show ?thesis
  proof (cases "len < 56")
    case True
    have "unat (off + of_nat len) = unat off + len"
      using unat_byte [of "unat off + len"] o True by auto
    with e True o show ?thesis by (auto simp: encode_length_def)
  next
    case False
    have "length (strip_zeros (be_spec 8 (int len))) \<le> 8" using length_strip [of "be_spec 8 (int len)"] by simp
    then have "unat (off + 55 + of_nat (length (strip_zeros (be_spec 8 (int len))))) = unat off + 55 + length (strip_zeros (be_spec 8 (int len)))"
      using unat_byte [of "unat off + 55 + length (strip_zeros (be_spec 8 (int len)))"] o by auto
    with e False o show ?thesis by (auto simp: encode_length_def Let_def)
  qed
qed

lemma item_header:
  assumes "len < 2 ^ 64" "off = 0x80 \<or> off = 0xc0"
  shows "rlp_item (Suc n) (encode_length len off @ payload) =
    (if length payload < len then None
     else if off = 0xc0 then map_option (\<lambda>xs. (RList xs, drop len payload)) (rlp_items n (take len payload))
     else Some (RBytes (take len payload), drop len payload))"
proof -
  obtain b bs where "encode_length len off = b # bs" "0x80 \<le> unat b" using encode_length_big [OF assms(2,1)] by blast
  with header_roundtrip [OF assms, of payload] show ?thesis by simp
qed

lemma encode_bytes_cases:
  "encode_bytes b = (if \<exists>x. b = [x] \<and> unat x < 0x80 then b else encode_length (length b) 0x80 @ b)"
  by (cases b) (auto simp: encode_bytes_def)

lemma encode_length_nonempty [simp]: "encode_length len off \<noteq> []"
  by (simp add: encode_length_def Let_def)

lemma rlp_enc_nonempty [simp]: "rlp_enc x \<noteq> []"
  by (cases x) (auto simp: encode_bytes_cases encode_list_def)

lemma payload_length [simp]: "sum_list (map length (map rlp_enc xs)) = length (concat (map rlp_enc xs))"
  by (simp add: length_concat)

lemma bytes_read_back: "length b < 2 ^ 64 \<Longrightarrow> rlp_item (Suc n) (encode_bytes b @ r) = Some (RBytes b, r)"
  using item_header [of "length b" "0x80" n "b @ r"]
  by (auto simp: encode_bytes_cases simp del: rlp_item.simps) auto

lemma items_read_back:
  assumes "\<And>x r n. x \<in> set xs \<Longrightarrow> 2 * length (rlp_enc x) \<le> n \<Longrightarrow> rlp_item n (rlp_enc x @ r) = Some (x, r)"
  shows "2 * length (concat (map rlp_enc xs)) + 1 \<le> n \<Longrightarrow> rlp_items n (concat (map rlp_enc xs)) = Some xs"
  using assms
proof (induction xs arbitrary: n)
  case Nil
  then show ?case by (cases n) auto
next
  case (Cons x xs)
  then obtain k where n: "n = Suc k" by (cases n) auto
  have "1 \<le> length (rlp_enc x)" using rlp_enc_nonempty [of x] by (cases "rlp_enc x") simp_all
  then have "2 * length (concat (map rlp_enc xs)) + 1 \<le> k" "2 * length (rlp_enc x) \<le> k" using Cons.prems(1) n by auto
  with Cons.IH [of k] Cons.prems(2) show ?case by (simp add: n)
qed

lemma item_read_back:
  "rlp_fits x \<Longrightarrow> 2 * length (rlp_enc x) \<le> n \<Longrightarrow> rlp_item n (rlp_enc x @ r) = Some (x, r)"
proof (induction x arbitrary: n r)
  case (RBytes b)
  have "0 < length (rlp_enc (RBytes b))" using rlp_enc_nonempty [of "RBytes b"] by (simp only: length_greater_0_conv not_False_eq_True)
  then obtain k where "n = Suc k" using RBytes.prems by (cases n) auto
  with RBytes.prems show ?case by (simp add: bytes_read_back del: rlp_item.simps)
next
  case (RList xs)
  let ?p = "concat (map rlp_enc xs)"
  have enc: "rlp_enc (RList xs) = encode_length (length ?p) 0xc0 @ ?p" by (simp add: encode_list_def del: map_map)
  obtain b bs where "encode_length (length ?p) 0xc0 = b # bs" by (cases "encode_length (length ?p) 0xc0") auto
  then obtain k where n: "n = Suc k" "2 * length ?p + 1 \<le> k" using RList.prems enc by (cases n) auto
  have "rlp_items k ?p = Some xs"
    by (rule items_read_back [OF _ n(2)]) (use RList in \<open>auto simp: list_all_iff\<close>)
  then show ?case using RList.prems unfolding n(1) enc by (simp add: item_header del: rlp_item.simps)
qed

lemma rlp_decode_enc [simp]: "rlp_fits x \<Longrightarrow> rlp_decode (rlp_enc x) = Some x"
  using item_read_back [of x "2 * length (rlp_enc x)" "[]"] by (simp add: rlp_decode_def)

lemma encode_uint_enc: "encode_uint v = rlp_enc (RBytes (strip_zeros (be_spec 16 (uint v))))"
proof (cases "v = 0")
  case True
  have "strip_zeros (be_spec 16 0) = []" by (auto simp: strip_zeros_def be_spec_def dropWhile_eq_Nil_conv)
  with True show ?thesis by (simp add: encode_uint_def)
qed (simp add: encode_uint_def)

lemma uint_read_back: "be_val (strip_zeros (be_spec 16 (uint (v :: 128 word)))) = uint v"
proof -
  have "uint v < 2 ^ 128" using unsigned_less [of v] by simp
  then show ?thesis by (intro be_val_stripped) simp_all
qed

lemma short_strip: "length (strip_zeros (be_spec n v)) \<le> n"
  using length_strip [of "be_spec n v"] by simp

subsection \<open>Properties\<close>

text \<open>RLP is read back: the encoding of any item whose parts are shorter than 2^64 bytes, followed
  by anything, is read as that item with the rest untouched; so equal encodings mean equal
  items, and no encoding is a prefix of another item's. Integers come back as their value.\<close>

theorem rlp_roundtrip:
  assumes "rlp_fits x" and "rlp_fits y"
  shows "rlp_item (2 * length (rlp_enc x @ rest)) (rlp_enc x @ rest) = Some (x, rest) \<and>
    (rlp_enc x @ rest = rlp_enc y @ rest' \<longrightarrow> x = y \<and> rest = rest') \<and>
    rlp_decode (encode_uint v) = Some (RBytes (strip_zeros (be_spec 16 (uint v)))) \<and>
    be_val (strip_zeros (be_spec 16 (uint v))) = uint v"
proof -
  have x: "rlp_item (2 * length (rlp_enc x @ rest)) (rlp_enc x @ rest) = Some (x, rest)" by (rule item_read_back [OF assms(1)]) simp
  have "x = y \<and> rest = rest'" if "rlp_enc x @ rest = rlp_enc y @ rest'"
    using x item_read_back [OF assms(2), of "2 * length (rlp_enc x @ rest)" rest'] that by simp
  moreover have "rlp_fits (RBytes (strip_zeros (be_spec 16 (uint v))))" using short_strip [of 16 "uint v"] by simp
  ultimately show ?thesis using x by (simp add: encode_uint_enc uint_read_back del: rlp_enc.simps be_val_strip)
qed

theorem rlp_roundtrip_witness:
  "rlp_item 20 (rlp_enc (RList [RBytes [0x63], RBytes [], RList []]) @ [1, 2, 3, 4, 5, 6]) = Some (RList [RBytes [0x63], RBytes [], RList []], [1, 2, 3, 4, 5, 6])"
proof -
  let ?x = "RList [RBytes [0x63], RBytes [], RList []]"
  have "length (rlp_enc ?x @ [1, 2, 3, 4, 5, 6]) = 10" by (simp add: encode_list_def encode_bytes_def encode_length_def)
  moreover have "rlp_fits ?x" by (simp add: encode_list_def encode_bytes_def encode_length_def)
  ultimately show ?thesis using rlp_roundtrip [of ?x ?x "[1, 2, 3, 4, 5, 6]"] by simp
qed

end
