(* ===== verification/EthTx.thy ===== *)
theory EthTx
  imports Rlp NodeChannel
begin

section \<open>Transactions and calldata (apps/node/src/eth)\<close>

text \<open>
  What a node sends to a chain when it registers itself: EIP-1559 transactions
  (\<open>tx.rs\<close>) and the calldata of the contract calls (\<open>abi.rs\<close>). Byte arrays of fixed size are
  byte lists whose length is a hypothesis where it matters.

  The references are what the other side does: a reader of type-2 transactions and the ABI
  reader a Solidity contract applies to its calldata. The properties say that both get back
  exactly what the node put in.
\<close>

subsection \<open>EIP-1559 transactions (tx.rs)\<close>

record eip1559 =
  tx_chain_id :: u64
  tx_nonce :: u64
  tx_max_priority :: u128
  tx_max_fee :: u128
  tx_gas_limit :: u64
  tx_to :: "byte list"
  tx_value :: u128
  tx_data :: "byte list"

definition unsigned_items :: "eip1559 \<Rightarrow> byte list list" where
  "unsigned_items t =
     [encode_uint (ucast (tx_chain_id t)), encode_uint (ucast (tx_nonce t)), encode_uint (tx_max_priority t),
      encode_uint (tx_max_fee t), encode_uint (ucast (tx_gas_limit t)), encode_bytes (tx_to t),
      encode_uint (tx_value t), encode_bytes (tx_data t), encode_list []]"

definition signing_payload :: "eip1559 \<Rightarrow> byte list" where
  "signing_payload t = 2 # encode_list (unsigned_items t)"

definition signing_hash :: "rust_prims \<Rightarrow> eip1559 \<Rightarrow> byte list" where
  "signing_hash p t = sha3_keccak p (signing_payload t)"

text \<open>A number without leading zeros; of zeros only, the last is kept.\<close>

definition strip_leading_zeros_uint :: "byte list \<Rightarrow> byte list" where
  "strip_leading_zeros_uint bytes =
     encode_bytes (if list_all (\<lambda>b. b = 0) bytes then drop (length bytes - 1) bytes else strip_zeros bytes)"

definition encode_signed :: "eip1559 \<Rightarrow> byte list \<Rightarrow> byte list" where
  "encode_signed t sig =
     2 # encode_list (unsigned_items t @
       [encode_uint (ucast (sig ! 64)), strip_leading_zeros_uint (take 32 sig),
        strip_leading_zeros_uint (take 32 (drop 32 sig))])"

definition sign_eth_tx_digest :: "rust_prims \<Rightarrow> byte list \<Rightarrow> byte list \<Rightarrow> byte list" where
  "sign_eth_tx_digest p seed digest = (let (sig, recid) = k_sign p seed digest in sig @ [of_nat recid])"

definition sign_tx :: "rust_prims \<Rightarrow> byte list \<Rightarrow> eip1559 \<Rightarrow> byte list" where
  "sign_tx p seed t = encode_signed t (sign_eth_tx_digest p seed (signing_hash p t))"

subsection \<open>Reading a transaction\<close>

definition read_tx :: "byte list \<Rightarrow> (eip1559 \<times> rlp list) option" where
  "read_tx bs =
     (if take 1 bs \<noteq> [2] then None
      else case rlp_decode (drop 1 bs) of
        Some (RList (RBytes c # RBytes n # RBytes pf # RBytes mf # RBytes g # RBytes dst # RBytes v # RBytes d # RList [] # sigs)) \<Rightarrow>
          Some (\<lparr>tx_chain_id = word_of_int (be_val c), tx_nonce = word_of_int (be_val n),
                 tx_max_priority = word_of_int (be_val pf), tx_max_fee = word_of_int (be_val mf),
                 tx_gas_limit = word_of_int (be_val g), tx_to = dst, tx_value = word_of_int (be_val v), tx_data = d\<rparr>, sigs)
      | _ \<Rightarrow> None)"

definition uint_item :: "u128 \<Rightarrow> rlp" where
  "uint_item v = RBytes (strip_zeros (be_spec 16 (uint v)))"

definition tx_items :: "eip1559 \<Rightarrow> rlp list" where
  "tx_items t =
     [uint_item (ucast (tx_chain_id t)), uint_item (ucast (tx_nonce t)), uint_item (tx_max_priority t),
      uint_item (tx_max_fee t), uint_item (ucast (tx_gas_limit t)), RBytes (tx_to t),
      uint_item (tx_value t), RBytes (tx_data t), RList []]"

definition stripped :: "byte list \<Rightarrow> byte list" where
  "stripped bytes = (if list_all (\<lambda>b. b = 0) bytes then drop (length bytes - 1) bytes else strip_zeros bytes)"

lemma unsigned_items_enc: "unsigned_items t = map rlp_enc (tx_items t)"
  by (simp add: unsigned_items_def tx_items_def uint_item_def encode_uint_enc)

lemma strip_leading_enc: "strip_leading_zeros_uint bytes = rlp_enc (RBytes (stripped bytes))"
  by (simp add: strip_leading_zeros_uint_def stripped_def)

lemma length_encode_length: "len < 2 ^ 64 \<Longrightarrow> length (encode_length len off) \<le> 9"
  using length_strip [of "be_spec 8 (int len)"] by (auto simp: encode_length_def Let_def)

lemma length_encode_bytes: "length b < 2 ^ 64 \<Longrightarrow> length (encode_bytes b) \<le> length b + 9"
  using length_encode_length [of "length b" "0x80"] by (auto simp: encode_bytes_cases)

lemma length_stripped: "length (stripped bytes) \<le> length bytes"
  by (simp add: stripped_def length_strip)

lemma be_val_zeros: "list_all (\<lambda>b. b = 0) bs \<Longrightarrow> be_val bs = 0"
  by (induction bs) (auto simp: be_val_def)

lemma be_val_stripped_sig: "be_val (stripped bytes) = be_val bytes"
proof (cases "list_all (\<lambda>b. b = 0) bytes")
  case True
  then have "list_all (\<lambda>b. b = 0) (drop (length bytes - 1) bytes)" by (auto simp: list_all_iff dest: in_set_dropD)
  with True show ?thesis by (simp add: stripped_def be_val_zeros)
next
  case False
  then show ?thesis by (simp add: stripped_def)
qed

lemma uint_item_facts:
  "rlp_fits (uint_item v)" "length (rlp_enc (uint_item v)) \<le> 25"
  "\<exists>b. uint_item v = RBytes b \<and> be_val b = uint v"
proof -
  have l: "length (strip_zeros (be_spec 16 (uint v))) \<le> 16" by (rule short_strip)
  then show "rlp_fits (uint_item v)" by (simp add: uint_item_def)
  show "length (rlp_enc (uint_item v)) \<le> 25"
    using l length_encode_bytes [of "strip_zeros (be_spec 16 (uint v))"] by (simp add: uint_item_def)
  show "\<exists>b. uint_item v = RBytes b \<and> be_val b = uint v" by (simp only: uint_item_def rlp.inject uint_read_back ex_simps simp_thms)
qed

lemma uint_item_word:
  "word_of_int (be_val (strip_zeros (be_spec 16 (uint (v :: u128))))) = v"
  "word_of_int (be_val (strip_zeros (be_spec 16 (uint (ucast (w :: u64) :: u128))))) = w"
proof -
  show "word_of_int (be_val (strip_zeros (be_spec 16 (uint v)))) = v" by (simp only: uint_read_back word_of_int_uint)
  have w: "uint (ucast w :: u128) = uint w" by (rule uint_up_ucast) (simp add: is_up)
  show "word_of_int (be_val (strip_zeros (be_spec 16 (uint (ucast w :: u128))))) = w"
    unfolding uint_read_back unfolding w by (rule word_of_int_uint)
qed

lemma tx_items_fit:
  assumes "length (tx_to t) = 20" "length (tx_data t) < 2 ^ 63" "list_all rlp_fits sigs"
    and "length (concat (map rlp_enc sigs)) < 2 ^ 32"
  shows "rlp_fits (RList (tx_items t @ sigs))"
proof -
  have 1: "length (rlp_enc (RBytes (tx_to t))) \<le> 29" "length (rlp_enc (RBytes (tx_data t))) \<le> length (tx_data t) + 9"
    using length_encode_bytes [of "tx_to t"] length_encode_bytes [of "tx_data t"] assms(1,2) by simp_all
  have 2: "length (rlp_enc (RList [])) = 1" by (simp add: encode_list_def encode_length_def)
  have "length (concat (map rlp_enc (tx_items t))) \<le> 25 * 6 + 29 + (length (tx_data t) + 9) + 1"
    using uint_item_facts(2) [of "ucast (tx_chain_id t)"] uint_item_facts(2) [of "ucast (tx_nonce t)"]
      uint_item_facts(2) [of "tx_max_priority t"] uint_item_facts(2) [of "tx_max_fee t"]
      uint_item_facts(2) [of "ucast (tx_gas_limit t)"] uint_item_facts(2) [of "tx_value t"] 1 2
    by (simp add: tx_items_def del: rlp_enc.simps)
  moreover have "list_all rlp_fits (tx_items t)"
    using assms(1,2) by (simp add: tx_items_def uint_item_facts)
  ultimately show ?thesis using assms(2-4) by simp
qed

lemma read_tx_enc:
  assumes "rlp_fits (RList (tx_items t @ sigs))"
  shows "read_tx (2 # rlp_enc (RList (tx_items t @ sigs))) = Some (t, sigs)"
  using rlp_decode_enc [OF assms]
  by (simp add: read_tx_def tx_items_def uint_item_def uint_item_word del: rlp_enc.simps be_val_strip rlp_fits.simps)

lemma signing_payload_enc: "signing_payload t = 2 # rlp_enc (RList (tx_items t @ []))"
  by (simp add: signing_payload_def unsigned_items_enc del: map_map)

definition sig_items :: "byte list \<Rightarrow> rlp list" where
  "sig_items sig = [uint_item (ucast (sig ! 64)), RBytes (stripped (take 32 sig)), RBytes (stripped (take 32 (drop 32 sig)))]"

lemma encode_signed_enc: "encode_signed t sig = 2 # rlp_enc (RList (tx_items t @ sig_items sig))"
  by (simp add: encode_signed_def sig_items_def unsigned_items_enc strip_leading_enc uint_item_def encode_uint_enc del: map_map)

lemma sig_items_fit:
  assumes "length sig = 65"
  shows "list_all rlp_fits (sig_items sig)" "length (concat (map rlp_enc (sig_items sig))) < 2 ^ 32"
proof -
  have l: "length (stripped (take 32 sig)) \<le> 32" "length (stripped (take 32 (drop 32 sig))) \<le> 32"
    using length_stripped [of "take 32 sig"] length_stripped [of "take 32 (drop 32 sig)"] assms by simp_all
  then show "list_all rlp_fits (sig_items sig)" by (simp add: sig_items_def uint_item_facts)
  show "length (concat (map rlp_enc (sig_items sig))) < 2 ^ 32"
    using l length_encode_bytes [of "stripped (take 32 sig)"] length_encode_bytes [of "stripped (take 32 (drop 32 sig))"]
      uint_item_facts(2) [of "ucast (sig ! 64)"]
    by (simp add: sig_items_def)
qed

subsection \<open>Property: the transaction that is signed is the one that is sent\<close>

text \<open>C15. A reader of type-2 transactions gets back every field of the transaction, from the payload
  that is hashed for signing and from the signed bytes that are sent, with the signature's parity,
  r and s as numbers; so two transactions with the same signing payload are the same, and a
  signature cannot be moved to another destination, value, nonce, chain or calldata.\<close>

theorem signed_tx_read_back:
  assumes "length (tx_to t) = 20" and "length (tx_data t) < 2 ^ 63" and "length sig = 65"
  shows "read_tx (signing_payload t) = Some (t, []) \<and>
    (\<exists>v r s. read_tx (encode_signed t sig) = Some (t, [RBytes v, RBytes r, RBytes s]) \<and>
       be_val v = uint (sig ! 64) \<and> be_val r = be_val (take 32 sig) \<and> be_val s = be_val (take 32 (drop 32 sig))) \<and>
    (length (tx_to t') = 20 \<and> length (tx_data t') < 2 ^ 63 \<and> signing_payload t = signing_payload t' \<longrightarrow> t = t')"
proof -
  have payload: "read_tx (signing_payload u) = Some (u, [])" if "length (tx_to u) = 20" "length (tx_data u) < 2 ^ 63" for u
    unfolding signing_payload_enc by (rule read_tx_enc [OF tx_items_fit]) (use that in simp_all)
  have signed: "read_tx (encode_signed t sig) = Some (t, sig_items sig)"
    unfolding encode_signed_enc by (rule read_tx_enc [OF tx_items_fit]) (use assms sig_items_fit in simp_all)
  have "uint (ucast (sig ! 64) :: u128) = uint (sig ! 64)" by (rule uint_up_ucast) (simp add: is_up)
  with uint_item_facts(3) [of "ucast (sig ! 64)"]
  obtain v where v: "uint_item (ucast (sig ! 64)) = RBytes v" "be_val v = uint (sig ! 64)" by metis
  have "\<exists>v r s. read_tx (encode_signed t sig) = Some (t, [RBytes v, RBytes r, RBytes s]) \<and>
      be_val v = uint (sig ! 64) \<and> be_val r = be_val (take 32 sig) \<and> be_val s = be_val (take 32 (drop 32 sig))"
    using signed unfolding sig_items_def v(1) using v(2) be_val_stripped_sig by blast
  moreover have "t = t'" if "length (tx_to t') = 20 \<and> length (tx_data t') < 2 ^ 63 \<and> signing_payload t = signing_payload t'"
    using payload [OF assms(1,2)] payload [of t'] that by (metis option.inject prod.inject)
  ultimately show ?thesis using payload [OF assms(1,2)] by blast
qed

definition demo_tx :: eip1559 where
  "demo_tx = \<lparr>tx_chain_id = 84532, tx_nonce = 7, tx_max_priority = 1500000000, tx_max_fee = 30000000000,
     tx_gas_limit = 100000, tx_to = replicate 20 0x22, tx_value = 0, tx_data = [0xde, 0xad, 0xbe, 0xef]\<rparr>"

theorem signed_tx_read_back_witness:
  "read_tx (signing_payload demo_tx) = Some (demo_tx, []) \<and>
   (\<exists>v r s. read_tx (encode_signed demo_tx (replicate 64 0 @ [1])) = Some (demo_tx, [RBytes v, RBytes r, RBytes s]) \<and> be_val v = 1) \<and>
   signing_payload demo_tx \<noteq> signing_payload (demo_tx\<lparr>tx_value := 1\<rparr>)"
proof -
  have "length (tx_to demo_tx) = 20" "length (tx_data demo_tx) < 2 ^ 63" "length (replicate 64 0 @ [1 :: byte]) = 65"
    by (simp_all add: demo_tx_def)
  from signed_tx_read_back [OF this, of "demo_tx\<lparr>tx_value := 1\<rparr>"] show ?thesis
    by (auto simp: demo_tx_def nth_append)
qed

end
