(* ===== verification/AutoRegister.thy ===== *)
theory AutoRegister
  imports EthTx Registry Coordinator
begin

section \<open>Registration on start (apps/node/src/eth/abi.rs, registry.rs, rpc.rs)\<close>

text \<open>
  A node that starts with a chain asks the registry whether it is active and otherwise sends two
  transactions, \<open>approve\<close> on the token and \<open>register\<close> on the registry, waiting for each to be
  mined. Calldata is written by \<open>abi.rs\<close>; the reference is the ABI reader in front of the
  functions of \<open>NodeRegistry.sol\<close>. The JSON-RPC server, HTTP, JSON text and time are the fields
  of \<open>rpc_env\<close>, over a world that each call may change; an error is the chain of its contexts,
  outermost first. The waiting loop takes fuel, and running out of it is \<open>None\<close>.
\<close>

subsection \<open>Calldata (abi.rs)\<close>

definition pad_left :: "byte list \<Rightarrow> byte list" where
  "pad_left bytes = splice bytes (32 - length bytes) (replicate 32 0)"

definition abi_encode_address :: "byte list \<Rightarrow> byte list" where
  "abi_encode_address addr = pad_left addr"

definition abi_encode_uint :: "u128 \<Rightarrow> byte list" where
  "abi_encode_uint value = pad_left (be_spec 16 (uint value))"

definition encode_string :: "string \<Rightarrow> byte list" where
  "encode_string s =
     (let bytes = utf8 s in
      abi_encode_uint (of_nat (length bytes)) @ bytes @ replicate ((32 - length bytes mod 32) mod 32) 0)"

definition encode_approve :: "rust_prims \<Rightarrow> byte list \<Rightarrow> byte list \<Rightarrow> byte list" where
  "encode_approve p spender amount = selector p ''approve(address,uint256)'' @ abi_encode_address spender @ amount"

definition encode_is_active :: "rust_prims \<Rightarrow> byte list \<Rightarrow> byte list" where
  "encode_is_active p node = selector p ''isActive(address)'' @ abi_encode_address node"

definition encode_register ::
  "rust_prims \<Rightarrow> string \<Rightarrow> byte list \<Rightarrow> byte \<Rightarrow> u64 \<Rightarrow> byte list list \<Rightarrow> byte list \<Rightarrow> byte list" where
  "encode_register p u ecdh bitmap max_tokens prices stake =
     selector p ''register(string,bytes32,uint8,uint64,uint256[4],uint256)'' @ abi_encode_uint (9 * 32) @ ecdh @
     abi_encode_uint (ucast bitmap) @ abi_encode_uint (ucast max_tokens) @ concat prices @ stake @ encode_string u"

definition encode_update ::
  "rust_prims \<Rightarrow> string \<Rightarrow> byte list \<Rightarrow> byte \<Rightarrow> u64 \<Rightarrow> byte list list \<Rightarrow> byte list" where
  "encode_update p u ecdh bitmap max_tokens prices =
     selector p ''update(string,bytes32,uint8,uint64,uint256[4])'' @ abi_encode_uint (8 * 32) @ ecdh @
     abi_encode_uint (ucast bitmap) @ abi_encode_uint (ucast max_tokens) @ concat prices @ encode_string u"

definition decode_bool :: "byte list \<Rightarrow> bool" where
  "decode_bool out \<longleftrightarrow> 32 \<le> length out \<and> out ! 31 \<noteq> 0"

subsection \<open>What the node puts in (registry.rs)\<close>

fun backend_tag :: "backend_type \<Rightarrow> nat" where
  "backend_tag MockTee = 0"
| "backend_tag Fhe = 1"
| "backend_tag Mcp = 2"
| "backend_tag Local = 3"

definition u256_from_u128 :: "u128 \<Rightarrow> byte list" where
  "u256_from_u128 v = splice (be_spec 16 (uint v)) 16 (replicate 32 0)"

definition pricing_step :: "backend_price \<Rightarrow> byte list list \<Rightarrow> string list + byte list list" where
  "pricing_step q out =
     (case parse_u128 (bp_pricePer1k q) of
        None \<Rightarrow> Inl [''invalid price_per_1k: '' @ bp_pricePer1k q]
      | Some units \<Rightarrow>
          let i = backend_tag (bp_backend q) in Inr (out[i := splice (be_spec 16 (uint units)) 16 (out ! i)]))"

definition pricing_to_array :: "backend_price list \<Rightarrow> string list + byte list list" where
  "pricing_to_array prices = foldl (\<lambda>r q. rbind r (pricing_step q)) (Inr (replicate 4 (replicate 32 0))) prices"

definition backend_bitmap :: "backend_type list \<Rightarrow> byte" where
  "backend_bitmap bs = foldl (\<lambda>bm b. or bm (push_bit (backend_tag b) 1)) 0 bs"

record register_params =
  rp_rpc_url :: string
  rp_chain_id :: u64
  rp_usdc :: "byte list"
  rp_registry :: "byte list"
  rp_url :: string
  rp_ecdh :: "byte list"
  rp_bitmap :: byte
  rp_max_tokens :: u64
  rp_prices :: "byte list list"
  rp_stake :: "byte list"

text \<open>\<open>spawn_register\<close> up to the task it spawns; \<open>Inl\<close> is the warning it logs instead.
  \<open>stake_env\<close> is \<open>FLDX_NODE_STAKE\<close>.\<close>

definition read_stake :: "string option \<Rightarrow> u128" where
  "read_stake stake_env = (case Option.bind stake_env parse_u128 of None \<Rightarrow> 100000000 | Some v \<Rightarrow> v)"

definition spawn_register ::
  "rust_prims \<Rightarrow> u64 \<Rightarrow> string \<Rightarrow> string \<Rightarrow> string \<Rightarrow> string \<Rightarrow> byte list \<Rightarrow> backend_type list \<Rightarrow> 32 word
   \<Rightarrow> backend_price list \<Rightarrow> string option \<Rightarrow> string list + register_params" where
  "spawn_register p chain_id rpc usdc_hex registry_hex u ecdh bs max_tokens prices stake_env =
     (case parse_addr p usdc_hex of
        Inl e \<Rightarrow> Inl [''auto-register skipped'', ''bad USDC address '' @ usdc_hex, e]
      | Inr usdc \<Rightarrow>
     (case parse_addr p registry_hex of
        Inl e \<Rightarrow> Inl [''auto-register skipped'', ''bad registry address '' @ registry_hex, e]
      | Inr reg \<Rightarrow>
     (case pricing_to_array prices of
        Inl e \<Rightarrow> Inl (''auto-register skipped'' # ''invalid pricing'' # e)
      | Inr arr \<Rightarrow>
          Inr \<lparr>rp_rpc_url = rpc, rp_chain_id = chain_id, rp_usdc = usdc, rp_registry = reg, rp_url = u,
            rp_ecdh = ecdh, rp_bitmap = backend_bitmap bs, rp_max_tokens = ucast max_tokens, rp_prices = arr,
            rp_stake = u256_from_u128 (read_stake stake_env)\<rparr>)))"

subsection \<open>The contract's side of the calldata\<close>

text \<open>The ABI reader: the head is one slot per static word, a string is found at the offset its slot
  holds; a narrow integer with dirty high bytes, or an argument past the end, reverts (\<open>None\<close>).\<close>

definition abi_word :: "nat \<Rightarrow> byte list \<Rightarrow> byte list" where
  "abi_word k args = take 32 (drop (32 * k) args)"

definition abi_nat :: "nat \<Rightarrow> byte list \<Rightarrow> nat" where
  "abi_nat k args = nat (be_val (abi_word k args))"

definition abi_string :: "nat \<Rightarrow> byte list \<Rightarrow> string option" where
  "abi_string k args =
     (let off = abi_nat k args; len = nat (be_val (take 32 (drop off args))) in
      if length args < off + 32 + len then None else Some (utf8_decode (take len (drop (off + 32) args))))"

definition registry_call :: "rust_prims \<Rightarrow> tx_env \<Rightarrow> byte list \<Rightarrow> reg_state \<Rightarrow> (reg_error + reg_state) option" where
  "registry_call p env data s =
     (let args = drop 4 data; u = abi_string 0 args in
      if length args < 256 \<or> u = None \<or> 2 ^ 8 \<le> abi_nat 2 args \<or> 2 ^ 64 \<le> abi_nat 3 args then None
      else let prices = map (\<lambda>k. of_nat (abi_nat k args)) [4, 5, 6, 7] in
        if take 4 data = selector p ''register(string,bytes32,uint8,uint64,uint256[4],uint256)'' then
          (if length args < 288 then None
           else Some (register env (the u) (abi_word 1 args) (of_nat (abi_nat 2 args)) (of_nat (abi_nat 3 args)) prices
             (of_nat (abi_nat 8 args)) s))
        else if take 4 data = selector p ''update(string,bytes32,uint8,uint64,uint256[4])'' then
          Some (update_node env (the u) (abi_word 1 args) (of_nat (abi_nat 2 args)) (of_nat (abi_nat 3 args)) prices s)
        else None)"

definition registry_view :: "rust_prims \<Rightarrow> byte list \<Rightarrow> reg_state \<Rightarrow> byte list option" where
  "registry_view p data s =
     (let args = drop 4 data in
      if take 4 data \<noteq> selector p ''isActive(address)'' \<or> length args < 32 \<or> 2 ^ 160 \<le> abi_nat 0 args then None
      else Some (be_spec 32 (if isActive s (of_nat (abi_nat 0 args)) then 1 else 0)))"

subsection \<open>Facts: calldata\<close>

lemma pad_left_eq: "length bytes \<le> 32 \<Longrightarrow> pad_left bytes = replicate (32 - length bytes) 0 @ bytes"
  by (simp add: pad_left_def splice_def)

lemma abi_encode_uint_eq: "abi_encode_uint v = be_spec 32 (uint v)"
proof -
  have "uint v < 2 ^ 128" using unsigned_less [of v] by simp
  then show ?thesis using abi_u256_small [of "uint v" 16] by (simp add: abi_encode_uint_def pad_left_eq)
qed

lemma abi_encode_address_eq: "length a = 20 \<Longrightarrow> abi_encode_address a = replicate 12 0 @ a"
  by (simp add: abi_encode_address_def pad_left_eq)

lemma u256_from_u128_eq: "u256_from_u128 v = be_spec 32 (uint v)"
proof -
  have "uint v < 2 ^ 128" using unsigned_less [of v] by simp
  then show ?thesis using abi_u256_small [of "uint v" 16] by (simp add: u256_from_u128_def splice_def)
qed

lemma length_calldata [simp]:
  "length (abi_encode_uint v) = 32" "length (u256_from_u128 v) = 32"
  by (simp_all add: abi_encode_uint_eq u256_from_u128_eq)

lemma be_val_slot: "be_val (be_spec 32 (uint (v :: u128))) = uint v"
proof -
  have "uint v < 2 ^ 128" using unsigned_less [of v] by simp
  then have "uint v < 256 ^ 32" by simp
  then show ?thesis by (simp add: be_val_be_spec)
qed

lemma abi_word_skip [simp]:
  "length x = 32 \<Longrightarrow> abi_word 0 (x @ r) = x"
  "length x = 32 \<Longrightarrow> abi_word (Suc k) (x @ r) = abi_word k r"
  by (simp_all add: abi_word_def)

lemma length_words: "list_all (\<lambda>w. length w = 32) ws \<Longrightarrow> length (concat ws) = 32 * length ws"
  by (induction ws) auto

lemma abi_word_concat:
  "list_all (\<lambda>w. length w = 32) ws \<Longrightarrow> k < length ws \<Longrightarrow> abi_word k (concat ws @ r) = ws ! k"
proof (induction ws arbitrary: k)
  case (Cons w ws)
  then show ?case by (cases k) simp_all
qed simp

lemma uint_of_nat_small: "n < 2 ^ 128 \<Longrightarrow> uint (of_nat n :: u128) = int n"
  by (simp add: unsigned_of_nat take_bit_nat_eq_self)

lemma abi_string_read:
  assumes ws: "list_all (\<lambda>w. length w = 32) ws" "k < length ws" "ws ! k = abi_encode_uint (of_nat (32 * length ws))"
    and bounds: "32 * length ws < 2 ^ 128" "length u < 2 ^ 128"
  shows "abi_string k (concat ws @ encode_string u) = Some u"
proof -
  let ?tail = "encode_string u"
  have off: "abi_nat k (concat ws @ ?tail) = 32 * length ws"
    unfolding abi_nat_def abi_word_concat [OF ws(1,2)] ws(3) unfolding abi_encode_uint_eq be_val_slot
    using uint_of_nat_small [OF bounds(1)] by simp
  have d: "drop (32 * length ws) (concat ws @ ?tail) = ?tail" "drop (32 * length ws + 32) (concat ws @ ?tail) = drop 32 ?tail"
    using length_words [OF ws(1)] by simp_all
  have l: "length (utf8 u) = length u" by (simp add: utf8_def)
  have len: "nat (be_val (take 32 ?tail)) = length u"
  proof -
    have "take 32 ?tail = be_spec 32 (uint (of_nat (length u) :: u128))" by (simp add: encode_string_def Let_def l abi_encode_uint_eq)
    then have "be_val (take 32 ?tail) = uint (of_nat (length u) :: u128)" by (simp only: be_val_slot)
    then show ?thesis by (simp only: uint_of_nat_small [OF bounds(2)] nat_int)
  qed
  have "take (length u) (drop 32 ?tail) = utf8 u" "32 + length u \<le> length ?tail"
    by (simp_all add: encode_string_def Let_def l)
  then show ?thesis
    unfolding abi_string_def Let_def off d len using length_words [OF ws(1)] by simp
qed

subsection \<open>Facts: prices and backends\<close>

lemma or_push_bit: "bit (foldl (\<lambda>bm b. or bm (push_bit (backend_tag b) 1)) (bm :: byte) bs) n
    \<longleftrightarrow> bit bm n \<or> (n < 8 \<and> (\<exists>b\<in>set bs. backend_tag b = n))"
proof (induction bs arbitrary: bm)
  case (Cons b bs)
  have "bit (push_bit (backend_tag b) (1 :: byte)) n \<longleftrightarrow> n < 8 \<and> backend_tag b = n"
    by (auto simp: bit_exp_iff)
  then show ?case by (auto simp: Cons.IH bit_or_iff simp del: push_bit_of_1)
qed simp

lemma backend_tag_inject: "backend_tag a = backend_tag b \<longleftrightarrow> a = b"
  by (cases a; cases b) simp_all

lemma backend_tag_bound: "backend_tag b < 4"
  by (cases b) simp_all

lemma backend_bitmap_bit: "bit (backend_bitmap bs) (backend_tag b) \<longleftrightarrow> b \<in> set bs"
  using backend_tag_bound [of b] by (auto simp: backend_bitmap_def or_push_bit backend_tag_inject simp del: push_bit_of_1)

lemma bit_mask_test: "and (w :: byte) (push_bit n 1) \<noteq> 0 \<longleftrightarrow> bit w n"
proof
  assume "bit w n"
  then have "bit (and w (push_bit n 1)) n" using bit_imp_le_length [of w n] by (simp add: bit_and_iff bit_exp_iff)
  then show "and w (push_bit n 1) \<noteq> 0" by auto
next
  assume "and w (push_bit n 1) \<noteq> 0"
  then obtain k where "bit (and w (push_bit n 1)) k" using bit_eqI [of "and w (push_bit n 1)" 0] by auto
  then have "bit w k" "bit (push_bit n (1 :: byte)) k" by (simp_all add: bit_and_iff)
  then show "bit w n" by (auto simp: bit_exp_iff)
qed

definition prices_ok :: "(backend_type \<Rightarrow> u128) \<Rightarrow> byte list list \<Rightarrow> bool" where
  "prices_ok f out \<longleftrightarrow> length out = 4 \<and> (\<forall>b. out ! backend_tag b = u256_from_u128 (f b))"

lemma pricing_step_ok:
  assumes "prices_ok f out" "parse_u128 (bp_pricePer1k q) = Some v"
  shows "\<exists>out'. pricing_step q out = Inr out' \<and> prices_ok (f(bp_backend q := v)) out'"
proof -
  let ?i = "backend_tag (bp_backend q)"
  have "out ! ?i = be_spec 32 (uint (f (bp_backend q)))" using assms(1) by (simp add: prices_ok_def u256_from_u128_eq)
  moreover have "be_spec 32 (uint (f (bp_backend q))) = replicate 16 0 @ be_spec 16 (uint (f (bp_backend q)))"
  proof -
    have "uint (f (bp_backend q)) < 2 ^ 128" using unsigned_less [of "f (bp_backend q)"] by simp
    then show ?thesis using abi_u256_small [of "uint (f (bp_backend q))" 16] by simp
  qed
  ultimately have "splice (be_spec 16 (uint v)) 16 (out ! ?i) = u256_from_u128 v" by (simp add: splice_def u256_from_u128_def)
  with assms backend_tag_bound [of "bp_backend q"] show ?thesis
    by (auto simp: pricing_step_def prices_ok_def nth_list_update backend_tag_inject)
qed

lemma pricing_fold_ok:
  assumes "prices_ok f out" "list_all (\<lambda>q. parse_u128 (bp_pricePer1k q) \<noteq> None) qs"
  shows "\<exists>out'. foldl (\<lambda>r q. rbind r (pricing_step q)) (Inr out) qs = Inr out' \<and>
    prices_ok (foldl (\<lambda>f q. f(bp_backend q := the (parse_u128 (bp_pricePer1k q)))) f qs) out'"
  using assms
proof (induction qs arbitrary: f out)
  case (Cons q qs)
  then obtain v where v: "parse_u128 (bp_pricePer1k q) = Some v" by auto
  from pricing_step_ok [OF Cons.prems(1) v] obtain o1
    where "pricing_step q out = Inr o1" "prices_ok (f(bp_backend q := v)) o1" by blast
  with Cons.IH [of "f(bp_backend q := v)" o1] Cons.prems(2) v show ?case by (simp del: fun_upd_apply)
qed simp

lemma prices_ok_zero: "prices_ok (\<lambda>_. 0) (replicate 4 (replicate 32 0))"
  using backend_tag_bound by (auto simp: prices_ok_def u256_from_u128_eq be_spec_0)

text \<open>The prices of \<open>read_pricing\<close> parse, and a backend named twice has one price.\<close>

lemma float_as_u128_bound: "float_as_u128 x < 2 ^ 128"
  by (auto simp: float_as_u128_def)

lemma read_pricing_parses:
  "q \<in> set (read_pricing envp bs) \<Longrightarrow> parse_u128 (bp_pricePer1k q) = Some (price_for (read_pricing envp bs) (bp_backend q)) \<and> bp_backend q \<in> set bs"
proof -
  assume q: "q \<in> set (read_pricing envp bs)"
  define pr where "pr b = float_as_u128 ((case envp b of None \<Rightarrow> 0 | Some d \<Rightarrow> d) * 1000000)" for b
  have r: "read_pricing envp bs = map (\<lambda>b. \<lparr>bp_backend = b, bp_pricePer1k = nat_str (pr b)\<rparr>) bs"
    by (simp add: read_pricing_def pr_def)
  have "find (\<lambda>q'. bp_backend q' = b) (read_pricing envp bs) = Some \<lparr>bp_backend = b, bp_pricePer1k = nat_str (pr b)\<rparr>" if "b \<in> set bs" for b
    using that unfolding r by (induction bs) auto
  moreover have "parse_u128 (nat_str (pr b)) = Some (of_nat (pr b))" for b
    by (rule parse_u128_nat_str) (simp only: pr_def float_as_u128_bound)
  ultimately show ?thesis using q unfolding price_for_def r by auto
qed

lemma prices_ok_list: "prices_ok f out \<Longrightarrow> out = map (\<lambda>b. u256_from_u128 (f b)) [MockTee, Fhe, Mcp, Local]"
proof (rule nth_equalityI)
  assume ok: "prices_ok f out"
  then show "length out = length (map (\<lambda>b. u256_from_u128 (f b)) [MockTee, Fhe, Mcp, Local])" by (simp add: prices_ok_def)
  fix i assume "i < length out"
  with ok have "i = backend_tag MockTee \<or> i = backend_tag Fhe \<or> i = backend_tag Mcp \<or> i = backend_tag Local"
    by (auto simp: prices_ok_def)
  moreover have "out ! backend_tag b = u256_from_u128 (f b)" for b using ok by (simp add: prices_ok_def)
  ultimately show "out ! i = map (\<lambda>b. u256_from_u128 (f b)) [MockTee, Fhe, Mcp, Local] ! i"
    by (metis (no_types, lifting) backend_tag.simps list.simps(9) nth_Cons_0 nth_Cons_Suc numeral_2_eq_2 numeral_3_eq_3 One_nat_def)
qed

lemma slot_nat: "abi_nat k args = nat (be_val (abi_word k args))"
  by (simp add: abi_nat_def)

lemma nat_slot: "nat (be_val (be_spec 32 (uint (v :: u128)))) = unat v"
  by (simp only: be_val_slot nat_uint_eq)

lemma ucast_of_unat: "(of_nat (unat v) :: u256) = ucast (v :: u128)"
  by simp

definition register_words :: "byte list \<Rightarrow> byte \<Rightarrow> u64 \<Rightarrow> (backend_type \<Rightarrow> u128) \<Rightarrow> u128 \<Rightarrow> byte list list" where
  "register_words ecdh bm mt f st =
     [abi_encode_uint (9 * 32), ecdh, abi_encode_uint (ucast bm), abi_encode_uint (ucast mt),
      u256_from_u128 (f MockTee), u256_from_u128 (f Fhe), u256_from_u128 (f Mcp), u256_from_u128 (f Local), u256_from_u128 st]"

lemma encode_register_words:
  "prices_ok f arr \<Longrightarrow> encode_register p u ecdh bm mt arr (u256_from_u128 st)
     = selector p ''register(string,bytes32,uint8,uint64,uint256[4],uint256)'' @ concat (register_words ecdh bm mt f st) @ encode_string u"
  by (drule prices_ok_list) (simp add: encode_register_def register_words_def)

lemma unat_narrow: "unat (ucast (b :: byte) :: u128) = unat b" "unat (ucast (w :: u64) :: u128) = unat w"
proof -
  have "uint (ucast b :: u128) = uint b" "uint (ucast w :: u128) = uint w" by (rule uint_up_ucast, simp add: is_up)+
  then show "unat (ucast b :: u128) = unat b" "unat (ucast w :: u128) = unat w" by (simp_all only: unat_eq_nat_uint)
qed

lemma registry_call_register:
  assumes k: "\<And>b. length (sha3_keccak p b) = 32" and e: "length ecdh = 32" and f: "prices_ok f arr" and u: "length u < 2 ^ 128"
  shows "registry_call p env (encode_register p u ecdh bm mt arr (u256_from_u128 st)) s =
    Some (register env u ecdh bm mt (map (\<lambda>b. ucast (f b)) [MockTee, Fhe, Mcp, Local]) (ucast st) s)"
proof -
  let ?sel = "selector p ''register(string,bytes32,uint8,uint64,uint256[4],uint256)''"
  let ?ws = "register_words ecdh bm mt f st" let ?args = "concat ?ws @ encode_string u"
  have ws: "list_all (\<lambda>w. length w = 32) ?ws" "length ?ws = 9" using e by (simp_all add: register_words_def)
  have sel: "length ?sel = 4" by (simp add: selector_def k)
  have w: "abi_word i ?args = ?ws ! i" if "i < 9" for i using abi_word_concat [OF ws(1), of i] that ws(2) by simp
  have str: "abi_string 0 ?args = Some u"
    by (rule abi_string_read [OF ws(1)]) (use ws(2) u in \<open>simp_all add: register_words_def\<close>)
  have n: "abi_nat 2 ?args = unat bm" "abi_nat 3 ?args = unat mt" "abi_nat 4 ?args = unat (f MockTee)"
    "abi_nat 5 ?args = unat (f Fhe)" "abi_nat 6 ?args = unat (f Mcp)" "abi_nat 7 ?args = unat (f Local)"
    "abi_nat 8 ?args = unat st"
    by (simp_all add: slot_nat w, simp_all add: register_words_def abi_encode_uint_eq u256_from_u128_eq nat_slot unat_narrow)
  have l: "288 \<le> length ?args" using length_words [OF ws(1)] ws(2) by simp
  have b: "unat bm < 2 ^ 8" "unat mt < 2 ^ 64" using unsigned_less [of bm] unsigned_less [of mt] by simp_all
  have d: "drop 4 (?sel @ ?args) = ?args" "take 4 (?sel @ ?args) = ?sel" using sel by simp_all
  have e1: "abi_word 1 ?args = ecdh" by (simp add: w) (simp add: register_words_def)
  show ?thesis
    unfolding encode_register_words [OF f] registry_call_def Let_def d str n e1
    using l b by (simp add: n ucast_of_unat e1)
qed

lemma registry_view_active:
  assumes k: "\<And>b. length (sha3_keccak p b) = 32"
  shows "registry_view p (encode_is_active p (address_bytes a)) s = Some (be_spec 32 (if isActive s a then 1 else 0))"
proof -
  let ?sel = "selector p ''isActive(address)''"
  have sel: "length ?sel = 4" by (simp add: selector_def k)
  have e: "abi_encode_address (address_bytes a) = abi_address a" by (simp add: abi_encode_address_eq abi_address_split)
  have "be_val (abi_address a) = uint a"
  proof -
    have "uint a < 2 ^ 160" using unsigned_less [of a] by simp
    then have "uint a < 256 ^ 32" by simp
    then show ?thesis by (simp add: abi_address_def be_val_be_spec)
  qed
  then have n: "abi_nat 0 (abi_address a) = unat a" by (simp add: abi_nat_def abi_word_def)
  have b: "unat a < 2 ^ 160" using unsigned_less [of a] by simp
  have d: "drop 4 (?sel @ abi_address a) = abi_address a" "take 4 (?sel @ abi_address a) = ?sel" using sel by simp_all
  show ?thesis
    unfolding encode_is_active_def e registry_view_def Let_def d n using b by simp
qed

lemma decode_bool_spec: "decode_bool (be_spec 32 1)" "\<not> decode_bool (be_spec 32 0)"
  by (simp_all add: decode_bool_def be_spec_def)

lemma price_updates:
  "(\<And>q. q \<in> set qs \<Longrightarrow> parse_u128 (bp_pricePer1k q) = Some (F (bp_backend q))) \<Longrightarrow>
   foldl (\<lambda>f q. f(bp_backend q := the (parse_u128 (bp_pricePer1k q)))) f qs b = (if b \<in> bp_backend ` set qs then F b else f b)"
  by (induction qs arbitrary: f) auto

lemma read_pricing_array:
  "\<exists>arr. pricing_to_array (read_pricing envp bs) = Inr arr \<and>
     prices_ok (\<lambda>b. if b \<in> set bs then price_for (read_pricing envp bs) b else 0) arr"
proof -
  let ?qs = "read_pricing envp bs"
  have parses: "parse_u128 (bp_pricePer1k q) = Some (price_for ?qs (bp_backend q))" if "q \<in> set ?qs" for q
    using read_pricing_parses [OF that] by simp
  have "bp_backend ` set ?qs = set bs" by (simp add: read_pricing_def image_image)
  then have "foldl (\<lambda>f q. f(bp_backend q := the (parse_u128 (bp_pricePer1k q)))) (\<lambda>_. 0) ?qs
      = (\<lambda>b. if b \<in> set bs then price_for ?qs b else 0)"
    using price_updates [of ?qs "price_for ?qs", OF parses] by (intro ext) simp
  moreover have "list_all (\<lambda>q. parse_u128 (bp_pricePer1k q) \<noteq> None) ?qs" using parses by (simp add: list_all_iff)
  ultimately show ?thesis using pricing_fold_ok [OF prices_ok_zero, of ?qs] by (simp add: pricing_to_array_def)
qed

lemma spawn_register_params:
  assumes "spawn_register p cid rpc uh rh u ecdh bs mt (read_pricing envp bs) stake_env = Inr prm"
  shows "rp_url prm = u" "rp_ecdh prm = ecdh" "rp_bitmap prm = backend_bitmap bs" "rp_max_tokens prm = ucast mt"
    "rp_stake prm = u256_from_u128 (read_stake stake_env)" "rp_chain_id prm = cid"
    "parse_addr p uh = Inr (rp_usdc prm)" "parse_addr p rh = Inr (rp_registry prm)"
    "prices_ok (\<lambda>b. if b \<in> set bs then price_for (read_pricing envp bs) b else 0) (rp_prices prm)"
  using assms read_pricing_array [of envp bs] by (auto simp: spawn_register_def split: sum.splits)

subsection \<open>JSON-RPC (rpc.rs)\<close>

record 'w rpc_env =
  http_post :: "string \<Rightarrow> json \<Rightarrow> 'w \<Rightarrow> (string + nat \<times> (string + string)) \<times> 'w"
  json_read :: "string \<Rightarrow> string + json"
  json_show :: "json \<Rightarrow> string"
  now_ms :: "'w \<Rightarrow> nat"
  sleep_ms :: "nat \<Rightarrow> 'w \<Rightarrow> 'w"

type_synonym ('w, 'a) io = "'w \<Rightarrow> ((string list + 'a) \<times> 'w) option"

definition io_ret :: "'a \<Rightarrow> ('w, 'a) io" where
  "io_ret x w = Some (Inr x, w)"

definition io_fail :: "string list \<Rightarrow> ('w, 'a) io" where
  "io_fail e w = Some (Inl e, w)"

definition io_bind :: "('w, 'a) io \<Rightarrow> ('a \<Rightarrow> ('w, 'b) io) \<Rightarrow> ('w, 'b) io" where
  "io_bind m f w = (case m w of None \<Rightarrow> None | Some (Inl e, w) \<Rightarrow> Some (Inl e, w) | Some (Inr x, w) \<Rightarrow> f x w)"

text \<open>\<open>.context(c)\<close>, \<open>.unwrap_or(d)\<close>, and a result that is already there.\<close>

definition io_context :: "string \<Rightarrow> ('w, 'a) io \<Rightarrow> ('w, 'a) io" where
  "io_context c m w = map_option (\<lambda>(r, w). (case r of Inl e \<Rightarrow> Inl (c # e) | Inr x \<Rightarrow> Inr x, w)) (m w)"

definition io_unwrap_or :: "'a \<Rightarrow> ('w, 'a) io \<Rightarrow> ('w, 'a) io" where
  "io_unwrap_or d m w = map_option (\<lambda>(r, w). (Inr (case r of Inl _ \<Rightarrow> d | Inr x \<Rightarrow> x), w)) (m w)"

definition io_of :: "string list + 'a \<Rightarrow> ('w, 'a) io" where
  "io_of r w = Some (r, w)"

definition rpc_send :: "'w rpc_env \<Rightarrow> string \<Rightarrow> string \<Rightarrow> json list \<Rightarrow> ('w, nat \<times> (string + string)) io" where
  "rpc_send e u meth params w =
     (let (r, w) = http_post e u (JObj [(''jsonrpc'', JStr ''2.0''), (''method'', JStr meth), (''params'', JArr params), (''id'', JNum 1)]) w in
      Some (case r of Inl m \<Rightarrow> Inl [''rpc '' @ meth @ '' POST '' @ u @ '' failed'', m] | Inr resp \<Rightarrow> Inr resp, w))"

definition rpc_reply :: "'w rpc_env \<Rightarrow> string \<Rightarrow> nat \<times> (string + string) \<Rightarrow> string list + json" where
  "rpc_reply e meth resp =
     (case snd resp of
        Inl m \<Rightarrow> Inl [''rpc '' @ meth @ '' body read'', m]
      | Inr body \<Rightarrow>
          if fst resp < 200 \<or> 300 \<le> fst resp then Inl [''rpc '' @ meth @ '' HTTP '' @ nat_str (fst resp) @ '': '' @ body]
          else (case json_read e body of
             Inl m \<Rightarrow> Inl [''rpc '' @ meth @ '' parse: '' @ body, m]
           | Inr v \<Rightarrow>
               (case jget v ''error'' of
                  Some err \<Rightarrow> Inl [''rpc '' @ meth @ '' error: '' @ json_show e err]
                | None \<Rightarrow>
                    (case jget v ''result'' of
                       None \<Rightarrow> Inl [''rpc '' @ meth @ '': no result field in '' @ body]
                     | Some r \<Rightarrow> Inr r))))"

definition rpc_call :: "'w rpc_env \<Rightarrow> string \<Rightarrow> string \<Rightarrow> json list \<Rightarrow> ('w, json) io" where
  "rpc_call e u meth params = io_bind (rpc_send e u meth params) (\<lambda>resp. io_of (rpc_reply e meth resp))"

text \<open>Hexadecimal numbers: \<open>from_str_radix\<close> takes a plus sign, either case, and no overflow.\<close>

fun hex_digits_val :: "nat \<Rightarrow> string \<Rightarrow> nat option" where
  "hex_digits_val acc [] = Some acc"
| "hex_digits_val acc (c # cs) = (case hex_digit c of None \<Rightarrow> None | Some d \<Rightarrow> hex_digits_val (16 * acc + d) cs)"

definition from_str_radix16 :: "nat \<Rightarrow> string \<Rightarrow> nat option" where
  "from_str_radix16 bits s =
     (let body = (case s of c # cs \<Rightarrow> if c = CHR ''+'' then cs else s | [] \<Rightarrow> []) in
      if body = [] then None
      else Option.bind (hex_digits_val 0 body) (\<lambda>n. if n < 2 ^ bits then Some n else None))"

definition parse_hex_u64 :: "string \<Rightarrow> string list + u64" where
  "parse_hex_u64 s =
     (let t = strip_prefix_0x s in
      if t = [] then Inr 0
      else case from_str_radix16 64 t of None \<Rightarrow> Inl [''parse u64 hex: '' @ s] | Some n \<Rightarrow> Inr (of_nat n))"

definition parse_hex_u128 :: "string \<Rightarrow> string list + u128" where
  "parse_hex_u128 s =
     (let t = strip_prefix_0x s in
      if t = [] then Inr 0
      else case from_str_radix16 128 t of None \<Rightarrow> Inl [''parse u128 hex: '' @ s] | Some n \<Rightarrow> Inr (of_nat n))"

definition parse_hex_bytes :: "rust_prims \<Rightarrow> string \<Rightarrow> string list + byte list" where
  "parse_hex_bytes p s = (case hex_decode p (strip_prefix_0x s) of Inl e \<Rightarrow> Inl [''parse bytes hex: '' @ s, e] | Inr b \<Rightarrow> Inr b)"

fun hex_nat :: "nat \<Rightarrow> string" where
  "hex_nat n = (if n < 16 then [hex_char n] else hex_nat (n div 16) @ [hex_char (n mod 16)])"

declare hex_nat.simps [simp del]

definition uint_hex :: "u128 \<Rightarrow> string" where
  "uint_hex v = (if v = 0 then ''0x0'' else ''0x'' @ hex_nat (unat v))"

definition hex_0x :: "rust_prims \<Rightarrow> byte list \<Rightarrow> string" where
  "hex_0x p bytes = ''0x'' @ hex_encode p bytes"

definition str_or :: "string \<Rightarrow> json \<Rightarrow> string list + string" where
  "str_or what v = (case as_str v of None \<Rightarrow> Inl [what @ '': not string''] | Some s \<Rightarrow> Inr s)"

definition rpc_chain_id :: "'w rpc_env \<Rightarrow> string \<Rightarrow> ('w, u64) io" where
  "rpc_chain_id e u = io_bind (rpc_call e u ''eth_chainId'' []) (\<lambda>v. io_of (rbind (str_or ''chainId'' v) parse_hex_u64))"

definition rpc_nonce :: "rust_prims \<Rightarrow> 'w rpc_env \<Rightarrow> string \<Rightarrow> byte list \<Rightarrow> ('w, u64) io" where
  "rpc_nonce p e u addr = io_bind (rpc_call e u ''eth_getTransactionCount'' [JStr (hex_0x p addr), JStr ''pending''])
     (\<lambda>v. io_of (rbind (str_or ''nonce'' v) parse_hex_u64))"

definition rpc_priority_fee :: "'w rpc_env \<Rightarrow> string \<Rightarrow> ('w, u128) io" where
  "rpc_priority_fee e u = io_bind (rpc_call e u ''eth_maxPriorityFeePerGas'' []) (\<lambda>v. io_of (rbind (str_or ''priority fee'' v) parse_hex_u128))"

definition rpc_base_fee :: "'w rpc_env \<Rightarrow> string \<Rightarrow> ('w, u128) io" where
  "rpc_base_fee e u = io_bind (rpc_call e u ''eth_getBlockByNumber'' [JStr ''pending'', JBool False])
     (\<lambda>v. io_of (case Option.bind (jget v ''baseFeePerGas'') as_str of
        None \<Rightarrow> Inl [''pending block has no baseFeePerGas''] | Some s \<Rightarrow> parse_hex_u128 s))"

definition rpc_estimate_gas :: "rust_prims \<Rightarrow> 'w rpc_env \<Rightarrow> string \<Rightarrow> byte list \<Rightarrow> byte list \<Rightarrow> byte list \<Rightarrow> u128 \<Rightarrow> ('w, u64) io" where
  "rpc_estimate_gas p e u from_addr to_addr data value =
     io_bind (rpc_call e u ''eth_estimateGas'' [JObj [(''from'', JStr (hex_0x p from_addr)), (''to'', JStr (hex_0x p to_addr)),
         (''data'', JStr (hex_0x p data)), (''value'', JStr (uint_hex value))]])
       (\<lambda>v. io_of (rbind (str_or ''estimate_gas'' v) parse_hex_u64))"

definition rpc_eth_call :: "rust_prims \<Rightarrow> 'w rpc_env \<Rightarrow> string \<Rightarrow> byte list \<Rightarrow> byte list \<Rightarrow> byte list option \<Rightarrow> ('w, byte list) io" where
  "rpc_eth_call p e u to_addr data from_addr =
     io_bind (rpc_call e u ''eth_call'' [JObj ([(''to'', JStr (hex_0x p to_addr)), (''data'', JStr (hex_0x p data))] @
         (case from_addr of None \<Rightarrow> [] | Some f \<Rightarrow> [(''from'', JStr (hex_0x p f))])), JStr ''latest''])
       (\<lambda>v. io_of (rbind (str_or ''eth_call'' v) (parse_hex_bytes p)))"

definition rpc_send_raw :: "rust_prims \<Rightarrow> 'w rpc_env \<Rightarrow> string \<Rightarrow> byte list \<Rightarrow> ('w, byte list) io" where
  "rpc_send_raw p e u raw =
     io_bind (rpc_call e u ''eth_sendRawTransaction'' [JStr (hex_0x p raw)])
       (\<lambda>v. io_of (rbind (str_or ''send_raw'' v) (\<lambda>s. rbind (parse_hex_bytes p s) (\<lambda>b.
          if length b \<noteq> 32 then Inl [''send_raw: hash not 32 bytes: '' @ s] else Inr b))))"

definition rpc_receipt_status :: "rust_prims \<Rightarrow> 'w rpc_env \<Rightarrow> string \<Rightarrow> byte list \<Rightarrow> ('w, bool option) io" where
  "rpc_receipt_status p e u hash =
     io_bind (rpc_call e u ''eth_getTransactionReceipt'' [JStr (hex_0x p hash)])
       (\<lambda>v. io_of (if v = JNull then Inr None
          else case Option.bind (jget v ''status'') as_str of
                 None \<Rightarrow> Inl [''receipt missing status'']
               | Some s \<Rightarrow> rbind (parse_hex_u64 s) (\<lambda>status. Inr (Some (status = 1)))))"

fun wait_loop :: "rust_prims \<Rightarrow> 'w rpc_env \<Rightarrow> string \<Rightarrow> byte list \<Rightarrow> nat \<Rightarrow> nat \<Rightarrow> nat \<Rightarrow> nat \<Rightarrow> ('w, unit) io" where
  "wait_loop p e u hash poll timeout start 0 = (\<lambda>w. None)"
| "wait_loop p e u hash poll timeout start (Suc n) =
     io_bind (rpc_receipt_status p e u hash) (\<lambda>st.
       case st of
         Some success \<Rightarrow> if success then io_ret () else io_fail [''tx '' @ hex_0x p hash @ '' reverted on-chain'']
       | None \<Rightarrow> (\<lambda>w. if timeout \<le> now_ms e w - start then io_fail [''tx '' @ hex_0x p hash @ '' not mined in time''] w
                     else wait_loop p e u hash poll timeout start n (sleep_ms e poll w)))"

definition wait_for_receipt :: "rust_prims \<Rightarrow> 'w rpc_env \<Rightarrow> nat \<Rightarrow> string \<Rightarrow> byte list \<Rightarrow> nat \<Rightarrow> nat \<Rightarrow> ('w, unit) io" where
  "wait_for_receipt p e fuel u hash poll timeout w = wait_loop p e u hash poll timeout (now_ms e w) fuel w"

subsection \<open>The registration flow (registry.rs)\<close>

definition POLL_INTERVAL :: nat where
  "POLL_INTERVAL = 2000"

definition TX_TIMEOUT :: nat where
  "TX_TIMEOUT = 120000"

definition saturating_mul :: "'a::len word \<Rightarrow> 'a word \<Rightarrow> 'a word" where
  "saturating_mul a b = (if unat a * unat b < 2 ^ LENGTH('a) then a * b else - 1)"

definition send_tx ::
  "rust_prims \<Rightarrow> 'w rpc_env \<Rightarrow> string \<Rightarrow> byte list \<Rightarrow> byte list \<Rightarrow> byte list \<Rightarrow> byte list \<Rightarrow> u64 \<Rightarrow> ('w, byte list) io" where
  "send_tx p e u seed from_addr to_addr data chain_id =
     io_bind (io_context ''nonce'' (rpc_nonce p e u from_addr)) (\<lambda>nonce.
     io_bind (io_unwrap_or 1000000000 (rpc_priority_fee e u)) (\<lambda>priority.
     io_bind (io_context ''base fee'' (rpc_base_fee e u)) (\<lambda>base_fee.
     io_bind (io_context ''estimateGas'' (rpc_estimate_gas p e u from_addr to_addr data 0)) (\<lambda>gas.
       rpc_send_raw p e u (sign_tx p seed
         \<lparr>tx_chain_id = chain_id, tx_nonce = nonce, tx_max_priority = priority,
          tx_max_fee = saturating_add (saturating_mul base_fee 2) priority,
          tx_gas_limit = saturating_mul gas 120 div 100, tx_to = to_addr, tx_value = 0, tx_data = data\<rparr>)))))"

definition register_calldata :: "rust_prims \<Rightarrow> register_params \<Rightarrow> byte list" where
  "register_calldata p prm =
     encode_register p (rp_url prm) (rp_ecdh prm) (rp_bitmap prm) (rp_max_tokens prm) (rp_prices prm) (rp_stake prm)"

definition send_and_wait ::
  "rust_prims \<Rightarrow> 'w rpc_env \<Rightarrow> nat \<Rightarrow> string \<Rightarrow> string \<Rightarrow> byte list \<Rightarrow> byte list \<Rightarrow> byte list \<Rightarrow> u64 \<Rightarrow> ('w, unit) io" where
  "send_and_wait p e fuel what u seed to_addr data chain_id =
     io_bind (io_context (what @ '' tx'') (send_tx p e u seed (eth_address p seed) to_addr data chain_id)) (\<lambda>hash.
       io_context (what @ '' receipt'') (wait_for_receipt p e fuel u hash POLL_INTERVAL TX_TIMEOUT))"

definition ensure_registered :: "rust_prims \<Rightarrow> 'w rpc_env \<Rightarrow> nat \<Rightarrow> byte list \<Rightarrow> register_params \<Rightarrow> ('w, unit) io" where
  "ensure_registered p e fuel seed prm =
     (let u = rp_rpc_url prm; from_addr = eth_address p seed in
      io_bind (io_context (''eth_chainId against '' @ u) (rpc_chain_id e u)) (\<lambda>on_chain_id.
      if on_chain_id \<noteq> rp_chain_id prm
      then io_fail [''RPC chain id mismatch: configured '' @ nat_str (unat (rp_chain_id prm)) @ '' but RPC reports '' @ nat_str (unat on_chain_id)]
      else io_bind (io_context ''isActive(address) eth_call''
               (rpc_eth_call p e u (rp_registry prm) (encode_is_active p from_addr) (Some from_addr))) (\<lambda>out.
        if decode_bool out then io_ret ()
        else io_bind (send_and_wait p e fuel ''approve'' u seed (rp_usdc prm)
                 (encode_approve p (rp_registry prm) (rp_stake prm)) (rp_chain_id prm)) (\<lambda>_.
          send_and_wait p e fuel ''register'' u seed (rp_registry prm) (register_calldata p prm) (rp_chain_id prm)))))"

subsection \<open>Facts: the flow\<close>

definition clock_ok :: "'w rpc_env \<Rightarrow> bool" where
  "clock_ok e \<longleftrightarrow> (\<forall>u b w. now_ms e w \<le> now_ms e (snd (http_post e u b w))) \<and> (\<forall>d w. now_ms e w + d \<le> now_ms e (sleep_ms e d w))"

lemma io_simps [simp]:
  "io_ret x w = Some (Inr x, w)" "io_fail err w = Some (Inl err, w)" "io_of r w = Some (r, w)"
  by (simp_all add: io_ret_def io_fail_def io_of_def)

lemma io_bind_Some:
  "io_bind m f w = Some (Inr x, w') \<longleftrightarrow> (\<exists>y w1. m w = Some (Inr y, w1) \<and> f y w1 = Some (Inr x, w'))"
  by (auto simp: io_bind_def split: option.splits sum.splits)

lemma io_context_Some [simp]: "io_context c m w = Some (Inr x, w') \<longleftrightarrow> m w = Some (Inr x, w')"
proof (cases "m w")
  case (Some rw)
  then show ?thesis by (cases rw; cases "fst rw") (auto simp: io_context_def)
qed (simp add: io_context_def)

lemma io_returns:
  "m w \<noteq> None \<Longrightarrow> (\<And>x w. f x w \<noteq> None) \<Longrightarrow> io_bind m f w \<noteq> None"
  "m w \<noteq> None \<Longrightarrow> io_context c m w \<noteq> None" "m w \<noteq> None \<Longrightarrow> io_unwrap_or d m w \<noteq> None"
  by (auto simp: io_bind_def io_context_def io_unwrap_or_def split: option.splits sum.splits)

lemma io_if: "(b \<Longrightarrow> f w \<noteq> None) \<Longrightarrow> (\<not> b \<Longrightarrow> g w \<noteq> None) \<Longrightarrow> (if b then f else g) w \<noteq> None"
  by simp

lemma rpc_returns:
  "rpc_call e u meth params w \<noteq> None"
  by (simp add: rpc_call_def io_bind_def rpc_send_def Let_def split: prod.splits sum.splits)

lemma rpc_method_returns [simp]:
  "rpc_chain_id e u w \<noteq> None" "rpc_nonce p e u a w \<noteq> None" "rpc_priority_fee e u w \<noteq> None" "rpc_base_fee e u w \<noteq> None"
  "rpc_estimate_gas p e u a b d v w \<noteq> None" "rpc_eth_call p e u a d fr w \<noteq> None" "rpc_send_raw p e u d w \<noteq> None"
  "rpc_receipt_status p e u h w \<noteq> None"
  unfolding rpc_chain_id_def rpc_nonce_def rpc_priority_fee_def rpc_base_fee_def rpc_estimate_gas_def rpc_eth_call_def
    rpc_send_raw_def rpc_receipt_status_def
  by (intro io_returns rpc_returns; simp)+

lemma send_tx_returns: "send_tx p e u seed a b d c w \<noteq> None"
  unfolding send_tx_def by (intro io_returns rpc_method_returns)

lemma rpc_call_world: "rpc_call e u meth params w = Some (r, w') \<Longrightarrow> \<exists>b. w' = snd (http_post e u b w)"
  by (auto simp: rpc_call_def rpc_send_def io_bind_def Let_def case_prod_beta split: sum.splits)

lemma receipt_clock:
  assumes "clock_ok e" "rpc_receipt_status p e u h w = Some (r, w')"
  shows "now_ms e w \<le> now_ms e w'"
proof -
  have "\<exists>b. w' = snd (http_post e u b w)"
    using assms(2) rpc_call_world by (fastforce simp: rpc_receipt_status_def io_bind_def split: option.splits sum.splits)
  with assms(1) show ?thesis by (auto simp: clock_ok_def)
qed

lemma wait_loop_returns:
  assumes "clock_ok e" "0 < poll"
  shows "start \<le> now_ms e w \<Longrightarrow> timeout \<le> (now_ms e w - start) + n * poll \<Longrightarrow> wait_loop p e u h poll timeout start (Suc n) w \<noteq> None"
proof (induction n arbitrary: w)
  case (Suc n)
  obtain r w1 where r: "rpc_receipt_status p e u h w = Some (r, w1)" using rpc_method_returns(8) by fastforce
  have "now_ms e w \<le> now_ms e w1" by (rule receipt_clock [OF assms(1) r])
  moreover have "now_ms e w1 + poll \<le> now_ms e (sleep_ms e poll w1)" using assms(1) by (simp add: clock_ok_def)
  ultimately have t: "timeout \<le> (now_ms e w1 - start) + Suc n * poll" "now_ms e w1 + poll \<le> now_ms e (sleep_ms e poll w1)"
    "start \<le> now_ms e w1" using Suc.prems by linarith+
  have "wait_loop p e u h poll timeout start (Suc n) (sleep_ms e poll w1) \<noteq> None" if "now_ms e w1 - start < timeout"
    by (rule Suc.IH; use t in \<open>simp only: mult_Suc; linarith\<close>)
  then show ?case
    by (subst wait_loop.simps) (auto simp: io_bind_def r split: sum.splits option.splits simp del: wait_loop.simps)
next
  case 0
  obtain r w1 where r: "rpc_receipt_status p e u h w = Some (r, w1)" using rpc_method_returns(8) by fastforce
  have "now_ms e w \<le> now_ms e w1" by (rule receipt_clock [OF assms(1) r])
  with 0 have "timeout \<le> now_ms e w1 - start" by simp
  then show ?case by (auto simp: io_bind_def r split: sum.splits option.splits)
qed

lemma wait_returns: "clock_ok e \<Longrightarrow> 61 \<le> fuel \<Longrightarrow> wait_for_receipt p e fuel u h POLL_INTERVAL TX_TIMEOUT w \<noteq> None"
  using wait_loop_returns [where poll = POLL_INTERVAL and timeout = TX_TIMEOUT and w = w and start = "now_ms e w" and n = "fuel - 1"]
  by (cases fuel) (auto simp: wait_for_receipt_def POLL_INTERVAL_def TX_TIMEOUT_def simp del: wait_loop.simps)

lemma wait_loop_success:
  "wait_loop p e u h poll timeout start n w = Some (Inr (), w') \<Longrightarrow> \<exists>w1. rpc_receipt_status p e u h w1 = Some (Inr (Some True), w')"
proof (induction n arbitrary: w)
  case (Suc n)
  then show ?case by (auto simp: io_bind_Some split: option.splits if_splits)
qed simp

lemma send_and_wait_success:
  assumes "send_and_wait p e fuel what u seed dst d c w = Some (Inr (), w')"
  shows "\<exists>h w1 w2. send_tx p e u seed (eth_address p seed) dst d c w = Some (Inr h, w1) \<and>
    rpc_receipt_status p e u h w2 = Some (Inr (Some True), w')"
  using assms wait_loop_success by (fastforce simp: send_and_wait_def io_bind_Some wait_for_receipt_def)

lemma send_and_wait_returns: "clock_ok e \<Longrightarrow> 61 \<le> fuel \<Longrightarrow> send_and_wait p e fuel what u seed dst d c w \<noteq> None"
  unfolding send_and_wait_def by (intro io_returns send_tx_returns wait_returns)

text \<open>A quantity the node writes is the one the reader of the other direction gets back.\<close>

lemma hex_digits_append: "hex_digits_val acc (xs @ ys) = Option.bind (hex_digits_val acc xs) (\<lambda>a. hex_digits_val a ys)"
  by (induction xs arbitrary: acc) (auto split: option.splits)

lemma hex_digits_hex_nat: "hex_digits_val 0 (hex_nat n) = Some n"
proof (induction n rule: hex_nat.induct)
  case (1 n)
  show ?case
  proof (cases "n < 16")
    case True
    then show ?thesis by (subst hex_nat.simps) (simp add: hex_char_simps)
  next
    case False
    with 1 show ?thesis by (subst hex_nat.simps) (simp add: hex_digits_append hex_char_simps)
  qed
qed

lemma hex_nat_head: "\<exists>d cs. d < 16 \<and> hex_nat n = hex_char d # cs"
proof (induction n rule: hex_nat.induct)
  case (1 n)
  then show ?case by (subst hex_nat.simps) (auto split: if_splits; blast)
qed

lemma parse_uint_hex: "parse_hex_u128 (uint_hex v) = Inr v"
proof (cases "v = 0")
  case False
  obtain d cs where h: "hex_nat (unat v) = hex_char d # cs" "d < 16" using hex_nat_head by blast
  have "unat v < 2 ^ 128" using unsigned_less [of v] by simp
  then have "from_str_radix16 128 (hex_nat (unat v)) = Some (unat v)"
    using hex_digits_hex_nat [of "unat v"] h(2) by (simp add: from_str_radix16_def h(1) hex_char_simps)
  then show ?thesis using False by (simp add: parse_hex_u128_def uint_hex_def h(1))
qed (simp add: uint_hex_def parse_hex_u128_def strip_prefix_0x_def from_str_radix16_def hex_digit_def)

subsection \<open>Property: what is advertised is what is registered\<close>

text \<open>C13. The calldata of the registration transaction makes the contract register exactly what the
  node advertises: for an inactive sender with enough stake the call succeeds, the entry has the
  node's url, key, token limit and stake, the contract's \<open>supportsBackend\<close> is true of exactly the
  backends the node serves, each price is the one the node charges for the backend (and 0 for
  the others), and the answer to the \<open>isActive\<close> query, which the node decodes on its next start,
  changes from false to true.\<close>

theorem registration_advertises:
  assumes "\<And>b. length (sha3_keccak p b) = 32" and "length ecdh = 32" and "length u < 2 ^ 128"
    and "spawn_register p cid rpc uh rh u ecdh bs mt (read_pricing envp bs) stake_env = Inr prm"
    and "\<not> isActive s (msg_sender env)" and "\<And>c. tok_accepts env c" and "minStake s \<le> ucast (read_stake stake_env)"
  shows "\<exists>s'. registry_call p env (register_calldata p prm) s = Some (Inr s') \<and>
    n_url (nodes s' (msg_sender env)) = u \<and> n_ecdhPubkey (nodes s' (msg_sender env)) = ecdh \<and>
    n_maxTokens (nodes s' (msg_sender env)) = ucast mt \<and> n_stake (nodes s' (msg_sender env)) = ucast (read_stake stake_env) \<and>
    r_calls s' = r_calls s @ [TransferFrom (msg_sender env) (ucast (read_stake stake_env))] \<and>
    (\<forall>b. supportsBackend s' (msg_sender env) (backend_tag b) \<longleftrightarrow> b \<in> set bs) \<and>
    (\<forall>b. n_pricePer1k (nodes s' (msg_sender env)) ! backend_tag b =
       (if b \<in> set bs then ucast (price_for (read_pricing envp bs) b) else 0)) \<and>
    map_option decode_bool (registry_view p (encode_is_active p (address_bytes (msg_sender env))) s) = Some False \<and>
    map_option decode_bool (registry_view p (encode_is_active p (address_bytes (msg_sender env))) s') = Some True"
proof -
  let ?a = "msg_sender env"
  let ?f = "\<lambda>b. if b \<in> set bs then price_for (read_pricing envp bs) b else 0"
  define ps :: "u256 list" where "ps = map (\<lambda>b. ucast (?f b)) [MockTee, Fhe, Mcp, Local]"
  note prm = spawn_register_params [OF assms(4)]
  have call: "registry_call p env (register_calldata p prm) s =
      Some (register env u ecdh (backend_bitmap bs) (ucast mt) ps (ucast (read_stake stake_env)) s)"
    unfolding register_calldata_def prm ps_def by (rule registry_call_register [OF assms(1,2) prm(9) assms(3)])
  obtain s' where s': "register env u ecdh (backend_bitmap bs) (ucast mt) ps (ucast (read_stake stake_env)) s = Inr s'"
      "nodes s' ?a = \<lparr>n_url = u, n_ecdhPubkey = ecdh, n_backendBitmap = backend_bitmap bs, n_maxTokens = ucast mt,
         n_pricePer1k = ps, n_stake = ucast (read_stake stake_env), n_active = True\<rparr>"
      "r_calls s' = r_calls s @ [TransferFrom ?a (ucast (read_stake stake_env))]"
    using assms(5-7) by (auto simp: register_def reg_pay_def reg_emit_def isActive_def Let_def not_less)
  have prices: "ps ! backend_tag b = (if b \<in> set bs then ucast (price_for (read_pricing envp bs) b) else 0)" for b
    by (cases b) (simp_all add: ps_def)
  have "supportsBackend s' ?a (backend_tag b) \<longleftrightarrow> b \<in> set bs" for b
    by (simp only: supportsBackend_def s'(2) node_info_sol.select_convs bit_mask_test backend_bitmap_bit)
  moreover have "isActive s' ?a" by (simp add: isActive_def s'(2))
  ultimately show ?thesis
    using call s' prices assms(5) by (simp add: registry_view_active [OF assms(1)] decode_bool_spec)
qed

text \<open>C14. The registration flow always ends, after at most 61 polls of each receipt whatever the server
  answers, as long as time goes on: 61 polls two seconds apart exceed the two minutes the node
  waits. It reports success only when the chain is the configured one and either the contract
  called the node active, or \<open>approve\<close> was mined without a revert before \<open>register\<close> was sent and
  \<open>register\<close> was mined without a revert.\<close>

theorem ensure_registered_outcome:
  assumes "clock_ok e" and "61 \<le> fuel"
  shows "\<exists>r w'. ensure_registered p e fuel seed prm w = Some (r, w') \<and>
    (r = Inr () \<longrightarrow> (\<exists>w0 out w1.
       rpc_chain_id e (rp_rpc_url prm) w = Some (Inr (rp_chain_id prm), w0) \<and>
       rpc_eth_call p e (rp_rpc_url prm) (rp_registry prm) (encode_is_active p (eth_address p seed)) (Some (eth_address p seed)) w0
         = Some (Inr out, w1) \<and>
       (decode_bool out \<and> w' = w1 \<or>
        (\<exists>h1 w2 w3 w4 h2 w5 w6.
           send_tx p e (rp_rpc_url prm) seed (eth_address p seed) (rp_usdc prm)
             (encode_approve p (rp_registry prm) (rp_stake prm)) (rp_chain_id prm) w1 = Some (Inr h1, w2) \<and>
           rpc_receipt_status p e (rp_rpc_url prm) h1 w3 = Some (Inr (Some True), w4) \<and>
           send_tx p e (rp_rpc_url prm) seed (eth_address p seed) (rp_registry prm)
             (register_calldata p prm) (rp_chain_id prm) w4 = Some (Inr h2, w5) \<and>
           rpc_receipt_status p e (rp_rpc_url prm) h2 w6 = Some (Inr (Some True), w')))))"
proof -
  have "ensure_registered p e fuel seed prm w \<noteq> None"
    unfolding ensure_registered_def Let_def
    by (intro io_returns io_if rpc_method_returns send_and_wait_returns assms; simp)
  then obtain r w' where run: "ensure_registered p e fuel seed prm w = Some (r, w')" by auto
  moreover have "\<exists>w0 out w1.
       rpc_chain_id e (rp_rpc_url prm) w = Some (Inr (rp_chain_id prm), w0) \<and>
       rpc_eth_call p e (rp_rpc_url prm) (rp_registry prm) (encode_is_active p (eth_address p seed)) (Some (eth_address p seed)) w0
         = Some (Inr out, w1) \<and>
       (decode_bool out \<and> w' = w1 \<or>
        (\<exists>w4. send_and_wait p e fuel ''approve'' (rp_rpc_url prm) seed (rp_usdc prm)
                 (encode_approve p (rp_registry prm) (rp_stake prm)) (rp_chain_id prm) w1 = Some (Inr (), w4) \<and>
              send_and_wait p e fuel ''register'' (rp_rpc_url prm) seed (rp_registry prm) (register_calldata p prm) (rp_chain_id prm) w4
                = Some (Inr (), w')))" if "r = Inr ()"
    using run unfolding that ensure_registered_def Let_def
    by (auto simp: io_bind_Some split: if_splits)
  ultimately show ?thesis by (meson send_and_wait_success)
qed

subsection \<open>A concrete chain\<close>

definition demo_post :: "string \<Rightarrow> json \<Rightarrow> nat \<Rightarrow> (string + nat \<times> (string + string)) \<times> nat" where
  "demo_post u body t = (Inr (200, Inr (case Option.bind (jget body ''method'') as_str of Some m \<Rightarrow> m | None \<Rightarrow> [])), t + 1)"

definition demo_answer :: "string \<Rightarrow> json" where
  "demo_answer m =
     (if m = ''eth_chainId'' then JStr ''0x7a69''
      else if m = ''eth_call'' then JStr (''0x'' @ bytes_hex (replicate 32 0))
      else if m = ''eth_getTransactionCount'' then JStr ''0x5''
      else if m = ''eth_maxPriorityFeePerGas'' then JStr ''none''
      else if m = ''eth_getBlockByNumber'' then JObj [(''baseFeePerGas'', JStr ''0x10'')]
      else if m = ''eth_estimateGas'' then JStr ''0x5208''
      else if m = ''eth_sendRawTransaction'' then JStr (''0x'' @ bytes_hex (replicate 32 7))
      else JObj [(''status'', JStr ''0x1'')])"

definition demo_rpc :: "nat rpc_env" where
  "demo_rpc = \<lparr>http_post = demo_post, json_read = (\<lambda>t. Inr (JObj [(''result'', demo_answer t)])), json_show = (\<lambda>_. []),
     now_ms = (\<lambda>t. t), sleep_ms = (\<lambda>d t. t + d)\<rparr>"

lemma demo_rpc_clock: "clock_ok demo_rpc"
  by (simp add: clock_ok_def demo_rpc_def demo_post_def)

lemma demo_rpc_call: "rpc_call demo_rpc u m ps t = Some (Inr (demo_answer m), t + 1)"
  by (simp add: rpc_call_def rpc_send_def rpc_reply_def io_bind_def demo_rpc_def demo_post_def Let_def)

lemma demo_hex_parsed: "parse_hex_u64 ''0x7a69'' = Inr 31337" "parse_hex_u64 ''0x5'' = Inr 5" "parse_hex_u64 ''0x5208'' = Inr 21000"
  "parse_hex_u64 ''0x1'' = Inr 1" "parse_hex_u128 ''0x10'' = Inr 16"
  by (simp_all add: parse_hex_u64_def parse_hex_u128_def from_str_radix16_def strip_prefix_0x_def hex_digit_def)

lemma demo_bytes_parsed: "parse_hex_bytes demo_rp (''0x'' @ bytes_hex bs) = Inr bs"
  using rust_ok_facts(3) [OF demo_rust_ok, of bs] by (simp add: parse_hex_bytes_def)

lemma demo_methods:
  "rpc_chain_id demo_rpc u t = Some (Inr 31337, t + 1)"
  "rpc_nonce demo_rp demo_rpc u a t = Some (Inr 5, t + 1)"
  "\<exists>r. rpc_priority_fee demo_rpc u t = Some (r, t + 1)"
  "rpc_base_fee demo_rpc u t = Some (Inr 16, t + 1)"
  "rpc_estimate_gas demo_rp demo_rpc u a b d v t = Some (Inr 21000, t + 1)"
  "rpc_eth_call demo_rp demo_rpc u a d fr t = Some (Inr (replicate 32 0), t + 1)"
  "rpc_send_raw demo_rp demo_rpc u d t = Some (Inr (replicate 32 7), t + 1)"
  "rpc_receipt_status demo_rp demo_rpc u h t = Some (Inr (Some True), t + 1)"
  unfolding rpc_chain_id_def rpc_nonce_def rpc_priority_fee_def rpc_base_fee_def rpc_estimate_gas_def rpc_eth_call_def
    rpc_send_raw_def rpc_receipt_status_def io_bind_def demo_rpc_call
  by (simp_all add: demo_answer_def str_or_def demo_hex_parsed demo_bytes_parsed del: append_Cons append_Nil)

definition demo_params :: "string option \<Rightarrow> string list + register_params" where
  "demo_params stake_env = spawn_register demo_rp 31337 ''rpc'' (''0x'' @ bytes_hex (replicate 20 3)) (''0x'' @ bytes_hex (replicate 20 4))
     ''http://n'' (replicate 32 1) [MockTee, Local] 4000 (read_pricing (\<lambda>b. if b = Local then Some (1 / 1000) else Some (15 / 1000)) [MockTee, Local])
     stake_env"

lemma demo_addr: "length bs = 20 \<Longrightarrow> parse_addr demo_rp (''0x'' @ bytes_hex bs) = Inr bs"
  using rust_ok_facts(3) [OF demo_rust_ok, of bs] by (simp add: parse_addr_def bytes_from_hex_def)

lemma demo_params_ok: "\<exists>prm. demo_params None = Inr prm"
proof -
  obtain arr where "pricing_to_array (read_pricing (\<lambda>b. if b = Local then Some (1 / 1000) else Some (15 / 1000)) [MockTee, Local]) = Inr arr"
    using read_pricing_array by blast
  moreover have "parse_addr demo_rp (''0x'' @ bytes_hex (replicate 20 3)) = Inr (replicate 20 3)"
    "parse_addr demo_rp (''0x'' @ bytes_hex (replicate 20 4)) = Inr (replicate 20 4)"
    by (rule demo_addr, simp)+
  ultimately show ?thesis by (simp add: demo_params_def spawn_register_def)
qed

lemma demo_keccak: "length (sha3_keccak demo_rp b) = 32"
  by (simp add: demo_rp_def pad32_def)

theorem registration_advertises_witness:
  "\<exists>prm s'. demo_params None = Inr prm \<and>
     registry_call demo_rp (demo_reg_env 2) (register_calldata demo_rp prm) (reg_construct 7 100000000) = Some (Inr s') \<and>
     n_url (nodes s' 2) = ''http://n'' \<and> n_stake (nodes s' 2) = 100000000 \<and>
     supportsBackend s' 2 3 \<and> \<not> supportsBackend s' 2 1 \<and> n_pricePer1k (nodes s' 2) ! 3 = 1000 \<and> n_pricePer1k (nodes s' 2) ! 0 = 15000"
proof -
  let ?envp = "\<lambda>b. if b = Local then Some (1 / 1000 :: rat) else Some (15 / 1000)"
  obtain prm where prm: "demo_params None = Inr prm" using demo_params_ok by blast
  have st: "\<not> isActive (reg_construct 7 100000000) (msg_sender (demo_reg_env 2))" "\<And>c. tok_accepts (demo_reg_env 2) c"
    "minStake (reg_construct 7 100000000) \<le> ucast (read_stake None)"
    by (simp_all add: isActive_def reg_construct_def no_node_def demo_reg_env_def read_stake_def)
  have pf: "price_for (read_pricing ?envp [MockTee, Local]) Local = 1000" "price_for (read_pricing ?envp [MockTee, Local]) MockTee = 15000"
    by (simp_all add: price_for_def read_pricing_def float_as_u128_def parse_u128_nat_str)
  obtain s' where s': "registry_call demo_rp (demo_reg_env 2) (register_calldata demo_rp prm) (reg_construct 7 100000000) = Some (Inr s')"
    "n_url (nodes s' 2) = ''http://n''" "n_stake (nodes s' 2) = ucast (read_stake None)"
    "\<forall>b. supportsBackend s' 2 (backend_tag b) \<longleftrightarrow> b \<in> set [MockTee, Local]"
    "\<forall>b. n_pricePer1k (nodes s' 2) ! backend_tag b = (if b \<in> set [MockTee, Local] then ucast (price_for (read_pricing ?envp [MockTee, Local]) b) else 0)"
    using registration_advertises [where bs = "[MockTee, Local]", OF demo_keccak _ _ prm [unfolded demo_params_def] st]
    by (auto simp: demo_reg_env_def)
  have "supportsBackend s' 2 3" "\<not> supportsBackend s' 2 1" "n_pricePer1k (nodes s' 2) ! 3 = 1000" "n_pricePer1k (nodes s' 2) ! 0 = 15000"
    using s'(4,5) [THEN spec, of Local] s'(4) [THEN spec, of Fhe] s'(5) [THEN spec, of MockTee] by (simp_all add: pf)
  then show ?thesis using prm s'(1-3) by (intro exI [of _ prm] exI [of _ s']) (simp add: read_stake_def)
qed

theorem ensure_registered_outcome_witness:
  "\<exists>prm w'. demo_params None = Inr prm \<and> ensure_registered demo_rp demo_rpc 61 [2] prm 0 = Some (Inr (), w') \<and>
    (\<exists>w. send_tx demo_rp demo_rpc (rp_rpc_url prm) [2] (eth_address demo_rp [2]) (rp_registry prm) (register_calldata demo_rp prm) 31337 w
       = Some (Inr (replicate 32 7), w + 5))"
proof -
  obtain prm where prm: "demo_params None = Inr prm" using demo_params_ok by blast
  then have cid: "rp_chain_id prm = 31337" using spawn_register_params(6) unfolding demo_params_def by blast
  have tx: "send_tx demo_rp demo_rpc u s a b d c t = Some (Inr (replicate 32 7), t + 5)" for u s a b d c t
    using demo_methods(3) [of u "t + 1"] unfolding send_tx_def io_bind_def io_context_def io_unwrap_or_def
    by (auto simp: demo_methods)
  have wait: "wait_for_receipt demo_rp demo_rpc 61 u h POLL_INTERVAL TX_TIMEOUT t = Some (Inr (), t + 1)" for u h t
  proof -
    have "wait_loop demo_rp demo_rpc u h pl tm st (Suc 60) t = Some (Inr (), t + 1)" for pl tm st
      by (subst wait_loop.simps) (simp add: io_bind_def demo_methods del: wait_loop.simps)
    then show ?thesis by (simp add: wait_for_receipt_def del: wait_loop.simps)
  qed
  have run: "ensure_registered demo_rp demo_rpc 61 [2] prm 0 = Some (Inr (), 14)"
    by (simp add: ensure_registered_def send_and_wait_def io_bind_def io_context_def Let_def demo_methods tx wait cid decode_bool_def)
  from ensure_registered_outcome [OF demo_rpc_clock le_refl, of demo_rp "[2]" prm 0] run prm tx cid show ?thesis by metis
qed

end
