(* ===== verification/Providers.thy ===== *)
theory Providers
  imports NodeAgent
begin

section \<open>The chat providers (crates/local_llm/src/openai.rs, crates/agent/src/anthropic.rs)\<close>

text \<open>
  The two models behind a node's agent. The agent speaks Anthropic's content blocks;
  \<open>OpenAiProvider\<close> translates them for \<open>llama-server\<close> and its answer back, \<open>AnthropicProvider\<close>
  sends them as they are. HTTP is a function over a world state (a body that cannot be read is a
  failed call here) and \<open>reason\<close> the reason phrase printed after a status. Objects built with
  \<open>json!\<close> are in the order of \<open>serde_json\<close>'s sorted map.

  The properties: the discipline of a transcript survives the translation (every call is answered,
  in order, by the \<open>tool\<close> messages right behind it, as the OpenAI API requires), and an assistant
  message translated and read back is the same message.
\<close>

subsection \<open>HTTP of the Rust side\<close>

type_synonym 'w http = "http_request \<Rightarrow> 'w \<Rightarrow> (string + http_response) \<times> 'w"

definition rust_post :: "prims \<Rightarrow> string \<Rightarrow> json \<Rightarrow> http_request" where
  "rust_post p u j = \<lparr>rq_method = ''POST'', rq_url = u, rq_headers = json_header, rq_body = Some (serde_write p j)\<rparr>"

definition status_text :: "(nat \<Rightarrow> string) \<Rightarrow> http_response \<Rightarrow> string" where
  "status_text reason r = nat_str (rs_status r) @ '' '' @ reason (rs_status r)"

definition is_u32 :: "int \<Rightarrow> bool" where
  "is_u32 i \<longleftrightarrow> 0 \<le> i \<and> i < 2 ^ 32"

subsection \<open>To OpenAI\<close>

text \<open>\<open>get(k).and_then(as_str).unwrap_or(d)\<close> and \<open>get(k).cloned().unwrap_or(d)\<close>.\<close>

definition str_field_or :: "string \<Rightarrow> json \<Rightarrow> string \<Rightarrow> string" where
  "str_field_or d j k = (case str_at j k of None \<Rightarrow> d | Some s \<Rightarrow> s)"

definition json_or :: "json \<Rightarrow> json \<Rightarrow> string \<Rightarrow> json" where
  "json_or d j k = (case jget j k of None \<Rightarrow> d | Some v \<Rightarrow> v)"

definition block_type :: "json \<Rightarrow> string" where
  "block_type block = str_field_or [] block ''type''"

definition tool_result_content_to_string :: "prims \<Rightarrow> json \<Rightarrow> string" where
  "tool_result_content_to_string p block =
     (case jget block ''content'' of Some (JStr s) \<Rightarrow> s | Some v \<Rightarrow> serde_write p v | None \<Rightarrow> [])"

definition block_texts :: "json list \<Rightarrow> string list" where
  "block_texts content = List.map_filter (\<lambda>b. if block_type b = ''text'' then str_at b ''text'' else None) content"

definition oai_tool_message :: "prims \<Rightarrow> json \<Rightarrow> json" where
  "oai_tool_message p b =
     JObj [(''content'', JStr (tool_result_content_to_string p b)), (''role'', JStr ''tool''), (''tool_call_id'', JStr (str_field_or [] b ''tool_use_id''))]"

definition oai_call :: "prims \<Rightarrow> json \<Rightarrow> json" where
  "oai_call p b =
     JObj [(''function'', JObj [(''arguments'', JStr (serde_write p (json_or JNull b ''input''))), (''name'', JStr (str_field_or [] b ''name''))]),
       (''id'', JStr (str_field_or [] b ''id'')), (''type'', JStr ''function'')]"

text \<open>A user message: its results become \<open>tool\<close> messages in order, its texts one message after them.\<close>

definition oai_user :: "prims \<Rightarrow> json list \<Rightarrow> json list" where
  "oai_user p content =
     map (oai_tool_message p) (filter (\<lambda>b. block_type b = ''tool_result'') content) @
     (if block_texts content = [] then []
      else [JObj [(''content'', JStr (join_lines (block_texts content))), (''role'', JStr ''user'')]])"

definition oai_assistant :: "prims \<Rightarrow> json list \<Rightarrow> json" where
  "oai_assistant p content =
     (let tool_calls = map (oai_call p) (filter (\<lambda>b. block_type b = ''tool_use'') content) in
      JObj ([(''content'', if block_texts content = [] then JNull else JStr (join_lines (block_texts content))), (''role'', JStr ''assistant'')] @
        (if tool_calls = [] then [] else [(''tool_calls'', JArr tool_calls)])))"

definition oai_message :: "prims \<Rightarrow> json \<Rightarrow> json list" where
  "oai_message p msg =
     (if str_field_or [] msg ''role'' = ''user'' then oai_user p (content_of msg)
      else if str_field_or [] msg ''role'' = ''assistant'' then [oai_assistant p (content_of msg)]
      else [])"

definition messages_anthropic_to_oai :: "prims \<Rightarrow> string \<Rightarrow> json list \<Rightarrow> json list" where
  "messages_anthropic_to_oai p system messages =
     JObj [(''content'', JStr system), (''role'', JStr ''system'')] # concat (map (oai_message p) messages)"

definition tool_anthropic_to_oai :: "json \<Rightarrow> json" where
  "tool_anthropic_to_oai tool =
     JObj [(''function'', JObj [(''description'', json_or JNull tool ''description''), (''name'', json_or JNull tool ''name''),
         (''parameters'', json_or (JObj [(''type'', JStr ''object'')]) tool ''input_schema'')]),
       (''type'', JStr ''function'')]"

subsection \<open>From OpenAI\<close>

text \<open>\<open>as_u64\<close> and the cast to \<open>u32\<close>, which drops high bits.\<close>

definition token_count :: "json option \<Rightarrow> string \<Rightarrow> int" where
  "token_count usage_obj k =
     (case Option.bind usage_obj (\<lambda>u. field as_int u k) of None \<Rightarrow> 0 | Some n \<Rightarrow> if 0 \<le> n \<and> n < 2 ^ 64 then n mod 2 ^ 32 else 0)"

definition tool_use_block :: "string \<Rightarrow> string \<Rightarrow> json \<Rightarrow> json" where
  "tool_use_block i name input =
     JObj [(''id'', JStr i), (''input'', input), (''name'', JStr name), (''type'', JStr ''tool_use'')]"

definition text_block :: "string \<Rightarrow> json" where
  "text_block t = JObj [(''text'', JStr t), (''type'', JStr ''text'')]"

definition block_of_call :: "prims \<Rightarrow> json \<Rightarrow> json" where
  "block_of_call p call =
     (let f = json_or JNull call ''function'' in
      tool_use_block (str_field_or [] call ''id'') (str_field_or [] f ''name'')
        (case serde_read p (str_field_or ''{}'' f ''arguments'') of Inl e \<Rightarrow> JNull | Inr v \<Rightarrow> v))"

definition stop_reason_of :: "string \<Rightarrow> string" where
  "stop_reason_of finish_reason =
     (if finish_reason = ''stop'' then ''end_turn'' else if finish_reason = ''tool_calls'' then ''tool_use''
      else if finish_reason = ''length'' then ''max_tokens'' else finish_reason)"

definition response_oai_to_anthropic :: "prims \<Rightarrow> json \<Rightarrow> string + chat_result" where
  "response_oai_to_anthropic p body =
     (case jget body ''choices'' of
        Some (JArr (choice # _)) \<Rightarrow>
          (case jget choice ''message'' of
             None \<Rightarrow> Inl ''choice missing message''
           | Some message \<Rightarrow> Inr
               \<lparr>cs_content =
                  (case str_at message ''content'' of Some (c # cs) \<Rightarrow> [text_block (c # cs)] | _ \<Rightarrow> []) @
                  (case jget message ''tool_calls'' of Some (JArr calls) \<Rightarrow> map (block_of_call p) calls | _ \<Rightarrow> []),
                cs_stop_reason = stop_reason_of (str_field_or ''stop'' choice ''finish_reason''),
                cs_usage = \<lparr>inputTokens = token_count (jget body ''usage'') ''prompt_tokens'',
                  outputTokens = token_count (jget body ''usage'') ''completion_tokens'',
                  cacheCreationInputTokens = None, cacheReadInputTokens = None\<rparr>\<rparr>)
      | _ \<Rightarrow> Inl ''response missing choices[0]'')"

definition oai_body :: "prims \<Rightarrow> string \<Rightarrow> chat_request \<Rightarrow> json" where
  "oai_body p model req =
     JObj [(''max_tokens'', jint (cq_max_tokens req)), (''messages'', JArr (messages_anthropic_to_oai p (cq_system req) (cq_messages req))),
       (''model'', JStr model), (''stream'', JBool False), (''tool_choice'', JStr ''auto''),
       (''tools'', JArr (map tool_anthropic_to_oai (cq_tools req)))]"

definition openai_complete :: "prims \<Rightarrow> (nat \<Rightarrow> string) \<Rightarrow> 'w http \<Rightarrow> string \<Rightarrow> string \<Rightarrow> 'w provider" where
  "openai_complete p reason http base_url model req w =
     (let url = base_url @ ''/v1/chat/completions'' in
      case http (rust_post p url (oai_body p model req)) w of
        (Inl e, w1) \<Rightarrow> (Inl (''POST '' @ url @ '': '' @ e), w1)
      | (Inr res, w1) \<Rightarrow>
          if \<not> res_ok res then (Inl (''llama-server '' @ status_text reason res @ '': '' @ rs_body res), w1)
          else (case serde_read p (rs_body res) of
             Inl e \<Rightarrow> (Inl (''parse response: '' @ e @ ''; body: '' @ rs_body res), w1)
           | Inr body \<Rightarrow> (response_oai_to_anthropic p body, w1)))"

subsection \<open>Anthropic\<close>

definition API_URL :: string where "API_URL = ''https://api.anthropic.com/v1/messages''"
definition API_VERSION :: string where "API_VERSION = ''2023-06-01''"

definition anthropic_body :: "string \<Rightarrow> chat_request \<Rightarrow> json" where
  "anthropic_body model req =
     JObj [(''model'', JStr model), (''max_tokens'', jint (cq_max_tokens req)), (''messages'', JArr (cq_messages req)),
       (''system'', JArr [JObj [(''cache_control'', JObj [(''type'', JStr ''ephemeral'')]), (''text'', JStr (cq_system req)), (''type'', JStr ''text'')]]),
       (''tools'', JArr (cq_tools req)), (''thinking'', JObj [(''type'', JStr ''adaptive'')])]"

text \<open>A \<open>u32\<close> that defaults to 0 when the field is absent.\<close>

definition u32_or_0 :: "json \<Rightarrow> string \<Rightarrow> int option" where
  "u32_or_0 j k = (case jget j k of None \<Rightarrow> Some 0 | Some v \<Rightarrow> Option.bind (as_int v) (\<lambda>n. if is_u32 n then Some n else None))"

definition u32_opt :: "json \<Rightarrow> string \<Rightarrow> int option option" where
  "u32_opt j k = as_opt (\<lambda>v. Option.bind (as_int v) (\<lambda>n. if is_u32 n then Some n else None)) (jget j k)"

definition anthropic_usage_of_json :: "json option \<Rightarrow> usage option" where
  "anthropic_usage_of_json ju =
     (case ju of None \<Rightarrow> Some usage_zero
      | Some j \<Rightarrow> if (case j of JObj _ \<Rightarrow> False | _ \<Rightarrow> True) then None else do {
          i \<leftarrow> u32_or_0 j ''input_tokens'';
          q \<leftarrow> u32_or_0 j ''output_tokens'';
          cc \<leftarrow> u32_opt j ''cache_creation_input_tokens'';
          cr \<leftarrow> u32_opt j ''cache_read_input_tokens'';
          Some \<lparr>inputTokens = i, outputTokens = q, cacheCreationInputTokens = cc, cacheReadInputTokens = cr\<rparr> })"

definition messages_response_of_json :: "json \<Rightarrow> chat_result option" where
  "messages_response_of_json j = do {
     c \<leftarrow> field as_list j ''content'';
     s \<leftarrow> field as_str j ''stop_reason'';
     u \<leftarrow> anthropic_usage_of_json (jget j ''usage'');
     Some \<lparr>cs_content = c, cs_stop_reason = s, cs_usage = u\<rparr> }"

definition anthropic_complete :: "prims \<Rightarrow> (nat \<Rightarrow> string) \<Rightarrow> 'w http \<Rightarrow> string \<Rightarrow> string \<Rightarrow> 'w provider" where
  "anthropic_complete p reason http api_key model req w =
     (case http \<lparr>rq_method = ''POST'', rq_url = API_URL,
         rq_headers = [(''x-api-key'', api_key), (''anthropic-version'', API_VERSION), (''content-type'', ''application/json'')],
         rq_body = Some (serde_write p (anthropic_body model req))\<rparr> w of
        (Inl e, w1) \<Rightarrow> (Inl (''anthropic request failed: '' @ e), w1)
      | (Inr res, w1) \<Rightarrow>
          if \<not> res_ok res then (Inl (''anthropic '' @ status_text reason res @ '': '' @ rs_body res), w1)
          else (case rbind (serde_read p (rs_body res)) (read_as messages_response_of_json) of
             Inl e \<Rightarrow> (Inl (''parsing anthropic response: '' @ e @ ''; body: '' @ rs_body res), w1)
           | Inr r \<Rightarrow> (Inr r, w1)))"

subsection \<open>The discipline survives the translation\<close>

text \<open>What the OpenAI API requires: an assistant message with calls is followed by one \<open>tool\<close> message
  for each, in order, before anything else comes. The ids still waiting; \<open>None\<close> is a violation.\<close>

definition oai_called :: "json \<Rightarrow> string list" where
  "oai_called m = (case jget m ''tool_calls'' of Some (JArr cs) \<Rightarrow> map (\<lambda>c. str_field_or [] c ''id'') cs | _ \<Rightarrow> [])"

definition oai_step :: "string list option \<Rightarrow> json \<Rightarrow> string list option" where
  "oai_step waiting m =
     (case waiting of None \<Rightarrow> None
      | Some ids \<Rightarrow>
          if str_at m ''role'' = Some ''tool''
          then (case ids of [] \<Rightarrow> None | i # rest \<Rightarrow> if str_at m ''tool_call_id'' = Some i then Some rest else None)
          else if ids = [] then Some (oai_called m) else None)"

definition oai_waiting :: "json list \<Rightarrow> string list option" where
  "oai_waiting ms = foldl oai_step (Some []) ms"

text \<open>Calls carry an id and a name, results the id they answer.\<close>

definition tidy_block :: "json \<Rightarrow> bool" where
  "tidy_block b \<longleftrightarrow>
     (block_type b = ''tool_use'' \<longrightarrow> str_at b ''id'' \<noteq> None \<and> str_at b ''name'' \<noteq> None) \<and>
     (block_type b = ''tool_result'' \<longrightarrow> str_at b ''tool_use_id'' \<noteq> None)"

definition tidy_message :: "json \<Rightarrow> bool" where
  "tidy_message m \<longleftrightarrow> (\<forall>b \<in> set (content_of m). tidy_block b)"

lemma str_at_lit [simp]: "str_at (JObj kvs) k = (case map_of kvs k of Some (JStr s) \<Rightarrow> Some s | _ \<Rightarrow> None)"
  by (simp add: str_at_def)

lemma block_type_iff: "t \<noteq> [] \<Longrightarrow> block_type b = t \<longleftrightarrow> str_at b ''type'' = Some t"
  by (auto simp: block_type_def str_field_or_def split: option.splits)

lemma tools_answer:
  "\<forall>b \<in> set bs. str_at b ''tool_use_id'' \<noteq> None \<Longrightarrow>
   foldl oai_step (Some (List.map_filter (\<lambda>b. str_at b ''tool_use_id'') bs)) (map (oai_tool_message p) bs) = Some []"
  by (induction bs) (auto simp: oai_step_def oai_tool_message_def str_field_or_def map_filter_simps split: option.splits)

lemma calls_ids:
  "\<forall>b \<in> set content. tidy_block b \<Longrightarrow> oai_called (oai_assistant p content) = map fst (collect_tool_uses content)"
proof -
  assume tidy: "\<forall>b \<in> set content. tidy_block b"
  have "map (\<lambda>b. str_field_or [] b ''id'') bs = map fst (List.map_filter (\<lambda>b.
       case (str_at b ''id'', str_at b ''name'') of
         (Some i, Some n) \<Rightarrow> Some (i, n, case jget b ''input'' of None \<Rightarrow> JNull | Some v \<Rightarrow> v) | _ \<Rightarrow> None) bs)"
    if "\<forall>b \<in> set bs. str_at b ''id'' \<noteq> None \<and> str_at b ''name'' \<noteq> None" for bs
    using that by (induction bs) (auto simp: map_filter_simps str_field_or_def)
  from this [of "filter (\<lambda>b. str_at b ''type'' = Some ''tool_use'') content"] tidy
  show ?thesis
    by (auto simp: oai_called_def oai_assistant_def Let_def collect_tool_uses_def block_type_iff tidy_block_def oai_call_def str_field_or_def
        comp_def cong: map_cong)
qed

lemma message_discipline:
  assumes "tidy_message m" "owed_step (Some ids) m = Some ids'"
  shows "foldl oai_step (Some ids) (oai_message p m) = Some ids'"
proof -
  have ids: "answered_ids m = ids" "called_ids m = ids'" using assms(2) by (auto simp: owed_step_def split: if_splits)
  consider "str_at m ''role'' = Some ''user''" | "str_at m ''role'' = Some ''assistant''"
    | "str_at m ''role'' \<noteq> Some ''user''" "str_at m ''role'' \<noteq> Some ''assistant''" by blast
  then show ?thesis
  proof cases
    case 1
    let ?bs = "filter (\<lambda>b. str_at b ''type'' = Some ''tool_result'') (content_of m)"
    have "\<forall>b \<in> set ?bs. str_at b ''tool_use_id'' \<noteq> None" using assms(1) by (auto simp: tidy_message_def tidy_block_def block_type_iff)
    from tools_answer [OF this, of p] ids 1 show ?thesis
      by (auto simp: oai_message_def str_field_or_def oai_user_def answered_ids_def called_ids_def block_type_iff oai_step_def oai_called_def)
  next
    case 2
    then show ?thesis
      using ids calls_ids assms(1)
      by (auto simp: oai_message_def str_field_or_def answered_ids_def called_ids_def oai_step_def tidy_message_def)
        (simp_all add: oai_assistant_def Let_def)
  next
    case 3
    then show ?thesis
      using ids by (auto simp: oai_message_def str_field_or_def answered_ids_def called_ids_def split: option.splits)
  qed
qed

lemma messages_discipline:
  "\<forall>m \<in> set ms. tidy_message m \<Longrightarrow> owed_ids ms = Some ids \<Longrightarrow>
   foldl oai_step (Some []) (concat (map (oai_message p) ms)) = Some ids"
proof (induction ms arbitrary: ids rule: rev_induct)
  case (snoc m ms)
  then obtain i where "owed_ids ms = Some i" "owed_step (Some i) m = Some ids"
    by (cases "owed_ids ms") (auto simp: owed_step_def)
  with snoc show ?case using message_discipline [of m i ids p] by simp
qed (simp add: owed_ids_def)

text \<open>C32. The local model sees a conversation the OpenAI API accepts: translating a transcript in which
  every call has been answered in order gives a sequence in which every assistant message with
  calls is followed, before anything else, by one \<open>tool\<close> message per call, in the same order.\<close>

theorem translation_keeps_discipline:
  assumes "transcript_ok ms" "\<forall>m \<in> set ms. tidy_message m"
  shows "oai_waiting (messages_anthropic_to_oai p system ms) = Some []"
proof -
  have "oai_step (Some []) (JObj [(''content'', JStr system), (''role'', JStr ''system'')]) = Some []"
    by (simp add: oai_step_def oai_called_def)
  then show ?thesis
    using messages_discipline [OF assms(2), of "[]" p] assms(1)
    by (simp add: oai_waiting_def messages_anthropic_to_oai_def transcript_ok_def)
qed

definition demo_transcript :: "json list" where
  "demo_transcript =
     [chat_message ''user'' [text_block ''sum up a''],
      chat_message ''assistant'' [text_block ''reading'', tool_use_block ''t1'' ''read_file'' (JObj [(''path'', JStr ''a'')])],
      chat_message ''user'' [tool_result_block ''t1'' ''contents'' False, text_block ''go on''],
      chat_message ''assistant'' [text_block ''done'']]"

theorem translation_keeps_discipline_witness:
  "oai_waiting (messages_anthropic_to_oai demo_prims ''be brief'' demo_transcript) = Some [] \<and>
   length (messages_anthropic_to_oai demo_prims ''be brief'' demo_transcript) = 6"
proof
  have "transcript_ok demo_transcript"
    by (simp add: demo_transcript_def transcript_ok_def owed_ids_def owed_step_def answered_ids_def called_ids_def content_of_def
        chat_message_def text_block_def tool_use_block_def tool_result_block_def collect_tool_uses_def map_filter_simps)
  moreover have "\<forall>m \<in> set demo_transcript. tidy_message m"
    by (simp add: demo_transcript_def tidy_message_def tidy_block_def content_of_def chat_message_def block_type_iff
        text_block_def tool_use_block_def tool_result_block_def)
  ultimately show "oai_waiting (messages_anthropic_to_oai demo_prims ''be brief'' demo_transcript) = Some []"
    by (rule translation_keeps_discipline)
  show "length (messages_anthropic_to_oai demo_prims ''be brief'' demo_transcript) = 6"
    by (simp add: demo_transcript_def messages_anthropic_to_oai_def oai_message_def str_field_or_def oai_user_def content_of_def chat_message_def
        block_type_iff text_block_def tool_use_block_def tool_result_block_def block_texts_def map_filter_simps)
qed

subsection \<open>There and back\<close>

text \<open>An assistant message of a text and calls, translated for the server and read back from it as an
  answer, is the same message; its stop reason depends on the server's \<open>finish_reason\<close> alone.\<close>

theorem assistant_message_read_back:
  assumes serde: "\<And>j. serde_read p (serde_write p j) = Inr j"
    and content: "content = (if t = [] then [] else [text_block t]) @ map (\<lambda>(i, n, v). tool_use_block i n v) calls"
    and body: "jget body ''choices'' = Some (JArr (JObj [(''finish_reason'', JStr f), (''message'', oai_assistant p content)] # rest))"
  shows "\<exists>r. response_oai_to_anthropic p body = Inr r \<and> cs_content r = content \<and> cs_stop_reason r = stop_reason_of f"
proof -
  have blocks: "block_type (text_block x) = ''text''" "block_type (tool_use_block i n v) = ''tool_use''" for x i n v
    by (simp_all add: block_type_def str_field_or_def text_block_def tool_use_block_def)
  define u where "u = map (\<lambda>(i, n, v). tool_use_block i n v) calls"
  have tx: "block_texts u = []"
    unfolding u_def by (induction calls) (auto simp: block_texts_def map_filter_simps blocks)
  have texts: "block_texts content = (if t = [] then [] else [t])"
    using tx by (auto simp: content u_def [symmetric] block_texts_def map_filter_simps blocks) (simp add: text_block_def)
  have "\<forall>b \<in> set u. block_type b = ''tool_use''" by (auto simp: u_def blocks)
  then have uses: "filter (\<lambda>b. block_type b = ''tool_use'') content = u"
    by (simp add: content u_def [symmetric] blocks)
  have "block_of_call p (oai_call p (tool_use_block i n v)) = tool_use_block i n v" for i n v
    by (simp add: block_of_call_def oai_call_def Let_def str_field_or_def json_or_def tool_use_block_def serde)
  then have calls: "map (block_of_call p \<circ> oai_call p) u = u" by (auto simp: u_def)
  have asst: "oai_assistant p content =
     JObj ([(''content'', if t = [] then JNull else JStr t), (''role'', JStr ''assistant'')] @
       (if u = [] then [] else [(''tool_calls'', JArr (map (oai_call p) u))]))"
    by (simp add: oai_assistant_def Let_def uses texts)
  have "\<exists>r. response_oai_to_anthropic p body = Inr r \<and> cs_content r = (if t = [] then [] else [text_block t]) @ u \<and>
      cs_stop_reason r = stop_reason_of f"
    using calls by (cases t) (auto simp: response_oai_to_anthropic_def body asst str_field_or_def)
  then show ?thesis by (simp add: content u_def)
qed

end
