(* ===== verification/Proxy.thy ===== *)
theory Proxy
  imports Providers NodeChannel Coordinator
begin

section \<open>The proxy for other agents (apps/proxy/src/main.rs)\<close>

text \<open>
  An endpoint that speaks the Anthropic Messages API on one side and the node's encrypted
  envelope on the other: \<open>messages\<close> asks the coordinator for a node, seals a \<open>ChatRequest\<close> for
  it, posts it to \<open>/proxy/complete\<close> and repackages the \<open>ChatResult\<close>; \<open>get_backend\<close> and
  \<open>set_backend\<close> read and switch the backend. The node's handler \<open>proxy_complete\<close>
  (\<open>apps/node/src/main.rs\<close>) is here too. HTTP is a function over a world state; \<open>reason\<close> is the
  reason phrase the HTTP library prints after a status. JSON objects keep the order of
  \<open>serde_json\<close>'s sorted map where the code builds them with \<open>json!\<close>.

  The property: the proxy is transparent. What the caller gets is what the provider of the
  matched node answers to exactly the caller's system text, messages and tools.
\<close>

subsection \<open>What rides in the envelope (crates/agent/src/provider.rs)\<close>

definition chat_request_json :: "chat_request \<Rightarrow> json" where
  "chat_request_json q =
     JObj [(''system'', JStr (cq_system q)), (''messages'', JArr (cq_messages q)), (''tools'', JArr (cq_tools q)),
       (''max_tokens'', jint (cq_max_tokens q))]"

definition chat_request_of_json :: "json \<Rightarrow> chat_request option" where
  "chat_request_of_json j = do {
     s \<leftarrow> field as_str j ''system'';
     ms \<leftarrow> field as_list j ''messages'';
     ts \<leftarrow> field as_list j ''tools'';
     n \<leftarrow> field as_int j ''max_tokens'';
     if is_u32 n then Some \<lparr>cq_system = s, cq_messages = ms, cq_tools = ts, cq_max_tokens = n\<rparr> else None }"

definition chat_result_json :: "chat_result \<Rightarrow> json" where
  "chat_result_json r =
     JObj [(''content'', JArr (cs_content r)), (''stop_reason'', JStr (cs_stop_reason r)), (''usage'', usage_json (cs_usage r))]"

definition chat_result_of_json :: "json \<Rightarrow> chat_result option" where
  "chat_result_of_json j = do {
     c \<leftarrow> field as_list j ''content'';
     s \<leftarrow> field as_str j ''stop_reason'';
     u \<leftarrow> field usage_of_json j ''usage'';
     if usage_u32 u then Some \<lparr>cs_content = c, cs_stop_reason = s, cs_usage = u\<rparr> else None }"

subsection \<open>The node's handler (proxy_complete in apps/node/src/main.rs)\<close>

definition choose_provider :: "'w provider option \<Rightarrow> 'w provider option \<Rightarrow> backend_type \<Rightarrow> api_error + 'w provider" where
  "choose_provider mock_tee local_llm b =
     (case b of
        MockTee \<Rightarrow> (case mock_tee of Some pr \<Rightarrow> Inr pr
          | None \<Rightarrow> Inl (NotImplemented (''mock-tee not configured '' @ em_dash @ '' set ANTHROPIC_API_KEY to enable'')))
      | Local \<Rightarrow> (case local_llm of Some pr \<Rightarrow> Inr pr
          | None \<Rightarrow> Inl (NotImplemented (''local not configured '' @ em_dash @ '' set FLDX_LLAMA_MODEL to enable'')))
      | Fhe \<Rightarrow> Inl (NotImplemented ''backend Fhe not wired yet'')
      | Mcp \<Rightarrow> Inl (NotImplemented ''backend Mcp not wired yet''))"

text \<open>The part before the provider is called: the session's key, the request and the provider.\<close>

definition open_chat ::
  "prims \<Rightarrow> bytes \<Rightarrow> 'w provider option \<Rightarrow> 'w provider option \<Rightarrow> encrypted_request
   \<Rightarrow> (nat \<times> string) + (bytes \<times> chat_request \<times> 'w provider)" where
  "open_chat p nodePriv mock_tee local_llm req =
     rbind (decode_client_pub p (clientPublicKey req)) (\<lambda>client_pub.
     let key = session_key p (dalek_shared p nodePriv client_pub) (er_sessionId req) in
     rbind (bad_request ''invalid nonce b64: '' (b64_decode p (er_nonce req))) (\<lambda>nonce.
     rbind (bad_request ''invalid ciphertext b64: '' (b64_decode p (er_ciphertext req))) (\<lambda>ct.
     rbind (bad_request ''decrypt: '' (node_decrypt p key nonce ct)) (\<lambda>plain.
     rbind (bad_request ''plaintext is not a valid ChatRequest: ''
              (rbind (serde_read p (utf8_decode plain)) (read_as chat_request_of_json))) (\<lambda>chat_req.
     (case choose_provider mock_tee local_llm (er_backend req) of
        Inl e \<Rightarrow> Inl (into_response e)
      | Inr pr \<Rightarrow> Inr (key, chat_req, pr)))))))"

definition proxy_complete ::
  "prims \<Rightarrow> bytes \<Rightarrow> bytes \<Rightarrow> 'w provider option \<Rightarrow> 'w provider option \<Rightarrow> encrypted_request \<Rightarrow> 'w
   \<Rightarrow> ((nat \<times> string) + encrypted_response) \<times> 'w" where
  "proxy_complete p nodePriv resp_nonce mock_tee local_llm req w =
     (case open_chat p nodePriv mock_tee local_llm req of
        Inl e \<Rightarrow> (Inl e, w)
      | Inr (key, chat_req, pr) \<Rightarrow>
          (case pr chat_req w of
             (Inl e, w1) \<Rightarrow> (Inl (into_response (Internal (''backend complete: '' @ e))), w1)
           | (Inr r, w1) \<Rightarrow>
               (Inr \<lparr>es_sessionId = er_sessionId req, es_nonce = b64_encode p resp_nonce,
                  es_ciphertext = b64_encode p (aead_seal p key resp_nonce (utf8 (serde_write p (chat_result_json r)))),
                  es_receipt = None\<rparr>, w1)))"

text \<open>The handler behind HTTP; \<open>refuse\<close> is what the web framework answers to anything else.\<close>

definition proxy_node ::
  "prims \<Rightarrow> 'w http \<Rightarrow> string \<Rightarrow> bytes \<Rightarrow> bytes \<Rightarrow> 'w provider option \<Rightarrow> 'w provider option \<Rightarrow> 'w http" where
  "proxy_node p refuse base nodePriv resp_nonce mock_tee local_llm q w =
     (case (if rq_method q = ''POST'' \<and> rq_url q = base @ ''/proxy/complete'' then rq_body q else None) of
        None \<Rightarrow> refuse q w
      | Some t \<Rightarrow>
          (case rbind (serde_read p t) (read_as req_of_json) of
             Inl m \<Rightarrow> refuse q w
           | Inr req \<Rightarrow>
               (case proxy_complete p nodePriv resp_nonce mock_tee local_llm req w of
                  (Inl (st, m), w1) \<Rightarrow> (Inr \<lparr>rs_status = st, rs_body = m\<rparr>, w1)
                | (Inr enc, w1) \<Rightarrow> (Inr \<lparr>rs_status = 200, rs_body = serde_write p (enc_json enc)\<rparr>, w1))))"

subsection \<open>The proxy: its request, its helpers\<close>

record messages_request =
  mr_model :: "string option"
  mr_messages :: "json list"
  mr_max_tokens :: "int option"
  mr_system :: json
  mr_tools :: "json list"

definition messages_request_of_json :: "json \<Rightarrow> messages_request option" where
  "messages_request_of_json j = do {
     m \<leftarrow> as_opt as_str (jget j ''model'');
     ms \<leftarrow> field as_list j ''messages'';
     n \<leftarrow> as_opt as_int (jget j ''max_tokens'');
     ts \<leftarrow> (case jget j ''tools'' of None \<Rightarrow> Some [] | Some v \<Rightarrow> as_list v);
     if pred_option is_u32 n
     then Some \<lparr>mr_model = m, mr_messages = ms, mr_max_tokens = n,
       mr_system = (case jget j ''system'' of None \<Rightarrow> JNull | Some v \<Rightarrow> v), mr_tools = ts\<rparr>
     else None }"

definition backend_label :: "backend_type \<Rightarrow> string" where
  "backend_label b = (case b of MockTee \<Rightarrow> ''mock-tee'' | Local \<Rightarrow> ''local'' | Fhe \<Rightarrow> ''fhe'' | Mcp \<Rightarrow> ''mcp'')"

fun join_paras :: "string list \<Rightarrow> string" where
  "join_paras [] = []"
| "join_paras [x] = x"
| "join_paras (x # y # xs) = x @ [CHR 0x0A, CHR 0x0A] @ join_paras (y # xs)"

fun flatten_system :: "json \<Rightarrow> string" where
  "flatten_system (JStr s) = s"
| "flatten_system (JArr arr) = join_paras (List.map_filter (\<lambda>b. str_at b ''text'') arr)"
| "flatten_system _ = []"

text \<open>The characters of all contents as compact JSON, a quarter of them, as a \<open>u32\<close>, clamped.\<close>

definition estimate_tokens :: "prims \<Rightarrow> json list \<Rightarrow> int" where
  "estimate_tokens p messages =
     (let chars = sum_list (map (\<lambda>m. case jget m ''content'' of None \<Rightarrow> 0 | Some c \<Rightarrow> length (serde_write p c)) messages) in
      max 1 (min 100000 (int (chars div 4) mod 2 ^ 32)))"

datatype proxy_error = PxBadRequest string | PxCoord string | PxNode string | PxInternal string

fun proxy_error_text :: "proxy_error \<Rightarrow> string" where
  "proxy_error_text (PxBadRequest m) = ''bad request: '' @ m"
| "proxy_error_text (PxCoord m) = ''coordinator: '' @ m"
| "proxy_error_text (PxNode m) = ''node: '' @ m"
| "proxy_error_text (PxInternal m) = ''internal: '' @ m"

definition proxy_error_status :: "proxy_error \<Rightarrow> nat" where
  "proxy_error_status e = (case e of PxBadRequest _ \<Rightarrow> 400 | PxCoord _ \<Rightarrow> 502 | PxNode _ \<Rightarrow> 502 | PxInternal _ \<Rightarrow> 500)"

definition proxy_error_body :: "proxy_error \<Rightarrow> json" where
  "proxy_error_body e =
     JObj [(''error'', JObj [(''message'', JStr (proxy_error_text e)), (''type'', JStr ''fldx_proxy_error'')]), (''type'', JStr ''error'')]"

definition decode_pubkey :: "prims \<Rightarrow> string \<Rightarrow> proxy_error + bytes" where
  "decode_pubkey p b64 =
     (case b64_decode p b64 of
        Inl e \<Rightarrow> Inl (PxInternal (''bad node pubkey b64: '' @ e))
      | Inr bs \<Rightarrow> if length bs \<noteq> 32 then Inl (PxInternal ''node pubkey not 32 bytes'') else Inr bs)"

subsection \<open>The proxy: messages\<close>

text \<open>What is drawn at random for one call: the ephemeral secret, the session id's bytes, the
  nonce of the envelope and the message id's bytes.\<close>

record px_random =
  rn_secret :: bytes
  rn_sid :: bytes
  rn_nonce :: bytes
  rn_id :: bytes

definition F64_MAX :: rat where
  "F64_MAX = of_nat ((2 ^ 53 - 1) * 2 ^ 971)"

definition proxy_spec :: "prims \<Rightarrow> backend_type \<Rightarrow> messages_request \<Rightarrow> job_spec" where
  "proxy_spec p backend req =
     \<lparr>js_backend = backend, js_estimatedTokens = Fin (of_int (estimate_tokens p (mr_messages req))), js_maxPricePer1k = Fin F64_MAX\<rparr>"

text \<open>Step 1, the match.\<close>

definition proxy_match ::
  "prims \<Rightarrow> (nat \<Rightarrow> string) \<Rightarrow> 'w http \<Rightarrow> string \<Rightarrow> backend_type \<Rightarrow> messages_request \<Rightarrow> 'w \<Rightarrow> (proxy_error + job_match) \<times> 'w" where
  "proxy_match p reason http coord_url backend req w =
     (let match_url = coord_url @ ''/jobs/match'' in
      case http (rust_post p match_url (spec_json (proxy_spec p backend req))) w of
        (Inl e, w1) \<Rightarrow> (Inl (PxCoord (''POST '' @ match_url @ '': '' @ e)), w1)
      | (Inr m_resp, w1) \<Rightarrow>
          if \<not> res_ok m_resp
          then (Inl (PxCoord (''coordinator match failed '' @ status_text reason m_resp @ '': '' @ rs_body m_resp)), w1)
          else (case rbind (serde_read p (rs_body m_resp)) (read_as match_of_json) of
             Inl e \<Rightarrow> (Inl (PxCoord (''parse match: '' @ e)), w1)
           | Inr jm \<Rightarrow> (Inr jm, w1)))"

text \<open>Step 3, the request that is sealed and its envelope.\<close>

definition proxy_chat_request :: "messages_request \<Rightarrow> chat_request" where
  "proxy_chat_request req =
     \<lparr>cq_system = flatten_system (mr_system req), cq_messages = mr_messages req, cq_tools = mr_tools req,
      cq_max_tokens = (case mr_max_tokens req of None \<Rightarrow> 4096 | Some n \<Rightarrow> n)\<rparr>"

definition proxy_session_id :: "prims \<Rightarrow> px_random \<Rightarrow> string" where
  "proxy_session_id p rn = ''proxy-'' @ b64_encode p (rn_sid rn)"

definition proxy_envelope :: "prims \<Rightarrow> px_random \<Rightarrow> bytes \<Rightarrow> backend_type \<Rightarrow> messages_request \<Rightarrow> encrypted_request" where
  "proxy_envelope p rn key backend req =
     \<lparr>er_sessionId = proxy_session_id p rn, clientPublicKey = b64_encode p (x_pub p (rn_secret rn)),
      er_nonce = b64_encode p (rn_nonce rn),
      er_ciphertext = b64_encode p (aead_seal p key (rn_nonce rn) (utf8 (serde_write p (chat_request_json (proxy_chat_request req))))),
      er_backend = backend, er_channelId = None, er_prevAck = None\<rparr>"

text \<open>Step 4, the node's answer opened.\<close>

definition open_chat_result :: "prims \<Rightarrow> bytes \<Rightarrow> encrypted_response \<Rightarrow> proxy_error + chat_result" where
  "open_chat_result p key enc =
     (case b64_decode p (es_nonce enc) of Inl e \<Rightarrow> Inl (PxInternal (''bad nonce b64: '' @ e)) | Inr nonce \<Rightarrow>
     (case b64_decode p (es_ciphertext enc) of Inl e \<Rightarrow> Inl (PxInternal (''bad ciphertext b64: '' @ e)) | Inr ct \<Rightarrow>
     (case node_decrypt p key nonce ct of Inl e \<Rightarrow> Inl (PxInternal (''decrypt: '' @ e)) | Inr plain \<Rightarrow>
     (case rbind (serde_read p (utf8_decode plain)) (read_as chat_result_of_json) of
        Inl e \<Rightarrow> Inl (PxInternal (''parse ChatResult: '' @ e)) | Inr r \<Rightarrow> Inr r))))"

text \<open>Step 5, the answer as the Messages API gives it.\<close>

definition opt_json :: "int option \<Rightarrow> json" where
  "opt_json v = (case v of None \<Rightarrow> JNull | Some n \<Rightarrow> jint n)"

definition proxy_response :: "px_random \<Rightarrow> backend_type \<Rightarrow> messages_request \<Rightarrow> chat_result \<Rightarrow> json" where
  "proxy_response rn backend req r =
     JObj [(''content'', JArr (cs_content r)), (''id'', JStr (''msg_fldx_'' @ bytes_hex (rn_id rn))),
       (''model'', JStr (case mr_model req of None \<Rightarrow> ''fldx-'' @ backend_label backend | Some m \<Rightarrow> m)),
       (''role'', JStr ''assistant''), (''stop_reason'', JStr (cs_stop_reason r)), (''stop_sequence'', JNull), (''type'', JStr ''message''),
       (''usage'', JObj [(''cache_creation_input_tokens'', opt_json (cacheCreationInputTokens (cs_usage r))),
          (''cache_read_input_tokens'', opt_json (cacheReadInputTokens (cs_usage r))),
          (''input_tokens'', jint (inputTokens (cs_usage r))), (''output_tokens'', jint (outputTokens (cs_usage r)))])]"

definition proxy_messages ::
  "prims \<Rightarrow> (nat \<Rightarrow> string) \<Rightarrow> 'w http \<Rightarrow> string \<Rightarrow> backend_type \<Rightarrow> px_random \<Rightarrow> messages_request \<Rightarrow> 'w
   \<Rightarrow> (proxy_error + json) \<times> 'w" where
  "proxy_messages p reason http coord_url backend rn req w =
     (case proxy_match p reason http coord_url backend req w of (Inl e, w1) \<Rightarrow> (Inl e, w1) | (Inr job_match, w1) \<Rightarrow>
     (case decode_pubkey p (jm_publicKey job_match) of Inl e \<Rightarrow> (Inl e, w1) | Inr node_pub \<Rightarrow>
      let key = session_key p (dalek_shared p (rn_secret rn) node_pub) (proxy_session_id p rn);
          exec_url = jm_url job_match @ ''/proxy/complete'' in
     (case http (rust_post p exec_url (req_json (proxy_envelope p rn key backend req))) w1 of
        (Inl e, w2) \<Rightarrow> (Inl (PxNode (''POST '' @ exec_url @ '': '' @ e)), w2)
      | (Inr n_resp, w2) \<Rightarrow>
          if \<not> res_ok n_resp
          then (Inl (PxNode (''node '' @ exec_url @ '' returned '' @ status_text reason n_resp @ '': '' @ rs_body n_resp)), w2)
          else (case rbind (serde_read p (rs_body n_resp)) (read_as enc_of_json) of
             Inl e \<Rightarrow> (Inl (PxNode (''parse encrypted response: '' @ e)), w2)
           | Inr enc \<Rightarrow>
               (case open_chat_result p key enc of
                  Inl e \<Rightarrow> (Inl e, w2)
                | Inr r \<Rightarrow> (Inr (proxy_response rn backend req r), w2))))))"

subsection \<open>The proxy: its backend\<close>

definition initial_backend :: "string option \<Rightarrow> backend_type" where
  "initial_backend env = (if (case env of None \<Rightarrow> ''local'' | Some s \<Rightarrow> s) = ''mock-tee'' then MockTee else Local)"

definition get_backend :: "backend_type \<Rightarrow> json" where
  "get_backend b = JObj [(''backend'', JStr (backend_label b))]"

definition set_backend :: "string option \<Rightarrow> backend_type \<Rightarrow> (proxy_error + json) \<times> backend_type" where
  "set_backend kind b =
     (case kind of
        None \<Rightarrow> (Inl (PxBadRequest ''missing ?type=local|mock-tee''), b)
      | Some k \<Rightarrow>
          if k = ''local'' then (Inr (get_backend Local), Local)
          else if k = ''mock-tee'' then (Inr (get_backend MockTee), MockTee)
          else (Inl (PxBadRequest (''unknown backend `'' @ k @ ''`; want `local` or `mock-tee`'')), b))"

inductive proxy_step :: "backend_type \<Rightarrow> backend_type \<Rightarrow> bool" where
  read: "proxy_step b b"
| switch: "proxy_step b (snd (set_backend kind b))"

interpretation proxy: inv_system proxy_step "\<lambda>b. \<exists>env. b = initial_backend env" "\<lambda>b. b = MockTee \<or> b = Local"
  by unfold_locales (auto simp: initial_backend_def set_backend_def elim!: proxy_step.cases split: option.splits if_splits)

subsection \<open>Transparency\<close>

text \<open>The laws of the libraries on the Rust side alone: what \<open>serde_json\<close> writes it reads, and both
  ends of an X25519 exchange agree.\<close>

definition rust_side_ok :: "prims \<Rightarrow> bool" where
  "rust_side_ok p \<longleftrightarrow> prims_ok p \<and> (\<forall>j. serde_read p (serde_write p j) = Inr j) \<and>
     (\<forall>a b. length a = 32 \<longrightarrow> length b = 32 \<longrightarrow> dalek_shared p a (x_pub p b) = dalek_shared p b (x_pub p a))"

lemma chat_json_roundtrip [simp]:
  "is_u32 (cq_max_tokens q) \<Longrightarrow> chat_request_of_json (chat_request_json q) = Some q"
  "usage_u32 (cs_usage r) \<Longrightarrow> chat_result_of_json (chat_result_json r) = Some r"
  by (simp_all add: chat_request_of_json_def chat_request_json_def chat_result_of_json_def chat_result_json_def field_def)

lemma usage_json_not_null [simp]: "usage_json u \<noteq> JNull"
  by (simp add: usage_json_def)

lemma estimate_range: "1 \<le> estimate_tokens p ms \<and> estimate_tokens p ms \<le> 100000"
  by (simp add: estimate_tokens_def Let_def)

definition coord_spec :: "prims \<Rightarrow> backend_type \<Rightarrow> messages_request \<Rightarrow> rust_spec" where
  "coord_spec p backend req =
     \<lparr>rs_backend = backend, rs_estimated_tokens = estimate_tokens p (mr_messages req), rs_max_price_per_1k = F64_MAX\<rparr>"

lemma proxy_spec_read: "spec_of_json (spec_json (proxy_spec p backend req)) = Some (coord_spec p backend req)"
  using estimate_range [of p "mr_messages req"]
  by (simp add: spec_of_json_def spec_json_def proxy_spec_def coord_spec_def field_def)

text \<open>The limit the proxy sends excludes no node for its price.\<close>

lemma no_price_too_high: "unat (w :: u128) \<le> float_as_u128 (rs_max_price_per_1k (coord_spec p backend req) * 1000000)"
proof -
  have "(2 ^ 128 - 1 :: nat) \<le> nat \<lfloor>F64_MAX * 1000000\<rfloor>"
    by (simp add: F64_MAX_def)
  moreover have "unat w \<le> 2 ^ 128 - 1" using unsigned_less [of w, where ?'a = nat] by simp
  ultimately show ?thesis by (simp add: float_as_u128_def coord_spec_def)
qed

lemma rust_post_simps [simp]:
  "rq_method (rust_post p u j) = ''POST''" "rq_url (rust_post p u j) = u" "rq_body (rust_post p u j) = Some (serde_write p j)"
  by (simp_all add: rust_post_def)

lemma proxy_matched:
  assumes "rust_side_ok p" "http (rust_post p (coord_url @ ''/jobs/match'') (spec_json (proxy_spec p backend req))) w =
      (coord_server p refuse fmt coord_url now order s (rust_post p (coord_url @ ''/jobs/match'') (spec_json (proxy_spec p backend req))), w)"
    and "match_job fmt now order (coord_spec p backend req) s = Inr jm"
  shows "proxy_match p reason http coord_url backend req w = (Inr jm, w)"
  using assms by (simp add: proxy_match_def Let_def coord_server_def rust_side_ok_def res_ok_def proxy_spec_read)

text \<open>The node opens what the proxy sealed, and the proxy opens the answer.\<close>

lemma node_opens_chat:
  assumes ok: "rust_side_ok p" and len: "length (rn_secret rn) = 32" "length np = 32" "length (rn_nonce rn) = NONCE_SIZE"
    and key: "key = session_key p (dalek_shared p (rn_secret rn) (x_pub p np)) (proxy_session_id p rn)"
    and pr: "choose_provider mock_tee local_llm backend = Inr pr" and u: "pred_option is_u32 (mr_max_tokens req)"
  shows "open_chat p np mock_tee local_llm (proxy_envelope p rn key backend req) = Inr (key, proxy_chat_request req, pr)"
proof -
  have "is_u32 (cq_max_tokens (proxy_chat_request req))"
    using u by (cases "mr_max_tokens req") (simp_all add: proxy_chat_request_def is_u32_def)
  moreover have "dalek_shared p np (x_pub p (rn_secret rn)) = dalek_shared p (rn_secret rn) (x_pub p np)"
    using ok len by (simp add: rust_side_ok_def)
  ultimately show ?thesis
    using ok len by (simp add: open_chat_def proxy_envelope_def decode_client_pub_def prims_ok_def rust_side_ok_def node_decrypt_def
      Let_def key pr)
qed

lemma proxy_opens_result:
  assumes "rust_side_ok p" "length resp_nonce = NONCE_SIZE" "usage_u32 (cs_usage r)"
  shows "open_chat_result p key \<lparr>es_sessionId = sid, es_nonce = b64_encode p resp_nonce,
      es_ciphertext = b64_encode p (aead_seal p key resp_nonce (utf8 (serde_write p (chat_result_json r)))), es_receipt = None\<rparr> = Inr r"
  using assms by (simp add: open_chat_result_def node_decrypt_def rust_side_ok_def prims_ok_def)

subsection \<open>Properties\<close>

lemma proxy_runs:
  assumes "rust_side_ok p" "length (rn_secret rn) = 32" "length np = 32" "length (rn_nonce rn) = NONCE_SIZE" "length resp_nonce = NONCE_SIZE"
    and "\<And>q w. rq_url q = coord_url @ ''/jobs/match'' \<Longrightarrow> http q w = (coord_server p crefuse fmt coord_url now order s q, w)"
    and "match_job fmt now order (coord_spec p backend req) s = Inr \<lparr>jm_url = base, jm_publicKey = b64_encode p (x_pub p np)\<rparr>"
    and "\<And>q w. rq_url q = base @ ''/proxy/complete'' \<Longrightarrow> http q w = proxy_node p refuse base np resp_nonce mock_tee local_llm q w"
    and "choose_provider mock_tee local_llm backend = Inr pr" "pred_option is_u32 (mr_max_tokens req)"
    and "\<And>r w'. pr (proxy_chat_request req) w = (Inr r, w') \<Longrightarrow> usage_u32 (cs_usage r)"
  shows "proxy_messages p reason http coord_url backend rn req w =
     (case pr (proxy_chat_request req) w of
        (Inr r, w') \<Rightarrow> (Inr (proxy_response rn backend req r), w')
      | (Inl e, w') \<Rightarrow> (Inl (PxNode (''node '' @ base @ ''/proxy/complete returned 500 '' @ reason 500 @ '': backend complete: '' @ e)), w'))"
proof -
  let ?key = "session_key p (dalek_shared p (rn_secret rn) (x_pub p np)) (proxy_session_id p rn)"
  let ?env = "proxy_envelope p rn ?key backend req"
  have m: "proxy_match p reason http coord_url backend req w = (Inr \<lparr>jm_url = base, jm_publicKey = b64_encode p (x_pub p np)\<rparr>, w)"
    by (rule proxy_matched [OF assms(1) _ assms(7)]) (simp add: assms(6))
  have pub: "decode_pubkey p (b64_encode p (x_pub p np)) = Inr (x_pub p np)"
    using assms(1) by (simp add: decode_pubkey_def rust_side_ok_def prims_ok_def)
  have chat: "open_chat p np mock_tee local_llm ?env = Inr (?key, proxy_chat_request req, pr)"
    by (rule node_opens_chat [OF assms(1-4) refl assms(9,10)])
  have post: "http (rust_post p (base @ ''/proxy/complete'') (req_json ?env)) w =
     (case proxy_complete p np resp_nonce mock_tee local_llm ?env w of
        (Inl (st, m), w1) \<Rightarrow> (Inr \<lparr>rs_status = st, rs_body = m\<rparr>, w1)
      | (Inr enc, w1) \<Rightarrow> (Inr \<lparr>rs_status = 200, rs_body = serde_write p (enc_json enc)\<rparr>, w1))"
    using assms(1) by (simp add: assms(8) proxy_node_def rust_side_ok_def)
  have n: "nat_str 500 = ''500''" by code_simp
  have sr: "serde_read p (serde_write p j) = Inr j" for j using assms(1) by (simp add: rust_side_ok_def)
  obtain a w' where a: "pr (proxy_chat_request req) w = (a, w')" by fastforce
  show ?thesis
  proof (cases a)
    case (Inl e)
    then show ?thesis by (simp add: proxy_messages_def m pub Let_def post proxy_complete_def chat a res_ok_def status_text_def n)
  next
    case (Inr r)
    then have "usage_u32 (cs_usage r)" using assms(11) a by simp
    with Inr show ?thesis
      by (simp add: proxy_messages_def m pub Let_def post proxy_complete_def chat a res_ok_def sr proxy_opens_result [OF assms(1,5)])
  qed
qed

text \<open>C37. The proxy is transparent: when the coordinator matches a node and that node runs a provider
  for the chosen backend, the provider is called once, on the caller's system text (its blocks
  joined), messages and tools, with 4096 tokens unless the caller names a number; the caller gets
  exactly its content, stop reason and token counts, under the model name it asked for; a failure
  of the provider reaches the caller as a 502 with the provider's text.\<close>

theorem proxy_is_transparent:
  assumes "chat = \<lparr>cq_system = flatten_system (mr_system req), cq_messages = mr_messages req, cq_tools = mr_tools req,
      cq_max_tokens = (case mr_max_tokens req of None \<Rightarrow> 4096 | Some n \<Rightarrow> n)\<rparr>"
    and "rust_side_ok p" "length (rn_secret rn) = 32" "length np = 32" "length (rn_nonce rn) = NONCE_SIZE" "length resp_nonce = NONCE_SIZE"
    and "\<And>q w. rq_url q = coord_url @ ''/jobs/match'' \<Longrightarrow> http q w = (coord_server p crefuse fmt coord_url now order s q, w)"
    and "match_job fmt now order (coord_spec p backend req) s = Inr \<lparr>jm_url = base, jm_publicKey = b64_encode p (x_pub p np)\<rparr>"
    and "\<And>q w. rq_url q = base @ ''/proxy/complete'' \<Longrightarrow> http q w = proxy_node p refuse base np resp_nonce mock_tee local_llm q w"
    and "choose_provider mock_tee local_llm backend = Inr pr" "pred_option is_u32 (mr_max_tokens req)"
    and "\<And>r w'. pr chat w = (Inr r, w') \<Longrightarrow> usage_u32 (cs_usage r)"
  shows "case pr chat w of
       (Inr r, w') \<Rightarrow> (\<exists>j. proxy_messages p reason http coord_url backend rn req w = (Inr j, w') \<and>
          jget j ''content'' = Some (JArr (cs_content r)) \<and> jget j ''stop_reason'' = Some (JStr (cs_stop_reason r)) \<and>
          field (\<lambda>u. field as_int u ''input_tokens'') j ''usage'' = Some (inputTokens (cs_usage r)) \<and>
          field (\<lambda>u. field as_int u ''output_tokens'') j ''usage'' = Some (outputTokens (cs_usage r)) \<and>
          (\<forall>m. mr_model req = Some m \<longrightarrow> jget j ''model'' = Some (JStr m)))
     | (Inl e, w') \<Rightarrow> (\<exists>err. proxy_messages p reason http coord_url backend rn req w = (Inl err, w') \<and> proxy_error_status err = 502 \<and>
          proxy_error_text err = ''node: node '' @ base @ ''/proxy/complete returned 500 '' @ reason 500 @ '': backend complete: '' @ e)"
proof -
  have q: "proxy_chat_request req = chat" using assms(1) by (simp add: proxy_chat_request_def)
  have run: "proxy_messages p reason http coord_url backend rn req w =
     (case pr chat w of
        (Inr r, w') \<Rightarrow> (Inr (proxy_response rn backend req r), w')
      | (Inl e, w') \<Rightarrow> (Inl (PxNode (''node '' @ base @ ''/proxy/complete returned 500 '' @ reason 500 @ '': backend complete: '' @ e)), w'))"
    unfolding q [symmetric] by (rule proxy_runs [OF assms(2-11)]) (assumption | erule assms(12) [folded q])+
  show ?thesis
  proof (cases "pr chat w")
    case (Pair a w')
    then show ?thesis
      using run by (cases a) (simp_all add: proxy_response_def field_def proxy_error_status_def)
  qed
qed

subsection \<open>A concrete run\<close>

lemma demo_rust_side: "rust_side_ok demo_prims"
  by (auto simp: rust_side_ok_def demo_prims_ok) (simp_all add: demo_prims_def map2_add_commute)

definition demo_secret :: bytes where "demo_secret = replicate 32 7"

definition demo_proxy_reg :: node_registration where
  "demo_proxy_reg = \<lparr>identityPubkey = ''a'', publicKey = b64_encode demo_prims (x_pub demo_prims demo_secret), url = ''http://n'',
     backends = [Local], maxTokens = 10, pricing = [\<lparr>bp_backend = Local, bp_pricePer1k = nat_str 5\<rparr>], nr_nonce = [], nr_signature = []\<rparr>"

definition demo_proxy_coord :: coord_state where
  "demo_proxy_coord = \<lparr>co_nodes = [''a'' \<mapsto> \<lparr>co_reg = demo_proxy_reg, co_last_seen = 0\<rparr>], co_bids = Map.empty\<rparr>"

definition demo_call_req :: messages_request where
  "demo_call_req = \<lparr>mr_model = None, mr_messages = [], mr_max_tokens = None, mr_system = JStr ''be brief'', mr_tools = []\<rparr>"

text \<open>A model that counts its calls and answers with the system text it was given.\<close>

definition demo_echo :: "nat provider" where
  "demo_echo = (\<lambda>q n. (Inr \<lparr>cs_content = [JStr (cq_system q)], cs_stop_reason = ''end_turn'',
     cs_usage = \<lparr>inputTokens = 3, outputTokens = 2, cacheCreationInputTokens = None, cacheReadInputTokens = None\<rparr>\<rparr>, Suc n))"

definition demo_net :: "nat http" where
  "demo_net q n =
     (if rq_url q = ''http://c/jobs/match''
      then (coord_server demo_prims (\<lambda>q. Inl ''refused'') (\<lambda>_. ''1'') ''http://c'' 50 [''a''] demo_proxy_coord q, n)
      else proxy_node demo_prims (\<lambda>q n. (Inl ''refused'', n)) ''http://n'' demo_secret (replicate 24 1) None (Some demo_echo) q n)"

definition demo_random :: px_random where
  "demo_random = \<lparr>rn_secret = replicate 32 3, rn_sid = replicate 12 0, rn_nonce = replicate 24 9, rn_id = replicate 12 0\<rparr>"

lemma demo_proxy_match:
  "match_job (\<lambda>_. ''1'') 50 [''a''] (coord_spec demo_prims Local demo_call_req) demo_proxy_coord =
     Inr \<lparr>jm_url = ''http://n'', jm_publicKey = b64_encode demo_prims (x_pub demo_prims demo_secret)\<rparr>"
proof -
  have n: "parse_u128 (nat_str 5) = Some 5" using parse_u128_nat_str [of 5] by simp
  have e: "rs_estimated_tokens (coord_spec demo_prims Local demo_call_req) = 1"
    by (simp add: coord_spec_def estimate_tokens_def demo_call_req_def Let_def)
  have "\<not> float_as_u128 (rs_max_price_per_1k (coord_spec demo_prims Local demo_call_req) * 1000000) < unat (5 :: u128)"
    using no_price_too_high [of "5 :: u128" demo_prims Local demo_call_req] by (simp add: not_less)
  then show ?thesis
    by (simp add: match_job_def list_nodes_def map_filter_simps demo_proxy_coord_def match_step_def effective_price_def demo_proxy_reg_def n e)
      (simp add: coord_spec_def)
qed

theorem proxy_is_transparent_witness:
  "\<exists>j. proxy_messages demo_prims (\<lambda>_. ''Error'') demo_net ''http://c'' Local demo_random demo_call_req 0 = (Inr j, 1) \<and>
     jget j ''content'' = Some (JArr [JStr ''be brief''])"
proof -
  let ?chat = "\<lparr>cq_system = ''be brief'', cq_messages = [], cq_tools = [], cq_max_tokens = 4096\<rparr>"
  have "case demo_echo ?chat 0 of
       (Inr r, w') \<Rightarrow> (\<exists>j. proxy_messages demo_prims (\<lambda>_. ''Error'') demo_net ''http://c'' Local demo_random demo_call_req 0 = (Inr j, w') \<and>
          jget j ''content'' = Some (JArr (cs_content r)) \<and> jget j ''stop_reason'' = Some (JStr (cs_stop_reason r)) \<and>
          field (\<lambda>u. field as_int u ''input_tokens'') j ''usage'' = Some (inputTokens (cs_usage r)) \<and>
          field (\<lambda>u. field as_int u ''output_tokens'') j ''usage'' = Some (outputTokens (cs_usage r)) \<and>
          (\<forall>m. mr_model demo_call_req = Some m \<longrightarrow> jget j ''model'' = Some (JStr m)))
     | (Inl e, w') \<Rightarrow> (\<exists>err. proxy_messages demo_prims (\<lambda>_. ''Error'') demo_net ''http://c'' Local demo_random demo_call_req 0 = (Inl err, w') \<and>
          proxy_error_status err = 502 \<and>
          proxy_error_text err = ''node: node '' @ ''http://n'' @ ''/proxy/complete returned 500 '' @ ''Error'' @ '': backend complete: '' @ e)"
    by (rule proxy_is_transparent [where mock_tee = None and local_llm = "Some demo_echo", OF _ demo_rust_side _ _ _ _ _ demo_proxy_match])
      (simp_all add: demo_net_def demo_random_def demo_secret_def NONCE_SIZE_def choose_provider_def demo_call_req_def demo_echo_def
        usage_u32_def Let_def)
  then show ?thesis by (auto simp: demo_echo_def)
qed

end
