(* ===== verification/Identity.thy ===== *)
theory Identity
  imports Transport
begin

section \<open>The node's identity on disk (apps/node/src/identity.rs)\<close>

text \<open>
  A node has two seeds: the one of its X25519 keys and the one of its secp256k1 identity, which
  is also the address its stake is locked under. They live in one JSON file, made at the first
  start, loaded at every later one, and copied forward from a legacy place.

  The state is the disk (\<open>disk\<close>): the contents of files and which of them are for the owner only.
  \<open>id_env\<close> holds what lies outside: the home directory, the crates \<open>hex\<close> and \<open>serde_json\<close>, which seeds
  are scalars of the curve, and \<open>ie_fail\<close>, the error of an operation on a path together with what
  it left in the file when it had begun. Errors are texts, the contexts of \<open>anyhow\<close> in front.
\<close>

record disk =
  fi_content :: "string \<Rightarrow> bytes option"
  fi_private :: "string \<Rightarrow> bool"

datatype file_op = CreateDir | CopyFile | ReadFile | WriteFile | Chmod

record id_env =
  ie_home :: "string option"
  ie_fail :: "file_op \<Rightarrow> string \<Rightarrow> (string \<times> bytes option) option"
  ie_hex_encode :: "bytes \<Rightarrow> string"
  ie_hex_decode :: "string \<Rightarrow> string + bytes"
  ie_write_json :: "json \<Rightarrow> bytes"
  ie_read_json :: "bytes \<Rightarrow> string + json"
  ie_scalar :: "bytes \<Rightarrow> string option"

definition KEY_SIZE :: nat where
  "KEY_SIZE = 32"

subsection \<open>Paths\<close>

definition path_join :: "string \<Rightarrow> string \<Rightarrow> string" where
  "path_join a b = (if a = [] \<or> last a = CHR ''/'' then a @ b else a @ ''/'' @ b)"

text \<open>\<open>Path::parent\<close> of a path that ends in a file name.\<close>

definition path_parent :: "string \<Rightarrow> string" where
  "path_parent s =
     (let dir = rev (drop 1 (dropWhile (\<lambda>c. c \<noteq> CHR ''/'') (rev s))) in
      if dir = [] \<and> take 1 s = ''/'' then ''/'' else dir)"

definition default_path :: "string option \<Rightarrow> id_env \<Rightarrow> string + string" where
  "default_path var env =
     (case var of
        Some q \<Rightarrow> Inr q
      | None \<Rightarrow>
          (case ie_home env of
             None \<Rightarrow> Inl ''could not resolve home dir''
           | Some home \<Rightarrow> Inr (path_join (path_join (path_join home ''.fldx'') ''node'') ''identity.json'')))"

definition legacy_path :: "string \<Rightarrow> string" where
  "legacy_path home = path_join (path_join (path_join home ''.flodex'') ''node'') ''identity.json''"

subsection \<open>Operations\<close>

definition left_at :: "string \<Rightarrow> bytes option \<Rightarrow> disk \<Rightarrow> disk" where
  "left_at path left d = (case left of None \<Rightarrow> d | Some c \<Rightarrow> d\<lparr>fi_content := (fi_content d)(path \<mapsto> c)\<rparr>)"

text \<open>Setting the mode may fail; that is only logged.\<close>

definition set_secret_perms :: "id_env \<Rightarrow> string \<Rightarrow> disk \<Rightarrow> disk" where
  "set_secret_perms env path d = (if ie_fail env Chmod path = None then d\<lparr>fi_private := (fi_private d)(path := True)\<rparr> else d)"

definition migrate_legacy_identity :: "id_env \<Rightarrow> string \<Rightarrow> disk \<Rightarrow> (string + bool) \<times> disk" where
  "migrate_legacy_identity env target d =
     (if fi_content d target \<noteq> None then (Inr False, d)
      else case ie_home env of
        None \<Rightarrow> (Inr False, d)
      | Some home \<Rightarrow>
          (case fi_content d (legacy_path home) of
             None \<Rightarrow> (Inr False, d)
           | Some c \<Rightarrow>
               (case ie_fail env CreateDir (path_parent target) of
                  Some (e, _) \<Rightarrow> (Inl (''creating '' @ path_parent target @ '': '' @ e), d)
                | None \<Rightarrow>
                    (case ie_fail env CopyFile target of
                       Some (e, left) \<Rightarrow>
                         (Inl (''migrating legacy identity '' @ legacy_path home @ '' '' @ [CHR 0xE2, CHR 0x86, CHR 0x92] @ '' '' @ target @
                            '': '' @ e), left_at target left d)
                     | None \<Rightarrow>
                         (Inr True, set_secret_perms env target
                            (d\<lparr>fi_content := (fi_content d)(target \<mapsto> c),
                               fi_private := (fi_private d)(target := fi_private d (legacy_path home))\<rparr>))))))"

definition parse_seed :: "id_env \<Rightarrow> string \<Rightarrow> string \<Rightarrow> string + bytes" where
  "parse_seed env s name =
     (case ie_hex_decode env s of
        Inl e \<Rightarrow> Inl (''hex-decoding '' @ name @ '': '' @ e)
      | Inr bs \<Rightarrow> if length bs = KEY_SIZE then Inr bs else Inl (name @ '' must be 32 bytes after hex-decode''))"

text \<open>The file: \<open>OnDiskIdentity\<close>. A key pair is its seed.\<close>

definition on_disk_json :: "id_env \<Rightarrow> bytes \<Rightarrow> bytes \<Rightarrow> json" where
  "on_disk_json env ecdh ident =
     JObj [(''ecdh_seed'', JStr (ie_hex_encode env ecdh)), (''identity_seed'', JStr (ie_hex_encode env ident))]"

definition on_disk_of_json :: "json \<Rightarrow> (string \<times> string) option" where
  "on_disk_of_json j = do { a \<leftarrow> field as_str j ''ecdh_seed''; b \<leftarrow> field as_str j ''identity_seed''; Some (a, b) }"

definition read_identity :: "id_env \<Rightarrow> string \<Rightarrow> bytes \<Rightarrow> string + bytes \<times> bytes" where
  "read_identity env path content =
     (case rbind (ie_read_json env content) (read_as on_disk_of_json) of
        Inl e \<Rightarrow> Inl (''parsing identity file '' @ path @ '': '' @ e)
      | Inr (a, b) \<Rightarrow>
          rbind (parse_seed env a ''ecdh_seed'') (\<lambda>ecdh.
          rbind (parse_seed env b ''identity_seed'') (\<lambda>ident.
          case ie_scalar env ident of
            Some e \<Rightarrow> Inl (''identity_seed is not a valid secp256k1 scalar: invalid secp256k1 seed: '' @ e)
          | None \<Rightarrow> Inr (ecdh, ident))))"

definition load_identity :: "id_env \<Rightarrow> string \<Rightarrow> disk \<Rightarrow> string + bytes \<times> bytes" where
  "load_identity env path d =
     (case (ie_fail env ReadFile path, fi_content d path) of
        (Some (e, _), _) \<Rightarrow> Inl (''reading identity file '' @ path @ '': '' @ e)
      | (None, None) \<Rightarrow> Inl (''reading identity file '' @ path @ '': No such file or directory (os error 2)'')
      | (None, Some content) \<Rightarrow> read_identity env path content)"

definition save_identity :: "id_env \<Rightarrow> string \<Rightarrow> bytes \<Rightarrow> bytes \<Rightarrow> disk \<Rightarrow> (string + unit) \<times> disk" where
  "save_identity env path ecdh ident d =
     (case ie_fail env CreateDir (path_parent path) of
        Some (e, _) \<Rightarrow> (Inl (''creating '' @ path_parent path @ '': '' @ e), d)
      | None \<Rightarrow>
          (case ie_fail env WriteFile path of
             Some (e, left) \<Rightarrow> (Inl (''writing identity file '' @ path @ '': '' @ e), left_at path left d)
           | None \<Rightarrow>
               (Inr (), set_secret_perms env path
                  (d\<lparr>fi_content := (fi_content d)(path \<mapsto> ie_write_json env (on_disk_json env ecdh ident)),
                     fi_private := (fi_private d)(path := fi_content d path \<noteq> None \<and> fi_private d path)\<rparr>))))"

text \<open>The two random seeds of a first start are arguments; one that is no scalar is a panic.\<close>

definition load_or_generate :: "id_env \<Rightarrow> string \<Rightarrow> bytes \<times> bytes \<Rightarrow> disk \<Rightarrow> (string + bytes \<times> bytes) \<times> disk" where
  "load_or_generate env path fresh d =
     (case migrate_legacy_identity env path d of
        (Inl e, d1) \<Rightarrow> (Inl e, d1)
      | (Inr _, d1) \<Rightarrow>
          if fi_content d1 path \<noteq> None then (load_identity env path d1, d1)
          else
            (case ie_scalar env (snd fresh) of
               Some e \<Rightarrow> (Inl (''random seed is a valid scalar with overwhelming probability: invalid secp256k1 seed: '' @ e), d1)
             | None \<Rightarrow>
                 (case save_identity env path (fst fresh) (snd fresh) d1 of
                    (Inl e, d2) \<Rightarrow> (Inl e, d2)
                  | (Inr _, d2) \<Rightarrow> (Inr fresh, d2))))"

subsection \<open>The identity stays\<close>

text \<open>What the two crates promise: they read back what they wrote.\<close>

definition id_env_ok :: "id_env \<Rightarrow> bool" where
  "id_env_ok env \<longleftrightarrow> (\<forall>bs. ie_hex_decode env (ie_hex_encode env bs) = Inr bs) \<and> (\<forall>j. ie_read_json env (ie_write_json env j) = Inr j)"

lemma read_identity_written:
  assumes "id_env_ok env" "length ecdh = 32" "length ident = 32" "ie_scalar env ident = None"
  shows "read_identity env path (ie_write_json env (on_disk_json env ecdh ident)) = Inr (ecdh, ident)"
  using assms
  by (simp add: id_env_ok_def read_identity_def on_disk_json_def on_disk_of_json_def read_as_def field_def parse_seed_def KEY_SIZE_def)

lemma same_reader [simp]: "parse_seed (env\<lparr>ie_home := h\<rparr>) = parse_seed env" "read_identity (env\<lparr>ie_home := h\<rparr>) = read_identity env"
  by (intro ext; simp add: parse_seed_def read_identity_def cong: sum.case_cong)+

lemma left_at_other [simp]: "fi_content (left_at q left d) path = (if path = q \<and> left \<noteq> None then left else fi_content d path)"
  by (cases left) (auto simp: left_at_def)

lemma secret_content [simp]: "fi_content (set_secret_perms env path d) = fi_content d"
  by (simp add: set_secret_perms_def)

lemma migrate_content:
  assumes "migrate_legacy_identity env path d = (Inr r, d')"
  shows "fi_content d path = Some c \<Longrightarrow> d' = d"
    and "fi_content d path = None \<Longrightarrow> fi_content d' path = Option.bind (ie_home env) (\<lambda>h. fi_content d (legacy_path h))"
    and "fi_content d path = None \<Longrightarrow> fi_content d' path \<noteq> None \<Longrightarrow> ie_fail env Chmod path = None \<Longrightarrow> fi_private d' path"
  using assms by (auto simp: migrate_legacy_identity_def set_secret_perms_def split: option.splits if_splits)

text \<open>A start that succeeded leaves a file from which the same seeds are read.\<close>

lemma start_leaves_file:
  assumes "id_env_ok env" "length (fst fresh) = 32" "length (snd fresh) = 32"
    and "load_or_generate env path fresh d = (Inr seeds, d')" "ie_fail env ReadFile path = None"
  shows "\<exists>c. fi_content d' path = Some c \<and> read_identity env path c = Inr seeds"
    and "fi_content d path = None \<Longrightarrow> ie_fail env Chmod path = None \<Longrightarrow> fi_private d' path"
proof -
  obtain r d1 where m: "migrate_legacy_identity env path d = (Inr r, d1)"
    using assms(4) by (cases "migrate_legacy_identity env path d" rule: prod.exhaust; cases "fst (migrate_legacy_identity env path d)")
      (auto simp: load_or_generate_def)
  have "(\<exists>c. fi_content d' path = Some c \<and> read_identity env path c = Inr seeds) \<and>
    (fi_content d path = None \<longrightarrow> ie_fail env Chmod path = None \<longrightarrow> fi_private d' path)"
  proof (cases "fi_content d1 path")
    case (Some c)
    then have "d' = d1" "read_identity env path c = Inr seeds" using assms(4,5) m by (auto simp: load_or_generate_def load_identity_def)
    with Some migrate_content(3) [OF m] show ?thesis by simp
  next
    case None
    with assms(4) m have s: "ie_scalar env (snd fresh) = None" "seeds = fresh"
      "fi_content d' path = Some (ie_write_json env (on_disk_json env (fst fresh) (snd fresh)))"
      "ie_fail env Chmod path = None \<longrightarrow> fi_private d' path"
      by (auto simp: load_or_generate_def save_identity_def set_secret_perms_def split: option.splits prod.splits)
    then show ?thesis using read_identity_written [OF assms(1-3) s(1)] by simp
  qed
  then show "\<exists>c. fi_content d' path = Some c \<and> read_identity env path c = Inr seeds"
    "fi_content d path = None \<Longrightarrow> ie_fail env Chmod path = None \<Longrightarrow> fi_private d' path" by auto
qed

text \<open>C38. Once a node has started, every later start finds the same two seeds whatever else happened
  on the disk, wherever the home directory is then and whatever is drawn; and a file made or
  migrated by the first start is for its owner only, unless the mode could not be set.\<close>

theorem identity_is_stable:
  assumes "id_env_ok env" "length (fst fresh) = 32" "length (snd fresh) = 32" "ie_fail env ReadFile path = None"
    and first: "load_or_generate env path fresh d = (Inr seeds, d1)"
    and kept: "fi_content d2 path = fi_content d1 path"
  shows "load_or_generate (env\<lparr>ie_home := h\<rparr>) path other d2 = (Inr seeds, d2) \<and>
    (fi_content d path = None \<longrightarrow> ie_fail env Chmod path = None \<longrightarrow> fi_private d1 path)"
proof -
  obtain c where c: "fi_content d1 path = Some c" "read_identity env path c = Inr seeds"
    using start_leaves_file(1) [OF assms(1-3) first assms(4)] by blast
  with kept assms(4) have "load_or_generate (env\<lparr>ie_home := h\<rparr>) path other d2 = (Inr seeds, d2)"
    by (simp add: load_or_generate_def migrate_legacy_identity_def load_identity_def)
  with start_leaves_file(2) [OF assms(1-3) first assms(4)] show ?thesis by blast
qed

text \<open>The copy is made to any path that is empty, the default one or not: on a machine with a legacy
  file, two nodes given paths of their own are one identity.\<close>

theorem legacy_identity_shared:
  assumes "ie_home env = Some home" "fi_content d (legacy_path home) = Some c" "fi_content d path = None"
    and "read_identity env path c = Inr seeds" and "\<And>op q. ie_fail env op q = None"
  shows "fst (load_or_generate env path fresh d) = Inr seeds"
  using assms by (simp add: load_or_generate_def migrate_legacy_identity_def load_identity_def set_secret_perms_def)

subsection \<open>A first and a second start\<close>

definition demo_id_env :: id_env where
  "demo_id_env = \<lparr>ie_home = Some ''/home/n'', ie_fail = (\<lambda>_ _. None), ie_hex_encode = utf8_decode,
     ie_hex_decode = (\<lambda>s. Inr (utf8 s)), ie_write_json = (\<lambda>j. utf8 (serde_write demo_prims j)),
     ie_read_json = (\<lambda>bs. serde_read demo_prims (utf8_decode bs)), ie_scalar = (\<lambda>_. None)\<rparr>"

lemma demo_id_env_ok: "id_env_ok demo_id_env"
  by (simp add: id_env_ok_def demo_id_env_def demo_prims_def utf8_of_decode)

theorem identity_is_stable_witness:
  "\<exists>d. load_or_generate demo_id_env ''/home/n/.fldx/node/identity.json'' (replicate 32 1, replicate 32 2) \<lparr>fi_content = Map.empty, fi_private = (\<lambda>_. False)\<rparr>
      = (Inr (replicate 32 1, replicate 32 2), d) \<and>
    load_or_generate (demo_id_env\<lparr>ie_home := None\<rparr>) ''/home/n/.fldx/node/identity.json'' ([], []) d = (Inr (replicate 32 1, replicate 32 2), d) \<and>
    fi_private d ''/home/n/.fldx/node/identity.json''"
proof -
  let ?path = "''/home/n/.fldx/node/identity.json''" and ?fresh = "(replicate 32 (1 :: byte), replicate 32 (2 :: byte))"
  let ?d0 = "\<lparr>fi_content = Map.empty, fi_private = (\<lambda>_. False)\<rparr>"
  obtain d where first: "load_or_generate demo_id_env ?path ?fresh ?d0 = (Inr ?fresh, d)"
    by (simp add: load_or_generate_def migrate_legacy_identity_def save_identity_def demo_id_env_def)
  have free: "ie_fail demo_id_env op q = None" for op q by (simp add: demo_id_env_def)
  from identity_is_stable [OF demo_id_env_ok _ _ free first refl, of None "([], [])"] first free
  show ?thesis by (intro exI [of _ d]) simp
qed

end
