(* ===== verification/NodeLoops.thy ===== *)
theory NodeLoops
  imports AutoRegister Identity NodeChannel Providers
begin

section \<open>The node's start and its background loops (apps/node/src/main.rs)\<close>

text \<open>
  What a node decides when it starts (\<open>init_backends\<close>, \<open>main\<close>), what it says about itself
  (\<open>info\<close>), and the two loops that keep it on the coordinator's books: \<open>registration_loop\<close>
  registers, then sends a heartbeat every ten seconds and registers again when it has been
  forgotten; \<open>bid_loop\<close> posts a bid per backend every minute, each valid for three minutes.

  A loop holds a lease that runs out unless it is renewed. \<open>lease_step\<close> is that situation with
  its clock: the loop's turns, each at most \<open>late\<close> after it is due and some of them lost, and
  whatever else happens at the other side in between. The locale \<open>lease_keeper\<close> says what a loop
  and its server have to promise, and proves once that the lease is held again within a bounded
  time and from then on. It is interpreted on both loops over the model of the coordinator. A
  turn takes no time of its own, its duration is part of \<open>late\<close>; both sides read one clock.
\<close>

subsection \<open>Start\<close>

definition node_backends :: "bool \<Rightarrow> bool \<Rightarrow> backend_type list" where
  "node_backends mock_tee local_llm = (if mock_tee then [MockTee] else []) @ (if local_llm then [Local] else [])"

definition info_handler :: "prims \<Rightarrow> bytes \<Rightarrow> bool \<Rightarrow> bool \<Rightarrow> node_info" where
  "info_handler p public mock_tee local_llm =
     \<lparr>ni_publicKey = b64_encode p public, ni_backends = node_backends mock_tee local_llm\<rparr>"

text \<open>Where the local model's weights come from.\<close>

datatype model_spec = HuggingFace (ms_repo: string) (ms_filename: string) | ModelFile (ms_path: string)

fun splitn :: "nat \<Rightarrow> char \<Rightarrow> string \<Rightarrow> string list" where
  "splitn 0 c s = []"
| "splitn (Suc 0) c s = [s]"
| "splitn (Suc (Suc n)) c s =
     (case dropWhile (\<lambda>x. x \<noteq> c) s of [] \<Rightarrow> [s] | x # rest \<Rightarrow> takeWhile (\<lambda>x. x \<noteq> c) s # splitn (Suc n) c rest)"

definition parse_model_spec :: "string \<Rightarrow> string + model_spec" where
  "parse_model_spec s =
     (if take 5 s = ''hf://'' then
        let parts = splitn 3 CHR ''/'' (drop 5 s) in
        if length parts < 3 \<or> (\<exists>q \<in> set parts. q = [])
        then Inl (''hf:// spec must be `hf://owner/repo/filename`, got `'' @ s @ ''`'')
        else Inr (HuggingFace (parts ! 0 @ ''/'' @ parts ! 1) (parts ! 2))
      else if take 7 s = ''file://'' then Inr (ModelFile (drop 7 s))
      else if take 1 s = ''/'' \<or> take 2 s = ''./'' \<or> take 3 s = ''../'' then Inr (ModelFile s)
      else Inl (''unknown model spec `'' @ s @ ''` '' @ [CHR 0xE2, CHR 0x80, CHR 0x94] @ '' use hf://, file://, or an absolute path''))"

text \<open>The agents of the two backends; fetching the weights and starting the local server is an
  argument that may fail.\<close>

definition init_backends ::
  "prims \<Rightarrow> (nat \<Rightarrow> string) \<Rightarrow> 'w http \<Rightarrow> string \<Rightarrow> string \<Rightarrow> 'w tool list \<Rightarrow> (string \<Rightarrow> string option)
   \<Rightarrow> (model_spec \<Rightarrow> string + string) \<Rightarrow> string + ('w agent option \<times> 'w agent option)" where
  "init_backends p reason http default_model system_prompt tools env start_local =
     (let mock_tee = map_option (\<lambda>key.
            agent_new (anthropic_complete p reason http key (case env ''FLDX_NODE_MODEL'' of None \<Rightarrow> default_model | Some m \<Rightarrow> m))
              system_prompt tools) (env ''ANTHROPIC_API_KEY'') in
      case env ''FLDX_LLAMA_MODEL'' of
        None \<Rightarrow> Inr (mock_tee, None)
      | Some spec \<Rightarrow>
          (case parse_model_spec spec of
             Inl e \<Rightarrow> Inl (''parsing FLDX_LLAMA_MODEL: '' @ e)
           | Inr m \<Rightarrow>
               (case start_local m of
                  Inl e \<Rightarrow> Inl e
                | Inr base_url \<Rightarrow>
                    Inr (mock_tee, Some (agent_new (openai_complete p reason http base_url ''local'') system_prompt tools)))))"

text \<open>What a start decides: the identity, the backends with their prices, the addresses, the
  registration on chain that is started and the configuration of the two loops.\<close>

record node_start =
  ns_seeds :: "bytes \<times> bytes"
  ns_backends :: "backend_type list"
  ns_pricing :: "backend_price list"
  ns_chain :: "rust_chain option"
  ns_addr :: string
  ns_advertise_url :: string
  ns_max_tokens :: "32 word"
  ns_register :: "(string list + register_params) option"
  ns_loops :: "(string \<times> node_registration) option"

definition parse_u32 :: "string \<Rightarrow> 32 word option" where
  "parse_u32 s = Option.bind (parse_u128 s) (\<lambda>w. if unat w < 2 ^ 32 then Some (ucast w) else None)"

definition chain_rpc_url :: "string option \<Rightarrow> rust_chain \<Rightarrow> string" where
  "chain_rpc_url var chain = (case var of None \<Rightarrow> rc_rpc_url chain | Some u \<Rightarrow> u)"

text \<open>\<open>env\<close> reads a variable, \<open>prices\<close> the price variable of a backend; \<open>pub\<close> is the compressed public
  key of a secp256k1 seed.\<close>

definition node_main ::
  "rust_prims \<Rightarrow> prims \<Rightarrow> id_env \<Rightarrow> (bytes \<Rightarrow> bytes) \<Rightarrow> (backend_type \<Rightarrow> rat option) \<Rightarrow> (string \<Rightarrow> string option) \<Rightarrow> bool \<times> bool
   \<Rightarrow> bytes \<times> bytes \<Rightarrow> disk \<Rightarrow> (string + node_start) \<times> disk" where
  "node_main rp p ie pub prices env loaded fresh d =
     (if \<not> fst loaded \<and> \<not> snd loaded
      then (Inl (''no backends configured. Set ANTHROPIC_API_KEY for mock-tee, FLDX_LLAMA_MODEL for local, or both.''), d)
      else case default_path (env ''FLDX_NODE_IDENTITY_PATH'') ie of
        Inl e \<Rightarrow> (Inl e, d)
      | Inr path \<Rightarrow>
          (case load_or_generate ie path fresh d of
             (Inl e, d1) \<Rightarrow> (Inl e, d1)
           | (Inr seeds, d1) \<Rightarrow>
               let bs = node_backends (fst loaded) (snd loaded);
                   prs = read_pricing prices bs;
                   chain = chain_from_env (env ''FLDX_CHAIN_ID'');
                   public = x_pub p (fst seeds);
                   addr = (case env ''FLDX_NODE_ADDR'' of None \<Rightarrow> ''127.0.0.1:7777'' | Some a \<Rightarrow> a);
                   advertised = (case env ''FLDX_NODE_URL'' of None \<Rightarrow> ''http://'' @ addr | Some u \<Rightarrow> u);
                   cap = (case Option.bind (env ''FLDX_NODE_MAX_TOKENS'') parse_u32 of None \<Rightarrow> 100000 | Some n \<Rightarrow> n) in
               (Inr \<lparr>ns_seeds = seeds, ns_backends = bs, ns_pricing = prs, ns_chain = chain, ns_addr = addr,
                  ns_advertise_url = advertised, ns_max_tokens = cap,
                  ns_register = Option.bind chain (\<lambda>c. map_option (\<lambda>registry.
                    spawn_register rp (rc_chain_id c) (chain_rpc_url (env ''FLDX_RPC_URL'') c) (rc_usdc c) registry advertised public
                      bs cap prs (env ''FLDX_NODE_STAKE'')) (rc_registry c)),
                  ns_loops = map_option (\<lambda>coord_url.
                    (coord_url, \<lparr>identityPubkey = hex_encode rp (pub (snd seeds)), publicKey = b64_encode p public, url = advertised,
                       backends = bs, maxTokens = uint cap, pricing = prs, nr_nonce = [], nr_signature = []\<rparr>))
                    (env ''FLDX_COORDINATOR'')\<rparr>, d1)))"

lemma pricing_covers: "map bp_backend (read_pricing prices bs) = bs"
  by (simp add: read_pricing_def comp_def)

lemma node_main_Inr:
  assumes "node_main rp p ie pub prices env loaded fresh d = (Inr st, d1)"
  shows "fst loaded \<or> snd loaded" "ns_backends st = node_backends (fst loaded) (snd loaded)" "ns_pricing st = read_pricing prices (ns_backends st)"
    and "ns_loops st = Some (cu, cfg) \<Longrightarrow> backends cfg = ns_backends st \<and> pricing cfg = ns_pricing st \<and> url cfg = ns_advertise_url st \<and>
      publicKey cfg = b64_encode p (x_pub p (fst (ns_seeds st))) \<and> maxTokens cfg = uint (ns_max_tokens st)"
    and "ns_register st = Option.bind (ns_chain st) (\<lambda>c. map_option (\<lambda>registry.
      spawn_register rp (rc_chain_id c) (chain_rpc_url (env ''FLDX_RPC_URL'') c) (rc_usdc c) registry (ns_advertise_url st)
        (x_pub p (fst (ns_seeds st))) (ns_backends st) (ns_max_tokens st) (ns_pricing st) (env ''FLDX_NODE_STAKE'')) (rc_registry c))"
  using assms by (auto simp: node_main_def Let_def split: sum.splits prod.splits if_splits)

lemma spawn_register_Inr:
  "spawn_register rp i rpc uh rh u e bs n ps k = Inr prm \<Longrightarrow>
    rp_url prm = u \<and> rp_bitmap prm = backend_bitmap bs \<and> rp_ecdh prm = e \<and> pricing_to_array ps = Inr (rp_prices prm)"
  by (auto simp: spawn_register_def split: sum.splits)

text \<open>What a node says about itself, in its info, to the coordinator and on chain, is the same, and
  is what it serves.\<close>

theorem advertised_is_served:
  assumes "node_main rp p ie pub prices env loaded fresh d = (Inr st, d1)"
  shows "b \<in> set (ns_backends st) \<longleftrightarrow> choose_backend (fst loaded) (snd loaded) b = Inr ()"
    and "ns_backends st \<noteq> [] \<and> map bp_backend (ns_pricing st) = ns_backends st"
    and "ns_loops st = Some (cu, cfg) \<Longrightarrow>
      info_handler p (x_pub p (fst (ns_seeds st))) (fst loaded) (snd loaded) = \<lparr>ni_publicKey = publicKey cfg, ni_backends = backends cfg\<rparr>"
    and "ns_loops st = Some (cu, cfg) \<Longrightarrow> ns_register st = Some (Inr prm) \<Longrightarrow>
      rp_url prm = url cfg \<and> rp_bitmap prm = backend_bitmap (backends cfg) \<and> publicKey cfg = b64_encode p (rp_ecdh prm) \<and>
      pricing_to_array (pricing cfg) = Inr (rp_prices prm)"
proof -
  note st = node_main_Inr [OF assms]
  show "b \<in> set (ns_backends st) \<longleftrightarrow> choose_backend (fst loaded) (snd loaded) b = Inr ()"
    unfolding st(2) by (cases b) (auto simp: node_backends_def choose_backend_def)
  show "ns_backends st \<noteq> [] \<and> map bp_backend (ns_pricing st) = ns_backends st"
    using st(1-3) by (auto simp: pricing_covers node_backends_def)
  show "info_handler p (x_pub p (fst (ns_seeds st))) (fst loaded) (snd loaded) = \<lparr>ni_publicKey = publicKey cfg, ni_backends = backends cfg\<rparr>"
    if "ns_loops st = Some (cu, cfg)"
    using st(4) [OF that] st(2) by (simp add: info_handler_def)
  show "rp_url prm = url cfg \<and> rp_bitmap prm = backend_bitmap (backends cfg) \<and> publicKey cfg = b64_encode p (rp_ecdh prm) \<and>
      pricing_to_array (pricing cfg) = Inr (rp_prices prm)" if "ns_loops st = Some (cu, cfg)" "ns_register st = Some (Inr prm)"
    using st(4) [OF that(1)] that(2) [unfolded st(5)] by (auto simp: bind_eq_Some_conv dest: spawn_register_Inr)
qed

subsection \<open>A lease and its keeper\<close>

record 's lease_run =
  lr_now :: int
  lr_due :: int
  lr_misses :: nat
  lr_state :: 's

text \<open>\<open>turn t s s' d\<close>: a turn at time \<open>t\<close> whose calls are answered, after which the loop sleeps for
  \<open>d\<close>; \<open>missed\<close>: one that loses a call or an answer; \<open>other\<close>: anything else at time \<open>t\<close>. At most
  \<open>k\<close> turns in a row are missed.\<close>

inductive lease_step ::
  "(int \<Rightarrow> 's \<Rightarrow> 's \<Rightarrow> int \<Rightarrow> bool) \<Rightarrow> (int \<Rightarrow> 's \<Rightarrow> 's \<Rightarrow> int \<Rightarrow> bool) \<Rightarrow> (int \<Rightarrow> 's \<Rightarrow> 's \<Rightarrow> bool) \<Rightarrow> int \<Rightarrow> nat
   \<Rightarrow> 's lease_run \<Rightarrow> 's lease_run \<Rightarrow> bool" for turn missed other late k where
  ls_turn: "lr_now l \<le> t \<Longrightarrow> lr_due l \<le> t \<Longrightarrow> t \<le> lr_due l + late \<Longrightarrow> turn t (lr_state l) s' d \<Longrightarrow>
     lease_step turn missed other late k l \<lparr>lr_now = t, lr_due = t + d, lr_misses = 0, lr_state = s'\<rparr>"
| ls_missed: "lr_now l \<le> t \<Longrightarrow> lr_due l \<le> t \<Longrightarrow> t \<le> lr_due l + late \<Longrightarrow> lr_misses l < k \<Longrightarrow> missed t (lr_state l) s' d \<Longrightarrow>
     lease_step turn missed other late k l \<lparr>lr_now = t, lr_due = t + d, lr_misses = Suc (lr_misses l), lr_state = s'\<rparr>"
| ls_other: "lr_now l \<le> t \<Longrightarrow> t \<le> lr_due l + late \<Longrightarrow> other t (lr_state l) s' \<Longrightarrow>
     lease_step turn missed other late k l (l\<lparr>lr_now := t, lr_state := s'\<rparr>)"

inductive_cases lease_stepE: "lease_step turn missed other late k l l'"

locale lease_keeper =
  fixes turn missed :: "int \<Rightarrow> 's \<Rightarrow> 's \<Rightarrow> int \<Rightarrow> bool"
    and other :: "int \<Rightarrow> 's \<Rightarrow> 's \<Rightarrow> bool"
    and lease :: "'s \<Rightarrow> int option"
    and ttl period late :: int
    and k :: nat
  assumes turn_renews: "turn t s s' d \<Longrightarrow> lease s' = Some t \<and> 0 \<le> d \<and> d \<le> period"
    and missed_keeps: "missed t s s' d \<Longrightarrow> (lease s' = lease s \<or> lease s' = Some t) \<and> 0 \<le> d \<and> d \<le> period"
    and other_keeps: "other t s s' \<Longrightarrow> lease s = Some u \<Longrightarrow> u \<le> t \<Longrightarrow> t - u < ttl \<Longrightarrow> \<exists>v. lease s' = Some v \<and> u \<le> v \<and> v \<le> t"
    and patience: "0 \<le> late" "(int k + 1) * (period + late) < ttl"
begin

text \<open>The lease is held, and the next turn comes in time.\<close>

definition held :: "'s lease_run \<Rightarrow> bool" where
  "held l \<longleftrightarrow> (\<exists>u. lease (lr_state l) = Some u \<and> u \<le> lr_now l \<and> lr_due l \<le> u + period + int (lr_misses l) * (period + late))"

definition timely :: "'s lease_run \<Rightarrow> bool" where
  "timely l \<longleftrightarrow> lr_now l \<le> lr_due l + late \<and> lr_misses l \<le> k"

lemma slack: "m \<le> k \<Longrightarrow> 0 \<le> period \<Longrightarrow> period + int m * (period + late) + late < ttl"
proof -
  assume m: "m \<le> k" "0 \<le> period"
  then have "int m * (period + late) \<le> int k * (period + late)" using patience(1) by (intro mult_right_mono) auto
  then show ?thesis using patience(2) by (simp add: distrib_right)
qed

lemma timely_step: "timely l \<Longrightarrow> lease_step turn missed other late k l l' \<Longrightarrow> timely l'"
  by (erule lease_stepE) (use patience(1) in \<open>auto simp: timely_def dest: turn_renews missed_keeps\<close>)

lemma held_step:
  assumes "timely l" "held l" "lease_step turn missed other late k l l'" "0 \<le> period"
  shows "held l'"
  using assms(3)
proof cases
  case (ls_turn t s' d)
  then show ?thesis using turn_renews by (fastforce simp: held_def)
next
  case (ls_missed t s' d)
  obtain u where u: "lease (lr_state l) = Some u" "u \<le> lr_now l" "lr_due l \<le> u + period + int (lr_misses l) * (period + late)"
    using assms(2) by (auto simp: held_def)
  have d: "0 \<le> d" "d \<le> period" "lease s' = Some u \<or> lease s' = Some t" using missed_keeps [OF ls_missed(6)] u(1) by auto
  have "0 \<le> int (lr_misses l) * (period + late)" using assms(4) patience(1) by simp
  then show ?thesis
    using d u ls_missed(1-4) assms(4) patience(1) by (auto simp: held_def distrib_right)
next
  case (ls_other t s')
  obtain u where u: "lease (lr_state l) = Some u" "u \<le> lr_now l" "lr_due l \<le> u + period + int (lr_misses l) * (period + late)"
    using assms(2) by (auto simp: held_def)
  have "t - u < ttl" using u ls_other slack [of "lr_misses l"] assms(1,4) by (auto simp: timely_def)
  then obtain v where "lease s' = Some v" "u \<le> v" "v \<le> t" using other_keeps [OF ls_other(4) u(1)] u(2) ls_other(2) by auto
  then show ?thesis using u ls_other by (auto simp: held_def)
qed

text \<open>Until the first turn that gets through, the next turn is not far.\<close>

lemma run_held:
  assumes "rtranclp (lease_step turn missed other late k) l l'" "timely l" "lr_misses l = 0" "0 \<le> period"
  shows "timely l' \<and> (held l' \<or> lr_due l' \<le> lr_due l + int (lr_misses l') * (period + late))"
  using assms(1)
proof (induction rule: rtranclp_induct)
  case base
  then show ?case using assms by simp
next
  case (step m n)
  have t: "timely m" "timely n" using step timely_step by auto
  show ?case
  proof (cases "held m")
    case True
    then show ?thesis using held_step [OF t(1) True step(2) assms(4)] t by simp
  next
    case False
    with step have due: "lr_due m \<le> lr_due l + int (lr_misses m) * (period + late)" by simp
    from step(2) show ?thesis
    proof cases
      case (ls_turn t s' d)
      then have "held n" using turn_renews by (fastforce simp: held_def)
      then show ?thesis using t by simp
    next
      case (ls_missed tt s' d)
      then show ?thesis using t due missed_keeps [OF ls_missed(6)] by (auto simp: distrib_right)
    next
      case (ls_other tt s')
      then show ?thesis using t due by simp
    qed
  qed
qed

text \<open>A run never gets stuck: the next turn can always be taken.\<close>

lemma next_turn:
  assumes "timely l" "\<And>t. \<exists>s' d. turn t (lr_state l) s' d"
  shows "\<exists>l'. lease_step turn missed other late k l l' \<and> lr_misses l' = 0 \<and> lr_due l \<le> lr_now l'"
proof -
  obtain s' d where "turn (max (lr_now l) (lr_due l)) (lr_state l) s' d" using assms(2) by blast
  then have "lease_step turn missed other late k l
      \<lparr>lr_now = max (lr_now l) (lr_due l), lr_due = max (lr_now l) (lr_due l) + d, lr_misses = 0, lr_state = s'\<rparr>"
    using assms(1) patience(1) by (intro lease_step.ls_turn) (auto simp: timely_def)
  then show ?thesis by (intro exI conjI) (assumption | simp)+
qed

text \<open>The keeper's promise: some time after any state the lease is held, never older than the
  tolerated number of rounds.\<close>

lemma lease_recovers:
  assumes "rtranclp (lease_step turn missed other late k) l l'" "timely l" "lr_misses l = 0" "0 \<le> period"
    and "lr_due l + int k * (period + late) + late < lr_now l'"
  shows "\<exists>u. lease (lr_state l') = Some u \<and> u \<le> lr_now l' \<and> lr_now l' - u \<le> (int k + 1) * (period + late)"
proof -
  have r: "timely l'" "held l' \<or> lr_due l' \<le> lr_due l + int (lr_misses l') * (period + late)" using run_held [OF assms(1-4)] by auto
  have m: "int (lr_misses l') * (period + late) \<le> int k * (period + late)"
    using r(1) assms(4) patience(1) by (intro mult_right_mono) (auto simp: timely_def)
  have "held l'" using r m assms(5) by (auto simp: timely_def)
  then show ?thesis using m r(1) by (auto simp: held_def timely_def distrib_right)
qed

end

subsection \<open>The two loops\<close>

text \<open>What becomes of a request: answered, lost on the way there, or handled with its answer lost.
  The loop sees the status of what was answered.\<close>

datatype fate = Delivered | RequestLost | AnswerLost

definition post_to :: "fate \<Rightarrow> ('s \<Rightarrow> (nat \<times> string) + 's) \<Rightarrow> 's \<Rightarrow> nat option \<times> 's" where
  "post_to f handler s =
     (if f = RequestLost then (None, s)
      else let (status, s') = (case handler s of Inl (st, _) \<Rightarrow> (st, s) | Inr t \<Rightarrow> (200, t)) in
           (if f = Delivered then Some status else None, s'))"

definition is_success :: "nat option \<Rightarrow> bool" where
  "is_success r = (case r of None \<Rightarrow> False | Some st \<Rightarrow> 200 \<le> st \<and> st < 300)"

text \<open>A turn of \<open>registration_loop\<close> at time \<open>now\<close>: the two fates are those of its (at most two)
  requests, the nonces theirs; the last component is the sleep before the next turn.\<close>

datatype reg_phase = Registering | Beating

definition reg_turn ::
  "id_prims \<Rightarrow> byte list \<Rightarrow> node_registration \<Rightarrow> fate \<times> fate \<Rightarrow> string \<times> string \<Rightarrow> int \<Rightarrow> reg_phase \<times> coord_state
   \<Rightarrow> (reg_phase \<times> coord_state) \<times> int" where
  "reg_turn p seed cfg fates nonces now st =
     (let register = (\<lambda>n. coord_register p now (signed_registration p seed n cfg)) in
      case fst st of
        Registering \<Rightarrow>
          (let (r, s') = post_to (fst fates) (register (fst nonces)) (snd st) in
           if is_success r then ((Beating, s'), 10000) else ((Registering, s'), 3000))
      | Beating \<Rightarrow>
          (let (r, s') = post_to (fst fates) (coord_heartbeat p now (signed_heartbeat p seed (fst nonces) (identityPubkey cfg))) (snd st) in
           if is_success r then ((Beating, s'), 10000)
           else if r = Some 404 then ((Beating, snd (post_to (snd fates) (register (snd nonces)) s')), 10000)
           else ((Beating, s'), 10000)))"

text \<open>A round of \<open>bid_loop\<close> at \<open>unix_now\<close> seconds: a bid for each backend that has a price, valid
  for \<open>VALID_FOR\<close> seconds; the answers are only logged.\<close>

definition VALID_FOR :: int where
  "VALID_FOR = 180"

definition bid_round ::
  "id_prims \<Rightarrow> byte list \<Rightarrow> string \<Rightarrow> backend_price list \<Rightarrow> int \<Rightarrow> (backend_type \<Rightarrow> fate) \<Rightarrow> (backend_type \<Rightarrow> string) \<Rightarrow> int
   \<Rightarrow> backend_type list \<Rightarrow> coord_state \<Rightarrow> coord_state \<times> int" where
  "bid_round p seed identity prices max_tokens fates nonces unix_now bs s =
     (foldl (\<lambda>s b. case signed_bid p seed (nonces b) unix_now identity b prices max_tokens VALID_FOR of
                     None \<Rightarrow> s
                   | Some bd \<Rightarrow> snd (post_to (fates b) (post_bid p unix_now bd) s)) s bs, 60)"

text \<open>What may happen at the coordinator in between, at \<open>t\<close> of its clock and \<open>u\<close> seconds of the
  day: a request of anyone, recorded ones sent again included (of the bids, those in \<open>posted\<close>), or
  the background task.\<close>

inductive coord_traffic :: "id_prims \<Rightarrow> (bid \<Rightarrow> bool) \<Rightarrow> int \<Rightarrow> int \<Rightarrow> coord_state \<Rightarrow> coord_state \<Rightarrow> bool" for p posted t u where
  ct_register: "coord_register p t reg s = Inr s' \<Longrightarrow> coord_traffic p posted t u s s'"
| ct_heartbeat: "coord_heartbeat p t hb s = Inr s' \<Longrightarrow> coord_traffic p posted t u s s'"
| ct_bid: "post_bid p u bd s = Inr s' \<Longrightarrow> posted bd \<Longrightarrow> coord_traffic p posted t u s s'"
| ct_gc: "coord_traffic p posted t u s (coord_gc t u s)"

inductive_cases coord_trafficE: "coord_traffic p posted t u s s'"

lemma post_to_delivered: "post_to Delivered h s = (case h s of Inl (st, _) \<Rightarrow> (Some st, s) | Inr t \<Rightarrow> (Some 200, t))"
  by (auto simp: post_to_def split: sum.splits prod.splits)

lemma post_to_state: "snd (post_to f h s) = s \<or> h s = Inr (snd (post_to f h s))"
  by (auto simp: post_to_def split: sum.splits prod.splits)

subsubsection \<open>Registration\<close>

definition seen :: "string \<Rightarrow> reg_phase \<times> coord_state \<Rightarrow> int option" where
  "seen k st = map_option co_last_seen (co_nodes (snd st) k)"

definition reg_turns :: "id_prims \<Rightarrow> byte list \<Rightarrow> node_registration \<Rightarrow> bool \<Rightarrow> int \<Rightarrow> reg_phase \<times> coord_state \<Rightarrow> reg_phase \<times> coord_state \<Rightarrow> int \<Rightarrow> bool" where
  "reg_turns p seed cfg reached t s s' d \<longleftrightarrow>
     (\<exists>fates nonces. (reached \<longrightarrow> fates = (Delivered, Delivered)) \<and> reg_turn p seed cfg fates nonces t s = (s', d))"

definition reg_traffic :: "id_prims \<Rightarrow> int \<Rightarrow> reg_phase \<times> coord_state \<Rightarrow> reg_phase \<times> coord_state \<Rightarrow> bool" where
  "reg_traffic p t s s' \<longleftrightarrow> fst s' = fst s \<and> (\<exists>u. coord_traffic p (\<lambda>_. True) t u (snd s) (snd s'))"

lemma register_own:
  assumes "seed_key p seed (identityPubkey cfg)"
  shows "coord_register p t (signed_registration p seed n cfg) s =
    Inr (s\<lparr>co_nodes := (co_nodes s)(identityPubkey cfg \<mapsto> \<lparr>co_reg = signed_registration p seed n cfg, co_last_seen = t\<rparr>)\<rparr>)"
  using signed_registration_signed [OF assms, of n] by (simp add: coord_register_Inr) (simp add: signed_registration_def Let_def)

lemma heartbeat_own:
  assumes "seed_key p seed k"
  shows "coord_heartbeat p t (signed_heartbeat p seed n k) s =
    (case co_nodes s k of
       Some e \<Rightarrow> Inr (s\<lparr>co_nodes := (co_nodes s)(k \<mapsto> e\<lparr>co_last_seen := t\<rparr>)\<rparr>)
     | None \<Rightarrow> Inl (404, ''unknown identity_pubkey''))"
proof -
  have "hb_identityPubkey (signed_heartbeat p seed n k) = k" by (simp add: signed_heartbeat_def Let_def)
  then show ?thesis using signed_heartbeat_signed [OF assms, of n] by (auto simp: coord_heartbeat_def split: option.split)
qed

lemma reg_sleep: "reg_turns p seed cfg reached t s s' d \<Longrightarrow> 0 \<le> d \<and> d \<le> 10000"
proof -
  have "0 \<le> snd (reg_turn p seed cfg fates nonces t s) \<and> snd (reg_turn p seed cfg fates nonces t s) \<le> 10000" for fates nonces
    by (cases "fst s") (simp_all add: reg_turn_def Let_def case_prod_beta)
  then show "0 \<le> d \<and> d \<le> 10000" if "reg_turns p seed cfg reached t s s' d"
    using that by (auto simp: reg_turns_def) (metis snd_conv)+
qed

lemma reg_delivered:
  assumes "seed_key p seed (identityPubkey cfg)" "reg_turns p seed cfg True t s s' d"
  shows "seen (identityPubkey cfg) s' = Some t"
  using assms(2)
  by (cases "fst s"; cases "co_nodes (snd s) (identityPubkey cfg)"; auto simp: reg_turns_def reg_turn_def Let_def seen_def is_success_def post_to_delivered register_own [OF assms(1)]
      heartbeat_own [OF assms(1)] )

lemma reg_lost:
  assumes "seed_key p seed (identityPubkey cfg)" "reg_turns p seed cfg False t s s' d"
  shows "seen (identityPubkey cfg) s' = seen (identityPubkey cfg) s \<or> seen (identityPubkey cfg) s' = Some t"
  using assms(2)
  by (cases "fst s"; cases "co_nodes (snd s) (identityPubkey cfg)"; auto simp: reg_turns_def reg_turn_def Let_def seen_def is_success_def post_to_def register_own [OF assms(1)]
      heartbeat_own [OF assms(1)] split: if_splits prod.splits)

lemma coord_heartbeat_Inr:
  "coord_heartbeat p t hb s = Inr s' \<Longrightarrow> \<exists>e. s' = s\<lparr>co_nodes := (co_nodes s)(hb_identityPubkey hb \<mapsto> e\<lparr>co_last_seen := t\<rparr>)\<rparr>"
  by (auto simp: coord_heartbeat_def split: option.splits)

lemma traffic_keeps_seen:
  assumes "reg_traffic p t s s'" "seen k s = Some v" "v \<le> t" "t - v < HEARTBEAT_TIMEOUT"
  shows "\<exists>w. seen k s' = Some w \<and> v \<le> w \<and> w \<le> t"
  using assms
  by (auto simp: reg_traffic_def seen_def coord_register_Inr post_bid_Inr gc_keeps
      elim!: coord_trafficE dest!: coord_heartbeat_Inr split: option.splits if_splits)

interpretation registration: lease_keeper
  "\<lambda>t s s' d. seed_key p seed (identityPubkey cfg) \<and> reg_turns p seed cfg True t s s' d"
  "\<lambda>t s s' d. seed_key p seed (identityPubkey cfg) \<and> reg_turns p seed cfg False t s s' d"
  "reg_traffic p" "seen (identityPubkey cfg)" HEARTBEAT_TIMEOUT 10000 4999 1 for p seed cfg
  by unfold_locales (auto simp: HEARTBEAT_TIMEOUT_def reg_delivered dest: reg_sleep reg_lost traffic_keeps_seen [unfolded HEARTBEAT_TIMEOUT_def])

text \<open>C20. Whatever happened before (requests lost, the coordinator restarted or grown tired of the
  node, an attacker sending recorded messages again), as long as from now on no two rounds in a
  row are lost and each is less than five seconds late, the node is listed within twenty seconds
  of its next round and stays listed, its entry never as old as the timeout.\<close>

theorem node_relisted:
  assumes key: "seed_key p seed (identityPubkey cfg)"
    and run: "rtranclp (lease_step (reg_turns p seed cfg True) (reg_turns p seed cfg False) (reg_traffic p) 4999 1) l l'"
    and start: "lr_now l \<le> lr_due l + 4999" "lr_misses l = 0"
    and later: "lr_due l + 19998 < lr_now l'"
  shows "(\<exists>e. co_nodes (snd (lr_state l')) (identityPubkey cfg) = Some e \<and> co_last_seen e \<le> lr_now l' \<and> lr_now l' - co_last_seen e \<le> 29998) \<and>
    (\<exists>l''. lease_step (reg_turns p seed cfg True) (reg_turns p seed cfg False) (reg_traffic p) 4999 1 l' l'' \<and> lr_misses l'' = 0)"
proof (rule conjI)
  note keeper = registration.lease_recovers registration.run_held registration.next_turn
  have t: "registration.timely l" unfolding registration.timely_def using start by simp
  show "\<exists>e. co_nodes (snd (lr_state l')) (identityPubkey cfg) = Some e \<and> co_last_seen e \<le> lr_now l' \<and> lr_now l' - co_last_seen e \<le> 29998"
    using keeper(1) [where p = p and seed = seed and cfg = cfg, simplified key simp_thms, OF run t start(2)] later
    by (auto simp: seen_def)
  have "registration.timely l'"
    using keeper(2) [where p = p and seed = seed and cfg = cfg, simplified key simp_thms, OF run t start(2)] by simp
  moreover have "\<exists>s' d. reg_turns p seed cfg True t s s' d" for t s by (auto simp: reg_turns_def) (metis surj_pair)
  ultimately show "\<exists>l''. lease_step (reg_turns p seed cfg True) (reg_turns p seed cfg False) (reg_traffic p) 4999 1 l' l'' \<and> lr_misses l'' = 0"
    using keeper(3) [where p = p and seed = seed and cfg = cfg, simplified key simp_thms] by blast
qed

subsubsection \<open>Bids\<close>

text \<open>The time at which the bid on record was signed, if it is one with the node's price and cap.\<close>

definition bid_since :: "string \<Rightarrow> backend_type \<Rightarrow> string \<Rightarrow> int \<Rightarrow> coord_state \<Rightarrow> int option" where
  "bid_since k b price cap s =
     (case co_bids s (k, b) of
        None \<Rightarrow> None
      | Some bd \<Rightarrow> if bid_pricePer1k bd = price \<and> bid_maxTokens bd = cap then Some (bid_validUntil bd - 180) else None)"

definition bid_turns ::
  "id_prims \<Rightarrow> byte list \<Rightarrow> string \<Rightarrow> backend_price list \<Rightarrow> int \<Rightarrow> backend_type list \<Rightarrow> bool \<Rightarrow> int \<Rightarrow> coord_state \<Rightarrow> coord_state \<Rightarrow> int \<Rightarrow> bool" where
  "bid_turns p seed k prices cap bs reached u s s' d \<longleftrightarrow>
     u + 180 < 2 ^ 64 \<and> (\<exists>fates nonces. (reached \<longrightarrow> fates = (\<lambda>_. Delivered)) \<and> bid_round p seed k prices cap fates nonces u bs s = (s', d))"

text \<open>Anyone may do anything but post a bid under the node's name.\<close>

definition bid_traffic :: "id_prims \<Rightarrow> string \<Rightarrow> int \<Rightarrow> coord_state \<Rightarrow> coord_state \<Rightarrow> bool" where
  "bid_traffic p k u s s' \<longleftrightarrow> (\<exists>t. coord_traffic p (\<lambda>bd. bid_identityPubkey bd \<noteq> k) t u s s')"

definition bid_on_time :: "string \<Rightarrow> backend_price list \<Rightarrow> int \<Rightarrow> int \<Rightarrow> bid \<Rightarrow> backend_type \<Rightarrow> bool" where
  "bid_on_time k prices cap u bd b \<longleftrightarrow> bid_identityPubkey bd = k \<and> bid_backend bd = b \<and> bid_validUntil bd = u + 180 \<and> bid_maxTokens bd = cap \<and>
     (\<exists>q. find (\<lambda>q. bp_backend q = b) prices = Some q \<and> bid_pricePer1k bd = bp_pricePer1k q)"

lemma bid_own:
  assumes "seed_key p seed k" "u + 180 < 2 ^ 64" "signed_bid p seed n u k b prices cap VALID_FOR = Some bd"
  shows "post_bid p u bd s = Inr (s\<lparr>co_bids := (co_bids s)((k, b) \<mapsto> bd)\<rparr>) \<and> bid_on_time k prices cap u bd b"
proof -
  have "bid_signed p bd" "bid_identityPubkey bd = k" "bid_backend bd = b" "bid_validUntil bd = u + 180"
    using signed_bid_signed [OF assms(1,3)] assms(2) by (auto simp: VALID_FOR_def)
  moreover have "bid_maxTokens bd = cap \<and> (\<exists>q. find (\<lambda>q. bp_backend q = b) prices = Some q \<and> bid_pricePer1k bd = bp_pricePer1k q)"
    using assms(3) by (auto simp: signed_bid_def Let_def split: option.splits)
  ultimately show ?thesis by (auto simp: post_bid_Inr bid_on_time_def)
qed

text \<open>A round leaves each backend's bid as it was or, surely when nothing is lost, replaces it.\<close>

lemma bid_round_effect:
  assumes "seed_key p seed k" "u + 180 < 2 ^ 64"
  shows "(co_bids (fst (bid_round p seed k prices cap fates nonces u bs s)) (k, b) = co_bids s (k, b) \<and>
      (b \<notin> set bs \<or> fates b \<noteq> Delivered \<or> find (\<lambda>q. bp_backend q = b) prices = None)) \<or>
    (\<exists>bd. co_bids (fst (bid_round p seed k prices cap fates nonces u bs s)) (k, b) = Some bd \<and> bid_on_time k prices cap u bd b)"
proof (induction bs arbitrary: s)
  case Nil
  then show ?case by (simp add: bid_round_def)
next
  case (Cons a bs)
  let ?post = "\<lambda>s b. case signed_bid p seed (nonces b) u k b prices cap VALID_FOR of None \<Rightarrow> s
                   | Some bd \<Rightarrow> snd (post_to (fates b) (post_bid p u bd) s)"
  have unroll: "bid_round p seed k prices cap fates nonces u (a # bs) s = bid_round p seed k prices cap fates nonces u bs (?post s a)"
    by (simp add: bid_round_def)
  have one: "(co_bids (?post s a) (k, b) = co_bids s (k, b) \<and> (b \<noteq> a \<or> fates b \<noteq> Delivered \<or> find (\<lambda>q. bp_backend q = b) prices = None)) \<or>
      (\<exists>bd. co_bids (?post s a) (k, b) = Some bd \<and> bid_on_time k prices cap u bd b)"
  proof (cases "signed_bid p seed (nonces a) u k a prices cap VALID_FOR")
    case None
    then show ?thesis by (auto simp: signed_bid_def Let_def split: option.splits)
  next
    case (Some bd)
    note own = bid_own [OF assms Some]
    show ?thesis
      by (cases "fates a") (use own Some in \<open>auto simp: post_to_def\<close>)
  qed
  show ?case unfolding unroll using Cons.IH [of "?post s a"] one by auto
qed

lemma bid_turnsE:
  assumes "bid_turns p seed k prices cap bs reached u s s' d"
  obtains fates nonces where "u + 180 < 2 ^ 64" "reached \<Longrightarrow> fates = (\<lambda>_. Delivered)"
    "s' = fst (bid_round p seed k prices cap fates nonces u bs s)" "d = 60"
proof -
  from assms obtain fates nonces where f: "u + 180 < 2 ^ 64" "reached \<longrightarrow> fates = (\<lambda>_. Delivered)"
    "bid_round p seed k prices cap fates nonces u bs s = (s', d)"
    unfolding bid_turns_def by blast
  then have "d = 60" by (simp add: bid_round_def)
  with f show thesis by (intro that [of fates nonces]) simp_all
qed

lemma bid_delivered:
  assumes "seed_key p seed k" "bid_turns p seed k prices cap bs True u s s' d" "b \<in> set bs"
    and "find (\<lambda>q. bp_backend q = b) prices = Some q"
  shows "bid_since k b (bp_pricePer1k q) cap s' = Some u"
proof -
  from assms(2) obtain nonces where r: "u + 180 < 2 ^ 64" "s' = fst (bid_round p seed k prices cap (\<lambda>_. Delivered) nonces u bs s)"
    by (rule bid_turnsE) simp
  from bid_round_effect [OF assms(1) r(1), of prices cap "\<lambda>_. Delivered" nonces bs s b] assms(3,4)
  obtain bd where "co_bids s' (k, b) = Some bd" "bid_on_time k prices cap u bd b" unfolding r(2) by auto
  then show ?thesis using assms(4) by (simp add: bid_since_def bid_on_time_def)
qed

lemma bid_lost:
  assumes "seed_key p seed k" "bid_turns p seed k prices cap bs False u s s' d"
    and "find (\<lambda>q. bp_backend q = b) prices = Some q"
  shows "bid_since k b (bp_pricePer1k q) cap s' = bid_since k b (bp_pricePer1k q) cap s \<or> bid_since k b (bp_pricePer1k q) cap s' = Some u"
proof -
  from assms(2) obtain fates nonces where r: "u + 180 < 2 ^ 64" "s' = fst (bid_round p seed k prices cap fates nonces u bs s)"
    by (rule bid_turnsE)
  from bid_round_effect [OF assms(1) r(1), of prices cap fates nonces bs s b]
  consider "co_bids s' (k, b) = co_bids s (k, b)" | bd where "co_bids s' (k, b) = Some bd" "bid_on_time k prices cap u bd b"
    unfolding r(2) by blast
  then show ?thesis using assms(3) by cases (simp_all add: bid_since_def bid_on_time_def)
qed

lemma traffic_keeps_bid:
  assumes "bid_traffic p k u s s'" "bid_since k b price cap s = Some v" "u - v < 180"
  shows "bid_since k b price cap s' = Some v"
proof -
  obtain bd where bd: "co_bids s (k, b) = Some bd" "u < bid_validUntil bd"
    using assms(2,3) by (auto simp: bid_since_def split: option.splits if_splits)
  obtain t where "coord_traffic p (\<lambda>bd. bid_identityPubkey bd \<noteq> k) t u s s'" using assms(1) by (auto simp: bid_traffic_def)
  then have "co_bids s' (k, b) = Some bd"
  proof cases
    case (ct_heartbeat hb)
    from coord_heartbeat_Inr [OF this] show ?thesis using bd by auto
  qed (use bd in \<open>auto simp: coord_register_Inr post_bid_Inr coord_gc_def\<close>)
  then show ?thesis using bd(1) assms(2) by (simp add: bid_since_def)
qed

definition bids_for :: "id_prims \<Rightarrow> byte list \<Rightarrow> string \<Rightarrow> backend_price list \<Rightarrow> backend_type list \<Rightarrow> backend_type \<Rightarrow> bool" where
  "bids_for p seed k prices bs b \<longleftrightarrow> seed_key p seed k \<and> b \<in> set bs \<and> (\<exists>q. find (\<lambda>q. bp_backend q = b) prices = Some q)"

definition asked :: "backend_price list \<Rightarrow> backend_type \<Rightarrow> string" where
  "asked prices b = (case find (\<lambda>q. bp_backend q = b) prices of None \<Rightarrow> [] | Some q \<Rightarrow> bp_pricePer1k q)"

interpretation bidding: lease_keeper
  "\<lambda>u s s' d. bids_for p seed k prices bs b \<and> bid_turns p seed k prices cap bs True u s s' d"
  "\<lambda>u s s' d. bids_for p seed k prices bs b \<and> bid_turns p seed k prices cap bs False u s s' d"
  "bid_traffic p k" "bid_since k b (asked prices b) cap" 180 60 29 1 for p seed k prices cap bs b
proof (unfold_locales, goal_cases)
  case (1 t s s' d)
  then show ?case by (auto simp: bids_for_def asked_def intro: bid_delivered elim: bid_turnsE)
next
  case (2 t s s' d)
  then show ?case by (auto simp: bids_for_def asked_def dest: bid_lost elim: bid_turnsE)
next
  case (3 t s s' u)
  then show ?case by (auto dest: traffic_keeps_bid)
qed auto

text \<open>C29. As long as no two rounds of bids in a row are lost, each is less than half a minute late and
  nobody else posts under the node's name, two minutes after its next round there is always a bid
  of the node for each backend it has a price for, with that price and its cap, and still valid.\<close>

theorem bids_survive_a_miss:
  assumes key: "seed_key p seed k" and priced: "b \<in> set bs" "find (\<lambda>q. bp_backend q = b) prices = Some q"
    and run: "rtranclp (lease_step (bid_turns p seed k prices cap bs True) (bid_turns p seed k prices cap bs False) (bid_traffic p k) 29 1) l l'"
    and start: "lr_now l \<le> lr_due l + 29" "lr_misses l = 0"
    and later: "lr_due l + 118 < lr_now l'"
  shows "\<exists>bd. co_bids (lr_state l') (k, b) = Some bd \<and> bid_pricePer1k bd = bp_pricePer1k q \<and> bid_maxTokens bd = cap \<and>
    lr_now l' + 2 \<le> bid_validUntil bd"
proof -
  have f: "bids_for p seed k prices bs b" "asked prices b = bp_pricePer1k q" using key priced by (auto simp: bids_for_def asked_def)
  have t: "bidding.timely l" unfolding bidding.timely_def using start by simp
  show ?thesis
    using bidding.lease_recovers [where p = p and seed = seed and k = k and prices = prices and cap = cap and bs = bs and b = b,
        simplified f simp_thms, OF run t start(2)] later
    by (auto simp: bid_since_def split: option.splits if_splits)
qed

text \<open>The last hypothesis is needed: the list of bids is public and a bid says nothing of the ones
  before it, so whoever has read one can post it again while it is valid, and the node's newer
  offer is gone until its next round.\<close>

theorem old_bid_comes_back:
  assumes "rtranclp (coord_step p) coord_init s" and "bd \<in> set (list_bids u order s)" and "now < bid_validUntil bd"
  shows "post_bid p now bd s' = Inr (s'\<lparr>co_bids := (co_bids s')((bid_identityPubkey bd, bid_backend bd) \<mapsto> bd)\<rparr>)"
proof -
  have "coord_inv p s" using coord.reachable_inv [OF refl assms(1)] .
  moreover from assms(2) obtain k where "co_bids s k = Some bd" by (auto simp: list_bids_def List.map_filter_def)
  ultimately have "bid_signed p bd" by (cases k) (auto simp: coord_inv_def)
  then show ?thesis using assms(3) by (simp add: post_bid_Inr)
qed

subsection \<open>Runs of the two loops\<close>

definition demo_loop :: "reg_phase \<times> coord_state \<Rightarrow> (reg_phase \<times> coord_state) lease_run" where
  "demo_loop st = \<lparr>lr_now = 0, lr_due = 0, lr_misses = 0, lr_state = st\<rparr>"

definition demo_own :: node_registration where
  "demo_own = demo_cfg_reg (utf8_decode demo_seed) 9"

lemma demo_own_key: "seed_key demo_ip demo_seed (identityPubkey demo_own)"
  using demo_seed_key by (simp add: demo_own_def demo_cfg_reg_def)

lemma missed_at:
  "missed t s s' d \<Longrightarrow> now \<le> t \<Longrightarrow> due \<le> t \<Longrightarrow> t \<le> due + late \<Longrightarrow> m < k \<Longrightarrow>
    lease_step turn missed other late k \<lparr>lr_now = now, lr_due = due, lr_misses = m, lr_state = s\<rparr>
      \<lparr>lr_now = t, lr_due = t + d, lr_misses = Suc m, lr_state = s'\<rparr>"
  using lease_step.ls_missed [where l = "\<lparr>lr_now = now, lr_due = due, lr_misses = m, lr_state = s\<rparr>" and missed = missed] by simp

text \<open>Registered at 0, a heartbeat lost at 10000, one answered at 20000.\<close>

theorem node_relisted_witness:
  "\<exists>l'. rtranclp (lease_step (reg_turns demo_ip demo_seed demo_own True) (reg_turns demo_ip demo_seed demo_own False) (reg_traffic demo_ip)
       4999 1) (demo_loop (Registering, coord_init)) l' \<and> lr_now l' = 20000 \<and>
     (\<exists>e. co_nodes (snd (lr_state l')) (identityPubkey demo_own) = Some e \<and> 20000 - co_last_seen e \<le> 29998)"
proof -
  let ?step = "lease_step (reg_turns demo_ip demo_seed demo_own True) (reg_turns demo_ip demo_seed demo_own False) (reg_traffic demo_ip) 4999 1"
  obtain s1 where "reg_turns demo_ip demo_seed demo_own True 0 (Registering, coord_init) (Beating, s1) 10000"
    by (auto simp: reg_turns_def reg_turn_def post_to_delivered register_own [OF demo_own_key] is_success_def)
  then have 1: "?step (demo_loop (Registering, coord_init)) \<lparr>lr_now = 0, lr_due = 0 + 10000, lr_misses = 0, lr_state = (Beating, s1)\<rparr>"
    by (intro lease_step.ls_turn) (simp_all add: demo_loop_def)
  have "reg_turn demo_ip demo_seed demo_own (RequestLost, RequestLost) n 10000 (Beating, s1) = ((Beating, s1), 10000)" for n
    by (simp add: reg_turn_def post_to_def is_success_def)
  then have "reg_turns demo_ip demo_seed demo_own False 10000 (Beating, s1) (Beating, s1) 10000"
    unfolding reg_turns_def by blast
  then have 2: "?step \<lparr>lr_now = 0, lr_due = 0 + 10000, lr_misses = 0, lr_state = (Beating, s1)\<rparr>
      \<lparr>lr_now = 10000, lr_due = 10000 + 10000, lr_misses = Suc 0, lr_state = (Beating, s1)\<rparr>"
    by (intro missed_at) simp_all
  obtain s3 d where "reg_turns demo_ip demo_seed demo_own True 20000 (Beating, s1) s3 d"
    unfolding reg_turns_def by (metis surj_pair)
  then have 3: "?step \<lparr>lr_now = 10000, lr_due = 10000 + 10000, lr_misses = Suc 0, lr_state = (Beating, s1)\<rparr>
      \<lparr>lr_now = 20000, lr_due = 20000 + d, lr_misses = 0, lr_state = s3\<rparr>"
    by (intro lease_step.ls_turn) simp_all
  have run: "rtranclp ?step (demo_loop (Registering, coord_init)) \<lparr>lr_now = 20000, lr_due = 20000 + d, lr_misses = 0, lr_state = s3\<rparr>"
    using 1 2 3 by (meson r_into_rtranclp rtranclp_trans)
  from node_relisted [OF demo_own_key run] have "\<exists>e. co_nodes (snd s3) (identityPubkey demo_own) = Some e \<and> 20000 - co_last_seen e \<le> 29998"
    by (auto simp: demo_loop_def)
  with run show ?thesis
    by (intro exI [of _ "\<lparr>lr_now = 20000, lr_due = 20000 + d, lr_misses = 0, lr_state = s3\<rparr>"]) simp
qed

text \<open>Bids posted at 0, lost at 60, posted at 120.\<close>

theorem bids_survive_a_miss_witness:
  "\<exists>l'. rtranclp (lease_step (bid_turns demo_ip demo_seed (identityPubkey demo_own) (pricing demo_own) 10 [MockTee] True)
        (bid_turns demo_ip demo_seed (identityPubkey demo_own) (pricing demo_own) 10 [MockTee] False) (bid_traffic demo_ip (identityPubkey demo_own)) 29 1)
      \<lparr>lr_now = 0, lr_due = 0, lr_misses = 0, lr_state = coord_init\<rparr> l' \<and> lr_now l' = 120 \<and>
     (\<exists>bd. co_bids (lr_state l') (identityPubkey demo_own, MockTee) = Some bd \<and> bid_pricePer1k bd = nat_str 9 \<and> 122 \<le> bid_validUntil bd)"
proof -
  let ?turn = "bid_turns demo_ip demo_seed (identityPubkey demo_own) (pricing demo_own) 10 [MockTee]"
  let ?step = "lease_step (?turn True) (?turn False) (bid_traffic demo_ip (identityPubkey demo_own)) 29 1"
  have go: "\<exists>s'. ?turn r t s s' 60" if "t + 180 < 2 ^ 64" for r t s
    using that by (auto simp: bid_turns_def bid_round_def intro!: exI)
  obtain s1 s2 s3 where t: "?turn True 0 coord_init s1 60" "?turn False 60 s1 s2 60" "?turn True 120 s2 s3 60"
    using go [of 0 True coord_init] go [of 60 False] go [of 120 True] by (auto simp: power2_eq_square) blast
  have 1: "?step \<lparr>lr_now = 0, lr_due = 0, lr_misses = 0, lr_state = coord_init\<rparr> \<lparr>lr_now = 0, lr_due = 0 + 60, lr_misses = 0, lr_state = s1\<rparr>"
    using t(1) by (intro lease_step.ls_turn) simp_all
  have 2: "?step \<lparr>lr_now = 0, lr_due = 0 + 60, lr_misses = 0, lr_state = s1\<rparr> \<lparr>lr_now = 60, lr_due = 60 + 60, lr_misses = Suc 0, lr_state = s2\<rparr>"
    using t(2) by (intro missed_at) simp_all
  have 3: "?step \<lparr>lr_now = 60, lr_due = 60 + 60, lr_misses = Suc 0, lr_state = s2\<rparr> \<lparr>lr_now = 120, lr_due = 120 + 60, lr_misses = 0, lr_state = s3\<rparr>"
    using t(3) by (intro lease_step.ls_turn) simp_all
  have run: "rtranclp ?step \<lparr>lr_now = 0, lr_due = 0, lr_misses = 0, lr_state = coord_init\<rparr> \<lparr>lr_now = 120, lr_due = 120 + 60, lr_misses = 0, lr_state = s3\<rparr>"
    using 1 2 3 by (meson r_into_rtranclp rtranclp_trans)
  have q: "find (\<lambda>q. bp_backend q = MockTee) (pricing demo_own) = Some \<lparr>bp_backend = MockTee, bp_pricePer1k = nat_str 9\<rparr>"
    by (simp add: demo_own_def demo_cfg_reg_def)
  from bids_survive_a_miss [OF demo_own_key _ q run]
  have "\<exists>bd. co_bids s3 (identityPubkey demo_own, MockTee) = Some bd \<and> bid_pricePer1k bd = nat_str 9 \<and> 122 \<le> bid_validUntil bd"
    by auto
  with run show ?thesis
    by (intro exI [of _ "\<lparr>lr_now = 120, lr_due = 120 + 60, lr_misses = 0, lr_state = s3\<rparr>"]) simp
qed

end
