(* ===== verification/DashboardPage.thy ===== *)
theory DashboardPage
  imports Panels
begin

section \<open>The dashboard as one page (components/Dashboard.tsx)\<close>

text \<open>
  \<open>Dashboard\<close> owns the state its panels share and hands each of them its part: this theory puts
  the pieces of \<open>Sessions\<close>, \<open>Panels\<close> and \<open>Liveness\<close> together the way its \<open>return\<close> does.
  \<open>dash_page\<close> is that state with what its hooks last returned and what the stateful panels hold;
  \<open>Dashboard\<close> is everything the page shows in one render; \<open>page_act\<close> is what a click, a key, a
  timer, a poll or an event of a running request does to it, \<open>page_step\<close> the same as a relation in
  which a new session gets an id nothing else has (\<open>crypto.randomUUID\<close>).
\<close>

subsection \<open>State\<close>

record dash_page =
  dp_coordinatorUrl :: string
  dp_theme :: theme
  dp_rawNodes :: "node_registration list"
  dp_nodesError :: "string option"
  dp_entries :: "activity_entry list"
  dp_aliveUrls :: "string list"
  dp_now :: int
  dp_dash :: dash_state
  dp_form :: form_state
  dp_panel :: panel_state
  dp_onchain :: onchain_status

text \<open>What \<open>useChannel\<close> returns to the page, and the clock and formatter of the panels.\<close>

record page_env =
  pe_connected :: bool
  pe_channelState :: "channel_state option"
  pe_onchain :: "onchain_channel option"
  pe_address :: "string \<Rightarrow> eth_error + string"
  pe_clock :: int
  pe_locale :: "int \<Rightarrow> string"

definition DEFAULT_COORDINATOR_URL :: "string option \<Rightarrow> string" where
  "DEFAULT_COORDINATOR_URL env = (case env of None \<Rightarrow> ''https://coordinator.fldx.ai'' | Some u \<Rightarrow> u)"

definition page_mount :: "string option \<Rightarrow> theme \<Rightarrow> int \<Rightarrow> onchain_status \<Rightarrow> dash_page" where
  "page_mount env t now st =
     \<lparr>dp_coordinatorUrl = DEFAULT_COORDINATOR_URL env, dp_theme = t, dp_rawNodes = [], dp_nodesError = None, dp_entries = [],
      dp_aliveUrls = [], dp_now = now,
      dp_dash = \<lparr>localSessions = [], selectedSessionId = None, selectedPubKey = None, sending = False, latestReceiptByNode = []\<rparr>,
      dp_form = form_mount, dp_panel = panel_mount, dp_onchain = st\<rparr>"

subsection \<open>A render\<close>

definition page_nodes :: "dash_page \<Rightarrow> node_registration list" where
  "page_nodes p = alive_nodes (dp_rawNodes p) (dp_aliveUrls p)"

definition page_sessions :: "dash_page \<Rightarrow> session_record list" where
  "page_sessions p = mergeSessions (localSessions (dp_dash p)) (dp_entries p)"

definition page_node :: "dash_page \<Rightarrow> node_registration option" where
  "page_node p = selectedNode (page_nodes p) (selectedPubKey (dp_dash p))"

definition page_session :: "dash_page \<Rightarrow> session_record option" where
  "page_session p = selectedSession (page_sessions p) (selectedSessionId (dp_dash p))"

text \<open>An address that cannot be derived throws while rendering; the page shows nothing then.\<close>

record dashboard_view =
  vw_graph_nodes :: "node_registration list"
  vw_graph_requests :: "active_request list"
  vw_graph_selected :: "string option"
  vw_graph_theme :: theme
  vw_header :: string
  vw_header_error :: "string option"
  vw_coordinator :: string
  vw_theme_title :: string
  vw_theme_label :: string
  vw_form_backends :: "backend_type list"
  vw_form_disabled :: bool
  vw_card :: "row list option"
  vw_status :: status_view
  vw_cost :: "(string \<times> nat \<times> string \<times> bool) list"
  vw_channel :: channel_view
  vw_detail :: "detail_view option"
  vw_timeline :: "segment list"

definition theme_label :: "theme \<Rightarrow> string" where
  "theme_label t =
     (if t = Dark then [CHR 0xE2, CHR 0x98, CHR 0xBE] @ '' dark'' else [CHR 0xE2, CHR 0x98, CHR 0x80] @ '' light'')"

definition Dashboard :: "int \<Rightarrow> page_env \<Rightarrow> dash_page \<Rightarrow> string + dashboard_view" where
  "Dashboard chain_id e p =
     (let nodes = page_nodes p; sessions = page_sessions p; node = page_node p in
      case (selectedNodeAddress (pe_address e) node, onchain_panel chain_id (dp_onchain p)) of
        (Some (Inl err), _) \<Rightarrow> Inl ''ethAddressFromCompressed''
      | (_, Inl err) \<Rightarrow> Inl ''getChain''
      | (address, Inr status) \<Rightarrow> Inr
          \<lparr>vw_graph_nodes = nodes, vw_graph_requests = sessionsToActiveRequests sessions (dp_now p),
           vw_graph_selected = selectedPubKey (dp_dash p), vw_graph_theme = dp_theme p,
           vw_header = header_text nodes, vw_header_error = truthy_str (dp_nodesError p),
           vw_coordinator = dp_coordinatorUrl p,
           vw_theme_title = ''switch to '' @ (if dp_theme p = Dark then ''light'' else ''dark'') @ '' mode'',
           vw_theme_label = theme_label (dp_theme p),
           vw_form_backends = backendOptions nodes,
           vw_form_disabled = (sending (dp_dash p) \<or> length (js_trim (rf_prompt (dp_form p))) = 0),
           vw_card = map_option (node_detail_rows (pe_locale e)) node,
           vw_status = status, vw_cost = cost_rows sessions,
           vw_channel = channel_panel (pe_connected e) node (case address of Some (Inr a) \<Rightarrow> Some a | _ \<Rightarrow> None) (pe_onchain e)
             (pe_channelState e) (latest_receipt (dp_dash p) node) (dp_panel p),
           vw_detail = session_detail (pe_locale e) (pe_clock e) (page_session p),
           vw_timeline = timeline (pe_clock e) sessions (selectedSessionId (dp_dash p))\<rparr>)"

subsection \<open>What happens to the page\<close>

datatype page_event =
    SelectNode "string option"
  | CloseCard
  | SelectSession "string option"
  | EditCoordinator string
  | ClickTheme
  | Tick int
  | NodesPolled "node_registration list" "string option"
  | ActivityPolled "activity_entry list" "string list"
  | FormEvent form_event
  | ClickSend int string
  | Matched string string jsnum
  | LoopEvent string string int agent_event
  | SendFailed string int string
  | SendDone

fun page_act :: "page_event \<Rightarrow> dash_page \<Rightarrow> dash_page" where
  "page_act (SelectNode k) p = p\<lparr>dp_dash := (dp_dash p)\<lparr>selectedPubKey := k\<rparr>\<rparr>"
| "page_act CloseCard p = p\<lparr>dp_dash := (dp_dash p)\<lparr>selectedPubKey := None\<rparr>\<rparr>"
| "page_act (SelectSession s) p = p\<lparr>dp_dash := (dp_dash p)\<lparr>selectedSessionId := s\<rparr>\<rparr>"
| "page_act (EditCoordinator u) p = p\<lparr>dp_coordinatorUrl := u\<rparr>"
| "page_act ClickTheme p = p\<lparr>dp_theme := toggle_theme (dp_theme p)\<rparr>"
| "page_act (Tick t) p = p\<lparr>dp_now := t\<rparr>"
| "page_act (NodesPolled ns err) p = p\<lparr>dp_rawNodes := ns, dp_nodesError := err\<rparr>"
| "page_act (ActivityPolled es us) p = p\<lparr>dp_entries := es, dp_aliveUrls := us\<rparr>"
| "page_act (FormEvent ev) p = p\<lparr>dp_form := form_step ev (dp_form p)\<rparr>"
| "page_act (ClickSend t sid) p =
     (case form_click (sending (dp_dash p)) (page_nodes p) (dp_form p) of
        None \<Rightarrow> p
      | Some args \<Rightarrow> p\<lparr>dp_dash := send_begin t sid args (dp_dash p)\<rparr>)"
| "page_act (Matched sid u price) p = p\<lparr>dp_dash := send_matched sid u price (dp_dash p)\<rparr>"
| "page_act (LoopEvent sid pub t ev) p = p\<lparr>dp_dash := dash_event sid pub t ev (dp_dash p)\<rparr>"
| "page_act (SendFailed sid t m) p = p\<lparr>dp_dash := send_failed sid t m (dp_dash p)\<rparr>"
| "page_act SendDone p = p\<lparr>dp_dash := send_done (dp_dash p)\<rparr>"

definition fresh_id :: "page_event \<Rightarrow> dash_page \<Rightarrow> bool" where
  "fresh_id ev p = (case ev of ClickSend t sid \<Rightarrow> sid \<notin> ss_sessionId ` set (page_sessions p) \<union> ss_sessionId ` set (localSessions (dp_dash p)) | _ \<Rightarrow> True)"

inductive page_step :: "dash_page \<Rightarrow> dash_page \<Rightarrow> bool" where
  page_event: "fresh_id ev p \<Longrightarrow> page_step p (page_act ev p)"

inductive_cases page_stepE: "page_step p q"

definition page_inv :: "dash_page \<Rightarrow> bool" where
  "page_inv p \<longleftrightarrow> distinct (map ss_sessionId (localSessions (dp_dash p)))"

lemma dash_event_ids: "map ss_sessionId (localSessions (dash_event sid pub t ev d)) = map ss_sessionId (localSessions d)"
  by (cases ev) (simp_all add: dash_event_def del: session_event.simps)

lemma page_inv_step: "page_inv p \<Longrightarrow> page_step p q \<Longrightarrow> page_inv q"
proof (erule page_stepE)
  fix ev assume inv: "page_inv p" and ev: "q = page_act ev p" "fresh_id ev p"
  show "page_inv q"
    using inv ev(2) unfolding ev(1) page_inv_def
    by (cases ev) (auto simp: dash_event_ids send_matched_def send_failed_def send_done_def send_begin_def makeLocalSession_def
        fresh_id_def Let_def form_click_def simp del: map_map split: option.splits)
qed

interpretation dashboard: inv_system page_step "\<lambda>p. \<exists>env t now st. p = page_mount env t now st" page_inv
proof
  show "page_inv p" if "\<exists>env t now st. p = page_mount env t now st" for p
    using that by (auto simp: page_inv_def page_mount_def)
qed (rule page_inv_step)

subsection \<open>The panels agree\<close>

lemma find_mem: "List.find P xs = Some x \<Longrightarrow> x \<in> set xs \<and> P x"
  by (auto simp: find_Some_iff)

lemma request_of_session: "r \<in> set (session_requests now s) \<Longrightarrow> ar_sessionId r = ss_sessionId s"
  by (auto simp: session_requests_def tool_request_def split: option.splits if_splits)

text \<open>In every page that can be reached: the card, the channel panel and the graph are about the
  same living node; each session has one segment of the time line; the detail shows the session
  whose segment is marked, if there is one; and every request drawn in the graph is one of a
  session of the time line.\<close>

theorem panels_agree:
  assumes "rtranclp page_step (page_mount env t now st) p" and v: "Dashboard chain_id e p = Inr v"
  shows "distinct (map sg_sessionId (vw_timeline v))"
    and "vw_card v = Some rows \<Longrightarrow> \<exists>n \<in> set (vw_graph_nodes v). Some (publicKey n) = vw_graph_selected v \<and> rows = node_detail_rows (pe_locale e) n"
    and "cv_hint (vw_channel v) \<longleftrightarrow> vw_card v = None"
    and "sg \<in> set (vw_timeline v) \<Longrightarrow> sg_selected sg \<Longrightarrow>
      \<exists>s \<in> set (page_sessions p). ss_sessionId s = sg_sessionId sg \<and> vw_detail v = session_detail (pe_locale e) (pe_clock e) (Some s)"
    and "vw_detail v \<noteq> None \<Longrightarrow> \<exists>sg \<in> set (vw_timeline v). sg_selected sg"
    and "r \<in> set (vw_graph_requests v) \<Longrightarrow> ar_sessionId r \<in> sg_sessionId ` set (vw_timeline v)"
proof -
  have "page_inv p" using dashboard.reachable_inv assms(1) by blast
  then have ids: "distinct (map ss_sessionId (page_sessions p))"
    using mergeSessions_ids by (auto simp: page_inv_def page_sessions_def)
  have view: "vw_timeline v = timeline (pe_clock e) (page_sessions p) (selectedSessionId (dp_dash p))"
    "vw_detail v = session_detail (pe_locale e) (pe_clock e) (page_session p)"
    "vw_graph_requests v = sessionsToActiveRequests (page_sessions p) (dp_now p)" "vw_graph_nodes v = page_nodes p"
    "vw_graph_selected v = selectedPubKey (dp_dash p)" "vw_card v = map_option (node_detail_rows (pe_locale e)) (page_node p)"
    using v by (auto simp: Dashboard_def Let_def split: option.splits sum.splits)
  have sg: "sg \<in> set (vw_timeline v) \<longleftrightarrow>
      (\<exists>s \<in> set (page_sessions p). sg = segment_of (pe_clock e) (page_sessions p) (selectedSessionId (dp_dash p)) s)" for sg
    by (auto simp: view timeline_def timeline_sorted_def)
  have seg: "sg_sessionId (segment_of a b c s) = ss_sessionId s" "sg_selected (segment_of a b c s) \<longleftrightarrow> c = Some (ss_sessionId s)" for a b c s
    by (simp_all add: segment_of_def Let_def)
  show "distinct (map sg_sessionId (vw_timeline v))"
    using ids by (simp add: view timeline_def timeline_sorted_def comp_def seg distinct_map)
  show "\<exists>n \<in> set (vw_graph_nodes v). Some (publicKey n) = vw_graph_selected v \<and> rows = node_detail_rows (pe_locale e) n"
    if "vw_card v = Some rows"
    using that by (auto simp: view page_node_def selectedNode_def dest!: find_mem)
  show "cv_hint (vw_channel v) \<longleftrightarrow> vw_card v = None"
    using v by (auto simp: Dashboard_def Let_def channel_panel_def selectedNodeAddress_def split: option.splits sum.splits)
  show "\<exists>s \<in> set (page_sessions p). ss_sessionId s = sg_sessionId sg \<and> vw_detail v = session_detail (pe_locale e) (pe_clock e) (Some s)"
    if m: "sg \<in> set (vw_timeline v)" "sg_selected sg"
  proof -
    obtain s where s: "s \<in> set (page_sessions p)" "sg_sessionId sg = ss_sessionId s" "selectedSessionId (dp_dash p) = Some (ss_sessionId s)"
      using m by (auto simp: sg seg)
    then have "page_session p = Some s" using find_distinct [OF ids s(1)] by (simp add: page_session_def selectedSession_def)
    with s show ?thesis by (auto simp: view)
  qed
  show "\<exists>sg \<in> set (vw_timeline v). sg_selected sg" if shown: "vw_detail v \<noteq> None"
  proof -
    obtain s where "page_session p = Some s" using shown by (auto simp: view session_detail_def)
    from find_mem [OF this [unfolded page_session_def selectedSession_def]]
    have "s \<in> set (page_sessions p)" "selectedSessionId (dp_dash p) = Some (ss_sessionId s)" by auto
    then show ?thesis using sg seg by metis
  qed
  show "ar_sessionId r \<in> sg_sessionId ` set (vw_timeline v)" if r: "r \<in> set (vw_graph_requests v)"
  proof -
    obtain s where "s \<in> set (page_sessions p)" "ar_sessionId r = ss_sessionId s"
      using r request_of_session by (auto simp: view sessionsToActiveRequests_def)
    then show ?thesis using sg seg(1) by (metis image_eqI)
  qed
qed

lemma select_session_same:
  "page_nodes (p\<lparr>dp_dash := d\<rparr>) = page_nodes p"
  "page_sessions (p\<lparr>dp_dash := (dp_dash p)\<lparr>selectedSessionId := x\<rparr>\<rparr>) = page_sessions p"
  "page_node (p\<lparr>dp_dash := (dp_dash p)\<lparr>selectedSessionId := x\<rparr>\<rparr>) = page_node p"
  by (simp_all add: page_nodes_def page_sessions_def page_node_def)

text \<open>A click on a segment of the time line shows the session's detail, a second one hides it.\<close>

theorem click_shows_session:
  assumes "rtranclp page_step (page_mount env t now st) p" "Dashboard chain_id e p = Inr v" "sg \<in> set (vw_timeline v)"
  shows "\<exists>w. Dashboard chain_id e (page_act (SelectSession (sg_click sg)) p) = Inr w \<and>
    (if sg_selected sg then vw_detail w = None
     else \<exists>s \<in> set (page_sessions p). ss_sessionId s = sg_sessionId sg \<and> vw_detail w = session_detail (pe_locale e) (pe_clock e) (Some s))"
proof -
  let ?q = "page_act (SelectSession (sg_click sg)) p"
  obtain w where w: "Dashboard chain_id e ?q = Inr w" "vw_detail w = session_detail (pe_locale e) (pe_clock e) (page_session ?q)"
    using assms(2) by (auto simp: Dashboard_def Let_def select_session_same split: option.splits sum.splits)
  have "page_inv p" using dashboard.reachable_inv assms(1) by blast
  then have ids: "distinct (map ss_sessionId (page_sessions p))"
    using mergeSessions_ids by (auto simp: page_inv_def page_sessions_def)
  obtain s where s: "s \<in> set (page_sessions p)"
    "sg = segment_of (pe_clock e) (page_sessions p) (selectedSessionId (dp_dash p)) s"
    using assms(2,3) by (auto simp: Dashboard_def Let_def timeline_def timeline_sorted_def split: option.splits sum.splits)
  have "page_session ?q = (if sg_selected sg then None else Some s)"
    using s find_distinct [OF ids s(1)]
    by (simp add: page_session_def selectedSession_def select_session_same segment_of_def Let_def find_None_iff)
  then show ?thesis using w s by (auto simp: session_detail_def segment_of_def Let_def)
qed

end
