(* ===== verification/Marketing.thy ===== *)
theory Marketing
  imports Prelude
begin

section \<open>The marketing site (apps/marketing/src/components)\<close>

text \<open>
  What the site computes: the savings calculator (\<open>SavingsCalculator.tsx\<close>: the two cumulative
  cost series, the formatted totals, the slider, the chart's geometry) and the animated diagram
  of a request (\<open>FlowGraph.tsx\<close>: its timeline, its stations and the keyframes of the travelling
  dots, of the rotating machines and of the terminal). Markup, class names and static text are
  left out. Numbers are reals (\<open>Math.pow\<close> is \<open>powr\<close>); how a number is written into an SVG
  attribute is the parameter \<open>str\<close>. How framer-motion plays keyframes is a parameter with its
  documented behaviour as a hypothesis.

  The properties: the marketplace is cheaper at every month and by how much, the chart stays in
  its frame, and in the diagram one dot at most is under way and the machines' opacities always
  add up to one.
\<close>

subsection \<open>The two cost series\<close>

definition TRAD_BASE :: real where "TRAD_BASE = 10"
definition FLDX_BASE :: real where "FLDX_BASE = 15 / 10"
definition FLDX_HIKE_PCT :: real where "FLDX_HIKE_PCT = 3"
definition YEARS :: nat where "YEARS = 5"
definition MONTHS :: nat where "MONTHS = YEARS * 12"

record series =
  sr_trad :: "real list"
  sr_fldx :: "real list"
  sr_tradTotal :: real
  sr_fldxTotal :: real

text \<open>One turn of the loop; the last two fields are \<open>tradCum\<close> and \<open>fldxCum\<close>.\<close>

definition month_step :: "real \<Rightarrow> real \<Rightarrow> series \<Rightarrow> nat \<Rightarrow> series" where
  "month_step tokensM hikePct s m =
     (let yr = (real m - 1) / 12;
          tradRate = TRAD_BASE * (1 + hikePct / 100) powr yr;
          fldxRate = FLDX_BASE * (1 + FLDX_HIKE_PCT / 100) powr yr;
          tradCum = sr_tradTotal s + tokensM * tradRate;
          fldxCum = sr_fldxTotal s + tokensM * fldxRate
      in \<lparr>sr_trad = sr_trad s @ [tradCum], sr_fldx = sr_fldx s @ [fldxCum], sr_tradTotal = tradCum, sr_fldxTotal = fldxCum\<rparr>)"

definition compute :: "real \<Rightarrow> real \<Rightarrow> series" where
  "compute tokensM hikePct =
     foldl (month_step tokensM hikePct) \<lparr>sr_trad = [0], sr_fldx = [0], sr_tradTotal = 0, sr_fldxTotal = 0\<rparr> [1..<MONTHS + 1]"

definition formatMoney :: "real \<Rightarrow> string" where
  "formatMoney n =
     (if 1000000 \<le> n then to_fixed 2 (n / 1000000) @ ''M''
      else if 10000 \<le> n then to_fixed 0 (n / 1000) @ ''K''
      else if 1000 \<le> n then to_fixed 1 (n / 1000) @ ''K''
      else to_fixed 0 n)"

definition savings :: "series \<Rightarrow> real" where
  "savings s = sr_tradTotal s - sr_fldxTotal s"

definition savingsPct :: "series \<Rightarrow> int" where
  "savingsPct s = (if 0 < sr_tradTotal s then js_round (savings s / sr_tradTotal s * 100) else 0)"

text \<open>What the card shows: the totals, the percentage and the amount saved.\<close>

definition summary :: "series \<Rightarrow> string list" where
  "summary s = [''$'' @ formatMoney (sr_tradTotal s), ''$'' @ formatMoney (sr_fldxTotal s),
     int_str (savingsPct s) @ ''%'', ''$'' @ formatMoney (savings s)]"

text \<open>The slider's filled part in percent.\<close>

definition slider_pct :: "real \<Rightarrow> real \<Rightarrow> real \<Rightarrow> real" where
  "slider_pct v lo hi = (v - lo) / (hi - lo) * 100"

subsection \<open>The chart\<close>

definition G_w :: real where "G_w = 600"
definition G_h :: real where "G_h = 360"
definition padL :: real where "padL = 56"
definition padR :: real where "padR = 16"
definition padT :: real where "padT = 24"
definition padB :: real where "padB = 36"
definition plotW :: real where "plotW = G_w - padL - padR"
definition plotH :: real where "plotH = G_h - padT - padB"

definition maxCost :: "series \<Rightarrow> real" where
  "maxCost s = (if sr_tradTotal s = 0 then 1 else sr_tradTotal s)"

definition xOf :: "nat \<Rightarrow> real" where
  "xOf m = padL + (real m / real MONTHS) * plotW"

definition yOf :: "series \<Rightarrow> real \<Rightarrow> real" where
  "yOf s cost = padT + plotH - (cost / maxCost s) * plotH"

fun join_sp :: "string list \<Rightarrow> string" where
  "join_sp [] = []"
| "join_sp [x] = x"
| "join_sp (x # y # xs) = x @ '' '' @ join_sp (y # xs)"

definition pathFrom :: "(real \<Rightarrow> string) \<Rightarrow> real list \<Rightarrow> (nat \<Rightarrow> real) \<Rightarrow> (real \<Rightarrow> real) \<Rightarrow> string" where
  "pathFrom str values x y =
     join_sp (map (\<lambda>(i, v). (if i = 0 then ''M'' else ''L'') @ '' '' @ str (x i) @ '' '' @ str (y v)) (enumerate 0 values))"

definition band_corner :: "series \<Rightarrow> nat \<times> real \<Rightarrow> real \<times> real" where
  "band_corner s p = (xOf (fst p), yOf s (snd p))"

definition bandPoints :: "(real \<Rightarrow> string) \<Rightarrow> series \<Rightarrow> string" where
  "bandPoints str s =
     (let pt = \<lambda>(x, y). str x @ '','' @ str y in
      join_sp (map (pt \<circ> band_corner s) (enumerate 0 (sr_trad s)) @ rev (map (pt \<circ> band_corner s) (enumerate 0 (sr_fldx s)))))"

definition yLabels :: "series \<Rightarrow> (real \<times> string) list" where
  "yLabels s = map (\<lambda>i. let frac = real i / 4 in (padT + plotH * frac, ''$'' @ formatMoney (maxCost s * (1 - frac)))) [0..<5]"

definition xLabels :: "(real \<times> string) list" where
  "xLabels = map (\<lambda>y. (xOf (y * 12), ''Y'' @ nat_str y)) [0, 1, 2, 3, 4, 5]"

text \<open>The label of an end dot: its offset and its anchor.\<close>

definition end_dot :: "bool \<Rightarrow> real \<Rightarrow> real \<Rightarrow> real \<times> real \<times> string" where
  "end_dot right cx cy = (cx + (if right then - 8 else 8), cy - 10, if right then ''end'' else ''start'')"

subsection \<open>Facts of the series\<close>

definition rate :: "real \<Rightarrow> real \<Rightarrow> nat \<Rightarrow> real" where
  "rate base hike m = base * (1 + hike / 100) powr ((real m - 1) / 12)"

text \<open>The reference: the bill after \<open>k\<close> months.\<close>

definition bill :: "real \<Rightarrow> real \<Rightarrow> real \<Rightarrow> nat \<Rightarrow> real" where
  "bill tokens base hike k = (\<Sum>m\<in>{1..k}. tokens * rate base hike m)"

lemma bill_0 [simp]: "bill t b h 0 = 0"
  by (simp add: bill_def)

lemma bill_Suc: "bill t b h (Suc k) = bill t b h k + t * rate b h (Suc k)"
  by (simp add: bill_def)

lemma compute_upto:
  "foldl (month_step t h) \<lparr>sr_trad = [0], sr_fldx = [0], sr_tradTotal = 0, sr_fldxTotal = 0\<rparr> [1..<n + 1] =
     \<lparr>sr_trad = map (bill t TRAD_BASE h) [0..<n + 1], sr_fldx = map (bill t FLDX_BASE FLDX_HIKE_PCT) [0..<n + 1],
      sr_tradTotal = bill t TRAD_BASE h n, sr_fldxTotal = bill t FLDX_BASE FLDX_HIKE_PCT n\<rparr>"
proof (induction n)
  case (Suc n)
  have "[1..<Suc n + 1] = [1..<n + 1] @ [Suc n]" by simp
  with Suc show ?case by (simp add: month_step_def Let_def bill_Suc rate_def)
qed simp

lemma compute_eq:
  "compute t h = \<lparr>sr_trad = map (bill t TRAD_BASE h) [0..<61], sr_fldx = map (bill t FLDX_BASE FLDX_HIKE_PCT) [0..<61],
     sr_tradTotal = bill t TRAD_BASE h 60, sr_fldxTotal = bill t FLDX_BASE FLDX_HIKE_PCT 60\<rparr>"
  using compute_upto [of t h 60] by (simp add: compute_def MONTHS_def YEARS_def)

lemma rate_pos: "0 < b \<Longrightarrow> 0 \<le> h \<Longrightarrow> 0 < rate b h m"
  by (simp add: rate_def)

lemma bill_strict:
  assumes "0 < t" "0 < b" "0 \<le> h" "i < j"
  shows "bill t b h i < bill t b h j"
  using assms(4)
proof (induction j)
  case (Suc j)
  have "bill t b h j < bill t b h (Suc j)" using assms rate_pos by (simp add: bill_Suc)
  with Suc show ?case by (cases "i = j") auto
qed simp

lemma bill_nonneg: "0 < t \<Longrightarrow> 0 < b \<Longrightarrow> 0 \<le> h \<Longrightarrow> 0 \<le> bill t b h i"
  using bill_strict [of t b h 0 i] by (cases i) auto

text \<open>Within the five years the marketplace's rate is at most 17.5\% of the hosted one's.\<close>

lemma rate_ratio:
  assumes "0 \<le> h" "1 \<le> m" "m \<le> 60"
  shows "rate FLDX_BASE FLDX_HIKE_PCT m \<le> 175 / 1000 * rate TRAD_BASE h m"
proof -
  let ?y = "(real m - 1) / 12"
  have y: "0 \<le> ?y" "?y \<le> 5" using assms by auto
  have "(103 / 100 :: real) powr ?y \<le> (103 / 100) powr 5" using y by (intro powr_mono) auto
  also have "(103 / 100 :: real) powr 5 = (103 / 100) ^ 5" using powr_realpow [of "103 / 100" 5] by simp
  also have "\<dots> \<le> 175 / 150" by (simp add: power_divide)
  finally have f: "rate FLDX_BASE FLDX_HIKE_PCT m \<le> 175 / 100" by (simp add: rate_def FLDX_BASE_def FLDX_HIKE_PCT_def)
  have "1 \<le> (1 + h / 100) powr ?y" using assms(1) y by (intro ge_one_powr_ge_zero) auto
  then have "10 \<le> rate TRAD_BASE h m" by (simp add: rate_def TRAD_BASE_def)
  with f show ?thesis by linarith
qed

lemma bill_ratio:
  assumes "0 < t" "0 \<le> h" "k \<le> 60"
  shows "bill t FLDX_BASE FLDX_HIKE_PCT k \<le> 175 / 1000 * bill t TRAD_BASE h k"
  using assms(3)
proof (induction k)
  case (Suc k)
  have "t * rate FLDX_BASE FLDX_HIKE_PCT (Suc k) \<le> t * (175 / 1000 * rate TRAD_BASE h (Suc k))"
    using rate_ratio [of h "Suc k"] Suc.prems assms by (intro mult_left_mono) auto
  with Suc show ?case by (simp add: bill_Suc algebra_simps)
qed simp

lemma bill_scale: "bill t b h k = t * bill 1 b h k"
  by (simp add: bill_def sum_distrib_left)

lemma tradTotal_pos: "0 < t \<Longrightarrow> 0 \<le> h \<Longrightarrow> 0 < sr_tradTotal (compute t h)"
  using bill_strict [of t TRAD_BASE h 0 60] by (simp add: compute_eq TRAD_BASE_def)

lemma maxCost_compute: "0 < t \<Longrightarrow> 0 \<le> h \<Longrightarrow> maxCost (compute t h) = bill t TRAD_BASE h 60"
  using tradTotal_pos [of t h] by (simp add: maxCost_def compute_eq)

lemma in_frame:
  assumes "0 < t" "0 \<le> h" "0 \<le> c" "c \<le> bill t TRAD_BASE h 60"
  shows "padT \<le> yOf (compute t h) c \<and> yOf (compute t h) c \<le> padT + plotH"
proof -
  have pos: "0 < bill t TRAD_BASE h 60" using tradTotal_pos [OF assms(1,2)] by (simp add: compute_eq)
  define q where "q = c / bill t TRAD_BASE h 60"
  have "0 \<le> q \<and> q \<le> 1" using assms(3,4) pos by (simp add: q_def)
  then have "0 \<le> q * plotH \<and> q * plotH \<le> plotH" by (simp add: plotH_def G_h_def padT_def padB_def)
  then have "0 \<le> c / bill t TRAD_BASE h 60 * plotH \<and> c / bill t TRAD_BASE h 60 * plotH \<le> plotH" by (simp only: q_def)
  then show ?thesis by (simp add: yOf_def maxCost_compute [OF assms(1,2)])
qed

lemma bill_fldx_le: "0 < t \<Longrightarrow> 0 \<le> h \<Longrightarrow> k \<le> 60 \<Longrightarrow> bill t FLDX_BASE FLDX_HIKE_PCT k \<le> bill t TRAD_BASE h k"
  using bill_ratio [of t h k] bill_nonneg [of t TRAD_BASE h k] by (simp add: TRAD_BASE_def)

lemma bill_le_total: "0 < t \<Longrightarrow> 0 \<le> h \<Longrightarrow> k \<le> 60 \<Longrightarrow> bill t TRAD_BASE h k \<le> bill t TRAD_BASE h 60"
  using bill_strict [of t TRAD_BASE h k 60] by (cases "k = 60") (auto simp: TRAD_BASE_def)

subsection \<open>Properties of the calculator\<close>

lemma savingsPct_bounds:
  assumes "1 \<le> tokens" "0 \<le> hike"
  shows "83 \<le> savingsPct (compute tokens hike)" and "savingsPct (compute tokens hike) \<le> 100"
proof -
  have t: "0 < tokens" using assms(1) by simp
  let ?T = "bill tokens TRAD_BASE hike 60" and ?F = "bill tokens FLDX_BASE FLDX_HIKE_PCT 60"
  have T: "0 < ?T" using tradTotal_pos [OF t assms(2)] by (simp add: compute_eq)
  have F: "0 \<le> ?F" "?F \<le> 175 / 1000 * ?T"
    using bill_nonneg [OF t, of FLDX_BASE FLDX_HIKE_PCT 60] bill_ratio [OF t assms(2), of 60] by (simp_all add: FLDX_BASE_def FLDX_HIKE_PCT_def)
  have pct: "savingsPct (compute tokens hike) = js_round ((?T - ?F) / ?T * 100)"
    using T by (simp add: savingsPct_def savings_def compute_eq)
  have lo: "825 / 10 \<le> (?T - ?F) / ?T * 100" and hi: "(?T - ?F) / ?T * 100 \<le> 100"
    using T F by (simp_all add: field_simps)
  have r: "js_round (825 / 10 :: real) = 83" "js_round (100 :: real) = 100" by (simp_all add: js_round_def floor_eq_iff)
  show "83 \<le> savingsPct (compute tokens hike)" "savingsPct (compute tokens hike) \<le> 100"
    using js_round_mono [OF lo] js_round_mono [OF hi] r pct by simp_all
qed

lemma savingsPct_scale:
  assumes "1 \<le> tokens" "0 \<le> hike"
  shows "savingsPct (compute tokens hike) = savingsPct (compute 1 hike)"
proof -
  have t: "0 < tokens" using assms(1) by simp
  have "0 < bill tokens TRAD_BASE hike 60" "0 < bill 1 TRAD_BASE hike 60"
    using tradTotal_pos [OF t assms(2)] tradTotal_pos [of 1 hike] assms(2) by (simp_all add: compute_eq)
  moreover have "(bill tokens TRAD_BASE hike 60 - bill tokens FLDX_BASE FLDX_HIKE_PCT 60) / bill tokens TRAD_BASE hike 60
      = (bill 1 TRAD_BASE hike 60 - bill 1 FLDX_BASE FLDX_HIKE_PCT 60) / bill 1 TRAD_BASE hike 60"
    using t by (subst (1 2 3) bill_scale) (simp add: right_diff_distrib [symmetric])
  ultimately show ?thesis by (simp add: savingsPct_def savings_def compute_eq)
qed

text \<open>The calculator's claim: for every position of the sliders both series hold the bill after
  0 to 60 months, rise every month, and the marketplace's never exceeds 17.5\% of the hosted
  one's, so the percentage shown lies between 83 and 100; it does not depend on the tokens.\<close>

theorem calculator_savings:
  assumes "1 \<le> tokens" "0 \<le> hike" "i < j" "j \<le> 60"
  shows "length (sr_trad (compute tokens hike)) = 61 \<and> length (sr_fldx (compute tokens hike)) = 61 \<and>
    sr_trad (compute tokens hike) ! i < sr_trad (compute tokens hike) ! j \<and>
    sr_fldx (compute tokens hike) ! i < sr_fldx (compute tokens hike) ! j \<and>
    sr_fldx (compute tokens hike) ! j \<le> 175 / 1000 * sr_trad (compute tokens hike) ! j \<and>
    sr_tradTotal (compute tokens hike) = sr_trad (compute tokens hike) ! 60 \<and>
    83 \<le> savingsPct (compute tokens hike) \<and> savingsPct (compute tokens hike) \<le> 100 \<and>
    savingsPct (compute tokens hike) = savingsPct (compute 1 hike)"
proof -
  have t: "0 < tokens" using assms(1) by simp
  show ?thesis
    using assms bill_strict [OF t _ _ assms(3), of TRAD_BASE hike] bill_strict [OF t _ _ assms(3), of FLDX_BASE FLDX_HIKE_PCT]
      bill_ratio [OF t assms(2,4)] savingsPct_bounds [OF assms(1,2)] savingsPct_scale [OF assms(1,2)]
    by (simp add: compute_eq TRAD_BASE_def FLDX_BASE_def FLDX_HIKE_PCT_def del: upt_Suc)
qed

text \<open>The chart stays in its frame: every corner of the two lines and of the band between them
  lies inside the plot area, the marketplace's line never above the hosted one's, and the first
  and the last month are on its left and right edge.\<close>

theorem chart_in_frame:
  assumes "1 \<le> tokens" "0 \<le> hike" "k \<le> 60"
  shows "padL \<le> xOf k \<and> xOf k \<le> G_w - padR \<and> xOf 0 = padL \<and> xOf MONTHS = G_w - padR \<and>
    padT \<le> yOf (compute tokens hike) (sr_trad (compute tokens hike) ! k) \<and>
    yOf (compute tokens hike) (sr_trad (compute tokens hike) ! k) \<le> yOf (compute tokens hike) (sr_fldx (compute tokens hike) ! k) \<and>
    yOf (compute tokens hike) (sr_fldx (compute tokens hike) ! k) \<le> padT + plotH"
proof -
  have t: "0 < tokens" using assms(1) by simp
  let ?s = "compute tokens hike"
  have nth: "sr_trad ?s ! k = bill tokens TRAD_BASE hike k" "sr_fldx ?s ! k = bill tokens FLDX_BASE FLDX_HIKE_PCT k"
    using assms(3) by (simp_all add: compute_eq del: upt_Suc)
  have le: "bill tokens FLDX_BASE FLDX_HIKE_PCT k \<le> bill tokens TRAD_BASE hike k" "bill tokens TRAD_BASE hike k \<le> bill tokens TRAD_BASE hike 60"
    by (rule bill_fldx_le bill_le_total; use t assms in simp)+
  have nn: "0 \<le> bill tokens TRAD_BASE hike k" "0 \<le> bill tokens FLDX_BASE FLDX_HIKE_PCT k"
    using t assms(2) by (auto intro!: bill_nonneg simp: TRAD_BASE_def FLDX_BASE_def FLDX_HIKE_PCT_def)
  have pos: "0 < bill tokens TRAD_BASE hike 60" using tradTotal_pos [OF t assms(2)] by (simp add: compute_eq)
  have "bill tokens FLDX_BASE FLDX_HIKE_PCT k / bill tokens TRAD_BASE hike 60 * plotH \<le> bill tokens TRAD_BASE hike k / bill tokens TRAD_BASE hike 60 * plotH"
    using le(1) pos by (intro mult_right_mono divide_right_mono) (simp_all add: plotH_def G_h_def padT_def padB_def)
  then have order: "yOf ?s (sr_trad ?s ! k) \<le> yOf ?s (sr_fldx ?s ! k)"
    by (simp add: nth yOf_def maxCost_compute [OF t assms(2)])
  have "padL \<le> xOf k" "xOf k \<le> G_w - padR" "xOf 0 = padL" "xOf MONTHS = G_w - padR"
    using assms(3) by (simp_all add: xOf_def plotW_def G_w_def padL_def padR_def MONTHS_def YEARS_def field_simps)
  with order in_frame [OF t assms(2) nn(1) le(2)] in_frame [OF t assms(2) nn(2)] le show ?thesis
    by (simp add: nth)
qed

theorem calculator_savings_witness:
  "sr_trad (compute 25 15) ! 12 < sr_trad (compute 25 15) ! 60 \<and>
   sr_fldx (compute 25 15) ! 60 \<le> 175 / 1000 * sr_trad (compute 25 15) ! 60 \<and> 83 \<le> savingsPct (compute 25 15)"
  using calculator_savings [of 25 15 12 60] by simp

theorem chart_in_frame_witness:
  "padT \<le> yOf (compute 25 15) (sr_trad (compute 25 15) ! 60) \<and> xOf 60 \<le> G_w - padR"
  using chart_in_frame [of 25 15 60] by simp

subsection \<open>The diagram of a request\<close>

text \<open>The cycle and its phase markers, in fractions of the cycle.\<close>

definition T_cycle :: real where "T_cycle = 15"
definition N_MACHINES :: nat where "N_MACHINES = 4"
definition SCYC :: real where "SCYC = T_cycle * real N_MACHINES"

record markers =
  termOpen :: real
  bootIn :: real
  promptShow :: real
  promptIn :: real
  promptHeld :: real
  sendStart :: real
  sendEnd :: real
  thinkStart :: real
  thinkEnd :: real
  toolReqStart :: real
  toolReqEnd :: real
  toolResStart :: real
  toolResEnd :: real
  responseStart :: real
  responseEnd :: real
  settleStart :: real
  settleEnd :: real
  confirmStart :: real
  confirmEnd :: real

definition M :: markers where
  "M = \<lparr>termOpen = 5 / 1000, bootIn = 2 / 100, promptShow = 3 / 100, promptIn = 5 / 100, promptHeld = 16 / 100,
     sendStart = 18 / 100, sendEnd = 30 / 100, thinkStart = 30 / 100, thinkEnd = 36 / 100,
     toolReqStart = 36 / 100, toolReqEnd = 44 / 100, toolResStart = 46 / 100, toolResEnd = 54 / 100,
     responseStart = 58 / 100, responseEnd = 68 / 100, settleStart = 74 / 100, settleEnd = 88 / 100,
     confirmStart = 88 / 100, confirmEnd = 96 / 100\<rparr>"

definition VB_w :: real where "VB_w = 1100"
definition VB_h :: real where "VB_h = 540"

datatype station = PcCenter | TermCenter | TermLeft | TermRight | ServerLeft | ServerCenter | ServerRight | ChainLeft | ChainCenter

fun anchor :: "station \<Rightarrow> real \<times> real" where
  "anchor PcCenter = (130, 270)"
| "anchor TermCenter = (300, 270)"
| "anchor TermLeft = (200, 270)"
| "anchor TermRight = (410, 270)"
| "anchor ServerLeft = (540, 270)"
| "anchor ServerCenter = (620, 270)"
| "anchor ServerRight = (700, 270)"
| "anchor ChainLeft = (820, 270)"
| "anchor ChainCenter = (910, 270)"

definition TERM_WIDTH :: real where "TERM_WIDTH = 200"
definition CHAIN_WIDTH :: real where "CHAIN_WIDTH = 180"

definition px :: "(real \<Rightarrow> string) \<Rightarrow> real \<Rightarrow> string" where "px str v = str (v / VB_w * 100) @ ''%''"
definition py :: "(real \<Rightarrow> string) \<Rightarrow> real \<Rightarrow> string" where "py str v = str (v / VB_h * 100) @ ''%''"

text \<open>A wire: its two ends, the period of its dashes and the sign of their movement.\<close>

definition wire_offset :: "real \<times> real \<Rightarrow> bool \<Rightarrow> real" where
  "wire_offset dash reverse = (let period = fst dash + snd dash; sign = (if reverse then 1 else - 1) in sign * period)"

text \<open>A value over the cycle: when each keyframe is reached, and its value.\<close>

record track =
  tk_times :: "real list"
  tk_values :: "real list"

record dot =
  dot_x :: track
  dot_opacity :: track
  dot_labelY :: real
  dot_labelW :: real

definition TravelingDot :: "real \<Rightarrow> real \<Rightarrow> real \<Rightarrow> real \<Rightarrow> real \<Rightarrow> string \<Rightarrow> bool \<Rightarrow> dot" where
  "TravelingDot fromX toX y startT endT label labelBelow =
     (let eps = 3 / 1000; sIn = max 0 (startT - eps); sOut = min 1 (endT + eps);
          times = [0, sIn, startT, endT, sOut, 1]
      in \<lparr>dot_x = \<lparr>tk_times = times, tk_values = [fromX, fromX, fromX, toX, toX, toX]\<rparr>,
          dot_opacity = \<lparr>tk_times = times, tk_values = [0, 0, 1, 1, 0, 0]\<rparr>,
          dot_labelY = y + (if labelBelow then 44 else - 44),
          dot_labelW = 24 + real (length label) * (64 / 10)\<rparr>)"

text \<open>The five dots of \<open>Diagram\<close>, in order.\<close>

definition diagram_dots :: "dot list" where
  "diagram_dots =
     (let x = fst \<circ> anchor; y = snd (anchor ServerLeft) in
      [TravelingDot (x TermRight) (x ServerLeft) y (sendStart M) (sendEnd M) ''encrypted prompt'' False,
       TravelingDot (x ServerLeft) (x TermRight) y (toolReqStart M) (toolReqEnd M) ''tool: read_file'' True,
       TravelingDot (x TermRight) (x ServerLeft) y (toolResStart M) (toolResEnd M) ''tool result'' False,
       TravelingDot (x ServerLeft) (x TermRight) y (responseStart M) (responseEnd M) ''answer'' True,
       TravelingDot (x ServerRight) (x ChainLeft) y (settleStart M) (settleEnd M) ''signed receipt'' False])"

definition FADE :: real where "FADE = 5 / 10 / SCYC"

definition fadeKeyframes :: "nat \<Rightarrow> nat \<Rightarrow> track" where
  "fadeKeyframes i n =
     (let cs = real i / real n; ce = (real i + 1) / real n in
      if i = 0 then \<lparr>tk_times = [0, ce - FADE, ce, 1 - FADE, 1], tk_values = [1, 1, 0, 0, 1]\<rparr>
      else if i = n - 1 then \<lparr>tk_times = [0, cs - FADE, cs, 1 - FADE, 1], tk_values = [0, 0, 1, 1, 0]\<rparr>
      else \<lparr>tk_times = [0, cs - FADE, cs, ce - FADE, ce, 1], tk_values = [0, 0, 1, 1, 0, 0]\<rparr>)"

definition fadeTimes :: "real \<Rightarrow> track" where
  "fadeTimes at_t = \<lparr>tk_times = [0, max 0 (at_t - 5 / 1000), at_t, 99 / 100, 1], tk_values = [0, 0, 1, 1, 0]\<rparr>"

text \<open>The width of the typed prompt, in characters.\<close>

definition Typing :: "string \<Rightarrow> real \<Rightarrow> real \<Rightarrow> real \<Rightarrow> track" where
  "Typing text startT endT eraseAt =
     (let len = real (length text) in
      \<lparr>tk_times = [0, max 0 (startT - 5 / 1000), endT, min 1 eraseAt, min 1 (eraseAt + 5 / 1000), 1],
       tk_values = [0, 0, len, len, 0, 0]\<rparr>)"

definition Cursor :: "real \<Rightarrow> real \<Rightarrow> track" where
  "Cursor visibleStart visibleEnd =
     \<lparr>tk_times = [0, max 0 (visibleStart - 5 / 1000), visibleStart, visibleStart + 6 / 100, visibleStart + 12 / 100,
        visibleStart + 18 / 100, visibleStart + 24 / 100, visibleStart + 30 / 100, visibleStart + 36 / 100,
        visibleStart + 42 / 100, visibleStart + 48 / 100, min 1 visibleEnd, min 1 (visibleEnd + 5 / 1000), 1],
      tk_values = [0, 0, 1, 0, 1, 0, 1, 0, 1, 0, 1, 0, 1, 0]\<rparr>"

text \<open>The lines of the terminal: when each appears.\<close>

definition terminal_lines :: "real list" where
  "terminal_lines = [termOpen M, bootIn M, promptShow M, promptShow M, sendStart M, toolReqStart M, responseStart M]"

definition terminal_typing :: track where
  "terminal_typing = Typing ''summarize meeting_notes.md'' (promptIn M) (promptHeld M) (responseEnd M + 6 / 100)"

definition terminal_cursor :: track where
  "terminal_cursor = Cursor (promptShow M) (responseEnd M + 6 / 100)"

text \<open>The glow of the chain panel and its transaction.\<close>

definition chain_glow :: track where
  "chain_glow = \<lparr>tk_times = [0, confirmStart M - 1 / 100, confirmStart M, confirmEnd M, 1], tk_values = [0, 0, 1, 0, 0]\<rparr>"

definition chain_tx :: track where
  "chain_tx = \<lparr>tk_times = [0, confirmStart M - 1 / 100, confirmStart M, confirmEnd M, 1],
     tk_values = [3 / 10, 3 / 10, 1, 1, 3 / 10]\<rparr>"

subsection \<open>Playing keyframes\<close>

text \<open>
  framer-motion's documented behaviour: between two keyframes the value runs from one to the
  other, along an easing curve that starts at 0 and ends at 1.
\<close>

definition plays :: "(track \<Rightarrow> real \<Rightarrow> real) \<Rightarrow> (real \<Rightarrow> real) \<Rightarrow> bool" where
  "plays kf ease \<longleftrightarrow>
     ease 0 = 0 \<and> ease 1 = 1 \<and>
     (\<forall>tk i t. sorted_wrt (<) (tk_times tk) \<longrightarrow> length (tk_values tk) = length (tk_times tk) \<longrightarrow>
        Suc i < length (tk_times tk) \<longrightarrow> tk_times tk ! i \<le> t \<longrightarrow> t \<le> tk_times tk ! Suc i \<longrightarrow>
        kf tk t = tk_values tk ! i +
          ease ((t - tk_times tk ! i) / (tk_times tk ! Suc i - tk_times tk ! i)) * (tk_values tk ! Suc i - tk_values tk ! i))"

definition track_ok :: "track \<Rightarrow> bool" where
  "track_ok tk \<longleftrightarrow> length (tk_times tk) = length (tk_values tk) \<and> sorted (tk_times tk) \<and>
     hd (tk_times tk) = 0 \<and> last (tk_times tk) = 1"

text \<open>A player that satisfies the hypothesis: linear interpolation.\<close>

fun interp :: "real list \<Rightarrow> real list \<Rightarrow> real \<Rightarrow> real" where
  "interp (a # b # ts) (u # v # vs) t = (if t \<le> b then u + (t - a) / (b - a) * (v - u) else interp (b # ts) (v # vs) t)"
| "interp _ vs t = hd vs"

definition linear_player :: "track \<Rightarrow> real \<Rightarrow> real" where
  "linear_player tk t = interp (tk_times tk) (tk_values tk) t"

lemma interp_segment:
  "sorted_wrt (<) ts \<Longrightarrow> length vs = length ts \<Longrightarrow> Suc i < length ts \<Longrightarrow> ts ! i \<le> t \<Longrightarrow> t \<le> ts ! Suc i \<Longrightarrow>
   interp ts vs t = vs ! i + (t - ts ! i) / (ts ! Suc i - ts ! i) * (vs ! Suc i - vs ! i)"
proof (induction ts vs t arbitrary: i rule: interp.induct)
  case (1 a b ts u v vs t)
  show ?case
  proof (cases i)
    case 0
    then show ?thesis using 1(6) by simp
  next
    case (Suc k)
    have sub: "sorted_wrt (<) (b # ts)" "length (v # vs) = length (b # ts)" "Suc k < length (b # ts)"
      "(b # ts) ! k \<le> t" "t \<le> (b # ts) ! Suc k"
      using 1(2-6) Suc by simp_all
    have le: "b \<le> (b # ts) ! k" using sub(1,3) by (cases k) (auto intro: less_imp_le nth_mem)
    show ?thesis
    proof (cases "t \<le> b")
      case False
      then show ?thesis using 1(1) [OF _ sub] Suc by simp
    next
      case True
      then have t: "t = b" "(b # ts) ! k = b" using le sub(4) by linarith+
      have "k = 0"
      proof (rule ccontr)
        assume "k \<noteq> 0"
        then have "b < (b # ts) ! k" using sub(1,3) by (cases k) auto
        then show False using t by simp
      qed
      then show ?thesis using t Suc 1(2) by simp
    qed
  qed
qed simp_all

lemma linear_plays: "plays linear_player (\<lambda>x. x)"
  by (simp add: plays_def linear_player_def interp_segment)

lemma plays_segment:
  assumes "plays kf ease" "Suc i < length (tk_times tk)" "sorted_wrt (<) (tk_times tk)" "length (tk_values tk) = length (tk_times tk)"
    and "tk_times tk ! i \<le> t" "t \<le> tk_times tk ! Suc i"
  shows "kf tk t = tk_values tk ! i +
    ease ((t - tk_times tk ! i) / (tk_times tk ! Suc i - tk_times tk ! i)) * (tk_values tk ! Suc i - tk_values tk ! i)"
  using assms by (simp add: plays_def)

lemma plays_flat:
  assumes "plays kf ease" "Suc i < length (tk_times tk)" "sorted_wrt (<) (tk_times tk)" "length (tk_values tk) = length (tk_times tk)"
    and "tk_times tk ! i \<le> t" "t \<le> tk_times tk ! Suc i" "tk_values tk ! Suc i = tk_values tk ! i"
  shows "kf tk t = tk_values tk ! i"
  using plays_segment [OF assms(1-6)] assms(7) by simp

text \<open>A track of five or six keyframes as a function of the time.\<close>

lemma plays_five:
  assumes "plays kf ease" "a < b" "b < c" "c < d" "d < e" "a \<le> t" "t \<le> e"
  shows "kf \<lparr>tk_times = [a, b, c, d, e], tk_values = [v0, v1, v2, v3, v4]\<rparr> t =
    (if t \<le> b then v0 + ease ((t - a) / (b - a)) * (v1 - v0)
     else if t \<le> c then v1 + ease ((t - b) / (c - b)) * (v2 - v1)
     else if t \<le> d then v2 + ease ((t - c) / (d - c)) * (v3 - v2)
     else v3 + ease ((t - d) / (e - d)) * (v4 - v3))"
proof -
  let ?k = "\<lparr>tk_times = [a, b, c, d, e], tk_values = [v0, v1, v2, v3, v4]\<rparr>"
  consider "t \<le> b" | "b < t" "t \<le> c" | "c < t" "t \<le> d" | "d < t" by linarith
  then show ?thesis
  proof cases
    case 1 then show ?thesis using plays_segment [OF assms(1), of 0 ?k t] assms(2-7) by simp
  next
    case 2 then show ?thesis using plays_segment [OF assms(1), of "Suc 0" ?k t] assms(2-7) by simp
  next
    case 3 then show ?thesis using plays_segment [OF assms(1), of "Suc (Suc 0)" ?k t] assms(2-7) by simp
  next
    case 4 then show ?thesis using plays_segment [OF assms(1), of "Suc (Suc (Suc 0))" ?k t] assms(2-7) by simp
  qed
qed

lemma plays_six:
  assumes "plays kf ease" "a < b" "b < c" "c < d" "d < e" "e < f" "a \<le> t" "t \<le> f"
  shows "kf \<lparr>tk_times = [a, b, c, d, e, f], tk_values = [v0, v1, v2, v3, v4, v5]\<rparr> t =
    (if t \<le> b then v0 + ease ((t - a) / (b - a)) * (v1 - v0)
     else if t \<le> c then v1 + ease ((t - b) / (c - b)) * (v2 - v1)
     else if t \<le> d then v2 + ease ((t - c) / (d - c)) * (v3 - v2)
     else if t \<le> e then v3 + ease ((t - d) / (e - d)) * (v4 - v3)
     else v4 + ease ((t - e) / (f - e)) * (v5 - v4))"
proof -
  let ?k = "\<lparr>tk_times = [a, b, c, d, e, f], tk_values = [v0, v1, v2, v3, v4, v5]\<rparr>"
  consider "t \<le> b" | "b < t" "t \<le> c" | "c < t" "t \<le> d" | "d < t" "t \<le> e" | "e < t" by linarith
  then show ?thesis
  proof cases
    case 1 then show ?thesis using plays_segment [OF assms(1), of 0 ?k t] assms(2-8) by simp
  next
    case 2 then show ?thesis using plays_segment [OF assms(1), of "Suc 0" ?k t] assms(2-8) by simp
  next
    case 3 then show ?thesis using plays_segment [OF assms(1), of "Suc (Suc 0)" ?k t] assms(2-8) by simp
  next
    case 4 then show ?thesis using plays_segment [OF assms(1), of "Suc (Suc (Suc 0))" ?k t] assms(2-8) by simp
  next
    case 5 then show ?thesis using plays_segment [OF assms(1), of "Suc (Suc (Suc (Suc 0)))" ?k t] assms(2-8) by simp
  qed
qed

text \<open>A dot is seen between its two times only.\<close>

lemma dot_hidden:
  assumes "plays kf ease" "3 / 1000 < a" "a < b" "b + 3 / 1000 < 1" "0 \<le> t" "t \<le> 1"
    and "t \<le> a - 3 / 1000 \<or> b + 3 / 1000 \<le> t"
  shows "kf (dot_opacity (TravelingDot x x' y a b l below)) t = 0"
proof -
  let ?tk = "dot_opacity (TravelingDot x x' y a b l below)"
  have tk: "tk_times ?tk = [0, a - 3 / 1000, a, b, b + 3 / 1000, 1]" "tk_values ?tk = [0, 0, 1, 1, 0, 0]"
    using assms(2-4) by (simp_all add: TravelingDot_def Let_def)
  show ?thesis
  proof (cases "t \<le> a - 3 / 1000")
    case True
    then show ?thesis using plays_flat [OF assms(1), of 0 ?tk t] assms(2-5) by (simp add: tk)
  next
    case False
    then show ?thesis using plays_flat [OF assms(1), of 4 ?tk t] assms(2-4,6,7) by (simp add: tk)
  qed
qed

definition dot_span :: "nat \<Rightarrow> real \<times> real" where
  "dot_span i = [(18 / 100, 30 / 100), (36 / 100, 44 / 100), (46 / 100, 54 / 100), (58 / 100, 68 / 100), (74 / 100, 88 / 100)] ! i"

lemma dot_hidden_nth:
  assumes "plays kf ease" "i < 5" "0 \<le> t" "t \<le> 1" "t \<le> fst (dot_span i) - 3 / 1000 \<or> snd (dot_span i) + 3 / 1000 \<le> t"
  shows "kf (dot_opacity (diagram_dots ! i)) t = 0"
proof -
  have "i \<in> {0, 1, 2, 3, 4}" using assms(2) by auto
  then show ?thesis using assms(5)
    by (auto simp: diagram_dots_def dot_span_def M_def Let_def intro!: dot_hidden [OF assms(1) _ _ _ assms(3,4)])
qed

lemma dot_spans_apart: "i < j \<Longrightarrow> j < 5 \<Longrightarrow> snd (dot_span i) + 3 / 1000 \<le> fst (dot_span j) - 3 / 1000"
proof -
  assume ij: "i < j" "j < 5"
  have "sorted_wrt (\<lambda>p q. snd p + 3 / 1000 \<le> fst q - (3 / 1000 :: real)) (map dot_span [0..<5])"
    by (simp add: dot_span_def upt_rec numeral_eq_Suc)
  from sorted_wrt_nth_less [OF this, of i j] ij show ?thesis by simp
qed

text \<open>The machines: the times of the four tracks, and each machine's opacity where it is constant.\<close>

lemma fade_value: "FADE = 1 / 120"
  by (simp add: FADE_def SCYC_def T_cycle_def N_MACHINES_def)

lemma machine_tracks:
  "fadeKeyframes 0 4 = \<lparr>tk_times = [0, 29 / 120, 1 / 4, 119 / 120, 1], tk_values = [1, 1, 0, 0, 1]\<rparr>"
  "fadeKeyframes 1 4 = \<lparr>tk_times = [0, 29 / 120, 1 / 4, 59 / 120, 1 / 2, 1], tk_values = [0, 0, 1, 1, 0, 0]\<rparr>"
  "fadeKeyframes 2 4 = \<lparr>tk_times = [0, 59 / 120, 1 / 2, 89 / 120, 3 / 4, 1], tk_values = [0, 0, 1, 1, 0, 0]\<rparr>"
  "fadeKeyframes 3 4 = \<lparr>tk_times = [0, 89 / 120, 3 / 4, 119 / 120, 1], tk_values = [0, 0, 1, 1, 0]\<rparr>"
  by (simp_all add: fadeKeyframes_def fade_value)

subsection \<open>Properties of the diagram\<close>

text \<open>Every animation of the diagram is well formed: as many keyframe times as values, the
  times in order from 0 to 1; for the dots, the machines, the terminal's lines, its typing and
  its cursor, and the chain panel.\<close>

theorem diagram_tracks_well_formed:
  "list_all track_ok (concat (map (\<lambda>d. [dot_x d, dot_opacity d]) diagram_dots) @ map (\<lambda>i. fadeKeyframes i N_MACHINES) [0, 1, 2, 3]
     @ map fadeTimes terminal_lines @ [terminal_typing, terminal_cursor, chain_glow, chain_tx])"
proof -
  have "list_all track_ok (concat (map (\<lambda>d. [dot_x d, dot_opacity d]) diagram_dots))"
    by (simp add: diagram_dots_def TravelingDot_def track_ok_def M_def Let_def)
  moreover have "list_all track_ok (map (\<lambda>i. fadeKeyframes i N_MACHINES) [0, 1, 2, 3])"
    by (simp add: fadeKeyframes_def fade_value N_MACHINES_def track_ok_def)
  moreover have "list_all track_ok (map fadeTimes terminal_lines)"
    by (simp add: terminal_lines_def fadeTimes_def track_ok_def M_def)
  moreover have "list_all track_ok [terminal_typing, terminal_cursor, chain_glow, chain_tx]"
    by (simp add: terminal_typing_def terminal_cursor_def chain_glow_def chain_tx_def Typing_def Cursor_def track_ok_def M_def Let_def)
  ultimately show ?thesis by simp
qed

text \<open>One message at a time: at no moment of the cycle are two of the five travelling dots
  visible.\<close>

theorem one_dot_at_a_time:
  assumes "plays kf ease" and "0 \<le> t" and "t \<le> 1" and "i < j" and "j < 5"
  shows "kf (dot_opacity (diagram_dots ! i)) t = 0 \<or> kf (dot_opacity (diagram_dots ! j)) t = 0"
proof (cases "t \<le> fst (dot_span j) - 3 / 1000")
  case True
  then show ?thesis using dot_hidden_nth [OF assms(1,5,2,3)] by simp
next
  case False
  then have "snd (dot_span i) + 3 / 1000 \<le> t" using dot_spans_apart [OF assms(4,5)] by linarith
  then show ?thesis using dot_hidden_nth [OF assms(1) _ assms(2,3)] assms(4,5) by simp
qed

text \<open>The machines cross-fade: at every moment the opacities of the four machines add up to
  one, whatever the easing curve.\<close>

theorem machines_cross_fade:
  assumes "plays kf ease" and "0 \<le> t" and "t \<le> 1"
  shows "kf (fadeKeyframes 0 4) t + kf (fadeKeyframes 1 4) t + kf (fadeKeyframes 2 4) t + kf (fadeKeyframes 3 4) t = 1"
proof -
  note five = plays_five [OF assms(1) _ _ _ _ assms(2,3)] and six = plays_six [OF assms(1) _ _ _ _ _ assms(2,3)]
  have a: "kf (fadeKeyframes 0 4) t = (if t \<le> 29 / 120 then 1 else if t \<le> 1 / 4 then 1 - ease ((t - 29 / 120) / (1 / 4 - 29 / 120))
      else if t \<le> 119 / 120 then 0 else ease ((t - 119 / 120) / (1 - 119 / 120)))"
    unfolding machine_tracks(1) by (subst five) simp_all
  have b: "kf (fadeKeyframes 1 4) t = (if t \<le> 29 / 120 then 0 else if t \<le> 1 / 4 then ease ((t - 29 / 120) / (1 / 4 - 29 / 120))
      else if t \<le> 59 / 120 then 1 else if t \<le> 1 / 2 then 1 - ease ((t - 59 / 120) / (1 / 2 - 59 / 120)) else 0)"
    unfolding machine_tracks(2) by (subst six) simp_all
  have c: "kf (fadeKeyframes 2 4) t = (if t \<le> 59 / 120 then 0 else if t \<le> 1 / 2 then ease ((t - 59 / 120) / (1 / 2 - 59 / 120))
      else if t \<le> 89 / 120 then 1 else if t \<le> 3 / 4 then 1 - ease ((t - 89 / 120) / (3 / 4 - 89 / 120)) else 0)"
    unfolding machine_tracks(3) by (subst six) simp_all
  have d: "kf (fadeKeyframes 3 4) t = (if t \<le> 89 / 120 then 0 else if t \<le> 3 / 4 then ease ((t - 89 / 120) / (3 / 4 - 89 / 120))
      else if t \<le> 119 / 120 then 1 else 1 - ease ((t - 119 / 120) / (1 - 119 / 120)))"
    unfolding machine_tracks(4) by (subst five) simp_all
  show ?thesis unfolding a b c d by auto
qed

theorem one_dot_at_a_time_witness:
  "linear_player (dot_opacity (diagram_dots ! 0)) (40 / 100) = 0 \<or> linear_player (dot_opacity (diagram_dots ! 1)) (40 / 100) = 0"
  by (rule one_dot_at_a_time [OF linear_plays]) simp_all

theorem machines_cross_fade_witness:
  "linear_player (fadeKeyframes 0 4) (245 / 1000) + linear_player (fadeKeyframes 1 4) (245 / 1000) +
   linear_player (fadeKeyframes 2 4) (245 / 1000) + linear_player (fadeKeyframes 3 4) (245 / 1000) = 1"
  by (rule machines_cross_fade [OF linear_plays]) simp_all

end
