(* ===== verification/Markup.thy ===== *)
theory Markup
  imports Prelude
begin

section \<open>Rendered markup\<close>

text \<open>
  What a component of the marketing site returns, as a tree. An element keeps its tag and its
  attributes as they are written, an object-valued attribute flattened with dots
  (\<open>initial.opacity\<close>, \<open>style.left\<close>), and a list of children; the shapes of an SVG drawing keep
  their geometry as numbers. Class names are left out: they only choose styles. \<open>motion.div\<close> and
  its like are framer-motion's animated elements. The functions read off a tree what the
  properties speak of: ids, links, references to paint servers, and the corners a drawing
  reaches.
\<close>

datatype attr_val = Str string | Val real | Vals "real list" | Strs "string list" | Flag bool

type_synonym attributes = "(string \<times> attr_val) list"

datatype geom =
    Rect real real real real
  | Circle real real real
  | Ellipse real real real real
  | Line real real real real
  | Polygon "(real \<times> real) list"
  | Path "(char \<times> real \<times> real) list"
  | Label real real
  | Move real real

datatype node =
    Txt string
  | El string attributes "node list"
  | Sh string geom attributes "node list"

text \<open>Characters of the site beyond ASCII, as their UTF-8 bytes.\<close>

definition rarrow :: string where
  "rarrow = [char_of (226::nat), char_of (134::nat), char_of (146::nat)]"

definition darrow :: string where
  "darrow = [char_of (226::nat), char_of (134::nat), char_of (147::nat)]"

definition uparrow :: string where
  "uparrow = [char_of (226::nat), char_of (134::nat), char_of (151::nat)]"

definition check_mark :: string where
  "check_mark = [char_of (226::nat), char_of (156::nat), char_of (147::nat)]"

definition approx :: string where
  "approx = [char_of (226::nat), char_of (137::nat), char_of (136::nat)]"

subsection \<open>Ids, links and paint servers\<close>

definition str_attr :: "string \<Rightarrow> attributes \<Rightarrow> string option" where
  "str_attr k as = (case map_of as k of Some (Str s) \<Rightarrow> Some s | _ \<Rightarrow> None)"

fun ids :: "node \<Rightarrow> string list" where
  "ids (Txt t) = []"
| "ids (El tag as ks) = (case str_attr ''id'' as of None \<Rightarrow> [] | Some s \<Rightarrow> [s]) @ concat (map ids ks)"
| "ids (Sh tag g as ks) = (case str_attr ''id'' as of None \<Rightarrow> [] | Some s \<Rightarrow> [s]) @ concat (map ids ks)"

text \<open>The anchors, with everything a link needs.\<close>

fun anchors :: "node \<Rightarrow> attributes list" where
  "anchors (Txt t) = []"
| "anchors (El tag as ks) = (if tag = ''a'' then [as] else []) @ concat (map anchors ks)"
| "anchors (Sh tag g as ks) = concat (map anchors ks)"

text \<open>\<open>url(#x)\<close> in an attribute that takes a paint server or a filter.\<close>

fun paint_ref :: "attr_val \<Rightarrow> string list" where
  "paint_ref (Str s) = (if take 5 s = ''url(#'' then [takeWhile (\<lambda>c. c \<noteq> CHR '')'') (drop 5 s)] else [])"
| "paint_ref _ = []"

definition paint_refs :: "attributes \<Rightarrow> string list" where
  "paint_refs as = concat (map (\<lambda>(k, v). if k = ''fill'' \<or> k = ''stroke'' \<or> k = ''filter'' then paint_ref v else []) as)"

fun refs :: "node \<Rightarrow> string list" where
  "refs (Txt t) = []"
| "refs (El tag as ks) = paint_refs as @ concat (map refs ks)"
| "refs (Sh tag g as ks) = paint_refs as @ concat (map refs ks)"

subsection \<open>The reach of a drawing\<close>

text \<open>The corners of the box around a shape, moved by the groups it stands in.\<close>

fun corners :: "geom \<Rightarrow> (real \<times> real) list" where
  "corners (Rect x y w h) = [(x, y), (x + w, y + h)]"
| "corners (Circle cx cy r) = [(cx - r, cy - r), (cx + r, cy + r)]"
| "corners (Ellipse cx cy rx ry) = [(cx - rx, cy - ry), (cx + rx, cy + ry)]"
| "corners (Line a b c d) = [(a, b), (c, d)]"
| "corners (Polygon ps) = ps"
| "corners (Path cs) = map snd cs"
| "corners (Label x y) = [(x, y)]"
| "corners (Move dx dy) = []"

fun moved :: "geom \<Rightarrow> real \<times> real \<Rightarrow> real \<times> real" where
  "moved (Move dx dy) q = (fst q + dx, snd q + dy)"
| "moved _ q = q"

text \<open>Every corner lies in the box \<open>x0 \<le> x \<le> x1\<close>, \<open>y0 \<le> y \<le> y1\<close>.\<close>

definition in_box :: "real \<times> real \<Rightarrow> real \<times> real \<Rightarrow> real \<times> real \<Rightarrow> bool" where
  "in_box lo hi p \<longleftrightarrow> fst lo \<le> fst p \<and> fst p \<le> fst hi \<and> snd lo \<le> snd p \<and> snd p \<le> snd hi"

fun fits :: "real \<times> real \<Rightarrow> real \<times> real \<Rightarrow> real \<times> real \<Rightarrow> node \<Rightarrow> bool" where
  "fits lo hi q (Txt t) \<longleftrightarrow> True"
| "fits lo hi q (El tag as ks) \<longleftrightarrow> list_all (fits lo hi q) ks"
| "fits lo hi q (Sh tag g as ks) \<longleftrightarrow>
     list_all (\<lambda>(x, y). in_box lo hi (fst q + x, snd q + y)) (corners g) \<and> list_all (fits lo hi (moved g q)) ks"

lemma in_box_pair [simp]:
  "in_box (a, b) (c, d) (x, y) \<longleftrightarrow> a \<le> x \<and> x \<le> c \<and> b \<le> y \<and> y \<le> d"
  by (simp add: in_box_def)

lemma fits_mono:
  "fits lo hi q n \<Longrightarrow> fst lo' \<le> fst lo \<and> snd lo' \<le> snd lo \<Longrightarrow> fst hi \<le> fst hi' \<and> snd hi \<le> snd hi' \<Longrightarrow> fits lo' hi' q n"
proof (induction lo hi q n rule: fits.induct)
  case (2 lo hi q tag as ks)
  then show ?case by (auto simp: list_all_iff)
next
  case (3 lo hi q tag g as ks)
  then show ?case by (fastforce simp: list_all_iff in_box_def)
qed simp

subsection \<open>Content that is revealed\<close>

text \<open>A wrapper that fades its children in when they are scrolled into view (\<open>Reveal.tsx\<close>).\<close>

definition Reveal :: "real \<Rightarrow> node list \<Rightarrow> node" where
  "Reveal delay children =
    El ''motion.div''
      [(''initial'', Str ''hidden''), (''whileInView'', Str ''visible''), (''viewport.once'', Flag True),
       (''viewport.amount'', Val (25 / 100)), (''variants.hidden.opacity'', Val 0), (''variants.hidden.y'', Val 24),
       (''variants.visible.opacity'', Val 1), (''variants.visible.y'', Val 0), (''transition.duration'', Val (7 / 10)),
       (''transition.delay'', Val delay), (''transition.ease'', Vals [16 / 100, 1, 3 / 10, 1])]
      children"

text \<open>A value an element starts with, and the value it comes to rest at (\<open>animate\<close> on mounting,
  \<open>whileInView\<close> when it is seen); a named variant stands for its values.\<close>

definition val_attr :: "string \<Rightarrow> attributes \<Rightarrow> real option" where
  "val_attr k as = (case map_of as k of Some (Val v) \<Rightarrow> Some v | _ \<Rightarrow> None)"

definition prop_of :: "string \<Rightarrow> string \<Rightarrow> attributes \<Rightarrow> real option" where
  "prop_of phase p as =
     (case str_attr phase as of
        Some variant \<Rightarrow> val_attr (''variants.'' @ variant @ ''.'' @ p) as
      | None \<Rightarrow> val_attr (phase @ ''.'' @ p) as)"

definition rests_at :: "string \<Rightarrow> attributes \<Rightarrow> real option" where
  "rests_at p as = (case prop_of ''animate'' p as of Some v \<Rightarrow> Some v | None \<Rightarrow> prop_of ''whileInView'' p as)"

definition settles :: "string \<Rightarrow> real \<Rightarrow> attributes \<Rightarrow> bool" where
  "settles p v as \<longleftrightarrow> (prop_of ''initial'' p as \<noteq> None \<longrightarrow> rests_at p as = Some v)"

fun revealed :: "node \<Rightarrow> bool" where
  "revealed (Txt t) \<longleftrightarrow> True"
| "revealed (El tag as ks) \<longleftrightarrow> settles ''opacity'' 1 as \<and> settles ''x'' 0 as \<and> settles ''y'' 0 as \<and> list_all revealed ks"
| "revealed (Sh tag g as ks) \<longleftrightarrow> settles ''opacity'' 1 as \<and> settles ''x'' 0 as \<and> settles ''y'' 0 as \<and> list_all revealed ks"

lemma Reveal_simps [simp]:
  "ids (Reveal d ks) = concat (map ids ks)" "anchors (Reveal d ks) = concat (map anchors ks)"
  "refs (Reveal d ks) = concat (map refs ks)" "revealed (Reveal d ks) \<longleftrightarrow> list_all revealed ks"
  by (simp_all add: Reveal_def str_attr_def paint_refs_def settles_def prop_of_def rests_at_def val_attr_def)

end
