(* ===== verification/FlowDrawing.thy ===== *)
theory FlowDrawing
  imports Marketing Markup
begin

section \<open>The drawing of a request (apps/marketing/src/components/FlowGraph.tsx)\<close>

text \<open>
  What the components of the animated diagram return: the paint servers, the wires, the
  travelling dots, the computer, the four machines, the terminal and the chain panel. Their
  timelines are the tracks of \<open>Marketing\<close>; \<open>str\<close> writes a number. The properties: every
  reference to a gradient or filter is to one that is defined, ids are unique, and every drawing
  stays in the place the diagram has for it.
\<close>

definition Defs :: "node" where
  "Defs =
    El ''defs'' [] 
      [El ''linearGradient'' [(''id'', Str ''beige''), (''x1'', Str ''0''), (''y1'', Str ''0''), (''x2'', Str ''0''), (''y2'', Str ''1'')] 
        [El ''stop'' [(''offset'', Str ''0%''), (''stopColor'', Str ''#e8d8b2'')] [],
         El ''stop'' [(''offset'', Str ''100%''), (''stopColor'', Str ''#c8b88a'')] []],
       El ''linearGradient'' [(''id'', Str ''beigeDark''), (''x1'', Str ''0''), (''y1'', Str ''0''), (''x2'', Str ''0''), (''y2'', Str ''1'')] 
        [El ''stop'' [(''offset'', Str ''0%''), (''stopColor'', Str ''#a89870'')] [],
         El ''stop'' [(''offset'', Str ''100%''), (''stopColor'', Str ''#806c40'')] []],
       El ''linearGradient'' [(''id'', Str ''beigeTop''), (''x1'', Str ''0''), (''y1'', Str ''0''), (''x2'', Str ''0''), (''y2'', Str ''1'')] 
        [El ''stop'' [(''offset'', Str ''0%''), (''stopColor'', Str ''#f4e6c0'')] [],
         El ''stop'' [(''offset'', Str ''100%''), (''stopColor'', Str ''#dccca0'')] []],
       El ''linearGradient'' [(''id'', Str ''crtScreen''), (''x1'', Str ''0''), (''y1'', Str ''0''), (''x2'', Str ''0''), (''y2'', Str ''1'')] 
        [El ''stop'' [(''offset'', Str ''0%''), (''stopColor'', Str ''#0a1a0e'')] [],
         El ''stop'' [(''offset'', Str ''100%''), (''stopColor'', Str ''#04100a'')] []],
       El ''linearGradient'' [(''id'', Str ''serverBody''), (''x1'', Str ''0''), (''y1'', Str ''0''), (''x2'', Str ''0''), (''y2'', Str ''1'')] 
        [El ''stop'' [(''offset'', Str ''0%''), (''stopColor'', Str ''#2a2f38'')] [],
         El ''stop'' [(''offset'', Str ''100%''), (''stopColor'', Str ''#16191f'')] []],
       El ''linearGradient'' [(''id'', Str ''serverSide''), (''x1'', Str ''0''), (''y1'', Str ''0''), (''x2'', Str ''1''), (''y2'', Str ''0'')] 
        [El ''stop'' [(''offset'', Str ''0%''), (''stopColor'', Str ''#1a1d24'')] [],
         El ''stop'' [(''offset'', Str ''100%''), (''stopColor'', Str ''#0a0c10'')] []],
       El ''linearGradient'' [(''id'', Str ''serverTop''), (''x1'', Str ''0''), (''y1'', Str ''0''), (''x2'', Str ''0''), (''y2'', Str ''1'')] 
        [El ''stop'' [(''offset'', Str ''0%''), (''stopColor'', Str ''#3a4048'')] [],
         El ''stop'' [(''offset'', Str ''100%''), (''stopColor'', Str ''#2a2f38'')] []],
       El ''linearGradient'' [(''id'', Str ''towerBody''), (''x1'', Str ''0''), (''y1'', Str ''0''), (''x2'', Str ''0''), (''y2'', Str ''1'')] 
        [El ''stop'' [(''offset'', Str ''0%''), (''stopColor'', Str ''#22262e'')] [],
         El ''stop'' [(''offset'', Str ''100%''), (''stopColor'', Str ''#0e1014'')] []],
       El ''linearGradient'' [(''id'', Str ''towerSide''), (''x1'', Str ''0''), (''y1'', Str ''0''), (''x2'', Str ''1''), (''y2'', Str ''0'')] 
        [El ''stop'' [(''offset'', Str ''0%''), (''stopColor'', Str ''#16181d'')] [],
         El ''stop'' [(''offset'', Str ''100%''), (''stopColor'', Str ''#06080b'')] []],
       El ''linearGradient'' [(''id'', Str ''gpuBody''), (''x1'', Str ''0''), (''y1'', Str ''0''), (''x2'', Str ''0''), (''y2'', Str ''1'')] 
        [El ''stop'' [(''offset'', Str ''0%''), (''stopColor'', Str ''#1a1c24'')] [],
         El ''stop'' [(''offset'', Str ''100%''), (''stopColor'', Str ''#080a10'')] []],
       El ''linearGradient'' [(''id'', Str ''gpuGlass''), (''x1'', Str ''0''), (''y1'', Str ''0''), (''x2'', Str ''1''), (''y2'', Str ''1'')] 
        [El ''stop'' [(''offset'', Str ''0%''), (''stopColor'', Str ''#1a4060''), (''stopOpacity'', Str ''0.25'')] [],
         El ''stop'' [(''offset'', Str ''100%''), (''stopColor'', Str ''#3a1a60''), (''stopOpacity'', Str ''0.35'')] []],
       El ''linearGradient'' [(''id'', Str ''aluTop''), (''x1'', Str ''0''), (''y1'', Str ''0''), (''x2'', Str ''0''), (''y2'', Str ''1'')] 
        [El ''stop'' [(''offset'', Str ''0%''), (''stopColor'', Str ''#e8eaee'')] [],
         El ''stop'' [(''offset'', Str ''100%''), (''stopColor'', Str ''#bcc0c8'')] []],
       El ''linearGradient'' [(''id'', Str ''aluFront''), (''x1'', Str ''0''), (''y1'', Str ''0''), (''x2'', Str ''0''), (''y2'', Str ''1'')] 
        [El ''stop'' [(''offset'', Str ''0%''), (''stopColor'', Str ''#c0c4cc'')] [],
         El ''stop'' [(''offset'', Str ''100%''), (''stopColor'', Str ''#84878d'')] []],
       El ''linearGradient'' [(''id'', Str ''aluSide''), (''x1'', Str ''0''), (''y1'', Str ''0''), (''x2'', Str ''1''), (''y2'', Str ''0'')] 
        [El ''stop'' [(''offset'', Str ''0%''), (''stopColor'', Str ''#a4a8b0'')] [],
         El ''stop'' [(''offset'', Str ''100%''), (''stopColor'', Str ''#5a5d62'')] []],
       El ''linearGradient'' [(''id'', Str ''wireCompute''), (''gradientUnits'', Str ''userSpaceOnUse''), (''x1'', Val (fst (anchor TermRight))),
         (''y1'', Val (snd (anchor TermRight))), (''x2'', Val (fst (anchor ServerLeft))), (''y2'', Val (snd (anchor ServerLeft)))] 
        [El ''stop'' [(''offset'', Str ''0%''), (''stopColor'', Str ''#66ccff'')] [],
         El ''stop'' [(''offset'', Str ''100%''), (''stopColor'', Str ''#b48cff'')] []],
       El ''linearGradient'' [(''id'', Str ''wireSettle''), (''gradientUnits'', Str ''userSpaceOnUse''), (''x1'', Val (fst (anchor ServerRight))),
         (''y1'', Val (snd (anchor ServerRight))), (''x2'', Val (fst (anchor ChainLeft))), (''y2'', Val (snd (anchor ChainLeft)))] 
        [El ''stop'' [(''offset'', Str ''0%''), (''stopColor'', Str ''#b48cff'')] [],
         El ''stop'' [(''offset'', Str ''100%''), (''stopColor'', Str ''#66ffaa'')] []],
       El ''filter'' [(''id'', Str ''softGlow''), (''x'', Str ''-50%''), (''y'', Str ''-50%''), (''width'', Str ''200%''), (''height'', Str
         ''200%'')] 
        [El ''feGaussianBlur'' [(''stdDeviation'', Str ''2''), (''result'', Str ''blur'')] [],
         El ''feMerge'' [] 
          [El ''feMergeNode'' [(''in'', Str ''blur'')] [],
           El ''feMergeNode'' [(''in'', Str ''SourceGraphic'')] []]]]"

definition FlowingWire :: "(char \<times> real \<times> real) list \<Rightarrow> string \<Rightarrow> real \<Rightarrow> real \<times> real \<Rightarrow> real \<Rightarrow> bool \<Rightarrow> node list" where
  "FlowingWire d stroke width dash speed reverse =
    [Sh ''path'' (Path d) [(''stroke'', Str stroke), (''strokeWidth'', Val (width + 8)), (''strokeLinecap'', Str ''round''), (''fill'', Str
      ''none''), (''opacity'', Str ''0.18''), (''style.filter'', Str ''blur(5px)'')] [],
     Sh ''motion.path'' (Path d) [(''stroke'', Str stroke), (''strokeWidth'', Val width), (''strokeDasharray'', Vals [fst dash, snd dash]),
       (''strokeLinecap'', Str ''round''), (''fill'', Str ''none''), (''initial.strokeDashoffset'', Val 0), (''animate.strokeDashoffset'', Val
       (wire_offset dash reverse)), (''transition.duration'', Val speed), (''transition.repeat'', Str ''Infinity''), (''transition.ease'', Str
       ''linear'')] []]"

definition TravelingDotView :: "real \<Rightarrow> real \<Rightarrow> real \<Rightarrow> real \<Rightarrow> real \<Rightarrow> string \<Rightarrow> string \<Rightarrow> bool \<Rightarrow> node" where
  "TravelingDotView fromX toX y startT endT color label labelBelow =
    (let d = TravelingDot fromX toX y startT endT label labelBelow in
     Sh ''motion.g'' (Move 0 0) [(''initial.x'', Val fromX), (''initial.opacity'', Val 0), (''animate.x'', Vals (tk_values (dot_x d))),
       (''animate.opacity'', Vals (tk_values (dot_opacity d))), (''transition.duration'', Val T_cycle), (''transition.times'', Vals (tk_times (dot_x
       d))), (''transition.repeat'', Str ''Infinity''), (''transition.ease'', Str ''linear'')] 
      [Sh ''circle'' (Circle 0 y 14) [(''fill'', Str color), (''opacity'', Str ''0.35''), (''style.filter'', Str ''blur(7px)'')] [],
       Sh ''circle'' (Circle 0 y 9) [(''fill'', Str color), (''opacity'', Str ''0.25'')] [],
       Sh ''circle'' (Circle 0 y 6) [(''fill'', Str color)] [],
       Sh ''circle'' (Circle 0 y 6) [(''fill'', Str ''none''), (''stroke'', Str ''#fff''), (''strokeOpacity'', Str ''0.6''), (''strokeWidth'', Str
         ''1'')] [],
       Sh ''line'' (Line 0 (y + (if labelBelow then 7 else - 7)) 0 (y + (if labelBelow then 32 else - 32))) [(''stroke'', Str color),
         (''strokeWidth'', Str ''1''), (''strokeOpacity'', Str ''0.8''), (''strokeDasharray'', Str ''2 2'')] [],
       Sh ''rect'' (Rect ((- (dot_labelW d)) / 2) (dot_labelY d - (22 / 2)) (dot_labelW d) 22) [(''rx'', Val (22 / 2)), (''fill'', Str ''#05050f''),
         (''stroke'', Str color), (''strokeWidth'', Str ''1''), (''opacity'', Str ''0.95'')] [],
       Sh ''text'' (Label 0 (dot_labelY d + 4)) [(''textAnchor'', Str ''middle''), (''fontFamily'', Str (''ui-monospace, 'SF Mono', monospace'')),
         (''fontSize'', Str ''11''), (''fill'', Str color), (''letterSpacing'', Str ''0.6''), (''fontWeight'', Str ''500''),
         (''style.textTransform'', Str ''uppercase'')] [Txt label]])"

definition PCIllustration :: "real \<Rightarrow> real \<Rightarrow> node" where
  "PCIllustration cx cy =
    Sh ''g'' (Move (cx - 100) (cy - 110)) [] 
      [Sh ''ellipse'' (Ellipse 100 218 80 6) [(''fill'', Str ''#000''), (''opacity'', Str ''0.35'')] [],
       Sh ''g'' (Move 0 0) [] 
        [Sh ''polygon'' (Polygon [(14, 160), (24, 154), (178, 154), (168, 160)]) [(''fill'', Str ''#dccca0'')] [],
         Sh ''rect'' (Rect 14 160 154 18) [(''rx'', Str ''1''), (''fill'', Str ''url(#beige)'')] [],
         Sh ''rect'' (Rect 14 176 154 3) [(''fill'', Str ''url(#beigeDark)''), (''opacity'', Str ''0.6'')] [],
         Sh ''g'' (Move 0 0) [(''fill'', Str ''#806c40''), (''opacity'', Str ''0.55'')] 
          [Sh ''rect'' (Rect 22 164 138 (16 / 10)) [] [],
           Sh ''rect'' (Rect 22 168 138 (16 / 10)) [] [],
           Sh ''rect'' (Rect 22 172 138 (16 / 10)) [] [],
           Sh ''rect'' (Rect 60 176 62 (16 / 10)) [] []]],
       Sh ''rect'' (Rect 76 142 48 10) [(''fill'', Str ''url(#beigeDark)'')] [],
       Sh ''polygon'' (Polygon [(76, 142), (86, 138), (134, 138), (124, 142)]) [(''fill'', Str ''url(#beigeTop)'')] [],
       Sh ''rect'' (Rect 60 150 80 6) [(''rx'', Str ''1''), (''fill'', Str ''url(#beige)'')] [],
       Sh ''polygon'' (Polygon [(20, 28), (32, 16), (168, 16), (156, 28)]) [(''fill'', Str ''url(#beigeTop)'')] [],
       Sh ''polygon'' (Polygon [(156, 28), (168, 16), (168, 128), (156, 140)]) [(''fill'', Str ''url(#beigeDark)'')] [],
       Sh ''rect'' (Rect 20 28 136 112) [(''fill'', Str ''url(#beige)'')] [],
       Sh ''rect'' (Rect 28 36 120 84) [(''rx'', Str ''3''), (''fill'', Str ''#1a1208'')] [],
       Sh ''rect'' (Rect 30 38 116 80) [(''rx'', Str ''2''), (''fill'', Str ''url(#crtScreen)'')] [],
       Sh ''ellipse'' (Ellipse 88 78 62 42) [(''fill'', Str ''#66ff88''), (''opacity'', Str ''0.06'')] [],
       Sh ''g'' (Move 0 0) [(''fill'', Str ''#66ff88''), (''opacity'', Str ''0.05'')] 
        (map (\<lambda>i. Sh ''rect'' (Rect 30 (38 + (real i) * 3) 116 (6 / 10)) [(''key'', Val (real i))] []) [0..<26]),
       Sh ''g'' (Move 0 0) [(''fontFamily'', Str (''ui-monospace, 'SF Mono', monospace'')), (''fontSize'', Str ''6.5''), (''fill'', Str ''#88ffaa''),
         (''filter'', Str ''url(#softGlow)'')] 
        [Sh ''text'' (Label 36 48) [(''opacity'', Str ''0.95'')] [Txt ''FLDX BIOS v2.0''],
         Sh ''text'' (Label 36 58) [(''opacity'', Str ''0.85'')] [Txt ''memcheck.... ok''],
         Sh ''text'' (Label 36 68) [(''opacity'', Str ''0.85'')] [Txt ''net link..... up''],
         Sh ''text'' (Label 36 78) [(''opacity'', Str ''0.95''), (''fill'', Str ''#aaffcc'')] [Txt ''[ READY ]''],
         Sh ''motion.text'' (Label 36 92) [(''opacity'', Str ''0.9''), (''animate.opacity'', Vals [9 / 10, 9 / 10, 0, 0, 9 / 10, 9 / 10]),
           (''transition.duration'', Val 1), (''transition.times'', Vals [0, 45 / 100, 5 / 10, 95 / 100, 1, 1]), (''transition.repeat'', Str
           ''Infinity''), (''transition.ease'', Str ''linear'')] [Txt ''_'']],
       Sh ''rect'' (Rect 28 122 120 10) [(''fill'', Str ''url(#beigeDark)'')] [],
       Sh ''text'' (Label 34 129) [(''fontFamily'', Str ''ui-monospace, monospace''), (''fontSize'', Str ''5.2''), (''fill'', Str ''#3a2e10''),
         (''letterSpacing'', Str ''1.4'')] [Txt ''FLDX-2000''],
       Sh ''circle'' (Circle 142 127 (22 / 10)) [(''fill'', Str ''#88ff66''), (''filter'', Str ''url(#softGlow)'')] 
        [El ''animate'' [(''attributeName'', Str ''opacity''), (''values'', Str ''0.5;1;0.5''), (''dur'', Str ''2s''), (''repeatCount'', Str
          ''indefinite'')] []],
       Sh ''g'' (Move 0 0) [(''fill'', Str ''#604c2c''), (''opacity'', Str ''0.55'')] 
        (map (\<lambda>i. Sh ''rect'' (Rect 159 (40 + (real i) * 12) 6 6) [(''key'', Val (real i))] []) [0..<7])]"

definition RackBlade :: "(real \<Rightarrow> string) \<Rightarrow> real \<Rightarrow> nat \<Rightarrow> node" where
  "RackBlade str y index =
    Sh ''g'' (Move 0 y) [] 
      [Sh ''rect'' (Rect 6 0 116 40) [(''rx'', Str ''1''), (''fill'', Str ''#08090d'')] [],
       Sh ''rect'' (Rect 6 0 116 40) [(''rx'', Str ''1''), (''fill'', Str ''none''), (''stroke'', Str ''#2a2e36''), (''strokeWidth'', Str ''0.6'')]
         [],
       Sh ''circle'' (Circle 14 9 2) [(''fill'', Str (if index mod 2 = 0 then ''#66ffaa'' else ''#ffbb44'')), (''style.animationDelay'', Str (str
         ((real index) * (3 / 10)) @ ''s''))] [],
       Sh ''circle'' (Circle 22 9 2) [(''fill'', Str ''#66ccff''), (''style.animationDelay'', Str (str ((real index) * (45 / 100) + 2 / 10) @
         ''s''))] [],
       Sh ''circle'' (Circle 30 9 (14 / 10)) [(''fill'', Str ''#444'')] [],
       Sh ''g'' (Move 0 0) [(''fill'', Str ''#000''), (''opacity'', Str ''0.55'')] 
        (map (\<lambda>j. Sh ''rect'' (Rect (40 + (real j) * 6) 8 (36 / 10) 22) [(''key'', Val (real j)), (''rx'', Str ''0.3'')] []) [0..<9]),
       Sh ''rect'' (Rect 100 14 14 3) [(''rx'', Str ''0.5''), (''fill'', Str ''#000'')] [],
       Sh ''rect'' (Rect 100 20 14 3) [(''rx'', Str ''0.5''), (''fill'', Str ''#000'')] [],
       Sh ''circle'' (Circle 118 32 (12 / 10)) [(''fill'', Str ''#66ffaa''), (''style.animationDelay'', Str (str ((real index) * (2 / 10) + 5 / 10) @
         ''s''))] []]"

definition RackServerSVG :: "(real \<Rightarrow> string) \<Rightarrow> real \<Rightarrow> real \<Rightarrow> node" where
  "RackServerSVG str cx cy =
    Sh ''g'' (Move (cx - 70) (cy - 130)) [] 
      ([Sh ''polygon'' (Polygon [(0, 0), (12, - 10), (140, - 10), (128, 0)]) [(''fill'', Str ''url(#serverTop)'')] [],
       Sh ''polygon'' (Polygon [(128, 0), (140, - 10), (140, 250), (128, 260)]) [(''fill'', Str ''url(#serverSide)'')] [],
       Sh ''rect'' (Rect 0 0 128 260) [(''fill'', Str ''url(#serverBody)'')] [],
       Sh ''rect'' (Rect (- 4) 258 136 6) [(''rx'', Str ''1''), (''fill'', Str ''#0a0c10'')] [],
       Sh ''rect'' (Rect 6 4 116 8) [(''rx'', Str ''1''), (''fill'', Str ''#0a0c10'')] [],
       Sh ''text'' (Label 10 (105 / 10)) [(''fontFamily'', Str ''ui-monospace, monospace''), (''fontSize'', Str ''5''), (''fill'', Str ''#66ccff''),
         (''letterSpacing'', Str ''1'')] [Txt ''FLDX // NODE'']] @
       map (\<lambda>i. let sy = 22 + (real i) * 46 in RackBlade str sy i) [0..<5])"

definition TowerServerSVG :: "(real \<Rightarrow> string) \<Rightarrow> real \<Rightarrow> real \<Rightarrow> node" where
  "TowerServerSVG str cx cy =
    Sh ''g'' (Move (cx - 40) (cy - 130)) [] 
      ([Sh ''polygon'' (Polygon [(0, 0), (10, - 10), (70, - 10), (60, 0)]) [(''fill'', Str ''url(#serverTop)'')] [],
       Sh ''polygon'' (Polygon [(60, 0), (70, - 10), (70, 250), (60, 260)]) [(''fill'', Str ''url(#towerSide)'')] [],
       Sh ''rect'' (Rect 0 0 60 260) [(''fill'', Str ''url(#towerBody)'')] [],
       Sh ''rect'' (Rect (- 6) 258 72 6) [(''rx'', Str ''1''), (''fill'', Str ''#06080b'')] [],
       Sh ''circle'' (Circle 30 20 7) [(''fill'', Str ''none''), (''stroke'', Str ''#3a4048''), (''strokeWidth'', Str ''1'')] [],
       Sh ''circle'' (Circle 30 20 3) [(''fill'', Str ''#66ffaa''), (''filter'', Str ''url(#softGlow)'')] [],
       Sh ''rect'' (Rect 8 36 44 12) [(''rx'', Str ''1''), (''fill'', Str ''#021008'')] [],
       Sh ''text'' (Label 11 45) [(''fontFamily'', Str ''ui-monospace, monospace''), (''fontSize'', Str ''6''), (''fill'', Str ''#66ffaa''),
         (''opacity'', Str ''0.9'')] [Txt ''ONLINE'']] @
       map (\<lambda>i. let sy = 60 + (real i) * 18 in Sh ''g'' (Move 0 0) [(''key'', Val (real i))] 
          [Sh ''rect'' (Rect 8 sy 44 12) [(''rx'', Str ''1''), (''fill'', Str ''#08090d''), (''stroke'', Str ''#22262e''), (''strokeWidth'', Str
            ''0.5'')] [],
           Sh ''circle'' (Circle 13 (sy + 6) (14 / 10)) [(''fill'', Str (if i mod 2 = 0 then ''#66ccff'' else ''#66ffaa'')),
             (''style.animationDelay'', Str (str ((real i) * (4 / 10)) @ ''s''))] [],
           Sh ''g'' (Move 0 0) [(''fill'', Str ''#000''), (''opacity'', Str ''0.6'')] 
            (map (\<lambda>j. Sh ''rect'' (Rect (20 + (real j) * 5) (sy + 3) (24 / 10) 6) [(''key'', Val (real j))] []) [0..<6])]) [0..<4] @
       [Sh ''g'' (Move 0 0) [(''fill'', Str ''#000''), (''opacity'', Str ''0.5'')] 
        (map (\<lambda>i. Sh ''rect'' (Rect 8 (140 + (real i) * 8) 44 2) [(''key'', Val (real i)), (''rx'', Str ''0.4'')] []) [0..<14]),
       Sh ''rect'' (Rect 8 240 44 10) [(''rx'', Str ''1''), (''fill'', Str ''#06080b'')] [],
       Sh ''text'' (Label 11 247) [(''fontFamily'', Str ''ui-monospace, monospace''), (''fontSize'', Str ''5.2''), (''fill'', Str ''#66ccff''),
         (''letterSpacing'', Str ''1''), (''opacity'', Str ''0.7'')] [Txt ''FLDX-S1'']])"

definition GamingPCSVG :: "real \<Rightarrow> real \<Rightarrow> node" where
  "GamingPCSVG cx cy =
    Sh ''g'' (Move (cx - 56) (cy - 130)) [] 
      ([Sh ''polygon'' (Polygon [(0, 0), (12, - 10), (100, - 10), (88, 0)]) [(''fill'', Str ''#1a1c24'')] [],
       Sh ''polygon'' (Polygon [(88, 0), (100, - 10), (100, 250), (88, 260)]) [(''fill'', Str ''#0a0c12'')] [],
       Sh ''rect'' (Rect 0 0 88 260) [(''fill'', Str ''url(#gpuBody)'')] [],
       Sh ''rect'' (Rect (- 4) 258 96 6) [(''rx'', Str ''1''), (''fill'', Str ''#04060a'')] [],
       Sh ''rect'' (Rect 2 2 84 2) [(''fill'', Str ''#66ccff''), (''filter'', Str ''url(#softGlow)'')] 
        [El ''animate'' [(''attributeName'', Str ''fill''), (''values'', Str ''#66ccff;#b48cff;#66ffaa;#66ccff''), (''dur'', Str ''6s''),
          (''repeatCount'', Str ''indefinite'')] []]] @
       map (\<lambda>i. let fy = 30 + (real i) * 60 in Sh ''g'' (Move 20 fy) [(''key'', Val (real i))] 
          [Sh ''circle'' (Circle 0 0 20) [(''fill'', Str ''#04060a'')] [],
           Sh ''motion.circle'' (Circle 0 0 18) [(''fill'', Str ''none''), (''strokeWidth'', Str ''2.5''), (''stroke'', Str ''#66ccff''),
             (''animate.stroke'', Strs [''#66ccff'', ''#b48cff'', ''#66ffaa'', ''#ffbb44'', ''#66ccff'']), (''transition.duration'', Val 6),
             (''transition.repeat'', Str ''Infinity''), (''transition.ease'', Str ''linear''), (''transition.delay'', Val ((real i) * (12 / 10))),
             (''filter'', Str ''url(#softGlow)''), (''opacity'', Str ''0.85'')] [],
           Sh ''g'' (Move 0 0) [(''stroke'', Str ''#1a1c24''), (''strokeWidth'', Str ''2''), (''fill'', Str ''none''), (''opacity'', Str ''0.9'')] 
            [Sh ''motion.g'' (Move 0 0) [(''animate.rotate'', Val 360), (''transition.duration'', Val (16 / 10)), (''transition.repeat'', Str
              ''Infinity''), (''transition.ease'', Str ''linear''), (''style.transformOrigin'', Str ''0px 0px'')] 
              [Sh ''path'' (Path [(CHR ''M'', - 14, 0), (CHR ''L'', 14, 0)]) [] [],
               Sh ''path'' (Path [(CHR ''M'', 0, - 14), (CHR ''L'', 0, 14)]) [] [],
               Sh ''path'' (Path [(CHR ''M'', - 10, - 10), (CHR ''L'', 10, 10)]) [] [],
               Sh ''path'' (Path [(CHR ''M'', - 10, 10), (CHR ''L'', 10, - 10)]) [] []]],
           Sh ''circle'' (Circle 0 0 4) [(''fill'', Str ''#16181d''), (''stroke'', Str ''#444''), (''strokeWidth'', Str ''0.6'')] []]) [0, 1, 2] @
       [Sh ''rect'' (Rect 44 14 42 220) [(''rx'', Str ''2''), (''fill'', Str ''url(#gpuGlass)''), (''stroke'', Str ''#3a4048''), (''strokeWidth'',
         Str ''0.5'')] [],
       Sh ''rect'' (Rect 46 160 38 40) [(''rx'', Str ''1''), (''fill'', Str ''#1a1c24'')] [],
       Sh ''rect'' (Rect 46 160 38 3) [(''fill'', Str ''#b48cff''), (''filter'', Str ''url(#softGlow)''), (''opacity'', Str ''0.8'')] [],
       Sh ''text'' (Label 49 180) [(''fontFamily'', Str ''ui-monospace, monospace''), (''fontSize'', Str ''5''), (''fill'', Str ''#66ccff''),
         (''opacity'', Str ''0.7'')] [Txt ''RTX''],
       Sh ''circle'' (Circle 60 195 3) [(''fill'', Str ''none''), (''stroke'', Str ''#444''), (''strokeWidth'', Str ''0.6'')] [],
       Sh ''circle'' (Circle 74 195 3) [(''fill'', Str ''none''), (''stroke'', Str ''#444''), (''strokeWidth'', Str ''0.6'')] [],
       Sh ''rect'' (Rect 46 50 38 100) [(''rx'', Str ''1''), (''fill'', Str ''#0a1418''), (''stroke'', Str ''#1a3a4a''), (''strokeWidth'', Str
         ''0.4'')] [],
       Sh ''g'' (Move 0 0) [(''fill'', Str ''#66ccff''), (''opacity'', Str ''0.5'')] 
        [Sh ''rect'' (Rect 50 56 18 6) [(''rx'', Str ''0.5'')] [],
         Sh ''rect'' (Rect 50 66 14 4) [(''rx'', Str ''0.5'')] [],
         Sh ''circle'' (Circle 76 60 2) [] []],
       Sh ''g'' (Move 0 0) [(''fill'', Str ''#1a1c24''), (''stroke'', Str ''#444''), (''strokeWidth'', Str ''0.4'')] [Sh ''rect'' (Rect 70 74 4 40)
         [] [], Sh ''rect'' (Rect 76 74 4 40) [] []],
       Sh ''rect'' (Rect 2 252 84 3) [(''fill'', Str ''#b48cff''), (''filter'', Str ''url(#softGlow)''), (''opacity'', Str ''0.7'')] [],
       Sh ''circle'' (Circle 11 14 3) [(''fill'', Str ''none''), (''stroke'', Str ''#444''), (''strokeWidth'', Str ''0.6'')] [],
       Sh ''circle'' (Circle 11 14 (14 / 10)) [(''fill'', Str ''#66ffaa''), (''filter'', Str ''url(#softGlow)'')] []])"

definition MacMiniSVG :: "real \<Rightarrow> real \<Rightarrow> node" where
  "MacMiniSVG cx cy =
    (let W = 130 in
     Sh ''g'' (Move (cx - (W / 2)) (cy - 28)) [] 
      [Sh ''ellipse'' (Ellipse (W / 2) 50 62 3) [(''fill'', Str ''#000''), (''opacity'', Str ''0.5'')] [],
       Sh ''polygon'' (Polygon [(0, 0), (12, - 8), (W - 12, - 8), (W, 0)]) [(''fill'', Str ''url(#aluTop)'')] [],
       Sh ''polygon'' (Polygon [(W, 0), (W - 12, - 8), (W - 12, 40), (W, 48)]) [(''fill'', Str ''url(#aluSide)'')] [],
       Sh ''rect'' (Rect 0 0 W 48) [(''fill'', Str ''url(#aluFront)'')] [],
       Sh ''rect'' (Rect 0 0 W (6 / 10)) [(''fill'', Str ''#fff''), (''opacity'', Str ''0.3'')] [],
       Sh ''rect'' (Rect 0 47 W (6 / 10)) [(''fill'', Str ''#000''), (''opacity'', Str ''0.4'')] [],
       Sh ''circle'' (Circle (W / 2) (- 3) 6) [(''fill'', Str ''none''), (''stroke'', Str ''#fff''), (''strokeOpacity'', Str ''0.25''),
         (''strokeWidth'', Str ''0.6'')] [],
       Sh ''circle'' (Circle (W - 12) 42 (14 / 10)) [(''fill'', Str ''#88ff66''), (''filter'', Str ''url(#softGlow)'')] 
        [El ''animate'' [(''attributeName'', Str ''opacity''), (''values'', Str ''0.5;1;0.5''), (''dur'', Str ''2.4s''), (''repeatCount'', Str
          ''indefinite'')] []],
       Sh ''g'' (Move 0 0) [(''fill'', Str ''#1a1d24'')] 
        [Sh ''rect'' (Rect (W - 18) 6 14 2) [(''rx'', Str ''0.4'')] [],
         Sh ''rect'' (Rect (W - 18) 12 14 2) [(''rx'', Str ''0.4'')] [],
         Sh ''rect'' (Rect (W - 18) 18 14 2) [(''rx'', Str ''0.4'')] []],
       Sh ''text'' (Label (W / 2) 28) [(''textAnchor'', Str ''middle''), (''fontFamily'', Str ''ui-monospace, monospace''), (''fontSize'', Str
         ''6''), (''fill'', Str ''#3a3d44''), (''letterSpacing'', Str ''1.6''), (''opacity'', Str ''0.6'')] [Txt ''FLDX'']])"

datatype machine = RackKind | TowerKind | GamingKind | MacKind

definition MACHINES :: "machine list" where
  "MACHINES = [RackKind, TowerKind, GamingKind, MacKind]"

fun machine_str :: "machine \<Rightarrow> string" where
  "machine_str RackKind = ''rack''"
| "machine_str TowerKind = ''tower''"
| "machine_str GamingKind = ''gaming''"
| "machine_str MacKind = ''mac''"

fun MachineSVG :: "(real \<Rightarrow> string) \<Rightarrow> machine \<Rightarrow> real \<Rightarrow> real \<Rightarrow> node" where
  "MachineSVG str RackKind cx cy = RackServerSVG str cx cy"
| "MachineSVG str TowerKind cx cy = TowerServerSVG str cx cy"
| "MachineSVG str GamingKind cx cy = GamingPCSVG cx cy"
| "MachineSVG str MacKind cx cy = MacMiniSVG cx cy"

definition ServerStation :: "(real \<Rightarrow> string) \<Rightarrow> real \<Rightarrow> real \<Rightarrow> node" where
  "ServerStation str cx cy =
    Sh ''g'' (Move 0 0) [] 
      ([Sh ''ellipse'' (Ellipse cx (cy + 130) 80 8) [(''fill'', Str ''#000''), (''opacity'', Str ''0.45'')] []] @
       map (\<lambda>(i, kind). let kf = fadeKeyframes i (length MACHINES) in Sh ''motion.g'' (Move 0 0) [(''key'', Str (machine_str kind)),
         (''initial.opacity'', Val (if i = 0 then 1 else 0)), (''animate.opacity'', Vals (tk_values kf)), (''transition.duration'', Val SCYC),
         (''transition.times'', Vals (tk_times kf)), (''transition.repeat'', Str ''Infinity''), (''transition.ease'', Str ''easeInOut'')] [MachineSVG
         str kind cx cy]) (enumerate 0 MACHINES))"

definition FadeLine :: "real \<Rightarrow> node list \<Rightarrow> node" where
  "FadeLine at_t children =
    (let k = fadeTimes at_t in
     El ''motion.div'' [(''initial.opacity'', Val 0), (''animate.opacity'', Vals (tk_values k)), (''transition.duration'', Val T_cycle),
       (''transition.times'', Vals (tk_times k)), (''transition.repeat'', Str ''Infinity''), (''transition.ease'', Str ''linear'')] 
      (children))"

definition FadeInline :: "real \<Rightarrow> node list \<Rightarrow> node" where
  "FadeInline at_t children =
    (let k = fadeTimes at_t in
     El ''motion.span'' [(''initial.opacity'', Val 0), (''animate.opacity'', Vals (tk_values k)), (''transition.duration'', Val T_cycle),
       (''transition.times'', Vals (tk_times k)), (''transition.repeat'', Str ''Infinity''), (''transition.ease'', Str ''linear'')] 
      (children))"

definition TypingView :: "(real \<Rightarrow> string) \<Rightarrow> string \<Rightarrow> real \<Rightarrow> real \<Rightarrow> real \<Rightarrow> node" where
  "TypingView str txt startT endT eraseAt =
    (let k = Typing txt startT endT eraseAt in
     El ''span'' [(''style.verticalAlign'', Str ''baseline'')] 
      [El ''motion.span'' [(''initial.width'', Str ''0ch''), (''animate.width'', Strs (map (\<lambda>w. str w @ ''ch'') (tk_values k))),
        (''transition.duration'', Val T_cycle), (''transition.times'', Vals (tk_times k)), (''transition.repeat'', Str ''Infinity''),
        (''transition.ease'', Str ''linear'')] [Txt txt]])"

definition CursorView :: "real \<Rightarrow> real \<Rightarrow> node" where
  "CursorView visibleStart visibleEnd =
    (let k = Cursor visibleStart visibleEnd in
     El ''motion.span'' [(''aria-hidden'', Flag True), (''style.width'', Str ''0.55ch''), (''style.height'', Str ''1em''), (''style.verticalAlign'',
       Str ''-2px''), (''animate.opacity'', Vals (tk_values k)), (''transition.duration'', Val T_cycle), (''transition.times'', Vals (tk_times k)),
       (''transition.repeat'', Str ''Infinity''), (''transition.ease'', Str ''linear'')] [])"

definition TerminalPanel :: "(real \<Rightarrow> string) \<Rightarrow> node" where
  "TerminalPanel str =
    El ''div'' [(''style.left'', Str (px str (fst (anchor TermLeft)))), (''style.top'', Str (py str (snd (anchor TermCenter) - 90))),
      (''style.width'', Str (px str TERM_WIDTH))] 
      [El ''div'' [(''style.background'', Str ''rgba(5,5,16,0.82)''), (''style.boxShadow'', Str
        ''0 0 0 1px rgba(102,204,255,0.08), 0 12px 40px rgba(0,0,0,0.6)'')] 
        [El ''div'' [] 
          [El ''span'' [] [],
           El ''span'' [] [],
           El ''span'' [] [],
           El ''span'' [] [Txt (''~ '' @ em_dash @ '' openclaw'')]],
         El ''div'' [] 
          [FadeLine (termOpen M) [El ''span'' [] [Txt ''~ $ ''], El ''span'' [] [Txt ''openclaw chat'']],
           FadeLine (bootIn M) [Txt (''connecting to fldx network'' @ ellipsis)],
           FadeLine (promptShow M) [Txt (check_mark @ '' session ready '' @ middle_dot @ '' 0xc18e'')],
           El ''div'' [] 
            [FadeInline (promptShow M) [Txt ''openclaw>'', Txt '' ''],
             TypingView str ''summarize meeting_notes.md'' (promptIn M) (promptHeld M) (responseEnd M + 6 / 100),
             CursorView (promptShow M) (responseEnd M + 6 / 100)],
           FadeLine (sendStart M) [Txt (rarrow @ '' routing to host'' @ ellipsis)],
           FadeLine (toolReqStart M) [Txt (rarrow @ '' tool call: read_file'')],
           FadeLine (responseStart M) [Txt (check_mark @ '' done '' @ middle_dot @ '' 0.0042 USDC'')]]]]"

definition ChainPanel :: "(real \<Rightarrow> string) \<Rightarrow> node" where
  "ChainPanel str =
    El ''div'' [(''style.left'', Str (px str (fst (anchor ChainLeft)))), (''style.top'', Str (py str (snd (anchor ChainCenter) - 80))),
      (''style.width'', Str (px str CHAIN_WIDTH))] 
      [El ''motion.div'' [(''style.background'', Str ''rgba(5,5,16,0.82)''), (''animate.boxShadow'', Strs [''0 0 0 0 rgba(102,255,170,0)'',
        ''0 0 0 0 rgba(102,255,170,0)'', ''0 0 36px 6px rgba(102,255,170,0.45)'', ''0 0 0 0 rgba(102,255,170,0)'', ''0 0 0 0 rgba(102,255,170,0)'']),
        (''transition.duration'', Val T_cycle), (''transition.times'', Vals [0, confirmStart M - (1 / 100), confirmStart M, confirmEnd M, 1]),
        (''transition.repeat'', Str ''Infinity''), (''transition.ease'', Str ''linear'')] 
        [El ''div'' [] 
          [El ''span'' [] [],
           El ''span'' [] [Txt ''base sepolia''],
           El ''span'' [] [Txt ''block'']],
         El ''div'' [] 
          [El ''div'' [] 
            [El ''span'' [] [Txt ''tx''],
             El ''motion.span'' [(''animate.opacity'', Vals [3 / 10, 3 / 10, 1, 1, 3 / 10]), (''transition.duration'', Val T_cycle),
               (''transition.times'', Vals [0, confirmStart M - (1 / 100), confirmStart M, confirmEnd M, 1]), (''transition.repeat'', Str
               ''Infinity''), (''transition.ease'', Str ''linear'')] [Txt (''0xc18e'' @ ellipsis @ ''7b94 '' @ check_mark)]],
           El ''div'' [] [El ''span'' [] [Txt ''paid''], El ''span'' [] [Txt ''0.0042 USDC'']],
           El ''div'' [] [El ''span'' [] [Txt ''to''], El ''span'' [] [Txt ''host'']],
           El ''div'' [] 
            [El ''span'' [] [Txt ''channel''],
             El ''span'' [] [Txt (''open '' @ middle_dot @ '' 1 of ~1k'')]]]]]"

definition Diagram :: "(real \<Rightarrow> string) \<Rightarrow> node" where
  "Diagram str =
    El ''div'' [(''style.aspectRatio'', Str (str VB_w @ '' / '' @ str VB_h)), (''style.minHeight'', Val 380)] 
      [El ''div'' [(''aria-hidden'', Flag True)] [],
       El ''svg'' [(''viewBox'', Str (''0 0 '' @ str VB_w @ '' '' @ str VB_h)), (''preserveAspectRatio'', Str ''xMidYMid meet'')] 
        [Defs,
         El ''FlowingWire'' [] (FlowingWire [(CHR ''M'', fst (anchor TermRight), snd (anchor TermRight)), (CHR ''L'', fst (anchor ServerLeft), snd
           (anchor ServerLeft))] ''url(#wireCompute)'' 11 (24, 18) (12 / 10) False),
         El ''FlowingWire'' [] (FlowingWire [(CHR ''M'', fst (anchor ServerRight), snd (anchor ServerRight)), (CHR ''L'', fst (anchor ChainLeft), snd
           (anchor ChainLeft))] ''url(#wireSettle)'' 11 (24, 18) (14 / 10) False),
         PCIllustration (fst (anchor PcCenter)) (snd (anchor PcCenter)),
         ServerStation str (fst (anchor ServerCenter)) (snd (anchor ServerCenter)),
         TravelingDotView (fst (anchor TermRight)) (fst (anchor ServerLeft)) (snd (anchor ServerLeft)) (sendStart M) (sendEnd M) ''#66ccff''
           ''encrypted prompt'' False,
         TravelingDotView (fst (anchor ServerLeft)) (fst (anchor TermRight)) (snd (anchor ServerLeft)) (toolReqStart M) (toolReqEnd M) ''#ffbb44''
           ''tool: read_file'' True,
         TravelingDotView (fst (anchor TermRight)) (fst (anchor ServerLeft)) (snd (anchor ServerLeft)) (toolResStart M) (toolResEnd M) ''#66ffaa''
           ''tool result'' False,
         TravelingDotView (fst (anchor ServerLeft)) (fst (anchor TermRight)) (snd (anchor ServerLeft)) (responseStart M) (responseEnd M) ''#b48cff''
           ''answer'' True,
         TravelingDotView (fst (anchor ServerRight)) (fst (anchor ChainLeft)) (snd (anchor ServerLeft)) (settleStart M) (settleEnd M) ''#66ffaa''
           ''signed receipt'' False],
       TerminalPanel str,
       ChainPanel str]"

definition FlowGraph :: "(real \<Rightarrow> string) \<Rightarrow> node" where
  "FlowGraph str =
    El ''section'' [(''id'', Str ''flow'')] 
      [El ''div'' [(''aria-hidden'', Flag True)] [],
       El ''div'' [] 
        [Reveal 0 
          [El ''div'' [] [Txt ''// anatomy of a request''],
           El ''h2'' [] 
            [Txt ''One press of send.'',
             El ''br'' [] [],
             El ''span'' [] [Txt ''Encrypted, run, settled.'']],
           El ''p'' [] 
            [Txt (''Watch a single round trip '' @ em_dash @
              '' your agent calls a tool, the host answers, and the bill settles to chain when it's done.'')]],
         Reveal (1 / 10) [El ''div'' [] [Diagram str]]]]"
subsection \<open>Ids and references\<close>

lemma Defs_read:
  "ids Defs = [''beige'', ''beigeDark'', ''beigeTop'', ''crtScreen'', ''serverBody'', ''serverSide'', ''serverTop'', ''towerBody'', ''towerSide'',
     ''gpuBody'', ''gpuGlass'', ''aluTop'', ''aluFront'', ''aluSide'', ''wireCompute'', ''wireSettle'', ''softGlow'']"
  "refs Defs = []"
  by (simp_all add: Defs_def str_attr_def paint_refs_def)

lemma PCIllustration_read:
  "ids (PCIllustration cx cy) = []"
  "set (refs (PCIllustration cx cy)) = {''beige'', ''beigeDark'', ''beigeTop'', ''crtScreen'', ''softGlow''}"
  by (simp add: PCIllustration_def str_attr_def comp_def) (simp add: PCIllustration_def paint_refs_def comp_def, auto)

lemma RackBlade_read: "ids (RackBlade str y i) = []" "refs (RackBlade str y i) = []"
  by (simp_all add: RackBlade_def str_attr_def paint_refs_def comp_def)

lemma RackServerSVG_read:
  "ids (RackServerSVG str cx cy) = []" "refs (RackServerSVG str cx cy) = [''serverTop'', ''serverSide'', ''serverBody'']"
  by (simp_all add: RackServerSVG_def RackBlade_read str_attr_def paint_refs_def comp_def Let_def)

lemma TowerServerSVG_read:
  "ids (TowerServerSVG str cx cy) = []" "refs (TowerServerSVG str cx cy) = [''serverTop'', ''towerSide'', ''towerBody'', ''softGlow'']"
  by (simp_all add: TowerServerSVG_def str_attr_def paint_refs_def comp_def Let_def)

lemma GamingPCSVG_read:
  "ids (GamingPCSVG cx cy) = []" "set (refs (GamingPCSVG cx cy)) = {''gpuBody'', ''gpuGlass'', ''softGlow''}"
  by (simp add: GamingPCSVG_def str_attr_def comp_def Let_def) (simp add: GamingPCSVG_def paint_refs_def Let_def, auto)

lemma MacMiniSVG_read:
  "ids (MacMiniSVG cx cy) = []" "refs (MacMiniSVG cx cy) = [''aluTop'', ''aluSide'', ''aluFront'', ''softGlow'']"
  by (simp_all add: MacMiniSVG_def str_attr_def paint_refs_def Let_def)

lemma ServerStation_read:
  "ids (ServerStation str cx cy) = []"
  "set (refs (ServerStation str cx cy)) = {''serverTop'', ''serverSide'', ''serverBody'', ''towerSide'', ''towerBody'', ''gpuBody'', ''gpuGlass'',
     ''aluTop'', ''aluSide'', ''aluFront'', ''softGlow''}"
  by (simp_all add: ServerStation_def MACHINES_def RackServerSVG_read TowerServerSVG_read GamingPCSVG_read MacMiniSVG_read
      str_attr_def paint_refs_def Let_def) auto

subsection \<open>Every drawing in its place\<close>

lemma PCIllustration_fits: "fits (cx - 86, cy - 94) (cx + 80, cy + 114) (0, 0) (PCIllustration cx cy)"
  by (simp add: PCIllustration_def list_all_iff)

text \<open>The box of a machine standing at \<open>(cx, cy)\<close>: it is as wide as the shadow below it.\<close>

abbreviation slot_fits :: "real \<Rightarrow> real \<Rightarrow> real \<times> real \<Rightarrow> node \<Rightarrow> bool" where
  "slot_fits cx cy \<equiv> fits (cx - 80, cy - 140) (cx + 80, cy + 138)"

lemma RackBlade_fits: "i < 5 \<Longrightarrow> slot_fits cx cy (cx - 70, cy - 130) (RackBlade str (22 + real i * 46) i)"
  by (simp add: RackBlade_def list_all_iff)

lemma RackServerSVG_fits: "slot_fits cx cy (0, 0) (RackServerSVG str cx cy)"
  by (simp add: RackServerSVG_def list_all_iff RackBlade_fits)

lemma TowerServerSVG_fits: "slot_fits cx cy (0, 0) (TowerServerSVG str cx cy)"
  by (simp add: TowerServerSVG_def list_all_iff Let_def)

lemma GamingPCSVG_fits: "slot_fits cx cy (0, 0) (GamingPCSVG cx cy)"
  by (simp add: GamingPCSVG_def list_all_iff Let_def)

lemma MacMiniSVG_fits: "slot_fits cx cy (0, 0) (MacMiniSVG cx cy)"
  by (simp add: MacMiniSVG_def list_all_iff Let_def)

lemma MachineSVG_fits: "slot_fits cx cy (0, 0) (MachineSVG str kind cx cy)"
  by (cases kind) (simp_all add: RackServerSVG_fits TowerServerSVG_fits GamingPCSVG_fits MacMiniSVG_fits)

lemma ServerStation_fits: "slot_fits cx cy (0, 0) (ServerStation str cx cy)"
  by (simp add: ServerStation_def list_all_iff MACHINES_def Let_def MachineSVG_fits del: MachineSVG.simps)

subsection \<open>Properties\<close>

text \<open>The ids of the section, and what its drawings refer to.\<close>

lemma wire_ids: "concat (map ids (FlowingWire d s w dash sp r)) = []"
  by (simp add: FlowingWire_def str_attr_def)

lemma dot_read:
  "ids (TravelingDotView a b y s e color label below) = []"
  "take 5 color \<noteq> ''url(#'' \<Longrightarrow> refs (TravelingDotView a b y s e color label below) = []"
  by (simp_all add: TravelingDotView_def str_attr_def paint_refs_def Let_def)

lemma panel_read:
  "ids (TerminalPanel str) = []" "refs (TerminalPanel str) = []" "ids (ChainPanel str) = []" "refs (ChainPanel str) = []"
  by (simp_all add: TerminalPanel_def ChainPanel_def FadeLine_def FadeInline_def TypingView_def CursorView_def
      str_attr_def paint_refs_def Let_def)

text \<open>Every gradient and filter the section draws with is one it defines, each of those is used, and no
  id occurs twice in the section.\<close>

lemma flow_references_resolve:
  "ids (FlowGraph str) = ''flow'' # ids Defs \<and> distinct (ids (FlowGraph str)) \<and> set (refs (FlowGraph str)) = set (ids Defs)"
proof -
  have i: "ids (Diagram str) = ids Defs"
    by (simp add: Diagram_def str_attr_def PCIllustration_read ServerStation_read dot_read panel_read wire_ids)
  have r: "set (refs (Diagram str)) = set (ids Defs)"
    by (rule equalityI; simp add: Diagram_def paint_refs_def PCIllustration_read ServerStation_read dot_read panel_read Defs_read FlowingWire_def)
  have f: "ids (FlowGraph str) = ''flow'' # ids Defs"
    by (simp add: FlowGraph_def str_attr_def i)
  moreover have "set (refs (FlowGraph str)) = set (ids Defs)"
    by (simp add: FlowGraph_def paint_refs_def r)
  moreover have "distinct (''flow'' # ids Defs)" by (simp add: Defs_read)
  ultimately show ?thesis by simp
qed

text \<open>Every drawing keeps to its place in the diagram: the four machines with their shadow stand
  between the two edges of the server station and inside the canvas, the computer left of the
  terminal but for the rim of its shadow, the travelling dots never leave the gap between the
  stations they connect, and the terminal ends before the wire to the station begins.\<close>

theorem drawing_keeps_places:
  "fits (fst (anchor ServerLeft), 0) (fst (anchor ServerRight), VB_h) (0, 0) (ServerStation str (fst (anchor ServerCenter)) (snd (anchor ServerCenter))) \<and>
   fits (fst (anchor ServerLeft), 0) (fst (anchor ServerRight), VB_h) (0, 0) (MachineSVG str kind (fst (anchor ServerCenter)) (snd (anchor ServerCenter))) \<and>
   fits (0, 0) (fst (anchor TermLeft) + 10, VB_h) (0, 0) (PCIllustration (fst (anchor PcCenter)) (snd (anchor PcCenter))) \<and>
   list_all (\<lambda>d. list_all (\<lambda>x. fst (anchor TermRight) \<le> x \<and> x \<le> fst (anchor ServerLeft)) (tk_values (dot_x d)) \<or>
     list_all (\<lambda>x. fst (anchor ServerRight) \<le> x \<and> x \<le> fst (anchor ChainLeft)) (tk_values (dot_x d))) diagram_dots \<and>
   fst (anchor TermLeft) + TERM_WIDTH < fst (anchor TermRight) \<and> fst (anchor ChainLeft) + CHAIN_WIDTH < VB_w"
proof -
  have "fits (fst (anchor ServerLeft), 0) (fst (anchor ServerRight), VB_h) (0, 0) (ServerStation str (fst (anchor ServerCenter)) (snd (anchor ServerCenter)))"
    "fits (fst (anchor ServerLeft), 0) (fst (anchor ServerRight), VB_h) (0, 0) (MachineSVG str kind (fst (anchor ServerCenter)) (snd (anchor ServerCenter)))"
    by (rule fits_mono [OF ServerStation_fits] fits_mono [OF MachineSVG_fits]; simp add: VB_h_def)+
  moreover have "fits (0, 0) (fst (anchor TermLeft) + 10, VB_h) (0, 0) (PCIllustration (fst (anchor PcCenter)) (snd (anchor PcCenter)))"
    by (rule fits_mono [OF PCIllustration_fits]; simp add: VB_h_def)
  ultimately show ?thesis
    by (simp add: diagram_dots_def TravelingDot_def TERM_WIDTH_def CHAIN_WIDTH_def VB_w_def Let_def)
qed

end
