(* ===== verification/Calculator.thy ===== *)
theory Calculator
  imports Marketing Markup
begin

section \<open>The savings calculator on the page (apps/marketing/src/components/SavingsCalculator.tsx)\<close>

text \<open>
  The component around the computation of \<open>Marketing\<close>: its state is the position of the two
  sliders, every drag stores the value the range input delivers, and the card and its chart are
  drawn anew. \<open>path_points\<close> and \<open>band_points\<close> are the corners that \<open>pathFrom\<close> and \<open>bandPoints\<close>
  write out as text. The property: whatever is dragged, the chart stays inside its drawing, the
  sliders inside their bars, and the card claims a saving of 83 to 100 percent.
\<close>

subsection \<open>The sliders\<close>

record calculator =
  tokensM :: real
  hikePct :: real

definition calculator_start :: calculator where
  "calculator_start = \<lparr>tokensM = 25, hikePct = 15\<rparr>"

text \<open>What an input of type \<open>range\<close> delivers for a position: the nearest step between its bounds,
  the upper one when two are equally near.\<close>

definition range_value :: "real \<Rightarrow> real \<Rightarrow> real \<Rightarrow> real \<Rightarrow> real" where
  "range_value lo hi stp raw = (let c = max lo (min hi raw) in lo + stp * of_int (js_round ((c - lo) / stp)))"

datatype slider_event = DragTokens real | DragHike real

fun drag_step :: "calculator \<Rightarrow> slider_event \<Rightarrow> calculator" where
  "drag_step c (DragTokens raw) = c\<lparr>tokensM := range_value 1 100 1 raw\<rparr>"
| "drag_step c (DragHike raw) = c\<lparr>hikePct := range_value 0 30 1 raw\<rparr>"

text \<open>The state after a sequence of drags, and the series memoised for it.\<close>

definition calculator_after :: "slider_event list \<Rightarrow> calculator" where
  "calculator_after es = foldl drag_step calculator_start es"

definition series_of :: "calculator \<Rightarrow> series" where
  "series_of c = compute (tokensM c) (hikePct c)"

subsection \<open>What is drawn\<close>

definition path_points :: "real list \<Rightarrow> (nat \<Rightarrow> real) \<Rightarrow> (real \<Rightarrow> real) \<Rightarrow> (char \<times> real \<times> real) list" where
  "path_points values x y = map (\<lambda>(i, v). (if i = 0 then CHR ''M'' else CHR ''L'', x i, y v)) (enumerate 0 values)"

definition band_points :: "series \<Rightarrow> (real \<times> real) list" where
  "band_points s = map (band_corner s) (enumerate 0 (sr_trad s)) @ rev (map (band_corner s) (enumerate 0 (sr_fldx s)))"

text \<open>The style sheet of the sliders is left out, as every style is.\<close>

definition SliderStyles :: node where
  "SliderStyles = El ''style'' [(''jsx'', Flag True), (''global'', Flag True)] []"

definition Slider :: "(real \<Rightarrow> string) \<Rightarrow> string \<Rightarrow> real \<Rightarrow> real \<Rightarrow> real \<Rightarrow> real \<Rightarrow> string \<Rightarrow> string list \<Rightarrow> node" where
  "Slider str label v lo hi stp shown ticks =
    El ''div'' [] 
      [El ''div'' [] [El ''span'' [] [Txt label], El ''span'' [] [Txt shown]],
       El ''div'' [(''style.background'', Str ''rgba(255,255,255,0.07)'')] 
        [El ''div'' [(''style.width'', Str (str (slider_pct v lo hi) @ ''%'')), (''style.background'', Str
          ''linear-gradient(90deg, rgba(102,204,255,0.7), rgba(180,140,255,0.85))''), (''style.boxShadow'', Str ''0 0 12px rgba(102,204,255,0.45)'')]
          [],
         El ''input'' [(''type'', Str ''range''), (''min'', Val lo), (''max'', Val hi), (''step'', Val stp), (''value'', Val v), (''aria-label'',
           Str label)] [],
         El ''div'' [(''aria-hidden'', Flag True), (''style.left'', Str (str (slider_pct v lo hi) @ ''%'')), (''style.background'', Str ''#66ccff''),
           (''style.boxShadow'', Str ''0 0 0 2px rgba(5,5,16,0.9), 0 0 20px rgba(102,204,255,0.7)'')] []],
       El ''div'' [] 
        (map (\<lambda>t. El ''span'' [(''key'', Str t)] [Txt t]) ticks)]"

definition Row_calc :: "string \<Rightarrow> string \<Rightarrow> string \<Rightarrow> node" where
  "Row_calc label val dot_color =
    El ''div'' [] 
      [El ''span'' [] 
        [El ''span'' [(''style.background'', Str dot_color), (''style.boxShadow'', Str (''0 0 8px '' @ dot_color @ ''aa''))] [],
         Txt label],
       El ''span'' [] [Txt val]]"

definition EndDot :: "real \<Rightarrow> real \<Rightarrow> string \<Rightarrow> string \<Rightarrow> bool \<Rightarrow> node" where
  "EndDot cx cy color label right =
    Sh ''g'' (Move 0 0) [] 
      [Sh ''circle'' (Circle cx cy 8) [(''fill'', Str color), (''opacity'', Str ''0.18''), (''style.filter'', Str ''blur(3px)'')] [],
       Sh ''circle'' (Circle cx cy (35 / 10)) [(''fill'', Str color)] [],
       Sh ''circle'' (Circle cx cy (35 / 10)) [(''fill'', Str ''none''), (''stroke'', Str ''#fff''), (''strokeOpacity'', Str ''0.7''),
         (''strokeWidth'', Str ''0.8'')] [],
       Sh ''text'' (Label (fst (end_dot right cx cy)) (fst (snd (end_dot right cx cy)))) [(''textAnchor'', Str (snd (snd (end_dot right cx cy)))),
         (''fontFamily'', Str (''ui-monospace, 'SF Mono', monospace'')), (''fontSize'', Str ''12''), (''fill'', Str color), (''fontWeight'', Str
         ''500'')] [Txt label]]"

definition Graph_calc :: "(real \<Rightarrow> string) \<Rightarrow> series \<Rightarrow> node" where
  "Graph_calc str s =
    El ''div'' [] 
      [El ''svg'' [(''viewBox'', Str (''0 0 '' @ str G_w @ '' '' @ str G_h)), (''preserveAspectRatio'', Str ''xMidYMid meet'')] 
        [El ''defs'' [] 
          [El ''linearGradient'' [(''id'', Str ''savingsBand''), (''gradientUnits'', Str ''userSpaceOnUse''), (''x1'', Str ''0''), (''y1'', Val
            padT), (''x2'', Str ''0''), (''y2'', Val (padT + plotH))] 
            [El ''stop'' [(''offset'', Str ''0%''), (''stopColor'', Str ''#ffbb44''), (''stopOpacity'', Str ''0.35'')] [],
             El ''stop'' [(''offset'', Str ''60%''), (''stopColor'', Str ''#66ffaa''), (''stopOpacity'', Str ''0.18'')] [],
             El ''stop'' [(''offset'', Str ''100%''), (''stopColor'', Str ''#66ffaa''), (''stopOpacity'', Str ''0.05'')] []],
           El ''linearGradient'' [(''id'', Str ''tradLine''), (''gradientUnits'', Str ''userSpaceOnUse''), (''x1'', Val padL), (''y1'', Str ''0''),
             (''x2'', Val (padL + plotW)), (''y2'', Str ''0'')] 
            [El ''stop'' [(''offset'', Str ''0%''), (''stopColor'', Str ''#ffbb44''), (''stopOpacity'', Str ''0.6'')] [],
             El ''stop'' [(''offset'', Str ''100%''), (''stopColor'', Str ''#ff6677'')] []]],
         Sh ''g'' (Move 0 0) [(''stroke'', Str ''rgba(255,255,255,0.16)''), (''strokeWidth'', Str ''0.7'')] 
          (map (\<lambda>t. Sh ''line'' (Line padL (fst t) (G_w - padR) (fst t)) [(''key'', Str (''g-'' @ str (fst t)))] []) (yLabels s)),
         Sh ''line'' (Line padL padT padL (padT + plotH)) [(''stroke'', Str ''rgba(255,255,255,0.55)''), (''strokeWidth'', Str ''1'')] [],
         Sh ''line'' (Line padL (padT + plotH) (G_w - padR) (padT + plotH)) [(''stroke'', Str ''rgba(255,255,255,0.55)''), (''strokeWidth'', Str
           ''1'')] [],
         Sh ''g'' (Move 0 0) [(''stroke'', Str ''rgba(255,255,255,0.55)''), (''strokeWidth'', Str ''1'')] 
          (map (\<lambda>t. Sh ''line'' (Line (padL - 4) (fst t) padL (fst t)) [(''key'', Str (''yt-'' @ str (fst t)))] []) (yLabels s) @
           map (\<lambda>t. Sh ''line'' (Line (fst t) (padT + plotH) (fst t) (padT + plotH + 4)) [(''key'', Str (''xt-'' @ str (fst t)))] [])
             xLabels),
         Sh ''g'' (Move 0 0) [(''fontFamily'', Str (''ui-monospace, 'SF Mono', monospace'')), (''fontSize'', Str ''11''), (''fill'', Str
           ''rgba(230,236,246,0.92)''), (''fontWeight'', Str ''500'')] 
          (map (\<lambda>t. Sh ''text'' (Label (padL - 9) (fst t + 35 / 10)) [(''key'', Str (''yl-'' @ str (fst t))), (''textAnchor'', Str ''end''),
            (''letterSpacing'', Str ''0.5'')] [Txt (snd t)]) (yLabels s)),
         Sh ''g'' (Move 0 0) [(''fontFamily'', Str (''ui-monospace, 'SF Mono', monospace'')), (''fontSize'', Str ''11''), (''fill'', Str
           ''rgba(230,236,246,0.92)''), (''letterSpacing'', Str ''1.2''), (''fontWeight'', Str ''500'')] 
          (map (\<lambda>t. Sh ''text'' (Label (fst t) (G_h - padB + 20)) [(''key'', Str (''xl-'' @ str (fst t))), (''textAnchor'', Str ''middle'')]
            [Txt (snd t)]) xLabels),
         Sh ''polygon'' (Polygon (band_points s)) [(''fill'', Str ''url(#savingsBand)'')] [],
         Sh ''path'' (Path (path_points (sr_trad s) xOf (yOf s))) [(''stroke'', Str ''url(#tradLine)''), (''strokeWidth'', Str ''2.5''), (''fill'',
           Str ''none''), (''strokeLinejoin'', Str ''round''), (''strokeLinecap'', Str ''round'')] [],
         Sh ''path'' (Path (path_points (sr_fldx s) xOf (yOf s))) [(''stroke'', Str ''#66ffaa''), (''strokeWidth'', Str ''2.5''), (''fill'', Str
           ''none''), (''strokeLinejoin'', Str ''round''), (''strokeLinecap'', Str ''round'')] [],
         EndDot (xOf MONTHS) (yOf s (sr_tradTotal s)) ''#ffbb44'' (''$'' @ formatMoney (sr_tradTotal s)) True,
         EndDot (xOf MONTHS) (yOf s (sr_fldxTotal s)) ''#66ffaa'' (''$'' @ formatMoney (sr_fldxTotal s)) True,
         Sh ''g'' (Move 0 0) [(''fontFamily'', Str (''ui-monospace, 'SF Mono', monospace'')), (''fontSize'', Str ''11''), (''letterSpacing'', Str
           ''1.4''), (''fontWeight'', Str ''500'')] 
          [Sh ''g'' (Move (padL + 6) (padT + 14)) [] 
            [Sh ''circle'' (Circle 0 (- (35 / 10)) (35 / 10)) [(''fill'', Str ''#ffbb44'')] [],
             Sh ''text'' (Label 10 0) [(''fill'', Str ''rgba(245,235,210,0.95)'')] [Txt ''TRADITIONAL'']],
           Sh ''g'' (Move (padL + 6) (padT + 32)) [] 
            [Sh ''circle'' (Circle 0 (- (35 / 10)) (35 / 10)) [(''fill'', Str ''#66ffaa'')] [],
             Sh ''text'' (Label 10 0) [(''fill'', Str ''rgba(220,255,235,0.95)'')] [Txt ''FLDX'']]]]]"

definition SavingsCalculator :: "(real \<Rightarrow> string) \<Rightarrow> calculator \<Rightarrow> node" where
  "SavingsCalculator str c =
    (let s = series_of c in
     El ''motion.div'' [(''initial.opacity'', Val 0), (''initial.y'', Val 32), (''whileInView.opacity'', Val 1), (''whileInView.y'', Val 0),
       (''viewport.once'', Flag True), (''viewport.amount'', Val (2 / 10)), (''transition.duration'', Val (7 / 10)), (''transition.ease'', Vals [16 /
       100, 1, 3 / 10, 1])] 
      [El ''div'' [] 
        [El ''div'' [] [Txt ''// savings calculator''],
         El ''h3'' [] [Txt (''See what you'd save.'')],
         El ''p'' [] 
          [Txt (''Drag the sliders. As traditional API prices climb, the gap widens '' @ em_dash @ '' and the marketplace stays roughly flat.'')]],
       El ''div'' [] 
        [El ''div'' [] 
          [Slider str ''Tokens per month'' (tokensM c) 1 100 1 (str (tokensM c) @ ''M'') (map (\<lambda>t. str t @ ''M'') [1, 25, 50, 75, 100]),
           Slider str ''Traditional API price hike'' (hikePct c) 0 30 1 (str (hikePct c) @ ''% / yr'') [''0%'', ''10%'', ''20%'', ''30%''],
           El ''div'' [] 
            [El ''div'' [] [Txt (nat_str YEARS), Txt ''-year cumulative spend''],
             El ''div'' [] 
              [Row_calc ''Traditional API'' (''$'' @ formatMoney (sr_tradTotal s)) ''#ffbb44'',
               Row_calc ''fldx marketplace'' (''$'' @ formatMoney (sr_fldxTotal s)) ''#66ffaa''],
             El ''div'' [] 
              [El ''div'' [] 
                [El ''span'' [] [Txt ''you save''],
                 El ''span'' [] [Txt (approx @ '' ''), Txt (int_str (savingsPct s)), Txt ''%'']],
               El ''div'' [] [Txt ''$'', Txt (formatMoney (savings s))]]],
           El ''p'' [] 
            [Txt ''Assumes $'',
             Txt (to_fixed 2 TRAD_BASE),
             Txt (''/M tokens for hosted APIs '' @ middle_dot @ '' $''),
             Txt (to_fixed 2 FLDX_BASE),
             Txt (''/M on the marketplace '' @ middle_dot @ '' ''),
             Txt (str FLDX_HIKE_PCT),
             Txt ''% / yr marketplace drift'']],
         Graph_calc str s],
       SliderStyles])"

subsection \<open>Properties\<close>

lemma pathFrom_points:
  "pathFrom str values x y = join_sp (map (\<lambda>(c, a, b). [c] @ '' '' @ str a @ '' '' @ str b) (path_points values x y))"
  unfolding pathFrom_def path_points_def by (rule arg_cong [of _ _ join_sp]) (auto simp: in_set_enumerate_eq)

lemma bandPoints_points: "bandPoints str s = join_sp (map (\<lambda>(x, y). str x @ '','' @ str y) (band_points s))"
  by (simp add: bandPoints_def band_points_def Let_def comp_def rev_map)

lemma range_value_bounds:
  assumes "0 \<le> n"
  shows "lo \<le> range_value lo (lo + of_int n) 1 raw \<and> range_value lo (lo + of_int n) 1 raw \<le> lo + of_int n"
proof -
  define c where "c = max lo (min (lo + of_int n) raw)"
  have c: "0 \<le> c - lo" "c - lo \<le> of_int n" using assms by (auto simp: c_def)
  have "0 \<le> js_round (c - lo)" "js_round (c - lo) \<le> n"
    using js_round_mono [OF c(1)] js_round_mono [OF c(2)] by (simp_all add: js_round_def floor_eq_iff)
  moreover have "range_value lo (lo + of_int n) 1 raw = lo + of_int (js_round (c - lo))"
    by (simp add: range_value_def Let_def c_def)
  ultimately show ?thesis by simp
qed

lemma range_value_Ints: "lo \<in> \<int> \<Longrightarrow> range_value lo hi 1 raw \<in> \<int>"
  by (simp add: range_value_def Let_def)

definition in_range :: "calculator \<Rightarrow> bool" where
  "in_range c \<longleftrightarrow> 1 \<le> tokensM c \<and> tokensM c \<le> 100 \<and> 0 \<le> hikePct c \<and> hikePct c \<le> 30 \<and> tokensM c \<in> \<int> \<and> hikePct c \<in> \<int>"

lemma drag_in_range: "in_range c \<Longrightarrow> in_range (drag_step c e)"
  using range_value_bounds [of 99 1] range_value_bounds [of 30 0] by (cases e) (simp_all add: in_range_def range_value_Ints)

lemma drags_in_range: "in_range (calculator_after es)"
proof (induction es rule: rev_induct)
  case Nil
  then show ?case by (simp add: in_range_def calculator_after_def calculator_start_def)
next
  case (snoc e es)
  then show ?case by (simp add: calculator_after_def drag_in_range)
qed

text \<open>Every corner of the two lines and of the band lies in the plot area.\<close>

definition in_plot :: "real \<times> real \<Rightarrow> bool" where
  "in_plot p \<longleftrightarrow> in_box (padL, padT) (G_w - padR, padT + plotH) p"

lemma xOf_in_plot: "i \<le> 60 \<Longrightarrow> padL \<le> xOf i \<and> xOf i \<le> G_w - padR"
  by (simp add: xOf_def plotW_def G_w_def padL_def padR_def MONTHS_def YEARS_def field_simps)

lemma corner_in_plot:
  assumes "0 < t" "0 \<le> h" "i \<le> 60" "v = bill t TRAD_BASE h i \<or> v = bill t FLDX_BASE FLDX_HIKE_PCT i"
  shows "in_plot (xOf i, yOf (compute t h) v)"
proof -
  have "0 \<le> v" using assms by (auto intro!: bill_nonneg simp: TRAD_BASE_def FLDX_BASE_def FLDX_HIKE_PCT_def)
  moreover have "v \<le> bill t TRAD_BASE h 60"
    using assms bill_fldx_le [of t h i] bill_le_total [of t h i] by auto
  ultimately show ?thesis
    using in_frame [OF assms(1,2)] xOf_in_plot [OF assms(3)] by (simp add: in_plot_def)
qed

lemma enumerate_upt: "(i, v) \<in> set (enumerate 0 (map f [0..<n])) \<longleftrightarrow> i < n \<and> v = f i"
  by (auto simp: in_set_enumerate_eq)

lemma series_in_plot:
  assumes "0 < t" "0 \<le> h"
  shows "\<forall>p \<in> set (band_points (compute t h)). in_plot p"
    and "\<forall>p \<in> set (path_points (sr_trad (compute t h)) xOf (yOf (compute t h))). in_plot (snd p)"
    and "\<forall>p \<in> set (path_points (sr_fldx (compute t h)) xOf (yOf (compute t h))). in_plot (snd p)"
proof -
  have *: "in_plot (xOf i, yOf (compute t h) v)"
    if "(i, v) \<in> set (enumerate 0 (sr_trad (compute t h))) \<or> (i, v) \<in> set (enumerate 0 (sr_fldx (compute t h)))" for i v
    using that corner_in_plot [OF assms, of i v] by (auto simp: compute_eq enumerate_upt simp del: upt_Suc)
  then show "\<forall>p \<in> set (band_points (compute t h)). in_plot p"
    by (auto simp: band_points_def band_corner_def simp del: upt_Suc)
  from * show "\<forall>p \<in> set (path_points (sr_trad (compute t h)) xOf (yOf (compute t h))). in_plot (snd p)"
    and "\<forall>p \<in> set (path_points (sr_fldx (compute t h)) xOf (yOf (compute t h))). in_plot (snd p)"
    by (auto simp: path_points_def simp del: upt_Suc)
qed

lemmas frame_numbers = G_w_def G_h_def padL_def padR_def padT_def padB_def plotW_def plotH_def

lemma EndDot_fits: "in_plot (cx, cy) \<Longrightarrow> fits (0, 0) (G_w, G_h) (0, 0) (EndDot cx cy color label right)"
  by (simp add: EndDot_def in_plot_def end_dot_def frame_numbers)

lemma labels_fit:
  "p \<in> set (yLabels s) \<Longrightarrow> padT \<le> fst p \<and> fst p \<le> padT + plotH"
  "p \<in> set xLabels \<Longrightarrow> padL \<le> fst p \<and> fst p \<le> G_w - padR"
  by (auto simp: yLabels_def Let_def frame_numbers upt_rec numeral_eq_Suc)
    (auto simp: xLabels_def xOf_def MONTHS_def YEARS_def frame_numbers)

lemma in_plot_fits: "in_plot p \<Longrightarrow> in_box (0, 0) (G_w, G_h) p"
  by (cases p) (simp add: in_plot_def frame_numbers)

lemma Graph_fits:
  assumes "0 < t" "0 \<le> h"
  shows "fits (0, 0) (G_w, G_h) (0, 0) (Graph_calc str (compute t h))"
proof -
  let ?s = "compute t h"
  have dots: "in_plot (xOf MONTHS, yOf ?s (sr_tradTotal ?s))" "in_plot (xOf MONTHS, yOf ?s (sr_fldxTotal ?s))"
    using corner_in_plot [OF assms, of 60] by (simp_all add: compute_eq MONTHS_def YEARS_def del: upt_Suc)
  have band: "list_all (\<lambda>(x, y). in_box (0, 0) (G_w, G_h) (x, y)) (band_points ?s)"
    using series_in_plot(1) [OF assms] in_plot_fits by (auto simp: list_all_iff simp del: in_box_pair)
  have lines: "list_all (\<lambda>(x, y). in_box (0, 0) (G_w, G_h) (x, y)) (map snd (path_points (sr_trad ?s) xOf (yOf ?s)))"
    "list_all (\<lambda>(x, y). in_box (0, 0) (G_w, G_h) (x, y)) (map snd (path_points (sr_fldx ?s) xOf (yOf ?s)))"
    using series_in_plot(2,3) [OF assms] in_plot_fits by (fastforce simp: list_all_iff simp del: in_box_pair)+
  have ys: "\<forall>p \<in> set (yLabels ?s). 24 \<le> fst p \<and> fst p \<le> 324" and xs: "\<forall>p \<in> set xLabels. 56 \<le> fst p \<and> fst p \<le> 584"
    using labels_fit by (auto simp: frame_numbers)
  show ?thesis
    using EndDot_fits [OF dots(1)] EndDot_fits [OF dots(2)] band lines ys xs
    by (auto simp: Graph_calc_def list_all_iff frame_numbers)
qed

lemma slider_filled: "lo < hi \<Longrightarrow> lo \<le> v \<and> v \<le> hi \<Longrightarrow> 0 \<le> slider_pct v lo hi \<and> slider_pct v lo hi \<le> 100"
  by (simp add: slider_pct_def divide_le_eq)

text \<open>C40. Whatever is dragged, in whatever order, the calculator shows a sound picture: the sliders
  stand at whole numbers in their bounds and inside their bars, everything in the chart lies in the
  drawing's frame, the marketplace's bill is at most 17.5\% of the hosted one's, and the card claims
  a saving of 83 to 100 percent.\<close>

theorem calculator_always_draws:
  "in_range (calculator_after es) \<and>
   0 \<le> slider_pct (tokensM (calculator_after es)) 1 100 \<and> slider_pct (tokensM (calculator_after es)) 1 100 \<le> 100 \<and>
   0 \<le> slider_pct (hikePct (calculator_after es)) 0 30 \<and> slider_pct (hikePct (calculator_after es)) 0 30 \<le> 100 \<and>
   fits (0, 0) (G_w, G_h) (0, 0) (Graph_calc str (series_of (calculator_after es))) \<and>
   sr_fldxTotal (series_of (calculator_after es)) \<le> 175 / 1000 * sr_tradTotal (series_of (calculator_after es)) \<and>
   83 \<le> savingsPct (series_of (calculator_after es)) \<and> savingsPct (series_of (calculator_after es)) \<le> 100"
proof -
  obtain t h where c: "calculator_after es = \<lparr>tokensM = t, hikePct = h\<rparr>" by (cases "calculator_after es") auto
  have r: "1 \<le> t" "t \<le> 100" "0 \<le> h" "h \<le> 30" using drags_in_range [of es] by (simp_all add: c in_range_def)
  have "sr_fldxTotal (compute t h) \<le> 175 / 1000 * sr_tradTotal (compute t h)"
    using bill_ratio [of t h 60] r by (simp add: compute_eq)
  then show ?thesis
    using r drags_in_range [of es] slider_filled [of 1 100 t] slider_filled [of 0 30 h] savingsPct_bounds [of t h] Graph_fits [of t h str]
    by (simp add: c series_of_def)
qed

end
