(* ===== verification/Site.thy ===== *)
theory Site
  imports FlowDrawing Calculator Chains AutoRegister
begin

section \<open>The marketing site's pages (apps/marketing/src/app, src/components)\<close>

text \<open>
  The one page of the public site, component by component in the order it is read. What depends
  on scrolling is framer-motion's: \<open>se_num\<close> and \<open>se_text\<close> are its \<open>useTransform\<close> (input range,
  output range, value), \<open>progress\<close> is the scroll progress of the section a hook watches,
  \<open>scrollY\<close> the page's, \<open>rendered_blur\<close> the blur at the time of rendering, and \<open>se_str\<close> writes a
  number. Class names are left out. The properties: every link leads to a section of the page or
  safely out of it, every reference resolves, what the page says of the chain is what the chain
  configuration and the node use, and all that starts hidden comes to rest visible.
\<close>

record site_env =
  se_str :: "real \<Rightarrow> string"
  se_num :: "real list \<Rightarrow> real list \<Rightarrow> real \<Rightarrow> real"
  se_text :: "real list \<Rightarrow> string list \<Rightarrow> real \<Rightarrow> string"
  scrollY :: real
  rendered_blur :: real
  progress :: "string \<Rightarrow> real"

subsection \<open>The bar on top (Nav.tsx)\<close>

definition Logo :: "node" where
  "Logo =
    El ''svg'' [(''width'', Str ''22''), (''height'', Str ''22''), (''viewBox'', Str ''0 0 32 32'')] 
      [Sh ''circle'' (Circle 16 16 13) [(''stroke'', Str ''currentColor''), (''strokeWidth'', Str ''1.5''), (''fill'', Str ''none''), (''opacity'',
        Str ''0.4'')] [],
       Sh ''circle'' (Circle 16 3 (25 / 10)) [(''fill'', Str ''currentColor'')] [],
       Sh ''circle'' (Circle 16 29 (25 / 10)) [(''fill'', Str ''currentColor'')] [],
       Sh ''circle'' (Circle 3 16 (25 / 10)) [(''fill'', Str ''currentColor'')] [],
       Sh ''circle'' (Circle 29 16 (25 / 10)) [(''fill'', Str ''currentColor'')] [],
       Sh ''circle'' (Circle 16 16 3) [(''fill'', Str ''currentColor''), (''opacity'', Str ''0.7'')] []]"

text \<open>The blur is read once, while rendering; the style has the filter only when it is not 0 then.\<close>

definition Nav :: "site_env \<Rightarrow> node" where
  "Nav env =
    El ''motion.nav'' ((if rendered_blur env \<noteq> 0 then [(''style.backdropFilter'', Str (''blur('' @ se_str env (rendered_blur env) @ ''px)''))] else []) @
       [(''style.background'', Str (se_text env [0, 120] [''rgba(5,5,16,0)'', ''rgba(5,5,16,0.7)''] (scrollY env))),
      (''style.borderBottom'', Str ''1px solid''), (''style.borderBottomColor'', Str (se_text env [0, 120] [''rgba(102,204,255,0)'',
      ''rgba(102,204,255,0.15)''] (scrollY env)))]) 
      [El ''a'' [(''href'', Str ''#top'')] [Logo, El ''span'' [] [Txt ''fldx'']],
       El ''div'' [] 
        [El ''a'' [(''href'', Str ''https://github.com/rthomare/flodex''), (''target'', Str ''_blank''), (''rel'', Str ''noreferrer'')] [Txt
          ''github''],
         El ''a'' [(''href'', Str ''https://dashboard.fldx.ai''), (''target'', Str ''_blank''), (''rel'', Str ''noreferrer'')] [Txt
           ''launch dashboard'']]]"

subsection \<open>The first screen (Hero.tsx)\<close>

definition Hero :: "site_env \<Rightarrow> node" where
  "Hero env =
    El ''section'' [(''id'', Str ''top'')] 
      [El ''motion.div'' [(''style.y'', Val (se_num env [0, 1] [0, 200] (progress env ''hero'')))] [],
       El ''motion.div'' [(''aria-hidden'', Flag True), (''style.background'', Str
         ''radial-gradient(circle, rgba(102,204,255,0.18), transparent 60%)''), (''animate.x'', Vals [0, 60, 0]), (''animate.y'', Vals [0, 40, 0]),
         (''transition.duration'', Val 18), (''transition.repeat'', Str ''Infinity''), (''transition.ease'', Str ''easeInOut'')] [],
       El ''motion.div'' [(''aria-hidden'', Flag True), (''style.background'', Str
         ''radial-gradient(circle, rgba(180,140,255,0.15), transparent 60%)''), (''animate.x'', Vals [0, - 50, 0]), (''animate.y'', Vals [0, - 30,
         0]), (''transition.duration'', Val 22), (''transition.repeat'', Str ''Infinity''), (''transition.ease'', Str ''easeInOut'')] [],
       El ''motion.div'' [(''style.opacity'', Val (se_num env [0, 8 / 10] [1, 0] (progress env ''hero''))), (''style.scale'', Val (se_num env [0, 1]
         [1, 94 / 100] (progress env ''hero'')))] 
        [El ''motion.div'' [(''initial.opacity'', Val 0), (''initial.y'', Val 12), (''animate.opacity'', Val 1), (''animate.y'', Val 0),
          (''transition.duration'', Val (8 / 10)), (''transition.ease'', Vals [16 / 100, 1, 3 / 10, 1])] [El ''span'' [] [], Txt (''pre-alpha v0 '' @
          em_dash @ '' live on base sepolia'')],
         El ''motion.h1'' [(''initial.opacity'', Val 0), (''initial.y'', Val 24), (''animate.opacity'', Val 1), (''animate.y'', Val 0),
           (''transition.duration'', Val (9 / 10)), (''transition.delay'', Val (1 / 10)), (''transition.ease'', Vals [16 / 100, 1, 3 / 10, 1])] 
          [Txt ''AI is getting expensive.'',
           El ''br'' [] [],
           El ''span'' [] [Txt (''Your neighbor's GPU is idle.'')]],
         El ''motion.p'' [(''initial.opacity'', Val 0), (''initial.y'', Val 16), (''animate.opacity'', Val 1), (''animate.y'', Val 0),
           (''transition.duration'', Val (9 / 10)), (''transition.delay'', Val (25 / 100)), (''transition.ease'', Vals [16 / 100, 1, 3 / 10, 1])] 
          [Txt (''fldx is a marketplace for AI compute. Rent someone's machine to run models cheap, or earn by renting yours out when it's sitting there doing nothing. Pay-per-request, end-to-end encrypted, settled on-chain.'')],
         El ''motion.div'' [(''initial.opacity'', Val 0), (''initial.y'', Val 12), (''animate.opacity'', Val 1), (''animate.y'', Val 0),
           (''transition.duration'', Val (9 / 10)), (''transition.delay'', Val (4 / 10)), (''transition.ease'', Vals [16 / 100, 1, 3 / 10, 1])] 
          [El ''a'' [(''href'', Str ''https://dashboard.fldx.ai''), (''target'', Str ''_blank''), (''rel'', Str ''noreferrer'')] [Txt
            ''rent compute'', El ''span'' [] [Txt rarrow]],
           El ''a'' [(''href'', Str ''#earn'')] [Txt ''earn with your machine'']],
         El ''motion.div'' [(''initial.opacity'', Val 0), (''animate.opacity'', Val 1), (''transition.duration'', Val (12 / 10)),
           (''transition.delay'', Val (8 / 10))] [Txt (darrow @ '' scroll'')]]]"

subsection \<open>The problem (Problem.tsx)\<close>

record truth =
  tr_n :: string
  tr_title :: string
  tr_body :: string

definition truths :: "truth list" where
  "truths =
    [\<lparr>tr_n = ''01'', tr_title = ''API prices keep climbing.'', tr_body = ''Every quarter the bill goes up '' @ em_dash @
      '' per-token rates, premium tiers, rate limits you can only escape by paying more. The agents you depend on get more expensive every time you blink.''\<rparr>,
     \<lparr>tr_n = ''02'', tr_title = ''Running it yourself is a hardware tax.'', tr_body =
       ''Open models are catching up, but the GPUs to run them aren't cheap, aren't quiet, and aren't sitting in most people's homes. \"Just run it locally\" is a luxury most of us can't afford.''\<rparr>,
     \<lparr>tr_n = ''03'', tr_title = ''Meanwhile, capable machines sit idle.'', tr_body = ''Gaming rigs, workstations, dev boxes '' @ em_dash @
       '' millions of them are powered on, online, and doing nothing for most of the day. That's compute the world already paid for, going to waste.''\<rparr>]"

definition Problem :: "node" where
  "Problem =
    El ''section'' [] 
      [El ''div'' [] 
        [Reveal 0 
          [El ''div'' [] [Txt ''// the problem''],
           El ''h2'' [] [Txt (''AI is getting more expensive. The compute to run it isn't.'')]],
         El ''div'' [] 
          (map (\<lambda>(i, t). El ''motion.div'' [(''key'', Str (tr_n t)), (''initial.opacity'', Val 0), (''initial.y'', Val 32),
            (''whileInView.opacity'', Val 1), (''whileInView.y'', Val 0), (''viewport.once'', Flag True), (''viewport.amount'', Val (3 / 10)),
            (''transition.duration'', Val (7 / 10)), (''transition.delay'', Val ((real i) * (12 / 100))), (''transition.ease'', Vals [16 / 100, 1, 3
            / 10, 1])] 
              [El ''div'' [] [Txt (tr_n t)],
               El ''h3'' [] [Txt (tr_title t)],
               El ''p'' [] [Txt (tr_body t)]]) (enumerate 0 truths))]]"

subsection \<open>What works (Status.tsx)\<close>

definition works :: "string list" where
  "works =
    [''X25519 + HKDF + XChaCha20-Poly1305 transport'',
     ''secp256k1 node identity, signed registrations + heartbeats'',
     ''Agent loop with cross-boundary client-side tools'',
     ''Two backends: hosted Claude (mock TEE) + sandboxed llama.cpp (local)'',
     ''Per-round-trip token usage, accumulated per session'',
     ''NodeRegistry on Base Sepolia (USDC stake)'',
     ''Bilateral payment channels, cumulative receipts'',
     ''macOS sandbox on the local LLM subprocess'',
     ''TS CLI + Next.js dashboard with d3-force graph'']"

definition todo :: "string list" where
  "todo =
    [''Real Nitro / SGX attestation'',
     ''FHE backend (TFHE-rs research track)'',
     ''JobChannel redeploy after rewrite'',
     ''Session keys (kill the per-receipt wallet popup)'',
     ''Linux + Windows sandbox parity'',
     ''Tier-aware automatic routing'']"

definition Column :: "string \<Rightarrow> string list \<Rightarrow> node" where
  "Column title items =
    El ''motion.div'' [(''initial.opacity'', Val 0), (''initial.y'', Val 24), (''whileInView.opacity'', Val 1), (''whileInView.y'', Val 0),
      (''viewport.once'', Flag True), (''viewport.amount'', Val (2 / 10)), (''transition.duration'', Val (7 / 10)), (''transition.ease'', Vals [16 /
      100, 1, 3 / 10, 1])] 
      [El ''div'' [] [Txt title],
       El ''ul'' [] 
        (map (\<lambda>(i, item). El ''motion.li'' [(''key'', Str item), (''initial.opacity'', Val 0), (''initial.x'', Val (- 8)),
          (''whileInView.opacity'', Val 1), (''whileInView.x'', Val 0), (''viewport.once'', Flag True), (''viewport.amount'', Val (3 / 10)),
          (''transition.duration'', Val (5 / 10)), (''transition.delay'', Val ((real i) * (4 / 100))), (''transition.ease'', Vals [16 / 100, 1, 3 /
          10, 1])] [El ''span'' [] [], El ''span'' [] [Txt item]]) (enumerate 0 items))]"

definition Status :: "node" where
  "Status =
    El ''section'' [] 
      [El ''div'' [] 
        [Reveal 0 
          [El ''div'' [] [Txt ''// status''],
           El ''h2'' [] [Txt ''What works.'', El ''br'' [] [], El ''span'' [] [Txt (''What doesn't. Yet.'')]],
           El ''p'' [] 
            [Txt (''fldx is pre-alpha v0. The protocol is real, the encryption is real, the on-chain settlement is real. The trust tiers people will care most about '' @ em_dash @ '' FHE, real TEEs '' @ em_dash @ '' are not.'')]],
         El ''div'' [] [Column ''Live today'' works, Column ''Not yet'' todo]]]"

subsection \<open>The two sides (TwoSides.tsx)\<close>

definition rentBullets :: "string list" where
  "rentBullets =
    [''Pick a model, send a request '' @ em_dash @ '' it runs on someone else's hardware.'',
     ''Pay per request. No subscription, no minimums, no credit card.'',
     ''Your prompt is sealed before it leaves your computer. The host can't read it.'',
     ''Wallet connect, run, done.'']"

definition earnBullets :: "string list" where
  "earnBullets =
    [''Your machine is online anyway. Let it earn while you're not using it.'',
     ''List the models you can run and the price you'll accept.'',
     ''Get paid in stablecoins, automatically, every time someone uses your node.'',
     ''Walk away whenever you want '' @ em_dash @ '' no lock-in, no contract.'']"

definition Side :: "string \<Rightarrow> string \<Rightarrow> string \<Rightarrow> string list \<Rightarrow> string \<times> string \<Rightarrow>
  node" where
  "Side tag title tagline bullets cta =
    El ''motion.div'' [(''initial.opacity'', Val 0), (''initial.y'', Val 32), (''whileInView.opacity'', Val 1), (''whileInView.y'', Val 0),
      (''viewport.once'', Flag True), (''viewport.amount'', Val (3 / 10)), (''transition.duration'', Val (7 / 10)), (''transition.ease'', Vals [16 /
      100, 1, 3 / 10, 1])] 
      [El ''div'' [(''aria-hidden'', Flag True)] [],
       El ''div'' [] 
        [El ''div'' [] [Txt tag],
         El ''h3'' [] [Txt title],
         El ''p'' [] [Txt tagline],
         El ''ul'' [] 
          (map (\<lambda>(i, b). El ''motion.li'' [(''key'', Str b), (''initial.opacity'', Val 0), (''initial.x'', Val (- 8)),
            (''whileInView.opacity'', Val 1), (''whileInView.x'', Val 0), (''viewport.once'', Flag True), (''viewport.amount'', Val (3 / 10)),
            (''transition.duration'', Val (5 / 10)), (''transition.delay'', Val ((real i) * (5 / 100))), (''transition.ease'', Vals [16 / 100, 1, 3 /
            10, 1])] [El ''span'' [] [], El ''span'' [] [Txt b]]) (enumerate 0 bullets)),
         El ''a'' [(''href'', Str (snd cta)), (''target'', Str ''_blank''), (''rel'', Str ''noreferrer'')] [Txt (fst cta), El ''span'' [] [Txt
           rarrow]]]]"

definition TwoSides :: "node \<Rightarrow> node" where
  "TwoSides calculator =
    El ''section'' [(''id'', Str ''earn'')] 
      [El ''div'' [(''aria-hidden'', Flag True)] [],
       El ''div'' [] 
        [Reveal 0 
          [El ''div'' [] [Txt ''// two sides''],
           El ''h2'' [] 
            [Txt ''One marketplace.'',
             El ''br'' [] [],
             El ''span'' [] [Txt ''Both sides of the trade.'']],
           El ''p'' [] 
            [Txt (''Whether you're paying for AI or paying off a graphics card, fldx puts you in the same room as the other half of the deal.'')]],
         El ''div'' [] 
          [Side ''for users'' ''Rent compute.'' ''Pay-per-request access to AI, in crypto.'' rentBullets (''open dashboard'',
            ''https://dashboard.fldx.ai''),
           Side ''for hosts'' ''Earn with your machine.'' ''List your idle hardware. Get paid when it runs.'' earnBullets (''run a node'',
             ''https://github.com/rthomare/flodex#running-a-node'')],
         calculator]]"

subsection \<open>The three steps (HowItWorks.tsx)\<close>

record how_step =
  hw_n :: string
  hw_label :: string
  hw_title :: string
  hw_body :: string

definition steps :: "how_step list" where
  "steps =
    [\<lparr>hw_n = ''01'', hw_label = ''you'', hw_title = ''Sealed before it leaves.'', hw_body =
      ''Your prompt is encrypted on your computer, against the specific node you picked. Once it leaves your machine, only that node can open it. Not the network, not us, not anyone in the middle.''\<rparr>,
     \<lparr>hw_n = ''02'', hw_label = ''marketplace'', hw_title = ''Matched without being read.'', hw_body =
       ''A thin directory points you at a node that fits '' @ em_dash @
       '' model, price, hardware. It only sees the requirements, never the request. We can't read your prompts because we never see them.''\<rparr>,
     \<lparr>hw_n = ''03'', hw_label = ''host'', hw_title = ''Run on someone's hardware.'', hw_body =
       ''The node decrypts inside a sealed boundary, runs the model, and returns the answer the same way it came: encrypted end-to-end. Today that boundary is software; tomorrow it's secure hardware and encrypted math.''\<rparr>]"

definition Step :: "how_step \<Rightarrow> nat \<Rightarrow> node" where
  "Step step index =
    El ''motion.div'' [(''initial.opacity'', Val 0), (''initial.y'', Val 36), (''whileInView.opacity'', Val 1), (''whileInView.y'', Val 0),
      (''viewport.once'', Flag True), (''viewport.amount'', Val (3 / 10)), (''transition.duration'', Val (7 / 10)), (''transition.delay'', Val ((real
      index) * (15 / 100))), (''transition.ease'', Vals [16 / 100, 1, 3 / 10, 1])] 
      [El ''div'' [] [Txt (hw_label step)],
       El ''div'' [] [El ''span'' [] [Txt (hw_n step)], El ''span'' [] []],
       El ''h3'' [] [Txt (hw_title step)],
       El ''p'' [] [Txt (hw_body step)]]"

definition HowItWorks :: "site_env \<Rightarrow> node" where
  "HowItWorks env =
    El ''section'' [(''id'', Str ''how'')] 
      [El ''div'' [(''aria-hidden'', Flag True)] [],
       El ''div'' [] 
        [Reveal 0 
          [El ''div'' [] [Txt ''// how it works''],
           El ''h2'' [] [Txt ''Your prompt only opens on the machine running it.''],
           El ''p'' [] 
            [Txt (''Three steps, one encrypted path. Nobody between you and the node can read what you sent '' @ em_dash @
              '' not the marketplace, not the network, not us.'')]],
         El ''div'' [] 
          [El ''svg'' [(''viewBox'', Str ''0 0 1000 120''), (''preserveAspectRatio'', Str ''none'')] 
            [El ''defs'' [] 
              [El ''linearGradient'' [(''id'', Str ''wire''), (''x1'', Str ''0''), (''x2'', Str ''1''), (''y1'', Str ''0''), (''y2'', Str ''0'')] 
                [El ''stop'' [(''offset'', Str ''0%''), (''stopColor'', Str ''#66ccff'')] [],
                 El ''stop'' [(''offset'', Str ''50%''), (''stopColor'', Str ''#b48cff'')] [],
                 El ''stop'' [(''offset'', Str ''100%''), (''stopColor'', Str ''#66ffaa'')] []]],
             Sh ''motion.line'' (Line 0 60 1000 60) [(''stroke'', Str ''url(#wire)''), (''strokeWidth'', Str ''1.5''), (''style.pathLength'', Val
               (se_num env [10 / 100, 85 / 100] [0, 1] (progress env ''how''))), (''strokeDasharray'', Str ''0 1'')] []],
           El ''div'' [] 
            (map (\<lambda>(i, s). Step s i) (enumerate 0 steps))],
         El ''div'' [] 
          (map (\<lambda>(i, s). Step s i) (enumerate 0 steps))]]"

subsection \<open>The tiers (Tiers.tsx)\<close>

datatype tier_status = Live | LiveResearch | Research | Planned

record tier =
  ti_name :: string
  ti_status :: tier_status
  ti_tagline :: string
  ti_body :: string
  ti_privacy :: nat
  ti_cost :: string

definition tiers :: "tier list" where
  "tiers =
    [\<lparr>ti_name = ''frontier model'', ti_status = Live, ti_tagline = ''Top-tier AI, encrypted in transit.'', ti_body =
      ''A best-in-class hosted model behind the encrypted protocol. Same answers you'd get from a big provider, but the request is sealed end-to-end and you pay per use. No accounts. No retention.'', ti_privacy = 2, ti_cost = ''$$$''\<rparr>,
     \<lparr>ti_name = ''local model'', ti_status = Live, ti_tagline = ''Open models on someone's home rig.'', ti_body =
       ''Pick from open-source models running on a host's actual hardware. The host's machine is sandboxed: while it runs your model, it can't reach the internet at all. Cheap, private, and the host literally cannot leak your data.'', ti_privacy = 3, ti_cost = ''$''\<rparr>,
     \<lparr>ti_name = ''encrypted math'', ti_status = Research, ti_tagline = ''Even the host can't read it.'', ti_body =
       ''Run computations directly on encrypted data. The host's machine never sees your prompt in plaintext '' @ em_dash @
       '' not in memory, not anywhere. Early research today; the strongest privacy guarantee on the roadmap.'', ti_privacy = 4, ti_cost =
       ''$$$$''\<rparr>,
     \<lparr>ti_name = ''secure enclave'', ti_status = Planned, ti_tagline = ''Hardware-proven privacy.'', ti_body =
       ''Specialized chips (the same ones Apple and AWS use) run the model inside a locked vault and prove cryptographically what's running before you trust it. Same experience, with hardware-backed receipts.'', ti_privacy = 4, ti_cost = ''$$$''\<rparr>]"

fun statusLabel_tier :: "tier_status \<Rightarrow> string" where
  "statusLabel_tier Live = ''live''"
| "statusLabel_tier LiveResearch = ''live '' @ middle_dot @ '' research''"
| "statusLabel_tier Research = ''research''"
| "statusLabel_tier Planned = ''planned''"

text \<open>A bar is lit (\<open>bg-accent\<close>) when its index is below the level.\<close>

definition PrivacyBar :: "(real \<Rightarrow> string) \<Rightarrow> nat \<Rightarrow> node" where
  "PrivacyBar str level =
    El ''div'' []
      [El ''div'' [] [El ''span'' [] [Txt ''privacy''], El ''span'' [] [Txt (str (real level)), Txt ''/4'']],
       El ''div'' [] (map (\<lambda>i. El ''div'' [(''key'', Val (real i)), (''lit'', Flag (i < level))] []) [0..<4])]"

definition TierCard :: "(real \<Rightarrow> string) \<Rightarrow> tier \<Rightarrow> node" where
  "TierCard str tier =
    El ''motion.div'' [(''whileHover.y'', Val (- 4)), (''transition.duration'', Val (4 / 10)), (''transition.ease'', Vals [16 / 100, 1, 3 / 10, 1])] 
      [El ''div'' [] 
        [El ''span'' [] [Txt (statusLabel_tier (ti_status tier))],
         El ''span'' [] [Txt (ti_cost tier)]],
       El ''h3'' [] [Txt (ti_name tier)],
       El ''p'' [] [Txt (ti_tagline tier)],
       El ''p'' [] [Txt (ti_body tier)],
       PrivacyBar str (ti_privacy tier)]"

definition Tiers :: "site_env \<Rightarrow> node" where
  "Tiers env =
    El ''section'' [(''aria-label'', Str ''Trust tiers'')] 
      [El ''div'' [] 
        [El ''div'' [] 
          [Reveal 0 
            [El ''div'' [] [Txt ''// trust tiers''],
             El ''div'' [] 
              [El ''h2'' [] [Txt ''Privacy is a dial,'', El ''br'' [] [], Txt ''not a switch.''],
               El ''p'' [] [Txt (darrow @ '' scroll to traverse'')]]]],
         El ''div'' [] 
          [El ''motion.div'' [(''style.x'', Str (se_text env [0, 1] [''0%'', ''-75%''] (progress env ''tiers'')))] 
            (map (\<lambda>t. TierCard (se_str env) t) tiers)]]]"

definition TiersMobile :: "site_env \<Rightarrow> node" where
  "TiersMobile env =
    El ''section'' [] 
      [Reveal 0 
        [El ''div'' [] [Txt ''// trust tiers''],
         El ''h2'' [] [Txt ''Privacy is a dial, not a switch.'']],
       El ''div'' [] 
        (map (\<lambda>t. TierCard (se_str env) t) tiers)]"

subsection \<open>The chain (OnChain.tsx)\<close>

record number_card =
  nc_n :: string
  nc_unit :: string
  nc_body :: string

definition number_cards :: "number_card list" where
  "number_cards =
    [\<lparr>nc_n = ''100'', nc_unit = ''stablecoin deposit'', nc_body =
      ''Hosts put down a refundable stablecoin deposit before listing. Misbehave and they lose it. Skin in the game, not promises.''\<rparr>,
     \<lparr>nc_n = ''1,000:1'', nc_unit = ''requests per settlement'', nc_body =
       ''You and the host sign tiny receipts off-chain as you go. One on-chain transaction settles thousands of requests. Gas stays out of your way.''\<rparr>,
     \<lparr>nc_n = ''no custody'', nc_unit = ''ever'', nc_body =
       ''Money moves directly between your wallet and the host's. We never hold your funds '' @ em_dash @
       '' there's nothing for us to lose, freeze, or reverse.''\<rparr>]"

definition Row_onchain :: "string \<Rightarrow> string \<Rightarrow> string option \<Rightarrow> node" where
  "Row_onchain label val href_opt =
    El ''div'' [] 
      [El ''span'' [] [Txt label],
       (case href_opt of None \<Rightarrow> El ''span'' [] [Txt val] | Some href \<Rightarrow> El ''a'' [(''href'', Str href), (''target'', Str
         ''_blank''), (''rel'', Str ''noreferrer'')] [Txt val, Txt ('' '' @ uparrow)])]"

definition OnChain :: "node" where
  "OnChain =
    El ''section'' [] 
      [El ''div'' [] 
        [Reveal 0 
          [El ''div'' [] [Txt ''// on-chain layer''],
           El ''div'' [] 
            [El ''h2'' [] [Txt ''Pay-per-use,'', El ''br'' [] [], El ''span'' [] [Txt ''without the gas tax.'']],
             El ''div'' [] 
              [El ''p'' [] 
                [Txt (''Connect your wallet, deposit once into a private channel with a host, and pay per request from there. Each request is a tiny signed receipt '' @ em_dash @ '' instant, gasless, and only between the two of you.'')],
               El ''p'' [] 
                [Txt ''Done? Close the channel and the final balance settles on-chain in one transaction. Hosts get paid, you get the rest back. No subscriptions, no middleman, nothing held.'']]]],
         El ''div'' [] 
          (map (\<lambda>(i, item). El ''motion.div'' [(''key'', Str (nc_unit item)), (''initial.opacity'', Val 0), (''initial.y'', Val 32),
            (''whileInView.opacity'', Val 1), (''whileInView.y'', Val 0), (''viewport.once'', Flag True), (''viewport.amount'', Val (3 / 10)),
            (''transition.duration'', Val (7 / 10)), (''transition.delay'', Val ((real i) * (12 / 100))), (''transition.ease'', Vals [16 / 100, 1, 3
            / 10, 1])] 
              [El ''div'' [(''aria-hidden'', Flag True)] [],
               El ''div'' [] 
                [El ''div'' [] [Txt (nc_n item)],
                 El ''div'' [] [Txt (nc_unit item)],
                 El ''p'' [] [Txt (nc_body item)]]]) (enumerate 0 number_cards)),
         Reveal (1 / 10) 
          [El ''div'' [] 
            [El ''div'' [] [El ''span'' [] [], Txt (''base sepolia '' @ middle_dot @ '' live'')],
             El ''div'' [] 
              [Row_onchain ''NodeRegistry'' (''0xf52b8f75'' @ ellipsis @ ''7A51C'') (Some
                ''https://sepolia.basescan.org/address/0xf52b8f75eed06E61801D5251022FD052aa97A51C''),
               Row_onchain ''Stake token'' ''USDC (Circle)'' (Some
                 ''https://sepolia.basescan.org/address/0x036CbD53842c5426634e7929541eC2318f3dCF7e''),
               Row_onchain ''Min stake'' ''100 USDC'' None,
               Row_onchain ''Channel close'' ''1h challenge / 24h reclaim'' None]]]]]"

subsection \<open>The footer (Footer.tsx)\<close>

definition Footer :: "node" where
  "Footer =
    El ''footer'' [] 
      [El ''div'' [(''aria-hidden'', Flag True)] [],
       El ''motion.div'' [(''aria-hidden'', Flag True), (''style.background'', Str
         ''radial-gradient(circle, rgba(102,204,255,0.10), transparent 60%)''), (''animate.scale'', Vals [1, 108 / 100, 1]),
         (''transition.duration'', Val 12), (''transition.repeat'', Str ''Infinity''), (''transition.ease'', Str ''easeInOut'')] [],
       El ''div'' [] 
        [Reveal 0 
          [El ''h2'' [] [El ''span'' [] [Txt ''Run a node.''], El ''br'' [] [], Txt ''Earn for inference.''],
           El ''p'' [] 
            [Txt ''Operators set their own price, stake USDC, and get paid in channelized USDC per round trip. Two laptops, fifteen minutes, live on Sepolia.''],
           El ''div'' [] 
            [El ''a'' [(''href'', Str ''https://github.com/rthomare/flodex#onboarding''), (''target'', Str ''_blank''), (''rel'', Str
              ''noreferrer'')] [Txt ''run a node'', El ''span'' [] [Txt rarrow]],
             El ''a'' [(''href'', Str ''https://dashboard.fldx.ai''), (''target'', Str ''_blank''), (''rel'', Str ''noreferrer'')] [Txt
               ''open dashboard''],
             El ''a'' [(''href'', Str ''https://github.com/rthomare/flodex''), (''target'', Str ''_blank''), (''rel'', Str ''noreferrer'')] [Txt
               ''source on github'']]],
         El ''div'' [] 
          [El ''div'' [] [El ''span'' [] [], Txt (''fldx '' @ middle_dot @ '' pre-alpha v0'')],
           El ''div'' [] 
            [El ''a'' [(''href'', Str ''https://github.com/rthomare/flodex''), (''target'', Str ''_blank''), (''rel'', Str ''noreferrer'')] [Txt
              ''github''],
             El ''a'' [(''href'', Str ''https://dashboard.fldx.ai''), (''target'', Str ''_blank''), (''rel'', Str ''noreferrer'')] [Txt
               ''dashboard''],
             El ''a'' [(''href'', Str ''https://coordinator.fldx.ai/nodes''), (''target'', Str ''_blank''), (''rel'', Str ''noreferrer'')] [Txt
               ''coordinator'']]]]]"

subsection \<open>The page (app/page.tsx, app/layout.tsx)\<close>

definition Page :: "site_env \<Rightarrow> calculator \<Rightarrow> node" where
  "Page env c =
    El ''main'' []
      [Nav env, Hero env, Problem, TwoSides (SavingsCalculator (se_str env) c), FlowGraph (se_str env), HowItWorks env,
       Tiers env, TiersMobile env, OnChain, Status, Footer]"

record site_metadata =
  md_title :: string
  md_description :: string
  md_metadataBase :: string
  og_title :: string
  og_description :: string
  og_url :: string
  og_siteName :: string
  og_type :: string
  tw_card :: string
  tw_title :: string
  tw_description :: string

definition metadata :: site_metadata where
  "metadata =
    \<lparr>md_title = ''fldx '' @ em_dash @ '' encrypted, decentralized LLM execution'',
     md_description = ''End-to-end encrypted requests. Pluggable trust tiers. On-chain settlement on Base. fldx is a decentralized LLM execution network where the operator never sees your data.'',
     md_metadataBase = ''https://fldx.ai'',
     og_title = ''fldx '' @ em_dash @ '' encrypted, decentralized LLM execution'',
     og_description = ''End-to-end encrypted requests. Pluggable trust tiers. On-chain settlement on Base.'',
     og_url = ''https://fldx.ai'', og_siteName = ''fldx'', og_type = ''website'',
     tw_card = ''summary_large_image'',
     tw_title = ''fldx '' @ em_dash @ '' encrypted, decentralized LLM execution'',
     tw_description = ''End-to-end encrypted requests. Pluggable trust tiers. On-chain settlement on Base.''\<rparr>"

definition RootLayout :: "node list \<Rightarrow> node" where
  "RootLayout children = El ''html'' [(''lang'', Str ''en'')] [El ''body'' [] children]"

subsection \<open>What the components hold\<close>

lemma parts_ids [simp]:
  "ids Logo = []" "ids (Nav env) = []" "ids (Hero env) = [''top'']" "ids Problem = []" "ids (Column title items) = []" "ids Status = []"
  "ids (Side tag title tagline bullets cta) = []" "ids (TwoSides k) = ''earn'' # ids k" "ids (Step s i) = []"
  "ids (HowItWorks env) = [''how'', ''wire'']" "ids (PrivacyBar str lv) = []" "ids (TierCard str t) = []" "ids (Tiers env) = []"
  "ids (TiersMobile env) = []" "ids (Row_onchain l v h) = []" "ids OnChain = []" "ids Footer = []"
  by (auto simp: Logo_def Nav_def Hero_def Problem_def Column_def Status_def Side_def TwoSides_def Step_def HowItWorks_def PrivacyBar_def
      TierCard_def Tiers_def TiersMobile_def Row_onchain_def OnChain_def Footer_def str_attr_def comp_def split: option.splits)

lemma parts_refs [simp]:
  "refs Logo = []" "refs (Nav env) = []" "refs (Hero env) = []" "refs Problem = []" "refs (Column title items) = []" "refs Status = []"
  "refs (Side tag title tagline bullets cta) = []" "refs (TwoSides k) = refs k" "refs (Step s i) = []"
  "refs (HowItWorks env) = [''wire'']" "refs (PrivacyBar str lv) = []" "refs (TierCard str t) = []" "refs (Tiers env) = []"
  "refs (TiersMobile env) = []" "refs (Row_onchain l v h) = []" "refs OnChain = []" "refs Footer = []"
  by (auto simp: Logo_def Nav_def Hero_def Problem_def Column_def Status_def Side_def TwoSides_def Step_def HowItWorks_def PrivacyBar_def
      TierCard_def Tiers_def TiersMobile_def Row_onchain_def OnChain_def Footer_def paint_refs_def comp_def split: option.splits)

lemma calculator_read [simp]:
  "ids (SavingsCalculator str c) = [''savingsBand'', ''tradLine'']" "set (refs (SavingsCalculator str c)) = {''savingsBand'', ''tradLine''}"
  "anchors (SavingsCalculator str c) = []"
  by (auto simp: SavingsCalculator_def Slider_def Row_calc_def Graph_calc_def EndDot_def SliderStyles_def str_attr_def paint_refs_def
      comp_def Let_def)

lemma flow_anchors [simp]: "anchors (FlowGraph str) = []"
  by (auto simp: FlowGraph_def Diagram_def Defs_def FlowingWire_def TravelingDotView_def PCIllustration_def RackBlade_def RackServerSVG_def
      TowerServerSVG_def GamingPCSVG_def MacMiniSVG_def ServerStation_def FadeLine_def FadeInline_def TypingView_def CursorView_def
      TerminalPanel_def ChainPanel_def MACHINES_def Let_def comp_def)

text \<open>A link that leaves the site: an absolute https address, opened in a tab of its own that learns
  nothing of this page.\<close>

definition leaves_safely :: "attributes \<Rightarrow> bool" where
  "leaves_safely as \<longleftrightarrow> (case str_attr ''href'' as of None \<Rightarrow> False | Some h \<Rightarrow> take 8 h = ''https://'') \<and>
     str_attr ''target'' as = Some ''_blank'' \<and> str_attr ''rel'' as = Some ''noreferrer''"

text \<open>A link inside the page leads to an element with that id.\<close>

definition leads_within :: "string list \<Rightarrow> attributes \<Rightarrow> bool" where
  "leads_within names as \<longleftrightarrow> (case str_attr ''href'' as of None \<Rightarrow> False | Some h \<Rightarrow> take 1 h = ''#'' \<and> drop 1 h \<in> set names)"

definition link_ok :: "string list \<Rightarrow> attributes \<Rightarrow> bool" where
  "link_ok names as \<longleftrightarrow> leaves_safely as \<or> leads_within names as"

lemmas link_defs = link_ok_def leaves_safely_def leads_within_def str_attr_def

lemma parts_links [simp]:
  "list_all (link_ok names) (anchors Problem)" "list_all (link_ok names) (anchors Status)" "list_all (link_ok names) (anchors (HowItWorks env))"
  "list_all (link_ok names) (anchors (Tiers env))" "list_all (link_ok names) (anchors (TiersMobile env))"
  "list_all (link_ok names) (anchors OnChain)" "list_all (link_ok names) (anchors Footer)"
  "list_all (link_ok names) (anchors (TwoSides k)) \<longleftrightarrow> list_all (link_ok names) (anchors k)"
  "list_all (link_ok names) (anchors (Nav env)) \<longleftrightarrow> ''top'' \<in> set names"
  "list_all (link_ok names) (anchors (Hero env)) \<longleftrightarrow> ''earn'' \<in> set names"
  by (auto simp: Logo_def Nav_def Hero_def Problem_def Column_def Status_def Side_def TwoSides_def Step_def HowItWorks_def PrivacyBar_def
      TierCard_def Tiers_def TiersMobile_def Row_onchain_def OnChain_def Footer_def link_defs comp_def list_all_iff)

subsection \<open>Properties\<close>


text \<open>The text a component shows, piece by piece.\<close>

fun texts :: "node \<Rightarrow> string list" where
  "texts (Txt t) = [t]"
| "texts (El tag as ks) = concat (map texts ks)"
| "texts (Sh tag g as ks) = concat (map texts ks)"

lemma texts_Reveal [simp]: "texts (Reveal d ks) = concat (map texts ks)"
  by (simp add: Reveal_def)

text \<open>What the page tells of the chain is what the program uses: its two links lead to the
  registry and to the stake token of the chain the dashboard is configured for, on that chain's
  explorer; the address shown is the beginning and the end of the registry's; the minimum stake
  shown is what a node stakes when nothing else is configured (USDC has six decimals).\<close>

theorem onchain_section_true:
  "\<exists>cfg reg. getChain FLDX_CHAIN_ID = Inr cfg \<and> registry_at (cc_addresses cfg) = Some reg \<and>
     map (str_attr ''href'') (anchors OnChain) =
       [Some (cc_blockExplorer cfg @ ''/address/'' @ reg), Some (cc_blockExplorer cfg @ ''/address/'' @ usdc_at (cc_addresses cfg))] \<and>
     {take 10 reg @ ellipsis @ drop 37 reg, nat_str (unat (read_stake None) div 10 ^ 6) @ '' USDC''} \<subseteq> set (texts OnChain)"
proof -
  have "\<exists>cfg. getChain FLDX_CHAIN_ID = Inr cfg \<and> cc_blockExplorer cfg = ''https://sepolia.basescan.org'' \<and>
      registry_at (cc_addresses cfg) = Some ''0xf52b8f75eed06E61801D5251022FD052aa97A51C'' \<and>
      usdc_at (cc_addresses cfg) = ''0x036CbD53842c5426634e7929541eC2318f3dCF7e''"
    by (simp add: getChain_def FLDX_CHAIN_ID_def baseSepolia_id_def chains_def jmap_get_def)
  then obtain cfg where cfg: "getChain FLDX_CHAIN_ID = Inr cfg" "cc_blockExplorer cfg = ''https://sepolia.basescan.org''"
    "registry_at (cc_addresses cfg) = Some ''0xf52b8f75eed06E61801D5251022FD052aa97A51C''"
    "usdc_at (cc_addresses cfg) = ''0x036CbD53842c5426634e7929541eC2318f3dCF7e''" by auto
  have stake: "nat_str (unat (read_stake None) div 10 ^ 6) @ '' USDC'' = ''100 USDC''"
    by (simp add: read_stake_def) code_simp
  have links: "map (str_attr ''href'') (anchors OnChain) =
      [Some ''https://sepolia.basescan.org/address/0xf52b8f75eed06E61801D5251022FD052aa97A51C'',
       Some ''https://sepolia.basescan.org/address/0x036CbD53842c5426634e7929541eC2318f3dCF7e'']"
    by (simp add: OnChain_def Row_onchain_def number_cards_def str_attr_def)
  have "{''0xf52b8f75'' @ ellipsis @ ''7A51C'', ''100 USDC''} \<subseteq> set (texts OnChain)"
    by (simp add: OnChain_def Row_onchain_def)
  with cfg links stake show ?thesis by (intro exI [of _ cfg]) simp
qed

text \<open>An element without an initial value is at rest.\<close>

definition starts_hidden :: "attributes \<Rightarrow> bool" where
  "starts_hidden as \<longleftrightarrow> list_ex (\<lambda>(k, v). take 7 k = ''initial'') as"

lemma at_rest: "\<not> starts_hidden as \<Longrightarrow> settles p v as"
proof -
  assume "\<not> starts_hidden as"
  then have no: "map_of as (''initial'' @ q) = None" for q
    by (force simp: starts_hidden_def list_ex_iff map_of_eq_None_iff)
  then have "map_of as ''initial'' = None" using no [of "[]"] by simp
  with no show ?thesis by (simp add: settles_def prop_of_def str_attr_def val_attr_def)
qed

fun calm :: "node \<Rightarrow> bool" where
  "calm (Txt t) \<longleftrightarrow> True"
| "calm (El tag as ks) \<longleftrightarrow> \<not> starts_hidden as \<and> list_all calm ks"
| "calm (Sh tag g as ks) \<longleftrightarrow> \<not> starts_hidden as \<and> list_all calm ks"

lemma calm_revealed: "calm n \<Longrightarrow> revealed n"
  by (induction n) (auto simp: at_rest list_all_iff)

lemma calm_parts:
  "calm (Graph_calc str s)" "calm (Slider str label v lo hi stp d ticks)" "calm (Row_calc label val dot)" "calm SliderStyles"
  "calm Logo" "calm (Nav env)" "calm (TierCard str t)"
  by (auto simp: Graph_calc_def EndDot_def Slider_def Row_calc_def SliderStyles_def Logo_def Nav_def TierCard_def PrivacyBar_def
      list_all_iff starts_hidden_def)

lemmas calm_simps [simp] = calm_parts [THEN calm_revealed]

fun phase_val :: "string \<Rightarrow> attributes \<Rightarrow> attr_val option" where
  "phase_val k [] = None"
| "phase_val k ((k', v) # as) = (if k' = k then Some v else phase_val k as)"

lemma phase_val: "phase_val k as = map_of as k" by (induction as) auto

lemma settles_plain:
  "phase_val ''initial'' as = None \<Longrightarrow> phase_val ''animate'' as = None \<Longrightarrow> phase_val ''whileInView'' as = None \<Longrightarrow>
   settles p v as \<longleftrightarrow> (case phase_val (''initial.'' @ p) as of Some (Val u) \<Rightarrow>
     (case phase_val (''animate.'' @ p) as of Some (Val w) \<Rightarrow> w = v | _ \<Rightarrow> phase_val (''whileInView.'' @ p) as = Some (Val v)) | _ \<Rightarrow> True)"
  by (auto simp: settles_def prop_of_def rests_at_def val_attr_def str_attr_def phase_val split: option.splits attr_val.splits)

lemma settles_Nil [simp]: "settles p v []"
  by (simp add: settles_def prop_of_def val_attr_def str_attr_def)

text \<open>Everything outside the animated diagram that starts hidden or displaced comes to rest fully
  visible and in place.\<close>

theorem page_comes_to_rest:
  "list_all revealed [Nav env, Hero env, Problem, TwoSides (SavingsCalculator str c), HowItWorks env, Tiers env, TiersMobile env,
     OnChain, Status, Footer]"
proof -
  have calc: "revealed (SavingsCalculator str c)" by (simp add: SavingsCalculator_def Let_def settles_plain list_all_iff)
  have hero: "revealed (Hero env)" by (simp add: Hero_def settles_plain list_all_iff)
  have cards: "revealed Problem" "revealed Status" by (auto simp: Problem_def Status_def Column_def settles_plain list_all_iff)
  have chain: "revealed OnChain" by (auto simp: OnChain_def Row_onchain_def settles_plain list_all_iff)
  have sides: "revealed (TwoSides (SavingsCalculator str c))" using calc by (auto simp: TwoSides_def Side_def settles_plain list_all_iff)
  have steps: "revealed (HowItWorks env)" "revealed Footer" by (auto simp: HowItWorks_def Step_def Footer_def settles_plain list_all_iff)
  have "revealed (Tiers env)" "revealed (TiersMobile env)" by (auto simp: Tiers_def TiersMobile_def settles_plain list_all_iff)
  with hero cards chain sides steps show ?thesis by simp
qed

text \<open>The privacy bar of a card lights as many of its four segments as the level it writes.\<close>

lemma privacy_bar_lit:
  "t \<in> set tiers \<Longrightarrow> length (filter (\<lambda>i. i < ti_privacy t) [0..<4]) = ti_privacy t"
  by (auto simp: tiers_def upt_rec)

end
