(* ===== verification/Spec2Isabelle.thy ===== *)
theory Spec2Isabelle
  imports Registry JobChannel Chains Wire Transport AgentLoop Sessions Liveness ChannelHook Graph Panels Cli
    RustProtocol NodeChannel Coordinator NodeAgent NodeActivity AutoRegister Proxy NodeLoops DashboardPage Marketing Site
begin

text \<open>
  Verification library of fldx: people run AI nodes, register them on chain, and are paid per
  request through unidirectional payment channels; a browser dashboard (or a command line
  client) finds a node through the coordinator, talks to it in encrypted envelopes and
  co-signs its receipts.

  \<^bold>\<open>The program and its theories.\<close> A request starts in the dashboard's form (\<open>Panels\<close>) or on the
  command line (\<open>Cli\<close>), becomes a local session (\<open>Sessions\<close>), asks the coordinator
  (\<open>Coordinator\<close>) for a node, and runs the agent loop (\<open>AgentLoop\<close>), whose every round sends one
  encrypted step over the transport (\<open>Transport\<close>) to the node. When a channel is open the node
  checks its deposit, runs the step, charges its ledger and answers with a signed receipt
  (\<open>NodeChannel\<close>); the hook \<open>useChannel\<close> (\<open>ChannelHook\<close>) co-signs it with the wallet, the
  acknowledgement rides on the next request, the node verifies and keeps it, and the last
  doubly signed state is what the contract (\<open>JobChannel\<close>) pays on. Which nodes exist is the
  registry's (\<open>Registry\<close>) and the coordinator's business; the dashboard polls the nodes
  (\<open>Liveness\<close>) and draws them with their requests (\<open>Graph\<close>). Inside the node the step is run by its
  agent (\<open>NodeAgent\<close>) over a provider of the model (\<open>Providers\<close>); other agents reach a node through
  the proxy (\<open>Proxy\<close>). A node that starts loads its identity (\<open>Identity\<close>), registers on chain
  (\<open>AutoRegister\<close>) and keeps itself on the coordinator's books (\<open>NodeLoops\<close>).

    \<^item> \<open>Prelude\<close>: JavaScript numbers, strings, rounding and insertion-ordered maps; results that
      carry an error; the locales \<open>js_map\<close> (insertion-ordered map) and \<open>inv_system\<close>
      (transition system with an invariant).
    \<^item> \<open>Protocol\<close>, \<open>Wire\<close>: the wire types of \<open>packages/protocol/src/generated\<close> as records and
      datatypes, and what \<open>JSON.stringify\<close> and a reader make of them.
    \<^item> \<open>Eth\<close>: \<open>apps/dashboard/src/lib/eth.ts\<close>, hex, big-endian integers, the channel id and the
      192 bytes signed for a channel update. \<open>Evm\<close>: what both contracts share (words, ABI
      slots, checked addition, the log of token calls).
    \<^item> \<open>Registry\<close>, \<open>JobChannel\<close>: the two contracts of \<open>contracts/src\<close>, one definition per external
      function, a step relation each, and their invariants by rule induction.
    \<^item> \<open>Chains\<close>: \<open>packages/chains\<close> and the dashboard's \<open>chain.ts\<close>, \<open>wagmi.ts\<close>, \<open>abis.ts\<close>.
    \<^item> \<open>Transport\<close>: \<open>packages/fldx-client/src/transport.ts\<close> and the node's side of the envelope
      (\<open>crates/crypto/src/lib.rs\<close>, the envelope of \<open>/execute\<close> in \<open>apps/node/src/main.rs\<close>).
    \<^item> \<open>AgentLoop\<close>: \<open>packages/fldx-client/src/loop.ts\<close>, one round as a function, the loop on fuel.
      \<open>Cli\<close>: \<open>apps/client/src/index.ts\<close>, its options, its tool and what it prints.
    \<^item> \<open>Sessions\<close>: \<open>lib/events.ts\<close> and the state of \<open>components/Dashboard.tsx\<close>.
    \<^item> \<open>Liveness\<close>: the polling hooks \<open>useNodeActivity\<close>, \<open>useNodes\<close>, \<open>useOnChainStatus\<close>, and the theme.
    \<^item> \<open>ChannelHook\<close>: \<open>hooks/useChannel.ts\<close> over the locale \<open>channel_chain\<close>, which \<open>JobChannel\<close>
      interprets.
    \<^item> \<open>Graph\<close>: \<open>components/NodeGraph.tsx\<close>, the shared node objects, the reconciliation of polls,
      mouse and wheel handlers and the canvas calls of a frame.
    \<^item> \<open>Parsing\<close>, \<open>Panels\<close>: \<open>parseFloat\<close>, \<open>parseInt\<close>, and the dashboard's panels. \<open>DashboardPage\<close>: the
      page of \<open>components/Dashboard.tsx\<close> as one state, what a render shows and what every handler
      does.
    \<^item> \<open>RustProtocol\<close>: the Rust side of the shared formats: the canonical bytes of a channel update
      (\<open>crates/protocol/src/lib.rs\<close>), EIP-191 signatures (\<open>crates/crypto/src/lib.rs\<close>), the chain
      table and the deposit query of the node (\<open>chains.rs\<close>, \<open>eth/abi.rs\<close>).
    \<^item> \<open>NodeChannel\<close>: the channel accounting of \<open>apps/node/src/main.rs\<close>: the ledger, the solvency
      check (cut at its \<open>await\<close> into read, fetch, store and decide, so that requests interleave),
      receipts, acknowledgements, \<open>/execute\<close> and \<open>/ack\<close>, as a step relation.
    \<^item> \<open>Coordinator\<close>: \<open>apps/coordinator/src/main.rs\<close>: registration, heartbeats, the bid book, garbage
      collection and matching, with the messages the node signs for it.
    \<^item> \<open>NodeAgent\<close>: \<open>crates/agent\<close> and \<open>crates/execution\<close>: the node's own agent loop with its tools,
      client tools and sessions. \<open>Providers\<close>: \<open>crates/agent/src/anthropic.rs\<close> and
      \<open>crates/local_llm/src/openai.rs\<close>, with the translation of a conversation to the other format.
    \<^item> \<open>NodeActivity\<close>: the activity log of the node with the guard that closes a record on every exit.
    \<^item> \<open>Rlp\<close>, \<open>EthTx\<close>, \<open>AutoRegister\<close>: \<open>apps/node/src/eth\<close>: RLP, EIP-1559 transactions, calldata,
      JSON-RPC and the registration flow, with the contract's reading of the calldata.
    \<^item> \<open>Identity\<close>: \<open>apps/node/src/identity.rs\<close> over a disk whose operations may fail. \<open>NodeLoops\<close>: \<open>main\<close>
      and \<open>init_backends\<close> as functions of the environment, and \<open>registration_loop\<close> and \<open>bid_loop\<close> turn
      by turn against the coordinator, on a clock, with requests and answers that get lost.
    \<^item> \<open>Proxy\<close>: \<open>apps/proxy/src/main.rs\<close> with the node's \<open>/proxy/complete\<close>.
    \<^item> \<open>Markup\<close>, \<open>Marketing\<close>, \<open>FlowDrawing\<close>, \<open>Calculator\<close>, \<open>Site\<close>: the public site
      (\<open>apps/marketing/src\<close>): rendered trees, what the calculator and the animated diagram compute and
      draw, and every section of the page.

  \<^bold>\<open>What the lemmas show.\<close>
    \<^item> Money: in every reachable state of \<open>JobChannel\<close> the tokens held cover the deposits, only states
      both parties signed are settled, status and nonce only go forward; the registry's stakes are
      backed. The node's ledger counts exactly the receipts it issued; a receipt of the node,
      co-signed in the dashboard, is one the node accepts and the contract pays.
    \<^item> Agreement of the three languages: node, dashboard and contract hash and sign the same bytes,
      derive the same channel id and list the same chains.
    \<^item> Messages: JSON round trips, the encrypted envelope end to end, the trace of the agent loop and
      how it ends; matching returns the cheapest node; stored messages are signed.
    \<^item> The dashboard: sessions, merging with the nodes' reports, liveness, the graph's reconciliation
      and mouse handling, panels, and that all of a page's panels speak of the same node and session.
    \<^item> The node: its transcript and the client's stay equal over a step, a translated conversation
      keeps the discipline of calls and results, the tokens charged are those of all calls, a report
      is kept for exactly thirty seconds, the registration transaction is read by the contract as
      meant and the flow ends, every start finds the identity of the first, a node comes back on the
      coordinator's list and stays, and its bids outlive a lost round. Through the proxy a caller
      gets what the provider answered.
    \<^item> The public site: every link of the page leads to a section of it, the calculator always draws.
    \<^item> What the code does not prevent is stated too: a second opening that reports success, replayed
      registrations, an old bid that comes back, a stale or a stranger's acknowledgement, a deposit
      that is read once, a tool that discloses any file, calls of both kinds in one answer that
      leave a session unusable, one legacy identity shared by every node of a machine.

  \<^bold>\<open>Interfaces.\<close> \<open>inv_system\<close> is interpreted on both contracts, the agent loop, the polls, the graph, the
  page, the node's ledger and activity log, the coordinator and the proxy's backend switch; \<open>js_map\<close> on
  the association lists that stand for JavaScript maps; \<open>channel_chain\<close>, what the hook expects of a
  chain, on the model of the contract; \<open>lease_keeper\<close>, what a loop that renews a lease and the side
  that grants it owe each other, on the registration loop and on the bid loop.

  \<^bold>\<open>Bounds and fuel.\<close> The agent loops take one unit of fuel per round; \<open>loop_terminates\<close> gives the
  fuel that is enough when the node's tool calls run out, and \<open>loop_unbounded\<close> shows that nothing
  else bounds it. The wait for a transaction's receipt returns within sixty-one polls (\<open>wait_returns\<close>);
  the RLP reader gets twice the length of its input, which is enough for whatever the writer wrote
  (\<open>item_read_back\<close>). The loops of
  the node do not end: they are steps, their timing bounds (five seconds, half a minute, one lost
  round) are the largest the code's constants allow. Integers are words where the source has words
  (\<open>u32\<close>, \<open>u64\<close>, \<open>u128\<close>, \<open>uint256\<close>), with the saturating and checked operations of Rust and the
  reverting ones of Solidity written out; JavaScript numbers are rationals with NaN and the
  infinities (reals in the site's theories), so floating point rounding is not modelled.

  \<^bold>\<open>Parameters.\<close> Cryptography (keccak, SHA-256, ECDSA, X25519, HKDF, AES-GCM), hex, base64 and JSON
  text, the ERC-20 token, viem, wagmi, RainbowKit, d3's forces, framer-motion, the file system, the
  node's backends and time are arguments, with the documented laws the proofs need as hypotheses;
  every property with a hypothesis has a witness with concrete instances.

  \<^bold>\<open>Not modelled.\<close> Class names and style sheets; logging; the wiring of React, axum and commander, whose
  handlers and effects are the definitions here; the process of the local model (download,
  subprocess and sandbox, \<open>crates/local_llm/src/model.rs\<close> but for its parser, \<open>server.rs\<close>): all of it is
  the operating system's; the configuration of Next and tailwind, re-exports and the provider
  wrapper of the dashboard, which have no behaviour of their own.
\<close>

end
